(* ===== verification/Prelude.thy ===== *)
theory Prelude
  imports Complex_Main "HOL-Library.AList" "HOL-Library.Log_Nat"
begin

text \<open>
  What every component shares: Python values as they arrive from JSON, Python exceptions,
  dictionaries as association lists in insertion order, the \<^verbatim>\<open>str\<close> operations the code
  uses, IEEE double rounding of decimal literals, and the collections of simplification
  rules the components fill.
\<close>

section \<open>Rule collections\<close>

text \<open>
  \<open>frame\<close> collects the equations that say which tables an operation leaves alone;
  \<open>step_eqs\<close> collects the case equations of the operations, used in place of their
  definitions.
\<close>

named_theorems frame
named_theorems step_eqs

section \<open>Python values, errors and results\<close>

text \<open>
  A value that came out of \<^verbatim>\<open>json.loads\<close>: an LLM's tool call, the parameters of an action.
  Floats are the rationals they denote (no infinities and no NaN).
\<close>

datatype pyval =
    PNone
  | PBool bool
  | PInt int
  | PFloat rat
  | PStr string
  | PList "pyval list"
  | PDict "(string \<times> pyval) list"

type_synonym pydict = "(string \<times> pyval) list"

text \<open>
  The exceptions the modelled code raises or lets through. \<open>Out_Of_Fuel\<close> is not a Python
  exception: it is the value of a polling loop that has not finished within the fuel the
  model gave it, and each such loop has a lemma that says how much is enough.
\<close>

datatype py_error =
    ValueError
  | TypeError
  | KeyError string
  | IndexError
  | AttributeError
  | RuntimeError
  | HTTPError
  | IntegrityError
  | ApiException
  | TimeoutExpired
  | SystemExit int
  | Out_Of_Fuel

type_synonym 'a res = "py_error + 'a"

text \<open>
  A text built by an f-string: its literal parts and the values it interpolates, which are
  kept as values instead of being printed. A diagnosis carries one as its reasoning.
\<close>

datatype fpart = Lit string | Val pyval

type_synonym ftext = "fpart list"

record diagnosis =
  dg_diagnosis :: string
  dg_confidence :: "rat option"
  dg_reasoning :: "ftext option"

text \<open>\<^verbatim>\<open>d.get(k)\<close>, \<^verbatim>\<open>k in d\<close> and \<^verbatim>\<open>{**d, k: v}\<close> on a dictionary in insertion order.\<close>

definition dict_get :: "pydict \<Rightarrow> string \<Rightarrow> pyval" where
  "dict_get d k = (case map_of d k of None \<Rightarrow> PNone | Some v \<Rightarrow> v)"

definition dict_has :: "pydict \<Rightarrow> string \<Rightarrow> bool" where
  "dict_has d k = (map_of d k \<noteq> None)"

definition dict_keys :: "pydict \<Rightarrow> string list" where
  "dict_keys d = remdups (map fst d)"

text \<open>Lists and dictionaries are not hashable: using one as a dictionary key raises TypeError.\<close>

fun hashable :: "pyval \<Rightarrow> bool" where
  "hashable (PList _) = False"
| "hashable (PDict _) = False"
| "hashable _ = True"

text \<open>Python's truth value of \<^verbatim>\<open>x or y\<close> and \<^verbatim>\<open>if x\<close>.\<close>

fun truthy :: "pyval \<Rightarrow> bool" where
  "truthy PNone = False"
| "truthy (PBool b) = b"
| "truthy (PInt i) = (i \<noteq> 0)"
| "truthy (PFloat q) = (q \<noteq> 0)"
| "truthy (PStr s) = (s \<noteq> [])"
| "truthy (PList xs) = (xs \<noteq> [])"
| "truthy (PDict d) = (d \<noteq> [])"

section \<open>Reading a JSON value\<close>

text \<open>Two results in sequence: the second is not computed when the first raised.\<close>

definition try_res :: "'a res \<Rightarrow> ('a \<Rightarrow> 'b res) \<Rightarrow> 'b res" where
  "try_res r f = (case r of Inl e \<Rightarrow> Inl e | Inr a \<Rightarrow> f a)"

lemma try_res_simps [simp]: "try_res (Inl e) f = Inl e" "try_res (Inr a) f = f a"
  by (simp_all add: try_res_def)

lemma try_res_Inr: "try_res r f = Inr b \<longleftrightarrow> (\<exists>a. r = Inr a \<and> f a = Inr b)"
  by (auto simp: try_res_def split: sum.splits)

text \<open>\<^verbatim>\<open>v.get(k, default)\<close>, \<^verbatim>\<open>v[k]\<close> with a text key, \<^verbatim>\<open>v[0]\<close>, \<^verbatim>\<open>v or default\<close>.\<close>

fun py_get_or :: "pyval \<Rightarrow> string \<Rightarrow> pyval \<Rightarrow> pyval res" where
  "py_get_or (PDict d) k dflt = Inr (case map_of d k of None \<Rightarrow> dflt | Some v \<Rightarrow> v)"
| "py_get_or _ k dflt = Inl AttributeError"

abbreviation py_get :: "pyval \<Rightarrow> string \<Rightarrow> pyval res" where
  "py_get v k \<equiv> py_get_or v k PNone"

fun py_item :: "pyval \<Rightarrow> string \<Rightarrow> pyval res" where
  "py_item (PDict d) k = (case map_of d k of None \<Rightarrow> Inl (KeyError k) | Some v \<Rightarrow> Inr v)"
| "py_item _ k = Inl TypeError"

text \<open>A dictionary from JSON has no key 0.\<close>

fun py_first :: "pyval \<Rightarrow> pyval res" where
  "py_first (PList xs) = (case xs of [] \<Rightarrow> Inl IndexError | v # _ \<Rightarrow> Inr v)"
| "py_first (PStr s) = (case s of [] \<Rightarrow> Inl IndexError | c # _ \<Rightarrow> Inr (PStr [c]))"
| "py_first (PDict d) = Inl (KeyError ''0'')"
| "py_first _ = Inl TypeError"

definition py_or :: "pyval \<Rightarrow> pyval \<Rightarrow> pyval" where
  "py_or v dflt = (if truthy v then v else dflt)"

text \<open>\<^verbatim>\<open>isinstance(v, (int, float))\<close> and its number; a bool is an int.\<close>

fun as_num :: "pyval \<Rightarrow> rat option" where
  "as_num (PInt i) = Some (of_int i)"
| "as_num (PFloat q) = Some q"
| "as_num (PBool b) = Some (if b then 1 else 0)"
| "as_num _ = None"

section \<open>Tables\<close>

text \<open>What an updated association list holds.\<close>

lemma set_update: "x \<in> set (AList.update k v xs) \<Longrightarrow> x = (k, v) \<or> x \<in> set xs"
  by (induction xs) (auto split: if_splits)

section \<open>Strings\<close>

text \<open>The white space \<^verbatim>\<open>str.strip()\<close> removes, on ASCII text.\<close>

definition is_space :: "char \<Rightarrow> bool" where
  "is_space c = (let n = of_char c :: nat in n = 32 \<or> (9 \<le> n \<and> n \<le> 13) \<or> (28 \<le> n \<and> n \<le> 31))"

definition py_strip :: "string \<Rightarrow> string" where
  "py_strip s = rev (dropWhile is_space (rev (dropWhile is_space s)))"

definition lower_char :: "char \<Rightarrow> char" where
  "lower_char c = (let n = of_char c :: nat in
     if 65 \<le> n \<and> n \<le> 90 then char_of (n + 32) else c)"

definition py_lower :: "string \<Rightarrow> string" where
  "py_lower s = map lower_char s"

definition is_digit :: "char \<Rightarrow> bool" where
  "is_digit c = (let n = of_char c :: nat in 48 \<le> n \<and> n \<le> 57)"

definition digit_val :: "char \<Rightarrow> nat" where
  "digit_val c = (of_char c :: nat) - 48"

text \<open>\<^verbatim>\<open>needle in haystack\<close> on strings.\<close>

fun is_prefix :: "string \<Rightarrow> string \<Rightarrow> bool" where
  "is_prefix [] _ = True"
| "is_prefix (_ # _) [] = False"
| "is_prefix (x # xs) (y # ys) = (x = y \<and> is_prefix xs ys)"

fun occurs_in :: "string \<Rightarrow> string \<Rightarrow> bool" where
  "occurs_in p [] = (p = [])"
| "occurs_in p (y # ys) = (is_prefix p (y # ys) \<or> occurs_in p ys)"

text \<open>Texts with double quotes are written with a tilde.\<close>

definition dq :: "string \<Rightarrow> string" where
  "dq s = List.map (\<lambda>c. if c = CHR ''~'' then CHR 0x22 else c) s"

text \<open>\<^verbatim>\<open>str(n)\<close> of an int.\<close>

fun show_nat :: "nat \<Rightarrow> string" where
  "show_nat n = (if n < 10 then [char_of (48 + n)] else show_nat (n div 10) @ [char_of (48 + n mod 10)])"

declare show_nat.simps [simp del]

definition show_int :: "int \<Rightarrow> string" where
  "show_int i = (if i < 0 then ''-'' @ show_nat (nat (- i)) else show_nat (nat i))"

text \<open>Seconds as microseconds.\<close>

definition seconds_us :: "int \<Rightarrow> int" where
  "seconds_us s = s * 1000000"

lemma lower_char_idem [simp]: "lower_char (lower_char c) = lower_char c"
proof (cases "65 \<le> (of_char c :: nat) \<and> (of_char c :: nat) \<le> 90")
  case True
  then have "(of_char (char_of ((of_char c :: nat) + 32)) :: nat) = of_char c + 32"
    by (simp add: of_char_of)
  with True show ?thesis by (simp add: lower_char_def Let_def)
qed (auto simp: lower_char_def Let_def)

lemma py_lower_idem [simp]: "py_lower (py_lower s) = py_lower s"
  by (simp add: py_lower_def)

section \<open>Doubles\<close>

text \<open>
  \<^verbatim>\<open>float(s)\<close> of a decimal literal, and a product of two doubles, round to the nearest
  double, ties to even. Doubles are the rationals they denote; \<open>dbl_exp\<close> is the exponent
  of the last place (53 significant bits, not below the subnormals). Overflow to infinity
  is not modelled: the results stay large rationals.
\<close>

definition round_half_even :: "rat \<Rightarrow> int" where
  "round_half_even q =
     (let f = floor q; r = q - of_int f
      in if r < 1 / 2 then f else if r > 1 / 2 then f + 1
         else if even f then f else f + 1)"

definition dbl_exp :: "rat \<Rightarrow> int" where
  "dbl_exp q =
     (let (n, d) = quotient_of q; e = bitlen n - bitlen d;
          e = (if q < 2 powi e then e - 1 else e)
      in max (e - 52) (- 1074))"

definition py_float :: "rat \<Rightarrow> rat" where
  "py_float q =
     (if q = 0 then 0
      else if 0 < q then of_int (round_half_even (q / 2 powi dbl_exp q)) * 2 powi dbl_exp q
      else - (of_int (round_half_even (- q / 2 powi dbl_exp (- q))) * 2 powi dbl_exp (- q)))"

definition fmul :: "rat \<Rightarrow> rat \<Rightarrow> rat" where
  "fmul x y = py_float (x * y)"

lemma round_half_even_int [simp]: "round_half_even (of_int m) = m"
  by (simp add: round_half_even_def)

lemma py_float_0 [simp]: "py_float 0 = 0"
  by (simp add: py_float_def)

lemma round_half_even_nonneg: "0 \<le> q \<Longrightarrow> 0 \<le> round_half_even q"
  by (auto simp: round_half_even_def Let_def)

lemma py_float_nonneg: "0 \<le> q \<Longrightarrow> 0 \<le> py_float q"
  by (cases "q = 0") (simp_all add: py_float_def round_half_even_nonneg)

text \<open>Whole numbers below \<open>2 ^ 53\<close> are doubles: rounding leaves them alone.\<close>

lemma dbl_exp_of_nat_le:
  assumes "0 < m" "m < 2 ^ 53"
  shows "dbl_exp (of_int m) \<le> 0"
proof -
  have "bitlen m \<le> 53"
    using assms bitlen_le_iff_power[of m 53] by simp
  moreover have "bitlen (1::int) = 1" by code_simp
  moreover have "(of_int m :: rat) < 2 powi (bitlen m - bitlen 1) \<or> bitlen m - bitlen 1 \<le> 52"
    using calculation by simp
  ultimately show ?thesis
    by (auto simp: dbl_exp_def Let_def quotient_of_int)
qed

lemma py_float_of_int:
  assumes "0 \<le> m" "m < 2 ^ 53"
  shows "py_float (of_int m) = of_int m"
proof (cases "m = 0")
  case False
  with assms have pos: "0 < m" by simp
  define s where "s = dbl_exp (of_int m)"
  define k where "k = nat (- s)"
  have "s \<le> 0" using dbl_exp_of_nat_le[OF pos assms(2)] by (simp add: s_def)
  then have s: "s = - int k" by (simp add: k_def)
  have "(of_int m :: rat) / 2 powi s = of_int (m * 2 ^ k)"
    by (simp add: s power_int_minus divide_inverse)
  then have "round_half_even ((of_int m :: rat) / 2 powi s) = m * 2 ^ k"
    by (simp only: round_half_even_int)
  then have "py_float (of_int m) = of_int (m * 2 ^ k) * 2 powi s"
    using pos by (simp add: py_float_def s_def)
  also have "\<dots> = of_int m"
    by (simp add: s power_int_minus)
  finally show ?thesis .
qed simp

lemma py_float_numeral [simp]:
  "(numeral n :: int) < 2 ^ 53 \<Longrightarrow> py_float (numeral n) = numeral n"
  using py_float_of_int[of "numeral n"] by simp

text \<open>Rounding is off by half a unit in the last place, or by less than the least double.\<close>

lemma round_half_even_near: "\<bar>of_int (round_half_even q) - q\<bar> \<le> 1 / 2"
proof -
  have "of_int \<lfloor>q\<rfloor> \<le> q" "q < of_int \<lfloor>q\<rfloor> + 1" by linarith+
  then show ?thesis by (auto simp: round_half_even_def Let_def abs_le_iff; linarith)
qed

lemma dbl_exp_bound:
  assumes "0 < q"
  shows "2 powi dbl_exp q \<le> q / 2 ^ 52 + 1 / 2 ^ 100"
proof -
  obtain n d where nd: "quotient_of q = (n, d)" by fastforce
  have d: "0 < d" using quotient_of_denom_pos[OF nd] .
  have q: "q = of_int n / of_int d" using quotient_of_div[OF nd] .
  have n: "0 < n" using assms d by (simp add: q zero_less_divide_iff)
  define e where "e = bitlen n - bitlen d"
  define e' where "e' = (if q < 2 powi e then e - 1 else e)"
  have "2 powi (e - 1) \<le> q"
  proof -
    have "2 ^ nat (bitlen n - 1) \<le> n" "d < 2 ^ nat (bitlen d)"
      using bitlen_bounds[OF n] bitlen_bounds[OF d] by simp_all
    then have a: "(2::rat) ^ nat (bitlen n - 1) \<le> of_int n" and b: "of_int d < (2::rat) ^ nat (bitlen d)"
      by (metis of_int_le_iff of_int_power of_int_numeral, metis of_int_less_iff of_int_power of_int_numeral)
    have "(2::rat) powi (e - 1) = 2 ^ nat (bitlen n - 1) / 2 ^ nat (bitlen d)"
    proof -
      have "1 \<le> bitlen n" "0 \<le> bitlen d" using n by (simp_all add: bitlen_nonneg bitlen_ge_iff_power)
      then have "e - 1 = int (nat (bitlen n - 1)) - int (nat (bitlen d))" by (simp add: e_def)
      then show ?thesis by (simp only: power_int_diff power_int_of_nat rel_simps simp_thms)
    qed
    also have "\<dots> \<le> of_int n / of_int d"
      using a b d n by (intro frac_le) simp_all
    finally show ?thesis by (simp add: q)
  qed
  then have e': "2 powi e' \<le> q" by (simp add: e'_def)
  have "dbl_exp q = max (e' - 52) (- 1074)"
    by (simp add: dbl_exp_def nd Let_def e_def e'_def)
  moreover have "(2::rat) powi (e' - 52) \<le> q / 2 ^ 52"
    using e' by (simp add: power_int_diff divide_right_mono)
  moreover have "(2::rat) powi (- 1074) \<le> 1 / 2 ^ 100"
    by (simp add: power_int_def divide_simps)
  ultimately show ?thesis using assms by (auto simp: max_def)
qed

lemma py_float_error:
  assumes "0 \<le> q"
  shows "\<bar>py_float q - q\<bar> \<le> q / 2 ^ 53 + 1 / 2 ^ 100"
proof (cases "q = 0")
  case False
  with assms have pos: "0 < q" by simp
  define p where "p = (2::rat) powi dbl_exp q"
  have p: "0 < p" by (simp add: p_def)
  have "\<bar>of_int (round_half_even (q / p)) - q / p\<bar> * p \<le> 1 / 2 * p"
    using round_half_even_near[of "q / p"] p by (intro mult_right_mono) simp_all
  moreover have "py_float q - q = (of_int (round_half_even (q / p)) - q / p) * p"
    using pos p by (simp add: py_float_def p_def[symmetric] algebra_simps)
  ultimately have "\<bar>py_float q - q\<bar> \<le> p / 2" using p by (simp add: abs_mult)
  moreover have "p / 2 \<le> (q / 2 ^ 52 + 1 / 2 ^ 100) / 2" using dbl_exp_bound[OF pos] p_def by simp
  ultimately show ?thesis by simp
qed simp

lemma py_float_bounds:
  assumes "0 \<le> q"
  shows "py_float q \<le> q + (q / 2 ^ 53 + 1 / 2 ^ 100)" "q \<le> py_float q + (q / 2 ^ 53 + 1 / 2 ^ 100)"
  using py_float_error[OF assms] by (simp_all only: abs_le_iff) linarith+

section \<open>Steps that may raise\<close>

text \<open>A step on a world that returns or raises, and the sequence of two: the second does not
  run when the first raised.\<close>

type_synonym ('w, 'a) step = "'w \<Rightarrow> 'a res \<times> 'w"

definition ret_step :: "'a \<Rightarrow> ('w, 'a) step" where
  "ret_step a w = (Inr a, w)"

definition then_step :: "('w, 'a) step \<Rightarrow> ('a \<Rightarrow> ('w, 'b) step) \<Rightarrow> ('w, 'b) step" where
  "then_step m f w = (case m w of (Inl e, w1) \<Rightarrow> (Inl e, w1) | (Inr a, w1) \<Rightarrow> f a w1)"

definition map_step :: "('a \<Rightarrow> 'b) \<Rightarrow> ('w, 'a) step \<Rightarrow> ('w, 'b) step" where
  "map_step g m = then_step m (\<lambda>a. ret_step (g a))"

lemma ret_step_eq [simp]: "ret_step a w = (r, w') \<longleftrightarrow> r = Inr a \<and> w' = w"
  by (auto simp: ret_step_def)

lemma then_step_Inr:
  "then_step m f w = (Inr b, w') \<longleftrightarrow> (\<exists>a w1. m w = (Inr a, w1) \<and> f a w1 = (Inr b, w'))"
  by (auto simp: then_step_def split: prod.splits sum.splits)

lemma map_step_Inr: "map_step g m w = (Inr b, w') \<longleftrightarrow> (\<exists>a. m w = (Inr a, w') \<and> b = g a)"
  by (auto simp: map_step_def then_step_Inr)

text \<open>\<^verbatim>\<open>try: m finally: c\<close>, where an exception of \<open>c\<close> replaces the one of \<open>m\<close>, and
  \<^verbatim>\<open>try: m except E: ...\<close>.\<close>

definition finally_step :: "('w, 'a) step \<Rightarrow> ('w, unit) step \<Rightarrow> ('w, 'a) step" where
  "finally_step m c w =
     (case m w of (r, w1) \<Rightarrow> (case c w1 of (Inl e, w2) \<Rightarrow> (Inl e, w2) | (Inr _, w2) \<Rightarrow> (r, w2)))"

definition except_step :: "(py_error \<Rightarrow> bool) \<Rightarrow> ('w, 'a) step \<Rightarrow> ('w, 'a) step \<Rightarrow> ('w, 'a) step" where
  "except_step caught m h w =
     (case m w of (Inl e, w1) \<Rightarrow> if caught e then h w1 else (Inl e, w1) | (Inr a, w1) \<Rightarrow> (Inr a, w1))"

text \<open>\<^verbatim>\<open>except Exception\<close> lets SystemExit through.\<close>

fun is_exception :: "py_error \<Rightarrow> bool" where
  "is_exception (SystemExit _) = False"
| "is_exception _ = True"

end
