(* ===== verification/Quota_Tracker.thy ===== *)
theory Quota_Tracker
  imports Prelude "HOL-Library.Multiset"
begin

text \<open>
  \<^verbatim>\<open>p2_readonly_loop/quota_tracker.py\<close>: what every LLM provider has used today, the log of
  calls, and the marks that keep an exhausted provider from being called. Its tables are a
  record of their own (they are in \<^verbatim>\<open>wardence.db\<close>, but no trust component reads them).

  A time is in microseconds since the epoch, UTC, and is an argument of the operations; each
  reads the clock once here. \<^verbatim>\<open>isoformat()\<close> texts of UTC times compare as the times do: the
  fields have fixed widths, and the fraction, left out when it is zero, starts with "." which
  is above the "+" of the offset. The neurons are doubles; SQLite's SUM is the rounded sum.
\<close>

section \<open>Tables\<close>

type_synonym route = "string \<times> string"

record usage =
  us_calls :: int
  us_tokens :: int
  us_neurons :: rat

record call_row =
  cr_provider :: string
  cr_model :: string
  cr_tokens :: int
  cr_neurons :: rat
  cr_episode :: "string option"
  cr_at :: int

record mark =
  ex_until :: int
  ex_reason :: "string option"
  ex_probe :: "int option"

record quota_db =
  usage_rows :: "((route \<times> int) \<times> usage) list"
  call_rows :: "call_row list"
  marks :: "(route \<times> mark) list"

definition empty_quota :: quota_db where
  "empty_quota = \<lparr>usage_rows = [], call_rows = [], marks = []\<rparr>"

section \<open>Limits\<close>

definition known_daily_limits :: "route \<Rightarrow> int option" where
  "known_daily_limits r =
     map_of [((''gemini'', ''gemini-3-flash-preview''), 20),
             ((''groq'', ''llama-3.3-70b-versatile''), 1000),
             ((''groq'', ''openai/gpt-oss-120b''), 1000),
             ((''openrouter'', ''openai/gpt-oss-20b:free''), 50)] r"

definition warn_fraction :: rat where
  "warn_fraction = py_float (8 / 10)"

definition neuron_budget :: rat where
  "neuron_budget = 10000"

definition neuron_safety :: rat where
  "neuron_safety = 400"

text \<open>Fifteen minutes and a day, in microseconds.\<close>

definition probe_cooldown :: int where
  "probe_cooldown = 15 * 60 * 1000000"

definition day_us :: int where
  "day_us = 24 * 60 * 60 * 1000000"

definition utc_day :: "int \<Rightarrow> int" where
  "utc_day now = now div day_us"

definition next_utc_midnight :: "int \<Rightarrow> int" where
  "next_utc_midnight now = (utc_day now + 1) * day_us"

section \<open>Exhaustion marks\<close>

definition mark_exhausted :: "route \<Rightarrow> string option \<Rightarrow> int \<Rightarrow> quota_db \<Rightarrow> quota_db" where
  "mark_exhausted r reason now q =
     q\<lparr>marks := AList.update r
        \<lparr>ex_until = next_utc_midnight now, ex_reason = reason,
         ex_probe = Some (min (now + probe_cooldown) (next_utc_midnight now))\<rparr> (marks q)\<rparr>"

definition clear_exhausted :: "route \<Rightarrow> quota_db \<Rightarrow> quota_db" where
  "clear_exhausted r q = q\<lparr>marks := AList.delete r (marks q)\<rparr>"

definition is_marked_exhausted :: "route \<Rightarrow> int \<Rightarrow> quota_db \<Rightarrow> string option" where
  "is_marked_exhausted r now q =
     (case map_of (marks q) r of
        None \<Rightarrow> None
      | Some m \<Rightarrow>
          if (case ex_probe m of None \<Rightarrow> False | Some t \<Rightarrow> t \<le> now) then None
          else if now < ex_until m then ex_reason m
          else None)"

section \<open>Recording and reading calls\<close>

definition add_usage :: "int \<Rightarrow> rat \<Rightarrow> usage option \<Rightarrow> usage" where
  "add_usage tokens neurons u =
     (case u of
        None \<Rightarrow> \<lparr>us_calls = 1, us_tokens = tokens, us_neurons = neurons\<rparr>
      | Some v \<Rightarrow> \<lparr>us_calls = us_calls v + 1, us_tokens = us_tokens v + tokens,
                   us_neurons = py_float (us_neurons v + neurons)\<rparr>)"

text \<open>\<^verbatim>\<open>record_call\<close> reads the clock twice: \<open>today\<close> is the reading the day of the aggregate comes from, \<open>now\<close>
  the one after it that the row of the log gets.\<close>

definition record_call ::
    "route \<Rightarrow> int \<Rightarrow> rat \<Rightarrow> string option \<Rightarrow> int \<Rightarrow> int \<Rightarrow> quota_db \<Rightarrow> quota_db" where
  "record_call r tokens neurons episode today now q =
     q\<lparr>call_rows := call_rows q @
         [\<lparr>cr_provider = fst r, cr_model = snd r, cr_tokens = tokens, cr_neurons = neurons,
           cr_episode = episode, cr_at = now\<rparr>],
       usage_rows := AList.update (r, utc_day today)
         (add_usage tokens neurons (map_of (usage_rows q) (r, utc_day today))) (usage_rows q)\<rparr>"

definition get_today_usage :: "route \<Rightarrow> int \<Rightarrow> quota_db \<Rightarrow> int" where
  "get_today_usage r now q =
     (case map_of (usage_rows q) (r, utc_day now) of None \<Rightarrow> 0 | Some u \<Rightarrow> us_calls u)"

definition get_today_token_usage :: "route \<Rightarrow> int \<Rightarrow> quota_db \<Rightarrow> int" where
  "get_today_token_usage r now q =
     (case map_of (usage_rows q) (r, utc_day now) of None \<Rightarrow> 0 | Some u \<Rightarrow> us_tokens u)"

text \<open>Over all models of the provider: they share one pool.\<close>

definition pool_rows :: "string \<Rightarrow> int \<Rightarrow> quota_db \<Rightarrow> rat list" where
  "pool_rows provider day q =
     List.map (\<lambda>(_, u). us_neurons u)
       (filter (\<lambda>(k, _). fst (fst k) = provider \<and> snd k = day) (usage_rows q))"

definition get_today_neuron_usage :: "string \<Rightarrow> int \<Rightarrow> quota_db \<Rightarrow> rat" where
  "get_today_neuron_usage provider now q = py_float (sum_list (pool_rows provider (utc_day now) q))"

definition get_calls_since :: "int \<Rightarrow> quota_db \<Rightarrow> call_row list" where
  "get_calls_since since q = sort_key cr_at (filter (\<lambda>c. since \<le> cr_at c) (call_rows q))"

definition get_episode_usage :: "string \<Rightarrow> quota_db \<Rightarrow> call_row list" where
  "get_episode_usage episode q =
     sort_key cr_at (filter (\<lambda>c. cr_episode c = Some episode) (call_rows q))"

text \<open>GROUP BY episode and provider, groups by their first call.\<close>

record usage_group =
  ug_episode :: string
  ug_provider :: string
  ug_calls :: nat
  ug_tokens :: int
  ug_neurons :: rat

definition group_keys :: "call_row list \<Rightarrow> (string \<times> string) list" where
  "group_keys cs = remdups (List.map (\<lambda>c. (the (cr_episode c), cr_provider c)) cs)"

definition get_all_episode_usage_summary :: "quota_db \<Rightarrow> usage_group list" where
  "get_all_episode_usage_summary q =
     (let cs = filter (\<lambda>c. cr_episode c \<noteq> None) (call_rows q);
          rows = (\<lambda>(e, p). filter (\<lambda>c. cr_episode c = Some e \<and> cr_provider c = p) cs)
      in List.map (\<lambda>(e, p). \<lparr>ug_episode = e, ug_provider = p, ug_calls = length (rows (e, p)),
             ug_tokens = sum_list (List.map cr_tokens (rows (e, p))),
             ug_neurons = py_float (sum_list (List.map cr_neurons (rows (e, p))))\<rparr>)
           (sort_key (\<lambda>k. Min (set (List.map cr_at (rows k)))) (group_keys cs)))"

section \<open>The check before a call\<close>

datatype quota_status = Quota_Ok | Quota_Warn | Quota_Exhausted

datatype quota_reason = Marked string | Neurons_Left rat

text \<open>\<open>qc_used\<close> is a number of calls, or of neurons.\<close>

record quota_check =
  qc_status :: quota_status
  qc_used :: "rat option"
  qc_limit :: "rat option"
  qc_reason :: "quota_reason option"

definition neurons_remaining :: "string \<Rightarrow> int \<Rightarrow> quota_db \<Rightarrow> rat" where
  "neurons_remaining provider now q = py_float (neuron_budget - get_today_neuron_usage provider now q)"

definition check_quota :: "route \<Rightarrow> int \<Rightarrow> quota_db \<Rightarrow> quota_check" where
  "check_quota r now q =
     (case is_marked_exhausted r now q of
        Some why \<Rightarrow> \<lparr>qc_status = Quota_Exhausted, qc_used = None, qc_limit = None,
                     qc_reason = Some (Marked why)\<rparr>
      | None \<Rightarrow>
          if fst r = ''cloudflare'' \<and> neurons_remaining (fst r) now q < neuron_safety
          then \<lparr>qc_status = Quota_Exhausted, qc_used = Some (get_today_neuron_usage (fst r) now q),
                qc_limit = Some neuron_budget,
                qc_reason = Some (Neurons_Left (neurons_remaining (fst r) now q))\<rparr>
          else
            let used = get_today_usage r now q in
            case known_daily_limits r of
              None \<Rightarrow> \<lparr>qc_status = Quota_Ok, qc_used = Some (of_int used), qc_limit = None, qc_reason = None\<rparr>
            | Some limit \<Rightarrow>
                \<lparr>qc_status =
                   (if limit \<le> used then Quota_Exhausted
                    else if fmul (of_int limit) warn_fraction \<le> of_int used then Quota_Warn
                    else Quota_Ok),
                 qc_used = Some (of_int used), qc_limit = Some (of_int limit), qc_reason = None\<rparr>)"

definition may_send :: "route \<Rightarrow> int \<Rightarrow> quota_db \<Rightarrow> bool" where
  "may_send r now q \<longleftrightarrow> qc_status (check_quota r now q) \<noteq> Quota_Exhausted"

section \<open>What the operations do to the meters\<close>

lemmas quota_readers = get_today_usage_def get_today_token_usage_def get_today_neuron_usage_def
  pool_rows_def neurons_remaining_def is_marked_exhausted_def

lemma mark_frame [frame]:
  "usage_rows (mark_exhausted r why now q) = usage_rows q"
  "call_rows (mark_exhausted r why now q) = call_rows q"
  "usage_rows (clear_exhausted r q) = usage_rows q"
  "call_rows (clear_exhausted r q) = call_rows q"
  "marks (record_call r tk n ep now later q) = marks q"
  by (simp_all add: mark_exhausted_def clear_exhausted_def record_call_def)

lemma usage_after_mark [simp]:
  "get_today_usage r' t (mark_exhausted r why now q) = get_today_usage r' t q"
  "get_today_usage r' t (clear_exhausted r q) = get_today_usage r' t q"
  "get_today_neuron_usage p t (mark_exhausted r why now q) = get_today_neuron_usage p t q"
  "get_today_neuron_usage p t (clear_exhausted r q) = get_today_neuron_usage p t q"
  by (simp_all add: quota_readers frame)

lemma usage_after_record:
  "get_today_usage r' t (record_call r tk n ep now later q) =
     get_today_usage r' t q + (if r' = r \<and> utc_day t = utc_day now then 1 else 0)"
  by (auto simp: get_today_usage_def record_call_def update_conv' add_usage_def split: option.split)

text \<open>A check that lets a call through found it below its limit.\<close>

lemma may_send_below:
  assumes "may_send r now q" "known_daily_limits r = Some limit"
  shows "get_today_usage r now q < limit"
  using assms
  by (auto simp: may_send_def check_quota_def Let_def split: option.splits if_splits)

lemma may_send_pool:
  assumes "may_send (''cloudflare'', m) now q"
  shows "neuron_safety \<le> neurons_remaining ''cloudflare'' now q"
  using assms
  by (auto simp: may_send_def check_quota_def Let_def split: option.splits if_splits)

lemma limits_positive: "known_daily_limits r = Some c \<Longrightarrow> 20 \<le> c"
  by (auto simp: known_daily_limits_def split: if_splits)

section \<open>Runs of the tables\<close>

text \<open>The states of the tables, and the time of the last write: calls are recorded, and marks set
  and cleared, in any order, as the clock goes on.\<close>

inductive quota_run :: "int \<Rightarrow> quota_db \<Rightarrow> bool" where
  began: "quota_run now empty_quota"
| waited: "quota_run now q \<Longrightarrow> now \<le> t \<Longrightarrow> quota_run t q"
| recorded: "quota_run now q \<Longrightarrow> quota_run now (record_call r tk n ep now later q)"
| marked: "quota_run now q \<Longrightarrow> quota_run now (mark_exhausted r why now q)"
| cleared: "quota_run now q \<Longrightarrow> quota_run now (clear_exhausted r q)"

inductive_cases quota_run_emptyE: "quota_run now empty_quota"

lemma utc_day_mono: "a \<le> b \<Longrightarrow> utc_day a \<le> utc_day b"
  by (simp add: utc_day_def day_us_def zdiv_mono1)

lemma midnight_mono: "a \<le> b \<Longrightarrow> next_utc_midnight a \<le> next_utc_midnight b"
  using utc_day_mono[of a b] by (simp add: next_utc_midnight_def day_us_def)

lemma mult_le_iff_le_div: "0 < d \<Longrightarrow> k * d \<le> t \<longleftrightarrow> k \<le> t div d" for d k t :: int
proof -
  assume d: "0 < d"
  have t: "t div d * d \<le> t"
    using d pos_mod_sign[of d t] div_mult_mod_eq[of t d] by linarith
  show ?thesis
  proof
    assume "k * d \<le> t"
    then show "k \<le> t div d" using zdiv_mono1[OF _ d, of "k * d" t] d by simp
  next
    assume "k \<le> t div d"
    then have "k * d \<le> t div d * d" using d by (intro mult_right_mono) simp_all
    with t show "k * d \<le> t" by linarith
  qed
qed

lemma day_after_midnight: "next_utc_midnight now \<le> t \<longleftrightarrow> utc_day now < utc_day t"
proof -
  have "next_utc_midnight now \<le> t \<longleftrightarrow> utc_day now + 1 \<le> t div day_us"
    unfolding next_utc_midnight_def by (rule mult_le_iff_le_div) (simp add: day_us_def)
  then show ?thesis by (auto simp: utc_day_def)
qed

lemma midnight_later: "now < next_utc_midnight now"
  using day_after_midnight[of now now] by simp

definition marks_until :: "int \<Rightarrow> quota_db \<Rightarrow> bool" where
  "marks_until t q \<longleftrightarrow> (\<forall>r m. map_of (marks q) r = Some m \<longrightarrow> ex_until m \<le> t)"

lemma quota_run_inv:
  "quota_run now q \<Longrightarrow>
     (\<forall>k \<in> set (usage_rows q). snd (fst k) \<le> utc_day now) \<and> marks_until (next_utc_midnight now) q \<and>
     distinct (List.map fst (usage_rows q))"
proof (induction rule: quota_run.induct)
  case (began now)
  show ?case by (simp add: empty_quota_def marks_until_def)
next
  case (waited now q t)
  then show ?case using midnight_mono[of now t] utc_day_mono[of now t] by (fastforce simp: marks_until_def)
next
  case (recorded now q r tk n ep later)
  then show ?case by (auto simp: record_call_def marks_until_def distinct_update dest!: set_update)
next
  case (marked now q r why)
  then show ?case by (auto simp: mark_exhausted_def marks_until_def update_conv')
next
  case (cleared now q r)
  then show ?case by (auto simp: clear_exhausted_def marks_until_def delete_conv' restrict_map_def split: if_splits)
qed

lemma fresh_day:
  assumes "quota_run now q" "utc_day now < utc_day t"
  shows "map_of (usage_rows q) (r, utc_day t) = None" "pool_rows p (utc_day t) q = []"
proof -
  have old: "snd k \<le> utc_day now" if "(k, u) \<in> set (usage_rows q)" for k u
    using quota_run_inv[OF assms(1)] that by fastforce
  then show "map_of (usage_rows q) (r, utc_day t) = None"
    using assms(2) by (force simp: map_of_eq_None_iff)
  show "pool_rows p (utc_day t) q = []" using old assms(2) by (force simp: pool_rows_def filter_empty_conv)
qed

lemma unmarked_after_midnight:
  assumes "marks_until (next_utc_midnight now) q" "next_utc_midnight now \<le> t"
  shows "is_marked_exhausted r t q = None"
proof (cases "map_of (marks q) r")
  case (Some m)
  with assms have "ex_until m \<le> t" unfolding marks_until_def by fastforce
  with Some show ?thesis by (simp add: is_marked_exhausted_def)
qed (simp add: is_marked_exhausted_def)

lemma is_marked_mark:
  "is_marked_exhausted r' t (mark_exhausted r why now q) =
     (if r' = r then if t < min (now + probe_cooldown) (next_utc_midnight now) then why else None
      else is_marked_exhausted r' t q)"
  by (auto simp: is_marked_exhausted_def mark_exhausted_def update_conv')

lemma is_marked_clear:
  "is_marked_exhausted r' t (clear_exhausted r q) =
     (if r' = r then None else is_marked_exhausted r' t q)"
  by (auto simp: is_marked_exhausted_def clear_exhausted_def delete_conv' split: option.splits)

lemma check_quota_cong:
  assumes "is_marked_exhausted r t q = is_marked_exhausted r t q'" "usage_rows q = usage_rows q'"
  shows "check_quota r t q = check_quota r t q'"
proof -
  have "get_today_usage r t q = get_today_usage r t q'"
    "get_today_neuron_usage (fst r) t q = get_today_neuron_usage (fst r) t q'"
    using assms(2) by (simp_all add: get_today_usage_def get_today_neuron_usage_def pool_rows_def)
  with assms(1) show ?thesis by (simp only: check_quota_def neurons_remaining_def)
qed

section \<open>The ledger\<close>

text \<open>A call as it was made: its route and tokens, and the two readings of the clock.\<close>

record made_call =
  mc_route :: route
  mc_tokens :: int
  mc_today :: int
  mc_now :: int

text \<open>A run with the calls it made.\<close>

inductive call_run :: "made_call list \<Rightarrow> quota_db \<Rightarrow> bool" where
  began: "call_run [] empty_quota"
| recorded: "call_run cs q \<Longrightarrow>
    call_run (cs @ [\<lparr>mc_route = r, mc_tokens = tk, mc_today = today, mc_now = now\<rparr>]) (record_call r tk n ep today now q)"
| marked: "call_run cs q \<Longrightarrow> call_run cs (mark_exhausted r why now q)"
| cleared: "call_run cs q \<Longrightarrow> call_run cs (clear_exhausted r q)"

text \<open>The calls of a route by the day they were counted on, and by the day of their row.\<close>

definition counted_on :: "route \<Rightarrow> int \<Rightarrow> made_call list \<Rightarrow> made_call list" where
  "counted_on r t = filter (\<lambda>c. mc_route c = r \<and> utc_day (mc_today c) = utc_day t)"

definition noted_on :: "route \<Rightarrow> int \<Rightarrow> made_call list \<Rightarrow> made_call list" where
  "noted_on r t = filter (\<lambda>c. mc_route c = r \<and> utc_day (mc_now c) = utc_day t)"

definition rows_on :: "route \<Rightarrow> int \<Rightarrow> quota_db \<Rightarrow> call_row list" where
  "rows_on r t q = filter (\<lambda>c. (cr_provider c, cr_model c) = r \<and> utc_day (cr_at c) = utc_day t) (call_rows q)"

lemma token_usage_after_record:
  "get_today_token_usage r' t (record_call r tk n ep today now q) =
     get_today_token_usage r' t q + (if r' = r \<and> utc_day t = utc_day today then tk else 0)"
  by (auto simp: get_today_token_usage_def record_call_def update_conv' add_usage_def split: option.split)

lemma rows_after_record:
  "rows_on r' t (record_call r tk n ep today now q) = rows_on r' t q @
     (if r' = r \<and> utc_day t = utc_day now
      then [\<lparr>cr_provider = fst r, cr_model = snd r, cr_tokens = tk, cr_neurons = n, cr_episode = ep, cr_at = now\<rparr>]
      else [])"
  by (auto simp: rows_on_def record_call_def)

lemma ledger_counts:
  assumes "call_run cs q"
  shows "get_today_usage r t q = int (length (counted_on r t cs)) \<and>
    get_today_token_usage r t q = sum_list (List.map mc_tokens (counted_on r t cs)) \<and>
    List.map cr_tokens (rows_on r t q) = List.map mc_tokens (noted_on r t cs)"
  using assms
proof (induction rule: call_run.induct)
  case began
  show ?case by (simp add: counted_on_def noted_on_def rows_on_def empty_quota_def get_today_usage_def
        get_today_token_usage_def)
next
  case (recorded cs q r' tk today now n ep)
  then show ?case
    by (auto simp: usage_after_record token_usage_after_record rows_after_record counted_on_def noted_on_def)
qed (simp_all add: get_today_token_usage_def rows_on_def frame)

section \<open>The neuron pool\<close>

lemma sum_filter_update:
  fixes f :: "'v \<Rightarrow> rat"
  shows "sum_list (List.map (\<lambda>(_, u). f u) (filter P (AList.update k v xs))) =
    sum_list (List.map (\<lambda>(_, u). f u) (filter P xs)) + (if P (k, v) then f v else 0) -
    (case map_of xs k of None \<Rightarrow> 0 | Some u \<Rightarrow> if P (k, u) then f u else 0)"
  by (induction xs) auto

definition pool :: "string \<Rightarrow> int \<Rightarrow> quota_db \<Rightarrow> rat" where
  "pool provider day q = sum_list (pool_rows provider day q)"

lemma pool_record:
  "pool (fst r) (utc_day now) (record_call r tk n ep now later q) =
     (case map_of (usage_rows q) (r, utc_day now) of
        None \<Rightarrow> pool (fst r) (utc_day now) q + n
      | Some u \<Rightarrow> pool (fst r) (utc_day now) q - us_neurons u + py_float (us_neurons u + n))"
  by (auto simp: pool_def pool_rows_def record_call_def add_usage_def sum_filter_update
      split: option.split)

lemma row_in_pool:
  assumes "map_of (usage_rows q) (r, day) = Some u" "\<forall>x \<in> set (pool_rows (fst r) day q). 0 \<le> x"
  shows "0 \<le> us_neurons u" "us_neurons u \<le> pool (fst r) day q"
proof -
  have "((r, day), u) \<in> set (usage_rows q)" using assms(1) by (rule map_of_SomeD)
  then have m: "us_neurons u \<in> set (pool_rows (fst r) day q)" by (force simp: pool_rows_def)
  with assms(2) show "0 \<le> us_neurons u" by blast
  from m assms(2) show "us_neurons u \<le> pool (fst r) day q"
    unfolding pool_def by (simp add: member_le_sum_list)
qed

lemma pool_nonneg: "\<forall>x \<in> set (pool_rows p day q). 0 \<le> x \<Longrightarrow> 0 \<le> pool p day q"
  unfolding pool_def by (intro sum_list_nonneg) blast

lemma open_pool:
  assumes "may_send (''cloudflare'', m) now q" "0 \<le> pool ''cloudflare'' (utc_day now) q"
  shows "pool ''cloudflare'' (utc_day now) q \<le> 9600 + 1 / 2 ^ 34"
proof -
  let ?S = "pool ''cloudflare'' (utc_day now) q"
  let ?f = "py_float ?S"
  have left: "400 \<le> py_float (10000 - ?f)"
    using may_send_pool[OF assms(1)]
    by (simp add: neuron_safety_def neurons_remaining_def neuron_budget_def
        get_today_neuron_usage_def pool_def)
  have f: "0 \<le> ?f" by (rule py_float_nonneg[OF assms(2)])
  have "0 \<le> 10000 - ?f"
  proof (rule ccontr)
    assume "\<not> 0 \<le> 10000 - ?f"
    then have neg: "10000 - ?f < 0" by simp
    then have "py_float (10000 - ?f) = - py_float (- (10000 - ?f))"
      by (simp add: py_float_def)
    with py_float_nonneg[of "- (10000 - ?f)"] neg left show False by simp
  qed
  from py_float_bounds[OF this] py_float_bounds[OF assms(2)] left f show ?thesis
    by (simp add: field_simps)
qed

section \<open>Properties\<close>

text \<open>C31: while no call costs more than the safety margin of 400 Neurons, the day's usage of the
  pool that Cloudflare's models share never passes its 10,000 Neurons, up to the rounding of
  the doubles it is summed in.\<close>

theorem pool_keeps_budget:
  assumes "may_send (''cloudflare'', m) now q"
    and "\<forall>x \<in> set (pool_rows ''cloudflare'' (utc_day now) q). 0 \<le> x"
    and "0 \<le> n" "n \<le> 400" "utc_day now' = utc_day now"
  shows "get_today_neuron_usage ''cloudflare'' now' (record_call (''cloudflare'', m) tk n ep now' later q)
    \<le> 10000 + 1 / 2 ^ 30"
proof -
  let ?S = "pool ''cloudflare'' (utc_day now) q"
  let ?S' = "pool ''cloudflare'' (utc_day now) (record_call (''cloudflare'', m) tk n ep now' later q)"
  have S0: "0 \<le> ?S" by (rule pool_nonneg[OF assms(2)])
  have S: "?S \<le> 9600 + 1 / 2 ^ 34" by (rule open_pool[OF assms(1) S0])
  have "0 \<le> ?S' \<and> ?S' \<le> ?S + n + ((?S + n) / 2 ^ 53 + 1 / 2 ^ 100)"
  proof (cases "map_of (usage_rows q) ((''cloudflare'', m), utc_day now)")
    case None
    then show ?thesis
      using pool_record[of "(''cloudflare'', m)" now' tk n ep later q] assms(3,5) S0
      by (simp add: add_nonneg_nonneg)
  next
    case (Some u)
    note u = row_in_pool[OF Some, simplified, OF assms(2)]
    have "0 \<le> us_neurons u + n" using u(1) assms(3) by simp
    from py_float_bounds(1)[OF this] py_float_nonneg[OF this]
      pool_record[of "(''cloudflare'', m)" now' tk n ep later q] Some assms(5) u
    show ?thesis by (simp add: field_simps)
  qed
  then have "0 \<le> ?S'" and S': "?S' \<le> ?S + n + ((?S + n) / 2 ^ 53 + 1 / 2 ^ 100)" by simp_all
  from py_float_bounds(1)[OF this(1)] S' S assms(3,4) have "py_float ?S' \<le> 10000 + 1 / 2 ^ 30"
    by (simp add: field_simps)
  then show ?thesis by (simp add: get_today_neuron_usage_def pool_def assms(5))
qed

lemma pool_keeps_budget_witness:
  "get_today_neuron_usage ''cloudflare'' 0 (record_call (''cloudflare'', []) 0 90 None 0 1 empty_quota) \<le> 10001"
proof -
  have "may_send (''cloudflare'', []) 0 empty_quota"
    by (simp add: may_send_def check_quota_def is_marked_exhausted_def empty_quota_def
        known_daily_limits_def neurons_remaining_def get_today_neuron_usage_def pool_rows_def
        neuron_budget_def neuron_safety_def)
  from pool_keeps_budget[OF this, of 90 0 0 None 1] show ?thesis
    by (simp add: pool_rows_def empty_quota_def)
qed

text \<open>C32: the daily aggregate the quota check reads counts each call on the day of the first reading of
  the clock, the per-call log on the day of the second, and neither misses a call or has one twice,
  whatever marks come between. So they agree for every route and day while no UTC midnight
  falls between the two readings of a call; a call it does fall into is counted on the day before
  its row.\<close>

theorem ledger_agrees:
  assumes "call_run cs q"
  shows "get_today_usage r t q = int (length (counted_on r t cs)) \<and>
    get_today_token_usage r t q = sum_list (List.map mc_tokens (counted_on r t cs)) \<and>
    length (rows_on r t q) = length (noted_on r t cs) \<and>
    sum_list (List.map cr_tokens (rows_on r t q)) = sum_list (List.map mc_tokens (noted_on r t cs)) \<and>
    ((\<forall>c \<in> set cs. utc_day (mc_today c) = utc_day (mc_now c)) \<longrightarrow>
       get_today_usage r t q = int (length (rows_on r t q)) \<and>
       get_today_token_usage r t q = sum_list (List.map cr_tokens (rows_on r t q)))"
proof -
  note c = ledger_counts[OF assms, of r t]
  have "length (rows_on r t q) = length (noted_on r t cs)" using c by (metis length_map)
  moreover have "counted_on r t cs = noted_on r t cs" if "\<forall>c \<in> set cs. utc_day (mc_today c) = utc_day (mc_now c)"
    using that by (auto simp: counted_on_def noted_on_def intro!: filter_cong)
  ultimately show ?thesis using c by auto
qed

text \<open>Two calls, the second with midnight between its readings.\<close>

definition two_calls :: quota_db where
  "two_calls = record_call (''groq'', ''openai/gpt-oss-120b'') 40 0 None (day_us - 1) day_us
     (record_call (''groq'', ''openai/gpt-oss-120b'') 60 0 (Some ''e1'') 5 6 empty_quota)"

lemma ledger_agrees_witness:
  "get_today_usage (''groq'', ''openai/gpt-oss-120b'') 9 two_calls = 2 \<and>
   length (rows_on (''groq'', ''openai/gpt-oss-120b'') 9 two_calls) = 1"
proof -
  have "call_run [\<lparr>mc_route = (''groq'', ''openai/gpt-oss-120b''), mc_tokens = 60, mc_today = 5, mc_now = 6\<rparr>,
      \<lparr>mc_route = (''groq'', ''openai/gpt-oss-120b''), mc_tokens = 40, mc_today = day_us - 1, mc_now = day_us\<rparr>] two_calls"
    unfolding two_calls_def using call_run.recorded[OF call_run.recorded[OF call_run.began]] by simp
  from ledger_agrees[OF this, of "(''groq'', ''openai/gpt-oss-120b'')" 9] show ?thesis
    by (simp add: counted_on_def noted_on_def utc_day_def day_us_def)
qed

text \<open>A mark blocks its route and no other, and only until the earlier of fifteen minutes
  and UTC midnight: from then on the check is the one without the mark, so a probe goes
  through.\<close>

theorem probe_after_cooldown:
  "(now \<le> t \<and> t < now + probe_cooldown \<and> t < next_utc_midnight now \<longrightarrow>
      \<not> may_send r t (mark_exhausted r (Some why) now q)) \<and>
   (now + probe_cooldown \<le> t \<or> next_utc_midnight now \<le> t \<longrightarrow>
      check_quota r t (mark_exhausted r (Some why) now q) = check_quota r t (clear_exhausted r q)) \<and>
   (r' \<noteq> r \<longrightarrow> check_quota r' t (mark_exhausted r (Some why) now q) = check_quota r' t q)"
proof (intro conjI impI)
  assume "now \<le> t \<and> t < now + probe_cooldown \<and> t < next_utc_midnight now"
  then show "\<not> may_send r t (mark_exhausted r (Some why) now q)"
    by (simp add: may_send_def check_quota_def is_marked_mark)
next
  assume "now + probe_cooldown \<le> t \<or> next_utc_midnight now \<le> t"
  then show "check_quota r t (mark_exhausted r (Some why) now q) = check_quota r t (clear_exhausted r q)"
    by (intro check_quota_cong) (auto simp: is_marked_mark is_marked_clear frame)
next
  assume "r' \<noteq> r"
  then show "check_quota r' t (mark_exhausted r (Some why) now q) = check_quota r' t q"
    by (intro check_quota_cong) (auto simp: is_marked_mark frame)
qed

definition unmetered :: route where
  "unmetered = (''deepinfra'', ''nvidia/Nemotron-3-Nano-30B-A3B'')"

lemma probe_after_cooldown_witness:
  "\<not> may_send unmetered 0 (mark_exhausted unmetered (Some ''4006'') 0 empty_quota) \<and>
   may_send unmetered 900000000 (mark_exhausted unmetered (Some ''4006'') 0 empty_quota)"
proof -
  have "may_send unmetered 900000000 (clear_exhausted unmetered empty_quota)"
    by (simp add: may_send_def check_quota_def is_marked_exhausted_def clear_exhausted_def
        empty_quota_def unmetered_def known_daily_limits_def)
  with probe_after_cooldown[of 0 0 unmetered "''4006''" empty_quota]
    probe_after_cooldown[of 0 900000000 unmetered "''4006''" empty_quota]
  show ?thesis
    by (simp add: may_send_def probe_cooldown_def next_utc_midnight_def utc_day_def day_us_def)
qed

text \<open>Whatever was used and marked today, every route is open again from UTC midnight on.\<close>

theorem midnight_reopens:
  assumes "quota_run now q" "next_utc_midnight now \<le> t"
  shows "may_send r t q"
proof -
  have d: "utc_day now < utc_day t" using assms(2) by (simp add: day_after_midnight)
  have "is_marked_exhausted r t q = None"
    using quota_run_inv[OF assms(1)] assms(2) by (blast intro: unmarked_after_midnight)
  moreover have "get_today_usage r t q = 0" "neurons_remaining p t q = 10000" for p
    using fresh_day[OF assms(1) d]
    by (simp_all add: get_today_usage_def neurons_remaining_def get_today_neuron_usage_def
        neuron_budget_def)
  ultimately show ?thesis
    using limits_positive[of r]
    by (fastforce simp: may_send_def check_quota_def neuron_safety_def split: option.splits)
qed

lemma midnight_reopens_witness:
  "may_send unmetered day_us (mark_exhausted unmetered (Some ''4006'') 5 empty_quota)"
proof -
  have "quota_run 5 (mark_exhausted unmetered (Some ''4006'') 5 empty_quota)"
    by (intro quota_run.marked quota_run.began)
  from midnight_reopens[OF this] show ?thesis
    by (simp add: next_utc_midnight_def utc_day_def day_us_def)
qed

end
