(* ===== verification/Budget_Meter.thy ===== *)
theory Budget_Meter
  imports Prelude
begin

text \<open>
  The contract of a metered resource: every step either leaves a meter or raises it by one,
  and raises it only while it is below its cap. Whatever the steps, a meter that starts at
  most at its cap stays there. The provider quotas and the comparison budget are instances.
  The second contract is for a meter that is read and raised in two steps; the lockout of the
  logins and the caps of the demo are instances of it.
\<close>

locale capped_meter =
  fixes inv :: "'s \<Rightarrow> bool"
    and step :: "'s \<Rightarrow> 's \<Rightarrow> bool"
    and used :: "'s \<Rightarrow> 'k \<Rightarrow> int"
    and cap :: "'k \<Rightarrow> int option"
  assumes inv_step: "inv s \<Longrightarrow> step s s' \<Longrightarrow> inv s'"
    and charge: "inv s \<Longrightarrow> step s s' \<Longrightarrow>
      used s' k \<le> used s k \<or> used s' k = used s k + 1 \<and> (\<forall>c. cap k = Some c \<longrightarrow> used s k < c)"
begin

lemma inv_steps: "step\<^sup>*\<^sup>* s s' \<Longrightarrow> inv s \<Longrightarrow> inv s'"
  by (induction rule: rtranclp_induct) (auto intro: inv_step)

lemma capped:
  assumes "step\<^sup>*\<^sup>* s s'" "inv s" "cap k = Some c" "used s k \<le> c"
  shows "used s' k \<le> c"
  using assms
proof (induction rule: rtranclp_induct)
  case (step y z)
  then have "inv y" by (blast intro: inv_steps)
  from charge[OF this step.hyps(2), of k] step show ?case by force
qed simp

end

text \<open>
  A meter that is looked at and raised in two separate steps, with others between them. \<open>waiting\<close>
  counts those who have looked and not yet finished, at most \<open>lanes\<close> of them. Only a meter below
  its cap lets anybody in, so it can end above the cap by those who were let in together.
\<close>

locale raced_meter =
  fixes inv :: "'s \<Rightarrow> bool"
    and step :: "'s \<Rightarrow> 's \<Rightarrow> bool"
    and used waiting :: "'s \<Rightarrow> 'k \<Rightarrow> nat"
    and cap :: "'k \<Rightarrow> nat"
    and lanes :: nat
  assumes inv_step: "inv s \<Longrightarrow> step s s' \<Longrightarrow> inv s'"
    and race: "inv s \<Longrightarrow> step s s' \<Longrightarrow>
      used s' k + waiting s' k \<le> used s k + waiting s k \<or> used s' k < cap k \<and> waiting s' k \<le> lanes"
begin

lemma inv_steps: "step\<^sup>*\<^sup>* s s' \<Longrightarrow> inv s \<Longrightarrow> inv s'"
  by (induction rule: rtranclp_induct) (auto intro: inv_step)

lemma bounded:
  assumes "step\<^sup>*\<^sup>* s s'" "inv s" "used s k + waiting s k < cap k + lanes"
  shows "used s' k < cap k + lanes"
proof -
  from assms have "used s' k + waiting s' k < cap k + lanes"
  proof (induction rule: rtranclp_induct)
    case (step y z)
    then have "inv y" by (blast intro: inv_steps)
    from race[OF this step.hyps(2), of k] step show ?case by linarith
  qed simp
  then show ?thesis by simp
qed

end

text \<open>One who leaves a list of those waiting.\<close>

lemma count_remove1:
  "x \<in> set w \<Longrightarrow> length (filter P w) = length (filter P (remove1 x w)) + (if P x then 1 else 0)"
  by (induction w) auto

end
