(* ===== verification/Model_Backend.thy ===== *)
theory Model_Backend
  imports Quota_Tracker Budget_Meter
begin

text \<open>
  \<^verbatim>\<open>p2_readonly_loop/model_backend.py\<close>: one call of one entry of the provider chain, plain or
  streamed, with the quota check before it and the accounting after it, and the walk down the
  chain. What is outside is a record of functions: the HTTP transport on a state of its own,
  the clock, \<^verbatim>\<open>os.environ\<close>, \<^verbatim>\<open>json.loads\<close> and \<^verbatim>\<open>math.exp\<close>. The prompt is any type: the callers
  pass the record of the values their template interpolates.
\<close>

section \<open>Results\<close>

record llm_result =
  lr_text :: string
  lr_parsed :: pydict
  lr_provider :: string
  lr_model :: string
  lr_tier :: string
  lr_confidence :: "rat option"
  lr_confidence_source :: "string option"
  lr_raw :: pyval
  lr_fingerprint :: pyval

text \<open>The details of a failure, one constructor per text the code builds.\<close>

datatype fail_detail =
    Timed_Out int string
  | Transport_Error string
  | Body string
  | Http_Status int string
  | Dumped pyval nat
  | Empty_Content pyval pyval
  | Empty_Stream nat
  | Stream_Error string
  | Daily_Limit rat rat
  | Skipped quota_reason
  | Invalid_Twice

record llm_failure =
  lf_provider :: string
  lf_model :: string
  lf_type :: string
  lf_detail :: fail_detail

datatype llm_reply = LLM_Result llm_result | LLM_Failure llm_failure

definition llm_fail :: "string \<Rightarrow> string \<Rightarrow> string \<Rightarrow> fail_detail \<Rightarrow> llm_reply" where
  "llm_fail provider model kind detail =
     LLM_Failure \<lparr>lf_provider = provider, lf_model = model, lf_type = kind, lf_detail = detail\<rparr>"

record llm_entry =
  le_provider :: string
  le_model :: string
  le_format :: string
  le_tier :: string
  le_max_tokens :: "nat option"

definition provider_chain :: "llm_entry list" where
  "provider_chain =
     [\<lparr>le_provider = ''cloudflare'', le_model = ''@cf/google/gemma-4-26b-a4b-it'',
       le_format = ''openai_compat'', le_tier = ''primary'', le_max_tokens = Some 3500\<rparr>,
      \<lparr>le_provider = ''deepinfra'', le_model = ''nvidia/Nemotron-3-Nano-30B-A3B'',
       le_format = ''openai_compat'', le_tier = ''primary'', le_max_tokens = Some 2000\<rparr>,
      \<lparr>le_provider = ''gemini'', le_model = ''gemini-3-flash-preview'',
       le_format = ''gemini_native'', le_tier = ''primary'', le_max_tokens = None\<rparr>,
      \<lparr>le_provider = ''cloudflare'', le_model = ''@cf/moonshotai/kimi-k2.6'',
       le_format = ''openai_compat'', le_tier = ''fallback'', le_max_tokens = Some 3500\<rparr>,
      \<lparr>le_provider = ''groq'', le_model = ''llama-3.3-70b-versatile'',
       le_format = ''openai_compat'', le_tier = ''fallback'', le_max_tokens = Some 500\<rparr>,
      \<lparr>le_provider = ''groq'', le_model = ''openai/gpt-oss-120b'',
       le_format = ''openai_compat'', le_tier = ''fallback'', le_max_tokens = Some 800\<rparr>,
      \<lparr>le_provider = ''openrouter'', le_model = ''openai/gpt-oss-20b:free'',
       le_format = ''openai_compat'', le_tier = ''fallback'', le_max_tokens = Some 800\<rparr>]"

section \<open>What is outside\<close>

record 'p http_request =
  rq_url :: string
  rq_key :: string
  rq_model :: string
  rq_system :: "'p option"
  rq_prompt :: 'p
  rq_temperature :: int
  rq_max_tokens :: "nat option"
  rq_logprobs :: bool
  rq_stream :: bool
  rq_timeout :: int

text \<open>\<open>rsp_lines\<close> are the lines a streamed reading yields before it ends, or breaks off with
  \<open>rsp_broken\<close>.\<close>

record http_response =
  rsp_status :: int
  rsp_text :: string
  rsp_lines :: "string list"
  rsp_broken :: "string option"

datatype http_outcome = Timeout | Request_Exception string | Response http_response

text \<open>\<open>net_now\<close> is the clock, \<open>net_tick\<close> what it says when \<^verbatim>\<open>record_call\<close> reads it once more.\<close>

record ('h, 'p) net =
  net_post :: "'p http_request \<Rightarrow> 'h \<Rightarrow> http_outcome \<times> 'h"
  net_now :: "'h \<Rightarrow> int"
  net_tick :: "'h \<Rightarrow> int"
  net_env :: "string \<Rightarrow> string option"
  net_loads :: "string \<Rightarrow> pyval option"
  net_exp :: "rat \<Rightarrow> rat"

record 'h llm_world =
  lw_quota :: quota_db
  lw_net :: 'h

definition world_now :: "('h, 'p) net \<Rightarrow> 'h llm_world \<Rightarrow> int" where
  "world_now N w = net_now N (lw_net w)"

definition post :: "('h, 'p) net \<Rightarrow> 'p http_request \<Rightarrow> ('h llm_world, http_outcome) step" where
  "post N rq w = (case net_post N rq (lw_net w) of (out, h) \<Rightarrow> (Inr out, w\<lparr>lw_net := h\<rparr>))"

definition res_step :: "'a res \<Rightarrow> ('w, 'a) step" where
  "res_step r w = (r, w)"

definition environ :: "('h, 'p) net \<Rightarrow> string \<Rightarrow> ('w, string) step" where
  "environ N k w = ((case net_env N k of None \<Rightarrow> Inl (KeyError k) | Some v \<Rightarrow> Inr v), w)"

section \<open>Reading an answer\<close>

text \<open>\<^verbatim>\<open>re.search(r"\\{.*\\}", text, re.DOTALL)\<close> is from the first brace to the last; a text that
  starts with a brace parses to an object or not at all.\<close>

definition braced :: "string \<Rightarrow> string" where
  "braced s = rev (dropWhile (\<lambda>c. c \<noteq> CHR ''}'') (rev (dropWhile (\<lambda>c. c \<noteq> CHR ''{'') s)))"

definition extract_json :: "('h, 'p) net \<Rightarrow> string \<Rightarrow> pydict option" where
  "extract_json N s =
     (if braced s = [] then None
      else case net_loads N (braced s) of Some (PDict d) \<Rightarrow> Some d | _ \<Rightarrow> None)"

definition resp_json :: "('h, 'p) net \<Rightarrow> http_response \<Rightarrow> pyval res" where
  "resp_json N rsp = (case net_loads N (rsp_text rsp) of None \<Rightarrow> Inl ValueError | Some v \<Rightarrow> Inr v)"

text \<open>The average of the logprobs; sums of doubles are rounded once.\<close>

definition entry_logprob :: "pyval \<Rightarrow> rat res" where
  "entry_logprob t = try_res (py_item t ''logprob'')
     (\<lambda>v. case as_num v of None \<Rightarrow> Inl TypeError | Some q \<Rightarrow> Inr q)"

fun all_res :: "'a res list \<Rightarrow> 'a list res" where
  "all_res [] = Inr []"
| "all_res (r # rs) = try_res r (\<lambda>a. map_sum id (\<lambda>xs. a # xs) (all_res rs))"

definition mean_logprob :: "pyval list \<Rightarrow> rat res" where
  "mean_logprob ts = map_sum id (\<lambda>qs. py_float (py_float (sum_list qs) / of_nat (length qs)))
     (all_res (List.map entry_logprob ts))"

text \<open>What iterating over a JSON value yields.\<close>

fun py_iter :: "pyval \<Rightarrow> pyval list res" where
  "py_iter (PList xs) = Inr xs"
| "py_iter (PStr s) = Inr (List.map (\<lambda>c. PStr [c]) s)"
| "py_iter (PDict d) = Inr (List.map PStr (dict_keys d))"
| "py_iter _ = Inl TypeError"

type_synonym llm_confidence = "rat option \<times> string option"

definition self_reported :: "pydict \<Rightarrow> llm_confidence" where
  "self_reported parsed =
     (case as_num (dict_get parsed ''confidence'') of
        None \<Rightarrow> (None, None)
      | Some q \<Rightarrow> (Some q, Some ''self_reported''))"

definition logprob_confidence :: "('h, 'p) net \<Rightarrow> rat \<Rightarrow> llm_confidence" where
  "logprob_confidence N q = (Some (net_exp N q), Some ''logprob'')"

definition llm_answer ::
    "string \<Rightarrow> pydict \<Rightarrow> string \<Rightarrow> string \<Rightarrow> string \<Rightarrow> pyval \<Rightarrow> pyval \<Rightarrow> llm_confidence \<Rightarrow> llm_reply" where
  "llm_answer text parsed provider model tier raw fingerprint c =
     LLM_Result \<lparr>lr_text = text, lr_parsed = parsed, lr_provider = provider, lr_model = model,
       lr_tier = tier, lr_confidence = fst c, lr_confidence_source = snd c, lr_raw = raw,
       lr_fingerprint = fingerprint\<rparr>"

text \<open>A text that is not a \<^verbatim>\<open>str\<close> makes \<^verbatim>\<open>re.search\<close> raise.\<close>

fun as_text :: "pyval \<Rightarrow> string res" where
  "as_text (PStr s) = Inr s"
| "as_text _ = Inl TypeError"

section \<open>Gemini\<close>

definition gemini_request ::
    "string \<Rightarrow> string \<Rightarrow> 'p \<Rightarrow> int \<Rightarrow> 'p option \<Rightarrow> bool \<Rightarrow> 'p http_request" where
  "gemini_request key model prompt timeout system logprobs =
     \<lparr>rq_url = ''https://generativelanguage.googleapis.com/v1beta/models'', rq_key = key,
      rq_model = model, rq_system = system, rq_prompt = prompt, rq_temperature = 0,
      rq_max_tokens = None, rq_logprobs = logprobs, rq_stream = False, rq_timeout = timeout\<rparr>"

text \<open>The candidate and its text; \<^verbatim>\<open>except (KeyError, IndexError)\<close> is around them.\<close>

definition gemini_candidate :: "pyval \<Rightarrow> (pyval \<times> pyval) res" where
  "gemini_candidate data =
     try_res (try_res (py_item data ''candidates'') py_first) (\<lambda>c.
     try_res (try_res (try_res (py_item c ''content'') (\<lambda>v. py_item v ''parts'')) py_first)
       (\<lambda>part. map_sum id (\<lambda>t. (c, t)) (py_item part ''text'')))"

fun lookup_error :: "py_error \<Rightarrow> bool" where
  "lookup_error (KeyError _) = True"
| "lookup_error IndexError = True"
| "lookup_error _ = False"

definition gemini_confidence :: "('h, 'p) net \<Rightarrow> pyval \<Rightarrow> pydict \<Rightarrow> llm_confidence res" where
  "gemini_confidence N candidate parsed =
     try_res (py_get candidate ''avgLogprobs'') (\<lambda>avg.
       if avg = PNone then Inr (self_reported parsed)
       else case as_num avg of None \<Rightarrow> Inl TypeError | Some q \<Rightarrow> Inr (logprob_confidence N q))"

definition gemini_answer :: "('h, 'p) net \<Rightarrow> string \<Rightarrow> http_response \<Rightarrow> llm_reply res" where
  "gemini_answer N model rsp =
     (if rsp_status rsp = 429
      then Inr (llm_fail ''gemini'' model ''rate_limited'' (Body (take 500 (rsp_text rsp))))
      else if rsp_status rsp \<noteq> 200
      then Inr (llm_fail ''gemini'' model ''bad_response''
                 (Http_Status (rsp_status rsp) (take 500 (rsp_text rsp))))
      else try_res (resp_json N rsp) (\<lambda>data.
        case gemini_candidate data of
          Inl e \<Rightarrow>
            if lookup_error e then Inr (llm_fail ''gemini'' model ''bad_response'' (Dumped data 500))
            else Inl e
        | Inr (candidate, t) \<Rightarrow>
            try_res (as_text t) (\<lambda>text.
              case extract_json N text of
                None \<Rightarrow> Inr (llm_fail ''gemini'' model ''parse_failure'' (Body (take 500 text)))
              | Some parsed \<Rightarrow>
                  try_res (gemini_confidence N candidate parsed) (\<lambda>c.
                    map_sum id (\<lambda>v. llm_answer text parsed ''gemini'' model ''primary'' data v c)
                      (py_get data ''modelVersion'')))))"

definition no_logprobs :: "http_response \<Rightarrow> bool" where
  "no_logprobs rsp \<longleftrightarrow> rsp_status rsp = 400 \<and> occurs_in ''Logprobs is not enabled'' (rsp_text rsp)"

definition call_gemini ::
    "('h, 'p) net \<Rightarrow> string \<Rightarrow> 'p \<Rightarrow> int \<Rightarrow> 'p option \<Rightarrow> ('h llm_world, llm_reply) step" where
  "call_gemini N model prompt timeout system =
     then_step (environ N ''GEMINI_API_KEY'') (\<lambda>key.
     then_step (post N (gemini_request key model prompt timeout system True)) (\<lambda>out.
       case out of
         Timeout \<Rightarrow> ret_step (llm_fail ''gemini'' model ''timeout'' (Timed_Out timeout []))
       | Request_Exception e \<Rightarrow> ret_step (llm_fail ''gemini'' model ''bad_response'' (Transport_Error e))
       | Response rsp \<Rightarrow>
           if \<not> no_logprobs rsp then res_step (gemini_answer N model rsp)
           else then_step (post N (gemini_request key model prompt timeout system False)) (\<lambda>out2.
             case out2 of
               Timeout \<Rightarrow> ret_step (llm_fail ''gemini'' model ''timeout''
                            (Timed_Out timeout ''logprobs-fallback retry''))
             | Request_Exception e \<Rightarrow>
                 ret_step (llm_fail ''gemini'' model ''bad_response'' (Transport_Error e))
             | Response rsp2 \<Rightarrow> res_step (gemini_answer N model rsp2))))"

section \<open>The OpenAI-compatible providers\<close>

definition key_env :: "string \<Rightarrow> string option" where
  "key_env provider =
     map_of [(''groq'', ''GROQ_API_KEY''), (''openrouter'', ''OPENROUTER_API_KEY''),
             (''cloudflare'', ''CLOUDFLARE_API_KEY''), (''deepinfra'', ''DEEPINFRA_API_KEY'')] provider"

definition api_key :: "('h, 'p) net \<Rightarrow> string \<Rightarrow> ('w, string) step" where
  "api_key N provider =
     (case key_env provider of
        None \<Rightarrow> res_step (Inl (KeyError provider)) | Some k \<Rightarrow> environ N k)"

text \<open>The chain's \<^verbatim>\<open>base_url\<close>, a function of the provider and the account.\<close>

definition base_url :: "('h, 'p) net \<Rightarrow> string \<Rightarrow> string" where
  "base_url N provider =
     (if provider = ''cloudflare'' then
        ''https://api.cloudflare.com/client/v4/accounts/'' @
        (case net_env N ''CLOUDFLARE_ACCOUNT_ID'' of None \<Rightarrow> [] | Some a \<Rightarrow> a) @
        ''/ai/v1/chat/completions''
      else if provider = ''deepinfra'' then ''https://api.deepinfra.com/v1/openai/chat/completions''
      else if provider = ''groq'' then ''https://api.groq.com/openai/v1/chat/completions''
      else ''https://openrouter.ai/api/v1/chat/completions'')"

definition wants_logprobs :: "string \<Rightarrow> bool" where
  "wants_logprobs provider \<longleftrightarrow> provider \<in> {''cloudflare'', ''deepinfra''}"

definition daily_exhaustion :: "string \<Rightarrow> string \<Rightarrow> bool" where
  "daily_exhaustion provider body \<longleftrightarrow>
     provider = ''cloudflare'' \<and> (occurs_in ''4006'' body \<or> occurs_in ''daily free allocation'' body)"

text \<open>The answers that are not 200; a Cloudflare 429 that says so marks the route exhausted.\<close>

definition bad_status ::
    "('h, 'p) net \<Rightarrow> string \<Rightarrow> string \<Rightarrow> http_response \<Rightarrow> 'h llm_world \<Rightarrow> llm_reply option \<times> 'h llm_world" where
  "bad_status N provider model rsp w =
     (let body = take 500 (rsp_text rsp) in
      if rsp_status rsp = 429 then
        (Some (llm_fail provider model ''rate_limited'' (Body body)),
         if daily_exhaustion provider body
         then w\<lparr>lw_quota := mark_exhausted (provider, model)
                   (Some ''Cloudflare 4006: daily free Neuron allocation exhausted'')
                   (world_now N w) (lw_quota w)\<rparr>
         else w)
      else if rsp_status rsp \<noteq> 200 then
        (Some (llm_fail provider model ''bad_response'' (Http_Status (rsp_status rsp) body)), w)
      else (None, w))"

definition chat_message :: "pyval \<Rightarrow> (pyval \<times> pyval) res" where
  "chat_message data =
     try_res (try_res (py_item data ''choices'') py_first) (\<lambda>choice.
     try_res (py_item choice ''message'') (\<lambda>message.
       map_sum id (\<lambda>t. (choice, t)) (py_get message ''content'')))"

definition reasoning_tokens :: "pyval \<Rightarrow> pyval res" where
  "reasoning_tokens data =
     try_res (py_get_or data ''usage'' (PDict [])) (\<lambda>u.
     try_res (py_get_or u ''completion_tokens_details'' (PDict [])) (\<lambda>d. py_get d ''reasoning_tokens''))"

text \<open>\<^verbatim>\<open>(choice.get("logprobs") or {}).get("content")\<close>.\<close>

definition choice_logprobs :: "pyval \<Rightarrow> pyval res" where
  "choice_logprobs choice =
     try_res (py_get choice ''logprobs'') (\<lambda>l. py_get (py_or l (PDict [])) ''content'')"

definition chat_confidence :: "('h, 'p) net \<Rightarrow> string \<Rightarrow> pyval \<Rightarrow> pydict \<Rightarrow> llm_confidence res" where
  "chat_confidence N provider choice parsed =
     try_res (if wants_logprobs provider then choice_logprobs choice else Inr PNone) (\<lambda>content.
       if truthy content
       then try_res (try_res (py_iter content) mean_logprob) (\<lambda>q. Inr (logprob_confidence N q))
       else Inr (self_reported parsed))"

definition chat_answer ::
    "('h, 'p) net \<Rightarrow> string \<Rightarrow> string \<Rightarrow> string \<Rightarrow> http_response \<Rightarrow> llm_reply res" where
  "chat_answer N provider model tier rsp =
     try_res (resp_json N rsp) (\<lambda>data.
       case chat_message data of
         Inl e \<Rightarrow>
           if lookup_error e then Inr (llm_fail provider model ''bad_response'' (Dumped data 500))
           else Inl e
       | Inr (choice, t) \<Rightarrow>
           if \<not> truthy t then
             map_sum id (\<lambda>n. llm_fail provider model ''bad_response'' (Empty_Content n data))
               (reasoning_tokens data)
           else try_res (as_text t) (\<lambda>text.
             case extract_json N text of
               None \<Rightarrow> Inr (llm_fail provider model ''parse_failure'' (Body (take 500 text)))
             | Some parsed \<Rightarrow>
                 try_res (chat_confidence N provider choice parsed) (\<lambda>c.
                   map_sum id (\<lambda>v. llm_answer text parsed provider model tier data v c)
                     (py_get data ''system_fingerprint''))))"

definition chat_request ::
    "string \<Rightarrow> string \<Rightarrow> string \<Rightarrow> 'p \<Rightarrow> int \<Rightarrow> nat \<Rightarrow> 'p option \<Rightarrow> bool \<Rightarrow> bool \<Rightarrow> 'p http_request" where
  "chat_request url key model prompt timeout max_tokens system logprobs stream =
     \<lparr>rq_url = url, rq_key = key, rq_model = model, rq_system = system, rq_prompt = prompt,
      rq_temperature = 0, rq_max_tokens = Some max_tokens, rq_logprobs = logprobs,
      rq_stream = stream, rq_timeout = timeout\<rparr>"

definition call_openai_compat ::
    "('h, 'p) net \<Rightarrow> string \<Rightarrow> string \<Rightarrow> string \<Rightarrow> 'p \<Rightarrow> int \<Rightarrow> nat \<Rightarrow> string \<Rightarrow> 'p option
       \<Rightarrow> ('h llm_world, llm_reply) step" where
  "call_openai_compat N provider url model prompt timeout max_tokens tier system =
     then_step (api_key N provider) (\<lambda>key.
     then_step (post N (chat_request url key model prompt timeout max_tokens system
                          (wants_logprobs provider) False)) (\<lambda>out.
       case out of
         Timeout \<Rightarrow> ret_step (llm_fail provider model ''timeout'' (Timed_Out timeout []))
       | Request_Exception e \<Rightarrow> ret_step (llm_fail provider model ''bad_response'' (Transport_Error e))
       | Response rsp \<Rightarrow> (\<lambda>w.
           case bad_status N provider model rsp w of
             (Some f, w1) \<Rightarrow> (Inr f, w1)
           | (None, w1) \<Rightarrow> (chat_answer N provider model tier rsp, w1))))"

section \<open>The streamed call\<close>

definition streaming_capable :: "string \<Rightarrow> bool" where
  "streaming_capable provider \<longleftrightarrow> provider \<in> {''cloudflare''}"

text \<open>What the reading of the lines has gathered. The two callbacks get the elements of the
  reasoning and content parts as they are appended.\<close>

record stream_state =
  ss_content :: "pyval list"
  ss_reasoning :: "pyval list"
  ss_logprobs :: "pyval list"
  ss_usage :: pyval
  ss_fingerprint :: pyval

definition stream_start :: stream_state where
  "stream_start = \<lparr>ss_content = [], ss_reasoning = [], ss_logprobs = [], ss_usage = PNone,
     ss_fingerprint = PNone\<rparr>"

definition append_if :: "pyval \<Rightarrow> pyval list \<Rightarrow> pyval list" where
  "append_if v vs = (if truthy v then vs @ [v] else vs)"

text \<open>One choice of a chunk: its delta, then its logprobs.\<close>

definition stream_choice :: "pyval \<Rightarrow> stream_state \<Rightarrow> stream_state res" where
  "stream_choice choice st =
     try_res (py_get_or choice ''delta'' (PDict [])) (\<lambda>delta.
     try_res (py_get delta ''reasoning_content'') (\<lambda>r1.
     try_res (if truthy r1 then Inr r1 else py_get delta ''reasoning'') (\<lambda>r.
     try_res (py_get delta ''content'') (\<lambda>c.
     try_res (choice_logprobs choice) (\<lambda>l.
     try_res (if truthy l then py_iter l else Inr []) (\<lambda>ls.
       Inr (st\<lparr>ss_reasoning := append_if r (ss_reasoning st),
               ss_content := append_if c (ss_content st),
               ss_logprobs := ss_logprobs st @ ls\<rparr>)))))))"

definition stream_chunk :: "pyval \<Rightarrow> stream_state \<Rightarrow> stream_state res" where
  "stream_chunk chunk st =
     try_res (py_get_or chunk ''system_fingerprint'' (ss_fingerprint st)) (\<lambda>fp.
     try_res (py_get chunk ''usage'') (\<lambda>u.
     try_res (py_get chunk ''choices'') (\<lambda>choices.
       let st1 = st\<lparr>ss_fingerprint := fp, ss_usage := (if truthy u then u else ss_usage st)\<rparr> in
       if \<not> truthy choices then Inr st1
       else try_res (py_first choices) (\<lambda>choice. stream_choice choice st1))))"

text \<open>The lines up to \<^verbatim>\<open>[DONE]\<close>; the flag says that it was seen.\<close>

fun read_stream ::
    "('h, 'p) net \<Rightarrow> string list \<Rightarrow> stream_state \<Rightarrow> (stream_state \<times> bool) res" where
  "read_stream N [] st = Inr (st, False)"
| "read_stream N (line # lines) st =
     (if \<not> is_prefix ''data:'' line then read_stream N lines st
      else
        let payload = py_strip (drop 5 line) in
        if payload = ''[DONE]'' then Inr (st, True)
        else case net_loads N payload of
          None \<Rightarrow> read_stream N lines st
        | Some chunk \<Rightarrow> try_res (stream_chunk chunk st) (read_stream N lines))"

definition join_texts :: "pyval list \<Rightarrow> string res" where
  "join_texts vs = map_sum id concat (all_res (List.map as_text vs))"

definition stream_raw :: "stream_state \<Rightarrow> string \<Rightarrow> pyval" where
  "stream_raw st reasoning =
     PDict [(''streamed'', PBool True), (''usage'', py_or (ss_usage st) (PDict [])),
            (''system_fingerprint'', ss_fingerprint st), (''reasoning_text'', PStr reasoning)]"

definition stream_confidence :: "('h, 'p) net \<Rightarrow> stream_state \<Rightarrow> pydict \<Rightarrow> llm_confidence res" where
  "stream_confidence N st parsed =
     (if ss_logprobs st \<noteq> []
      then try_res (mean_logprob (ss_logprobs st)) (\<lambda>q. Inr (logprob_confidence N q))
      else Inr (self_reported parsed))"

definition stream_answer ::
    "('h, 'p) net \<Rightarrow> string \<Rightarrow> string \<Rightarrow> string \<Rightarrow> http_response \<Rightarrow> llm_reply res" where
  "stream_answer N provider model tier rsp =
     try_res (read_stream N (rsp_lines rsp) stream_start) (\<lambda>(st, done).
       case (if done then None else rsp_broken rsp) of
         Some e \<Rightarrow> Inr (llm_fail provider model ''bad_response'' (Stream_Error e))
       | None \<Rightarrow>
           try_res (join_texts (ss_content st)) (\<lambda>text.
           if text = [] then
             map_sum id (\<lambda>r. llm_fail provider model ''bad_response'' (Empty_Stream (length r)))
               (join_texts (ss_reasoning st))
           else case extract_json N text of
             None \<Rightarrow> Inr (llm_fail provider model ''parse_failure'' (Body (take 500 text)))
           | Some parsed \<Rightarrow>
               try_res (stream_confidence N st parsed) (\<lambda>c.
               map_sum id (\<lambda>r. llm_answer text parsed provider model tier (stream_raw st r)
                                 (ss_fingerprint st) c)
                 (join_texts (ss_reasoning st)))))"

definition call_openai_compat_streaming ::
    "('h, 'p) net \<Rightarrow> string \<Rightarrow> string \<Rightarrow> string \<Rightarrow> 'p \<Rightarrow> int \<Rightarrow> nat \<Rightarrow> string \<Rightarrow> 'p option
       \<Rightarrow> ('h llm_world, llm_reply) step" where
  "call_openai_compat_streaming N provider url model prompt timeout max_tokens tier system =
     then_step (if provider \<in> {''cloudflare'', ''deepinfra''} then api_key N provider
                else res_step (Inl (KeyError provider))) (\<lambda>key.
     then_step (post N (chat_request url key model prompt timeout max_tokens system True True)) (\<lambda>out.
       case out of
         Timeout \<Rightarrow> ret_step (llm_fail provider model ''timeout'' (Timed_Out timeout ''streaming''))
       | Request_Exception e \<Rightarrow> ret_step (llm_fail provider model ''bad_response'' (Transport_Error e))
       | Response rsp \<Rightarrow> (\<lambda>w.
           case bad_status N provider model rsp w of
             (Some f, w1) \<Rightarrow> (Inr f, w1)
           | (None, w1) \<Rightarrow> (stream_answer N provider model tier rsp, w1))))"

section \<open>One accounted call\<close>

text \<open>\<^verbatim>\<open>_extract_total_tokens\<close>, \<^verbatim>\<open>_extract_neurons\<close>. A count that is no number (a text, a list),
  or a number of tokens that is not whole, is outside the model and raises here.\<close>

definition number_or_0 :: "pyval \<Rightarrow> rat res" where
  "number_or_0 v =
     (if \<not> truthy v then Inr 0 else case as_num v of None \<Rightarrow> Inl TypeError | Some q \<Rightarrow> Inr q)"

definition raw_usage :: "pyval \<Rightarrow> string \<Rightarrow> string \<Rightarrow> rat res" where
  "raw_usage raw block field =
     try_res (py_get_or raw block (PDict [])) (\<lambda>u. try_res (py_get u field) number_or_0)"

definition extract_total_tokens :: "llm_reply \<Rightarrow> int res" where
  "extract_total_tokens reply =
     (case reply of
        LLM_Failure _ \<Rightarrow> Inr 0
      | LLM_Result r \<Rightarrow>
          if \<not> truthy (lr_raw r) then Inr 0
          else try_res
            (if lr_provider r = ''gemini'' then raw_usage (lr_raw r) ''usageMetadata'' ''totalTokenCount''
             else raw_usage (lr_raw r) ''usage'' ''total_tokens'')
            (\<lambda>q. if q = of_int (floor q) then Inr (floor q) else Inl TypeError))"

definition extract_neurons :: "llm_reply \<Rightarrow> rat res" where
  "extract_neurons reply =
     (case reply of
        LLM_Failure _ \<Rightarrow> Inr 0
      | LLM_Result r \<Rightarrow>
          if \<not> truthy (lr_raw r) \<or> lr_provider r \<noteq> ''cloudflare'' then Inr 0
          else raw_usage (lr_raw r) ''usage'' ''neurons'')"

definition route_of :: "llm_entry \<Rightarrow> route" where
  "route_of e = (le_provider e, le_model e)"

definition quota_failure :: "llm_entry \<Rightarrow> quota_check \<Rightarrow> llm_reply" where
  "quota_failure e q =
     llm_fail (le_provider e) (le_model e) ''quota_exhausted''
       (case (qc_used q, qc_limit q) of
          (Some used, Some limit) \<Rightarrow> Daily_Limit used limit
        | _ \<Rightarrow> Skipped (case qc_reason q of None \<Rightarrow> Marked ''marked exhausted'' | Some why \<Rightarrow> why))"

text \<open>The accounting after a request: the call is recorded, and a result clears the mark.\<close>

definition account ::
    "('h, 'p) net \<Rightarrow> llm_entry \<Rightarrow> string option \<Rightarrow> llm_reply \<Rightarrow> ('h llm_world, llm_reply) step" where
  "account N e episode reply w =
     (case (extract_total_tokens reply, extract_neurons reply) of
        (Inl err, _) \<Rightarrow> (Inl err, w)
      | (_, Inl err) \<Rightarrow> (Inl err, w)
      | (Inr tokens, Inr neurons) \<Rightarrow>
          let q = record_call (route_of e) tokens neurons episode (world_now N w) (net_tick N (lw_net w)) (lw_quota w)
          in (Inr reply,
              w\<lparr>lw_quota := (case reply of LLM_Result _ \<Rightarrow> clear_exhausted (route_of e) q
                                         | LLM_Failure _ \<Rightarrow> q)\<rparr>))"

text \<open>The check before a request.\<close>

definition metered ::
    "('h, 'p) net \<Rightarrow> llm_entry \<Rightarrow> string option \<Rightarrow> ('h llm_world, llm_reply) step
       \<Rightarrow> ('h llm_world, llm_reply) step" where
  "metered N e episode send w =
     (let q = check_quota (route_of e) (world_now N w) (lw_quota w) in
      if qc_status q = Quota_Exhausted then (Inr (quota_failure e q), w)
      else then_step send (account N e episode) w)"

definition max_tokens_of :: "llm_entry \<Rightarrow> nat" where
  "max_tokens_of e = (case le_max_tokens e of None \<Rightarrow> 500 | Some n \<Rightarrow> n)"

definition send_plain ::
    "('h, 'p) net \<Rightarrow> llm_entry \<Rightarrow> 'p \<Rightarrow> int \<Rightarrow> 'p option \<Rightarrow> ('h llm_world, llm_reply) step" where
  "send_plain N e prompt timeout system =
     (if le_format e = ''gemini_native'' then call_gemini N (le_model e) prompt timeout system
      else call_openai_compat N (le_provider e) (base_url N (le_provider e)) (le_model e) prompt
             timeout (max_tokens_of e) (le_tier e) system)"

definition call_one ::
    "('h, 'p) net \<Rightarrow> llm_entry \<Rightarrow> 'p \<Rightarrow> int \<Rightarrow> 'p option \<Rightarrow> string option
       \<Rightarrow> ('h llm_world, llm_reply) step" where
  "call_one N e prompt timeout system episode = metered N e episode (send_plain N e prompt timeout system)"

definition call_one_streaming ::
    "('h, 'p) net \<Rightarrow> llm_entry \<Rightarrow> 'p \<Rightarrow> int \<Rightarrow> 'p option \<Rightarrow> string option
       \<Rightarrow> ('h llm_world, llm_reply) step" where
  "call_one_streaming N e prompt timeout system episode =
     (if \<not> streaming_capable (le_provider e) \<or> le_format e \<noteq> ''openai_compat''
      then res_step (Inl ValueError)
      else metered N e episode
        (call_openai_compat_streaming N (le_provider e) (base_url N (le_provider e)) (le_model e)
           prompt timeout (max_tokens_of e) (le_tier e) system))"

text \<open>\<^verbatim>\<open>call_chain\<close>: the entries in order, up to the first result; the failures before it are
  returned with it. \<open>call\<close> is \<^verbatim>\<open>call_one\<close> on the prompt.\<close>

fun walk_chain ::
    "(llm_entry \<Rightarrow> ('w, llm_reply) step) \<Rightarrow> llm_entry list
       \<Rightarrow> ('w, llm_result option \<times> llm_failure list) step" where
  "walk_chain call [] = ret_step (None, [])"
| "walk_chain call (e # es) =
     then_step (call e) (\<lambda>reply.
       case reply of
         LLM_Result r \<Rightarrow> ret_step (Some r, [])
       | LLM_Failure f \<Rightarrow> map_step (\<lambda>(r, fs). (r, f # fs)) (walk_chain call es))"

definition call_chain ::
    "('h, 'p) net \<Rightarrow> 'p \<Rightarrow> llm_entry list option \<Rightarrow> int
       \<Rightarrow> ('h llm_world, llm_result option \<times> llm_failure list) step" where
  "call_chain N prompt chain timeout =
     walk_chain (\<lambda>e. call_one N e prompt timeout None None)
       (case chain of None \<Rightarrow> provider_chain | Some es \<Rightarrow> es)"

section \<open>What a request leaves alone\<close>

text \<open>The transport's clock does not run backwards.\<close>

definition clock_runs :: "('h, 'p) net \<Rightarrow> bool" where
  "clock_runs N \<longleftrightarrow> (\<forall>rq h. net_now N h \<le> net_now N (snd (net_post N rq h)))"

text \<open>Sending takes time and may mark a route; it touches no count.\<close>

definition only_waits :: "('h, 'p) net \<Rightarrow> 'h llm_world \<Rightarrow> 'h llm_world \<Rightarrow> bool" where
  "only_waits N w w' \<longleftrightarrow> world_now N w \<le> world_now N w' \<and>
     usage_rows (lw_quota w') = usage_rows (lw_quota w) \<and>
     call_rows (lw_quota w') = call_rows (lw_quota w) \<and>
     (quota_run (world_now N w) (lw_quota w) \<longrightarrow> quota_run (world_now N w') (lw_quota w'))"

lemma only_waits_refl [simp]: "only_waits N w w"
  by (simp add: only_waits_def)

lemma only_waits_trans: "only_waits N w w1 \<Longrightarrow> only_waits N w1 w2 \<Longrightarrow> only_waits N w w2"
  by (auto simp: only_waits_def)

lemma post_waits: "clock_runs N \<Longrightarrow> post N rq w = (r, w') \<Longrightarrow> only_waits N w w'"
proof -
  assume clock: "clock_runs N" and p: "post N rq w = (r, w')"
  obtain out h where o: "net_post N rq (lw_net w) = (out, h)" by fastforce
  with p have w': "w' = w\<lparr>lw_net := h\<rparr>" by (simp add: post_def)
  have "net_now N (lw_net w) \<le> net_now N (snd (net_post N rq (lw_net w)))"
    using clock unfolding clock_runs_def by blast
  then have "net_now N (lw_net w) \<le> net_now N h" by (simp add: o)
  then show ?thesis by (auto simp: w' only_waits_def world_now_def dest: quota_run.waited)
qed

lemma bad_status_waits: "bad_status N provider model rsp w = (r, w') \<Longrightarrow> only_waits N w w'"
  by (auto simp: bad_status_def Let_def only_waits_def world_now_def frame intro: quota_run.marked
      split: if_splits)

lemma res_step_eq [simp]: "res_step x w = (y, w') \<longleftrightarrow> y = x \<and> w' = w"
  by (auto simp: res_step_def)

lemma environ_quiet: "environ N k w = (r, w') \<Longrightarrow> w' = w"
  by (simp add: environ_def)

lemma api_key_quiet: "api_key N provider w = (r, w') \<Longrightarrow> w' = w"
  by (auto simp: api_key_def split: option.splits dest: environ_quiet)

lemma then_waits:
  assumes "then_step m f w = (r, w')"
    and "\<And>x w1. m w = (x, w1) \<Longrightarrow> only_waits N w w1"
    and "\<And>a w1. m w = (Inr a, w1) \<Longrightarrow> f a w1 = (r, w') \<Longrightarrow> only_waits N w1 w'"
  shows "only_waits N w w'"
proof (cases "m w")
  case (Pair x w1)
  then show ?thesis
    using assms by (cases x) (auto simp: then_step_def intro: only_waits_trans)
qed

lemma call_gemini_waits:
  assumes "clock_runs N" "call_gemini N model prompt timeout system w = (r, w')"
  shows "only_waits N w w'"
  using assms(2) unfolding call_gemini_def
  by (elim then_waits)
     (auto dest!: environ_quiet dest: post_waits[OF assms(1)] split: http_outcome.splits if_splits
       elim!: then_waits)

lemma chat_waits:
  assumes "clock_runs N"
    and "then_step key (\<lambda>k. then_step (post N (rq k)) (\<lambda>out.
       case out of Timeout \<Rightarrow> ret_step f1 | Request_Exception e \<Rightarrow> ret_step (f2 e)
       | Response rsp \<Rightarrow> (\<lambda>w. case bad_status N provider model rsp w of
             (Some f, w1) \<Rightarrow> (Inr f, w1) | (None, w1) \<Rightarrow> (answer rsp, w1)))) w = (r, w')"
    and "\<And>x w1. key w = (x, w1) \<Longrightarrow> w1 = w"
  shows "only_waits N w w'"
  using assms(2)
  by (elim then_waits)
     (auto dest!: assms(3) dest: post_waits[OF assms(1)] bad_status_waits
       split: http_outcome.splits prod.splits option.splits)

lemma send_plain_waits:
  assumes "clock_runs N" "send_plain N e prompt timeout system w = (r, w')"
  shows "only_waits N w w'"
proof (cases "le_format e = ''gemini_native''")
  case True
  with assms show ?thesis by (simp add: send_plain_def call_gemini_waits)
next
  case False
  with assms(2) show ?thesis
    by (simp add: send_plain_def call_openai_compat_def)
       (erule chat_waits[OF assms(1)], erule api_key_quiet)
qed

lemma send_streaming_waits:
  assumes "clock_runs N"
    and "call_openai_compat_streaming N p url m prompt timeout mt tier system w = (r, w')"
  shows "only_waits N w w'"
  using assms(2) unfolding call_openai_compat_streaming_def
  by (rule chat_waits[OF assms(1)]) (auto split: if_splits dest: api_key_quiet)

section \<open>What a metered call does\<close>

lemma account_cases:
  assumes "account N e episode reply w = (r, w')"
  obtains (failed) err where "r = Inl err" "w' = w"
  | (recorded) tokens neurons where "r = Inr reply" "lw_net w' = lw_net w"
      "extract_total_tokens reply = Inr tokens" "extract_neurons reply = Inr neurons"
      "lw_quota w' =
         (let q = record_call (route_of e) tokens neurons episode (world_now N w) (net_tick N (lw_net w)) (lw_quota w)
          in case reply of LLM_Result _ \<Rightarrow> clear_exhausted (route_of e) q | LLM_Failure _ \<Rightarrow> q)"
  using assms by (auto simp: account_def Let_def split: sum.splits)

lemma metered_cases:
  assumes "metered N e episode send w = (r, w')"
  obtains (closed) "\<not> may_send (route_of e) (world_now N w) (lw_quota w)" "w' = w"
      "r = Inr (quota_failure e (check_quota (route_of e) (world_now N w) (lw_quota w)))"
  | (raised) err where "may_send (route_of e) (world_now N w) (lw_quota w)" "send w = (Inl err, w')"
      "r = Inl err"
  | (sent) reply w1 where "may_send (route_of e) (world_now N w) (lw_quota w)" "send w = (Inr reply, w1)"
      "account N e episode reply w1 = (r, w')"
  using assms by (auto simp: metered_def may_send_def Let_def then_step_def split: if_splits sum.splits prod.splits)

text \<open>The tables of \<open>q'\<close> are those of \<open>q\<close> with at most one more call, of route \<open>r\<close> at \<open>t\<close>.\<close>

definition charged :: "route \<Rightarrow> int \<Rightarrow> quota_db \<Rightarrow> quota_db \<Rightarrow> bool" where
  "charged r t q q' \<longleftrightarrow> (\<forall>r' t'. get_today_usage r' t' q' = get_today_usage r' t' q \<or>
     r' = r \<and> utc_day t' = utc_day t \<and> get_today_usage r' t' q' = get_today_usage r' t' q + 1)"

lemma account_charged:
  assumes "account N e episode reply w = (r, w')"
  shows "charged (route_of e) (world_now N w) (lw_quota w) (lw_quota w')"
    "world_now N w' = world_now N w"
    "quota_run (world_now N w) (lw_quota w) \<Longrightarrow> quota_run (world_now N w) (lw_quota w')"
  using assms
  by (cases rule: account_cases; cases reply;
      auto simp: charged_def usage_after_record world_now_def Let_def
        intro: quota_run.recorded quota_run.cleared)+

lemma only_waits_usage:
  "only_waits N w w' \<Longrightarrow> get_today_usage r t (lw_quota w') = get_today_usage r t (lw_quota w)"
  by (simp add: only_waits_def get_today_usage_def)

lemma metered_step:
  assumes "metered N e episode send w = (r, w')"
    and waits: "\<And>x w1. send w = (x, w1) \<Longrightarrow> only_waits N w w1"
    and run: "quota_run (world_now N w) (lw_quota w)"
  shows "quota_run (world_now N w') (lw_quota w') \<and> world_now N w \<le> world_now N w' \<and>
    charged (route_of e) (world_now N w') (lw_quota w) (lw_quota w') \<and>
    (w' = w \<or> may_send (route_of e) (world_now N w) (lw_quota w))"
  using assms(1)
proof (cases rule: metered_cases)
  case (raised err)
  with waits[OF raised(2)] run show ?thesis
    by (simp add: only_waits_def charged_def get_today_usage_def)
next
  case (sent reply w1)
  note a = account_charged[OF sent(3)] and o = waits[OF sent(2)]
  from a o have "charged (route_of e) (world_now N w') (lw_quota w) (lw_quota w')"
    by (simp add: charged_def only_waits_usage)
  with a o run sent show ?thesis by (simp add: only_waits_def)
qed (use run in \<open>auto simp: charged_def\<close>)

section \<open>The daily limits, over any sequence of calls\<close>

inductive backend_step :: "('h, 'p) net \<Rightarrow> 'h llm_world \<Rightarrow> 'h llm_world \<Rightarrow> bool" for N where
  plain: "call_one N e prompt timeout system episode w = (r, w') \<Longrightarrow> backend_step N w w'"
| streamed: "call_one_streaming N e prompt timeout system episode w = (r, w') \<Longrightarrow> backend_step N w w'"

inductive_cases backend_stepE: "backend_step N w w'"

lemma backend_step_metered:
  assumes "clock_runs N" "backend_step N w w'"
  obtains (same) "w' = w"
  | (metered) e episode send r where "metered N e episode send w = (r, w')"
      "\<And>x w1. send w = (x, w1) \<Longrightarrow> only_waits N w w1"
  using assms(2)
proof (cases rule: backend_step.cases)
  case (plain e prompt timeout system episode r)
  then show thesis
    using send_plain_waits[OF assms(1)] metered by (fastforce simp: call_one_def)
next
  case (streamed e prompt timeout system episode r)
  then show thesis
    using send_streaming_waits[OF assms(1)] metered same
    by (fastforce simp: call_one_streaming_def split: if_splits)
qed

definition world_ok :: "('h, 'p) net \<Rightarrow> 'h llm_world \<Rightarrow> bool" where
  "world_ok N w \<longleftrightarrow> clock_runs N \<and> quota_run (world_now N w) (lw_quota w)"

text \<open>A call recorded on the day of its check was below the limit then; one recorded after
  midnight is the first of its day.\<close>

lemma usage_same_day: "utc_day t = utc_day t' \<Longrightarrow> get_today_usage r t q = get_today_usage r t' q"
  by (simp add: get_today_usage_def)

lemma charge_below_limit:
  assumes "quota_run now q" "may_send r now q" "now \<le> now'" "utc_day t = utc_day now'"
    and "known_daily_limits r = Some c"
  shows "get_today_usage r t q < c"
proof (cases "utc_day now = utc_day now'")
  case True
  then show ?thesis
    using may_send_below[OF assms(2,5)] usage_same_day[of t now r q] assms(4) by simp
next
  case False
  then have "utc_day now < utc_day t"
    using utc_day_mono[OF assms(3)] assms(4) by simp
  from fresh_day(1)[OF assms(1) this, of r] limits_positive[OF assms(5)] show ?thesis
    by (simp add: get_today_usage_def)
qed

interpretation quota: capped_meter "world_ok N" "backend_step N"
    "\<lambda>w (r, t). get_today_usage r t (lw_quota w)" "\<lambda>(r, t). known_daily_limits r" for N
proof unfold_locales
  fix w w' :: "'a llm_world" and k :: "route \<times> int"
  assume ok: "world_ok N w" and step: "backend_step N w w'"
  obtain r t where k: "k = (r, t)" by (cases k)
  from ok have "clock_runs N" and run: "quota_run (world_now N w) (lw_quota w)"
    by (simp_all add: world_ok_def)
  from this(1) step have "world_ok N w' \<and>
      (get_today_usage r t (lw_quota w') \<le> get_today_usage r t (lw_quota w) \<or>
       get_today_usage r t (lw_quota w') = get_today_usage r t (lw_quota w) + 1 \<and>
       (\<forall>c. known_daily_limits r = Some c \<longrightarrow> get_today_usage r t (lw_quota w) < c))"
  proof (cases rule: backend_step_metered)
    case same
    with ok show ?thesis by simp
  next
    case (metered e episode send x)
    have m: "quota_run (world_now N w') (lw_quota w') \<and> world_now N w \<le> world_now N w' \<and>
        charged (route_of e) (world_now N w') (lw_quota w) (lw_quota w') \<and>
        (w' = w \<or> may_send (route_of e) (world_now N w) (lw_quota w))"
      by (rule metered_step[OF metered(1) _ run]) (rule metered(2))
    then have ok': "world_ok N w'" using ok by (simp add: world_ok_def)
    show ?thesis
    proof (cases "get_today_usage r t (lw_quota w') = get_today_usage r t (lw_quota w)")
      case True
      with ok' show ?thesis by simp
    next
      case False
      then have now: "r = route_of e" "utc_day t = utc_day (world_now N w')"
        and plus: "get_today_usage r t (lw_quota w') = get_today_usage r t (lw_quota w) + 1"
        using m unfolding charged_def by blast+
      from False have "w' \<noteq> w" by auto
      with m now show ?thesis
        using ok' plus charge_below_limit[OF run, of r "world_now N w'" t] by simp
    qed
  qed
  then show "world_ok N w'"
    and "(case k of (r, t) \<Rightarrow> get_today_usage r t (lw_quota w')) \<le>
          (case k of (r, t) \<Rightarrow> get_today_usage r t (lw_quota w)) \<or>
        (case k of (r, t) \<Rightarrow> get_today_usage r t (lw_quota w')) =
          (case k of (r, t) \<Rightarrow> get_today_usage r t (lw_quota w)) + 1 \<and>
        (\<forall>c. (case k of (r, t) \<Rightarrow> known_daily_limits r) = Some c \<longrightarrow>
          (case k of (r, t) \<Rightarrow> get_today_usage r t (lw_quota w)) < c)"
    by (simp_all add: k)
qed

section \<open>Properties\<close>

text \<open>A transport for the examples: the clock is its state and ticks with every request, every
  answer is the given one, and no text is JSON.\<close>

definition demo_net :: "(int \<Rightarrow> http_outcome) \<Rightarrow> (int, unit) net" where
  "demo_net answer = \<lparr>net_post = (\<lambda>rq h. (answer h, h + 1)), net_now = (\<lambda>h. h), net_tick = (\<lambda>h. h),
     net_env = (\<lambda>_. Some ''key''), net_loads = (\<lambda>_. None), net_exp = (\<lambda>q. q)\<rparr>"

definition plain_response :: "int \<Rightarrow> string \<Rightarrow> http_outcome" where
  "plain_response status text =
     Response \<lparr>rsp_status = status, rsp_text = text, rsp_lines = [], rsp_broken = None\<rparr>"

definition fresh_world :: "int llm_world" where
  "fresh_world = \<lparr>lw_quota = empty_quota, lw_net = 0\<rparr>"

definition gemini_entry :: llm_entry where
  "gemini_entry = \<lparr>le_provider = ''gemini'', le_model = ''gemini-3-flash-preview'',
     le_format = ''gemini_native'', le_tier = ''primary'', le_max_tokens = None\<rparr>"

lemma fresh_gemini_open: "may_send (''gemini'', ''gemini-3-flash-preview'') t empty_quota"
  by (simp add: may_send_def check_quota_def is_marked_exhausted_def empty_quota_def
      get_today_usage_def known_daily_limits_def fmul_def warn_fraction_def)

lemma demo_clock_runs [simp]: "clock_runs (demo_net answer)"
  by (simp add: clock_runs_def demo_net_def)

lemma fresh_world_run: "quota_run 0 (lw_quota fresh_world)"
  by (simp add: fresh_world_def quota_run.began)

text \<open>C10: no sequence of calls, plain or streamed, of any entries, records more calls of a route
  on a UTC day than the route's daily limit, also when a request spans midnight.\<close>

theorem daily_limits_hold:
  assumes clock: "\<And>rq h. net_now N h \<le> net_now N (snd (net_post N rq h))"
    and "quota_run (net_now N (lw_net w)) (lw_quota w)"
    and "(backend_step N)\<^sup>*\<^sup>* w w'"
    and "known_daily_limits r = Some limit"
    and "get_today_usage r t (lw_quota w) \<le> limit"
  shows "get_today_usage r t (lw_quota w') \<le> limit"
proof -
  have "world_ok N w" using clock assms(2) by (simp add: world_ok_def clock_runs_def world_now_def)
  from quota.capped[OF assms(3) this, of "(r, t)" limit] assms(4,5) show ?thesis by simp
qed

lemma daily_limits_hold_witness:
  "\<exists>w'. backend_step (demo_net (\<lambda>_. plain_response 500 [])) fresh_world w' \<and>
     get_today_usage (''gemini'', ''gemini-3-flash-preview'') 0 (lw_quota w') \<le> 20"
proof -
  let ?N = "demo_net (\<lambda>_. plain_response 500 [])"
  obtain r w' where c: "call_one ?N gemini_entry () 30 None None fresh_world = (r, w')" by fastforce
  then have s: "backend_step ?N fresh_world w'" by (rule backend_step.plain)
  have "get_today_usage (''gemini'', ''gemini-3-flash-preview'') 0 (lw_quota w') \<le> 20"
    by (rule daily_limits_hold[of ?N fresh_world])
       (use s fresh_world_run in \<open>auto simp: demo_net_def known_daily_limits_def fresh_world_def
          get_today_usage_def empty_quota_def\<close>)
  with s show ?thesis by blast
qed

text \<open>A call that answers was either skipped, with nothing sent and nothing changed, or sent
  and recorded as exactly one row, with its route, its episode and the time of the answer; a
  result leaves its route unmarked.\<close>

theorem one_row_per_answered_call:
  assumes "call_one N e prompt timeout system episode w = (Inr reply, w')"
    and clock: "\<And>rq h. net_now N h \<le> net_now N (snd (net_post N rq h))"
  shows "if may_send (le_provider e, le_model e) (net_now N (lw_net w)) (lw_quota w)
    then \<exists>tokens neurons. call_rows (lw_quota w') = call_rows (lw_quota w) @
           [\<lparr>cr_provider = le_provider e, cr_model = le_model e, cr_tokens = tokens,
             cr_neurons = neurons, cr_episode = episode, cr_at = net_tick N (lw_net w')\<rparr>] \<and>
         (\<forall>r. reply = LLM_Result r \<longrightarrow> map_of (marks (lw_quota w')) (le_provider e, le_model e) = None)
    else w' = w \<and> (\<exists>d. reply = llm_fail (le_provider e) (le_model e) ''quota_exhausted'' d)"
proof -
  have c: "clock_runs N" using clock by (simp add: clock_runs_def)
  from assms(1) have "metered N e episode (send_plain N e prompt timeout system) w = (Inr reply, w')"
    by (simp add: call_one_def)
  then show ?thesis
  proof (cases rule: metered_cases)
    case (sent reply' w1)
    have o: "only_waits N w w1" by (rule send_plain_waits[OF c sent(2)])
    from sent(3) show ?thesis
      using sent(1) o
      by (cases rule: account_cases)
         (auto simp: route_of_def world_now_def only_waits_def Let_def record_call_def frame
            clear_exhausted_def delete_conv' split: llm_reply.splits)
  qed (auto simp: route_of_def world_now_def quota_failure_def)
qed

lemma one_row_per_answered_call_witness:
  "\<exists>w'. snd (call_one (demo_net (\<lambda>_. plain_response 500 [])) gemini_entry () 30 None None fresh_world) = w' \<and>
     length (call_rows (lw_quota w')) = 1"
proof -
  let ?N = "demo_net (\<lambda>_. plain_response 500 [])"
  obtain reply w' where c: "call_one ?N gemini_entry () 30 None None fresh_world = (Inr reply, w')"
    using fresh_gemini_open[of 0]
    by (simp add: call_one_def metered_def may_send_def route_of_def gemini_entry_def world_now_def
        demo_net_def fresh_world_def send_plain_def call_gemini_def then_step_def environ_def post_def
        plain_response_def no_logprobs_def res_step_def gemini_answer_def account_def llm_fail_def
        extract_total_tokens_def extract_neurons_def Let_def)
  from one_row_per_answered_call[OF c] fresh_gemini_open c show ?thesis
    by (auto simp: demo_net_def gemini_entry_def fresh_world_def empty_quota_def)
qed

text \<open>When Gemini refuses logprobs, two requests go out and one call is recorded: the quota of
  20 a day counts the pair once.\<close>

theorem gemini_retry_is_recorded_once:
  assumes "le_provider e = ''gemini''" "le_format e = ''gemini_native''"
    and "may_send (le_provider e, le_model e) (net_now N (lw_net w)) (lw_quota w)"
    and "net_env N ''GEMINI_API_KEY'' = Some key"
    and "net_post N (gemini_request key (le_model e) prompt timeout system True) (lw_net w) = (Response rsp, h1)"
    and "rsp_status rsp = 400" "occurs_in ''Logprobs is not enabled'' (rsp_text rsp)"
    and "net_post N (gemini_request key (le_model e) prompt timeout system False) h1 = (out2, h2)"
    and "call_one N e prompt timeout system episode w = (Inr reply, w')"
  shows "lw_net w' = h2 \<and> length (call_rows (lw_quota w')) = length (call_rows (lw_quota w)) + 1"
proof -
  from assms(9) have "metered N e episode (send_plain N e prompt timeout system) w = (Inr reply, w')"
    by (simp add: call_one_def)
  then show ?thesis
  proof (cases rule: metered_cases)
    case (sent reply' w1)
    have w1: "w1 = w\<lparr>lw_net := h2\<rparr>"
      using sent(2) assms(2,4-8)
      by (auto simp: send_plain_def call_gemini_def then_step_def environ_def post_def no_logprobs_def
          split: http_outcome.splits)
    from sent(3) show ?thesis
      by (cases rule: account_cases)
         (auto simp: w1 Let_def record_call_def clear_exhausted_def split: llm_reply.splits)
  qed (use assms(3) in \<open>simp_all add: route_of_def world_now_def\<close>)
qed

lemmas call_one_defs = call_one_def metered_def may_send_def route_of_def world_now_def
  send_plain_def call_gemini_def call_openai_compat_def api_key_def key_env_def then_step_def
  environ_def post_def res_step_def account_def Let_def

lemma gemini_retry_is_recorded_once_witness:
  "\<exists>w'. lw_net w' = (2::int) \<and>
     snd (call_one (demo_net (\<lambda>_. plain_response 400 ''Logprobs is not enabled'')) gemini_entry () 30
            None None fresh_world) = w' \<and> length (call_rows (lw_quota w')) = 1"
proof -
  let ?N = "demo_net (\<lambda>_. plain_response 400 ''Logprobs is not enabled'')"
  let ?rsp = "\<lparr>rsp_status = 400, rsp_text = ''Logprobs is not enabled'', rsp_lines = [], rsp_broken = None\<rparr>"
  have logs: "occurs_in ''Logprobs is not enabled'' ''Logprobs is not enabled''" by simp
  obtain reply w' where c: "call_one ?N gemini_entry () 30 None None fresh_world = (Inr reply, w')"
    using fresh_gemini_open[of 0] logs
    by (simp add: call_one_defs gemini_entry_def demo_net_def fresh_world_def plain_response_def
        no_logprobs_def gemini_answer_def llm_fail_def extract_total_tokens_def extract_neurons_def)
  have "lw_net w' = 2 \<and> length (call_rows (lw_quota w')) = length (call_rows (lw_quota fresh_world)) + 1"
    by (rule gemini_retry_is_recorded_once[OF _ _ _ _ _ _ _ _ c, where key = "''key''" and rsp = ?rsp
          and ?h1.0 = 1 and ?out2.0 = "Response ?rsp"])
       (use fresh_gemini_open in \<open>simp_all add: gemini_entry_def demo_net_def fresh_world_def plain_response_def\<close>)
  with c show ?thesis by (simp add: fresh_world_def empty_quota_def)
qed

text \<open>A request whose answer makes the reader raise, a 200 that is not JSON among them, was
  sent but is in no table: it costs quota that is not counted.\<close>

theorem raised_call_is_unrecorded:
  assumes "call_one N e prompt timeout system episode w = (Inl err, w')"
    and clock: "\<And>rq h. net_now N h \<le> net_now N (snd (net_post N rq h))"
  shows "may_send (le_provider e, le_model e) (net_now N (lw_net w)) (lw_quota w) \<and>
    usage_rows (lw_quota w') = usage_rows (lw_quota w) \<and>
    call_rows (lw_quota w') = call_rows (lw_quota w)"
proof -
  have c: "clock_runs N" using clock by (simp add: clock_runs_def)
  from assms(1) have "metered N e episode (send_plain N e prompt timeout system) w = (Inl err, w')"
    by (simp add: call_one_def)
  then show ?thesis
  proof (cases rule: metered_cases)
    case (raised err')
    with send_plain_waits[OF c raised(2)] show ?thesis
      by (simp add: only_waits_def route_of_def world_now_def)
  next
    case (sent reply w1)
    from sent(3) show ?thesis
      using sent(1) send_plain_waits[OF c sent(2)]
      by (cases rule: account_cases) (auto simp: only_waits_def route_of_def world_now_def)
  qed simp
qed

lemma raised_call_is_unrecorded_witness:
  "\<exists>w'. call_one (demo_net (\<lambda>_. plain_response 200 ''<html>'')) gemini_entry () 30 None None fresh_world
     = (Inl ValueError, w') \<and> lw_net w' = 1 \<and> call_rows (lw_quota w') = []"
proof -
  let ?N = "demo_net (\<lambda>_. plain_response 200 ''<html>'')"
  obtain w' where c: "call_one ?N gemini_entry () 30 None None fresh_world = (Inl ValueError, w')"
    and w': "lw_net w' = 1"
    using fresh_gemini_open[of 0]
    by (simp add: call_one_defs gemini_entry_def demo_net_def fresh_world_def plain_response_def
        no_logprobs_def gemini_answer_def resp_json_def)
  from raised_call_is_unrecorded[OF c] c w' show ?thesis
    by (simp add: demo_net_def fresh_world_def empty_quota_def)
qed

text \<open>After Cloudflare says that the daily allocation is used up, no call of the same entry goes
  out for the next fifteen minutes of the day.\<close>

theorem daily_429_stops_the_route:
  assumes "le_provider e = ''cloudflare''" "le_format e = ''openai_compat''"
    and "may_send (le_provider e, le_model e) (net_now N (lw_net w)) (lw_quota w)"
    and "net_env N ''CLOUDFLARE_API_KEY'' = Some key"
    and "net_post N (chat_request (base_url N ''cloudflare'') key (le_model e) prompt timeout
           (max_tokens_of e) system True False) (lw_net w) = (Response rsp, h1)"
    and "rsp_status rsp = 429" "occurs_in ''4006'' (take 500 (rsp_text rsp))"
    and "call_one N e prompt timeout system episode w = (r, w1)"
    and "lw_quota w2 = lw_quota w1"
    and "net_now N (lw_net w2) < net_now N h1 + probe_cooldown"
    and "net_now N (lw_net w2) < next_utc_midnight (net_now N h1)"
  shows "\<exists>d. call_one N e prompt' timeout' system' episode' w2 =
    (Inr (llm_fail ''cloudflare'' (le_model e) ''quota_exhausted'' d), w2)"
proof -
  let ?why = "''Cloudflare 4006: daily free Neuron allocation exhausted''"
  have q1: "marks (lw_quota w1) = marks (mark_exhausted (route_of e) (Some ?why) (net_now N h1) (lw_quota w))"
    using assms(1-8)
    by (auto simp: call_one_def metered_def may_send_def route_of_def world_now_def send_plain_def
        call_openai_compat_def api_key_def key_env_def then_step_def environ_def post_def
        wants_logprobs_def bad_status_def Let_def daily_exhaustion_def account_def llm_fail_def
        extract_total_tokens_def extract_neurons_def frame)
  have "is_marked_exhausted (route_of e) (net_now N (lw_net w2)) (lw_quota w2) = Some ?why"
    using is_marked_mark[of "route_of e" "net_now N (lw_net w2)" "route_of e" "Some ?why" "net_now N h1"
        "lw_quota w"] assms(9-11) q1
    by (simp add: is_marked_exhausted_def)
  then show ?thesis
    using assms(1)
    by (auto simp: call_one_def metered_def world_now_def check_quota_def quota_failure_def route_of_def)
qed

definition gemma_entry :: llm_entry where
  "gemma_entry = hd provider_chain"

lemma daily_429_stops_the_route_witness:
  "\<exists>w1. snd (call_one (demo_net (\<lambda>_. plain_response 429 ''4006'')) gemma_entry () 30 None None fresh_world) = w1 \<and>
     snd (call_one (demo_net (\<lambda>_. plain_response 429 ''4006'')) gemma_entry () 30 None None w1) = w1"
proof -
  let ?N = "demo_net (\<lambda>_. plain_response 429 ''4006'')"
  let ?rsp = "\<lparr>rsp_status = 429, rsp_text = ''4006'', rsp_lines = [], rsp_broken = None\<rparr>"
  have open0: "may_send (''cloudflare'', ''@cf/google/gemma-4-26b-a4b-it'') 0 empty_quota"
    by (rule midnight_reopens[where now = "- day_us"])
       (simp_all add: quota_run.began next_utc_midnight_def utc_day_def day_us_def)
  obtain r w1 where c: "call_one ?N gemma_entry () 30 None None fresh_world = (r, w1)" by fastforce
  have net: "lw_net w1 = 1"
    using c open0
    by (auto simp: call_one_defs gemma_entry_def provider_chain_def demo_net_def fresh_world_def
        plain_response_def bad_status_def extract_total_tokens_def extract_neurons_def llm_fail_def
        wants_logprobs_def)
  have "\<exists>d. call_one ?N gemma_entry () 30 None None w1 =
      (Inr (llm_fail ''cloudflare'' (le_model gemma_entry) ''quota_exhausted'' d), w1)"
    by (rule daily_429_stops_the_route[OF _ _ _ _ _ _ _ c, where key = "''key''" and rsp = ?rsp
          and ?h1.0 = 1])
       (use open0 net in \<open>simp_all add: gemma_entry_def provider_chain_def demo_net_def fresh_world_def
          plain_response_def probe_cooldown_def next_utc_midnight_def utc_day_def day_us_def\<close>)
  with c show ?thesis by force
qed

text \<open>The object in an answer is found whatever prose is around it, if the prose before it has
  no opening and the prose after it no closing brace.\<close>

theorem extract_ignores_prose:
  assumes "CHR ''{'' \<notin> set before" "CHR ''}'' \<notin> set behind"
    and "net_loads N (''{'' @ body @ ''}'') = Some (PDict d)"
  shows "extract_json N (before @ ''{'' @ body @ ''}'' @ behind) = Some d"
proof -
  have skip: "dropWhile (\<lambda>c. c \<noteq> x) (xs @ x # ys) = x # ys" if "x \<notin> set xs" for x :: char and xs ys
    using that by (induction xs) auto
  have "braced (before @ ''{'' @ body @ ''}'' @ behind) = ''{'' @ body @ ''}''"
    using skip[OF assms(1), of "body @ ''}'' @ behind"] skip[of "CHR ''}''" "rev behind" "rev body @ ''{''"]
      assms(2)
    by (simp add: braced_def)
  with assms(3) show ?thesis by (simp add: extract_json_def)
qed

lemma extract_ignores_prose_witness:
  "extract_json (demo_net (\<lambda>_. Timeout)\<lparr>net_loads := (\<lambda>s. if s = ''{}'' then Some (PDict []) else None)\<rparr>)
     ''Sure: {} ok'' = Some []"
  using extract_ignores_prose[of "''Sure: ''" "'' ok''"
      "demo_net (\<lambda>_. Timeout)\<lparr>net_loads := (\<lambda>s. if s = ''{}'' then Some (PDict []) else None)\<rparr>" "[]" "[]"]
  by simp

end
