(* ===== verification/Fault_Taxonomy.thy ===== *)
theory Fault_Taxonomy
  imports Prelude
begin

text \<open>
  The constants several components share: the roster of diagnoses
  (\<^verbatim>\<open>react_agent.FAULT_CLASSES\<close>), the target of each fault (\<^verbatim>\<open>injector.FAULT_CONFIG\<close>, the
  two keys the trust layer reads) and the two baselines the safety checks take from the
  injector.
\<close>

definition fault_classes :: "string list" where
  "fault_classes =
     [''crash-loop'', ''oom'', ''disk-full'', ''network-latency'', ''memory-leak'',
      ''connection-pool-exhaustion'', ''network-partition'', ''init-failure'',
      ''session-cart-failure'', ''cpu-throttling'', ''under-provisioned-replicas'',
      ''bad-rollout'', ''none'']"

record fault_cfg =
  cfg_namespace :: string
  cfg_target :: string

definition sock_shop :: "string \<Rightarrow> fault_cfg" where
  "sock_shop t = \<lparr>cfg_namespace = ''sock-shop'', cfg_target = t\<rparr>"

definition fault_config :: "string \<Rightarrow> fault_cfg option" where
  "fault_config = map_of
     [(''crash-loop'', sock_shop ''carts''), (''oom'', sock_shop ''catalogue''),
      (''disk-full'', sock_shop ''queue-master''), (''network-latency'', sock_shop ''orders''),
      (''memory-leak'', sock_shop ''shipping''),
      (''connection-pool-exhaustion'', sock_shop ''catalogue-db''),
      (''network-partition'', sock_shop ''orders''), (''init-failure'', sock_shop ''payment''),
      (''session-cart-failure'', sock_shop ''session-db''),
      (''under-provisioned-replicas'', sock_shop ''catalogue''),
      (''bad-rollout'', sock_shop ''front-end''), (''cpu-throttling'', sock_shop ''user'')]"

definition oom_baseline_memory_limit :: string where
  "oom_baseline_memory_limit = ''200Mi''"

definition validated_safe_replicas :: int where
  "validated_safe_replicas = 3"

end
