(* ===== verification/Wardence_DB.thy ===== *)
theory Wardence_DB
  imports Prelude
begin

text \<open>
  The SQLite file \<^verbatim>\<open>wardence.db\<close> the trust components share, one record field per table,
  and the row types. Tables with a TEXT primary key and an UPSERT are association lists in
  row order (\<open>AList.update\<close> is \<^verbatim>\<open>INSERT .. ON CONFLICT DO UPDATE\<close>); logs are lists, oldest
  first. TEXT columns with a fixed vocabulary are datatypes: their only writers check the
  vocabulary first. \<^verbatim>\<open>datetime('now')\<close> is the argument \<open>now\<close> of the operations, in whole
  seconds as SQLite stores it, so the comparison of two stored timestamps is \<open>\<le>\<close> on \<open>int\<close>.
\<close>

section \<open>Column vocabularies\<close>

text \<open>\<^verbatim>\<open>trust_engine.py\<close>: REPORT_ONLY, CAN_ACT, DEMOTED.\<close>

datatype a_state = Report_Only | Can_Act | Demoted

text \<open>\<^verbatim>\<open>llm_trust_state.py\<close>: STUB, LLM and DETERMINISTIC_FALLBACK, LLM_CAN_ACT.\<close>

datatype b_mode = Stub | Llm

datatype c_state = Deterministic_Fallback | Llm_Can_Act

text \<open>The messages of \<^verbatim>\<open>constraint_checks.check_safe\<close>, one constructor per f-string, with
  the values it interpolates.\<close>

datatype safe_reason =
    No_Peak_Memory
  | Unparseable_Memory pyval
  | Memory_Outside rat rat rat
  | Memory_Within rat rat
  | No_Fault_Config string
  | Unreadable_Cpu string
  | Unparseable_Cpu pyval
  | Cpu_Outside rat rat
  | Cpu_Within rat rat
  | No_Current_Replicas
  | Non_Integer_Replicas pyval
  | Replicas_Outside int int int
  | Replicas_Within int int
  | No_Magnitude string

text \<open>The reasons written to \<^verbatim>\<open>gate_intervention_log\<close>: the two of \<^verbatim>\<open>dispatch_gate.check\<close>
  and the safety net of \<^verbatim>\<open>/act\<close>.\<close>

datatype gate_reason =
    Cross_Tool string string string string
  | Unsafe_Magnitude string string safe_reason
  | Ground_Truth_Net string string

datatype hold_reason =
    Hold_Count nat
  | Hold_Text string

datatype verdict = Confirmed | Flapped

section \<open>Rows\<close>

record 's hist_row =
  h_episode :: "string option"
  h_class :: string
  h_correct :: bool
  h_before :: 's
  h_after :: 's
  h_streak_before :: int
  h_streak_after :: int
  h_at :: int

record failure_row =
  f_reason :: string
  f_class :: "string option"
  f_at :: int

record misdispatch_row =
  m_episode :: string
  m_predicted :: string
  m_actual :: string
  m_at :: int

record hold_row =
  active :: bool
  hold_why :: "hold_reason option"
  held_since :: "int option"

record gate_row =
  g_episode :: "string option"
  g_predicted :: string
  g_actual :: string
  g_proposed :: string
  g_substituted :: string
  g_reason :: gate_reason
  g_at :: int

text \<open>
  \<^verbatim>\<open>query_prometheus\<close>'s result, with the key \<^verbatim>\<open>/diagnose\<close> adds: \<open>None\<close> is Python's
  None; \<open>catalogue_probe_p95_ms\<close> is absent until the fallback probe ran.
\<close>

record tool_output =
  oom_pods :: "string option list"
  evicted_pods :: "string option list"
  crashlooping_pods :: "string option list"
  connect_failures :: "int option"
  max_http_ms :: "int option"
  p95_latency_ms :: "rat option"
  combined_throughput_bps :: "rat option"
  payment_stuck_not_ready :: bool
  session_db_replicas_hit_zero :: bool
  peak_memory_mib :: "rat option"
  peak_threads_connected :: "rat option"
  cpu_throttle_periods_increase :: "rat option"
  front_end_image_pull_failing :: bool
  current_replicas :: "int option"
  heap_rise_kb :: "rat option"
  catalogue_probe_p95_ms :: "rat option option"
  dl_detector_result :: "pyval option"

record gate_substitution =
  gs_predicted :: string
  gs_actual :: string
  gs_proposed_tool :: "string option"
  gs_proposed_params :: "pydict option"
  gs_substituted_tool :: string
  gs_substituted_params :: pydict
  gs_reason :: gate_reason

record score_row =
  sc_predicted :: string
  sc_actual :: string
  sc_correct :: bool
  sc_confidence :: "rat option"
  sc_action :: "string option"
  sc_applied :: "bool option"
  sc_verdict :: "verdict option"
  sc_trust :: "bool option"

record snapshot_row =
  sn_tool_output :: "tool_output option"
  sn_reasoning :: "ftext option"
  sn_confidence :: "rat option"
  sn_action :: "string option"
  sn_result :: "pydict option"
  sn_verdict :: "verdict option"
  sn_elapsed :: "int option"
  sn_gate :: "gate_substitution option"
  sn_provider :: "string option"
  sn_model :: "string option"
  sn_tier :: "string option"
  sn_baseline :: "rat option"

text \<open>\<open>e_t0\<close> is NULL in a row made before its injection.\<close>

record episode_row =
  e_class :: string
  e_target :: string
  e_namespace :: string
  e_t0 :: "int option"
  e_baseline :: "rat option"
  e_probe :: "(int option \<times> int option) option"

record llm_log_row =
  l_episode :: string
  l_actual :: string
  l_stub :: "string option"
  l_stub_correct :: "bool option"
  l_llm :: "string option"
  l_matches :: "bool option"
  l_matches_stub :: "bool option"
  l_tier :: "string option"

record proposal_row =
  p_episode :: string
  p_class :: string
  p_source :: string
  p_tool :: "string option"
  p_params :: "pydict option"
  p_tier :: "string option"
  p_matches :: "bool option"

section \<open>The database\<close>

record db =
  trust_state :: "(string \<times> a_state \<times> int) list"
  trust_history :: "a_state hist_row list"
  diagnoser_mode :: "(string \<times> b_mode \<times> int) list"
  diagnoser_history :: "b_mode hist_row list"
  action_trust :: "(string \<times> c_state \<times> int) list"
  action_history :: "c_state hist_row list"
  failure_log :: "failure_row list"
  misdispatch_log :: "misdispatch_row list"
  safety_hold :: "(string \<times> hold_row) list"
  gate_log :: "gate_row list"
  episodes :: "(string \<times> episode_row) list"
  scores :: "(string \<times> score_row) list"
  episode_snapshots :: "(string \<times> snapshot_row) list"
  llm_diagnosis_log :: "llm_log_row list"
  proposal_log :: "proposal_row list"

definition empty_db :: db where
  "empty_db = \<lparr>trust_state = [], trust_history = [], diagnoser_mode = [],
     diagnoser_history = [], action_trust = [], action_history = [], failure_log = [],
     misdispatch_log = [], safety_hold = [], gate_log = [], episodes = [], scores = [],
     episode_snapshots = [], llm_diagnosis_log = [], proposal_log = []\<rparr>"

section \<open>Reading a keyed table\<close>

text \<open>\<^verbatim>\<open>SELECT .. WHERE fault_class = ?\<close> with the default the code returns for no row.\<close>

definition row_or :: "'r \<Rightarrow> (string \<times> 'r) list \<Rightarrow> string \<Rightarrow> 'r" where
  "row_or r0 t k = (case map_of t k of None \<Rightarrow> r0 | Some r \<Rightarrow> r)"

lemma row_or_update [simp]:
  "row_or r0 (AList.update k r t) k' = (if k' = k then r else row_or r0 t k')"
  by (simp add: row_or_def update_conv')

lemma row_or_Nil [simp]: "row_or r0 [] k = r0"
  by (simp add: row_or_def)

lemma distinct_keys_update [simp]:
  "distinct (map fst t) \<Longrightarrow> distinct (map fst (AList.update k r t))"
  by (rule distinct_update)

end
