(* ===== verification/Tool_Validator.thy ===== *)
theory Tool_Validator
  imports Prelude
begin

text \<open>
  \<^verbatim>\<open>p3_trust_action/tool_call_validator.py\<close>: the check of an LLM's tool call before it
  reaches the cage. The rejection messages are a datatype, one constructor per f-string.
  Text is ASCII, so \<^verbatim>\<open>\d\<close> is a digit 0 to 9.
\<close>

section \<open>Quantities\<close>

definition max_replicas :: int where "max_replicas = 20"
definition max_memory_limit_mi :: rat where "max_memory_limit_mi = 2048"
definition max_cpu_limit_m :: rat where "max_cpu_limit_m = 2000"

text \<open>DEFAULT_NAMESPACE and the keys of ALLOWED_ACTIONS, from \<^verbatim>\<open>actions.py\<close>.\<close>

definition default_namespace :: string where
  "default_namespace = ''sock-shop''"

definition allowed_actions :: "string list" where
  "allowed_actions =
     [''restart_deployment'', ''patch_memory_limit'', ''patch_cpu_limit'', ''scale_deployment'',
      ''rollback_deployment'', ''restore_from_disk_full'']"

definition newline :: char where
  "newline = CHR 0x0A"

text \<open>
  \<^verbatim>\<open>^(\d+(?:\.\d+)?)(suffix)?$\<close> with \<^verbatim>\<open>re.match\<close>: the digits, the fraction digits and the
  suffix. \<^verbatim>\<open>$\<close> also matches before a final newline. The greedy choices never need to be
  taken back: what would follow a shorter match is a digit or a dot, and no suffix starts
  with one.
\<close>

definition match_quantity :: "string list \<Rightarrow> string \<Rightarrow> (string \<times> string \<times> string) option" where
  "match_quantity suffixes s =
     (let ds = takeWhile is_digit s; r = dropWhile is_digit s;
          (fs, r2) = (case r of
              [] \<Rightarrow> ([], [])
            | c # r' \<Rightarrow>
                if c = CHR ''.'' \<and> takeWhile is_digit r' \<noteq> []
                then (takeWhile is_digit r', dropWhile is_digit r') else ([], r));
          r3 = (if r2 \<noteq> [] \<and> last r2 = newline then butlast r2 else r2)
      in if ds = [] then None
         else if r3 = [] \<or> r3 \<in> set suffixes then Some (ds, fs, r3) else None)"

definition dec_nat :: "string \<Rightarrow> nat" where
  "dec_nat ds = foldl (\<lambda>n c. 10 * n + digit_val c) 0 ds"

text \<open>\<^verbatim>\<open>float(match.group(1))\<close>\<close>

definition dec_float :: "string \<Rightarrow> string \<Rightarrow> rat" where
  "dec_float ds fs = py_float (of_nat (dec_nat (ds @ fs)) / 10 ^ length fs)"

definition memory_suffixes :: "string list" where
  "memory_suffixes = [''Ki'', ''Mi'', ''Gi'', ''Ti'']"

definition mi_factor :: "string \<Rightarrow> rat" where
  "mi_factor s =
     (if s = ''Ki'' then 1 / 1024 else if s = ''Mi'' then 1 else if s = ''Gi'' then 1024
      else if s = ''Ti'' then 1024 * 1024 else 1 / (1024 * 1024))"

definition memory_mi :: "string \<Rightarrow> rat option" where
  "memory_mi s =
     (case match_quantity memory_suffixes s of None \<Rightarrow> None
      | Some (ds, fs, suf) \<Rightarrow> Some (fmul (dec_float ds fs) (mi_factor suf)))"

definition cpu_millicores :: "string \<Rightarrow> rat option" where
  "cpu_millicores s =
     (case match_quantity [''m''] s of None \<Rightarrow> None
      | Some (ds, fs, suf) \<Rightarrow> Some (fmul (dec_float ds fs) (if suf = ''m'' then 1 else 1000)))"

section \<open>Parameter checks\<close>

definition is_valid_memory_quantity :: "pyval \<Rightarrow> bool" where
  "is_valid_memory_quantity v =
     (case v of PStr s \<Rightarrow>
        (case memory_mi s of None \<Rightarrow> False | Some mi \<Rightarrow> 0 < mi \<and> mi \<le> max_memory_limit_mi)
      | _ \<Rightarrow> False)"

definition is_valid_cpu_quantity :: "pyval \<Rightarrow> bool" where
  "is_valid_cpu_quantity v =
     (case v of PStr s \<Rightarrow>
        (case cpu_millicores s of None \<Rightarrow> False | Some m \<Rightarrow> 0 < m \<and> m \<le> max_cpu_limit_m)
      | _ \<Rightarrow> False)"

definition is_valid_replicas :: "pyval \<Rightarrow> bool" where
  "is_valid_replicas v = (case v of PInt n \<Rightarrow> 0 \<le> n \<and> n \<le> max_replicas | _ \<Rightarrow> False)"

definition is_nonempty_str :: "pyval \<Rightarrow> bool" where
  "is_nonempty_str v = (case v of PStr s \<Rightarrow> py_strip s \<noteq> [] | _ \<Rightarrow> False)"

definition tool_schemas :: "string \<Rightarrow> (string \<times> (pyval \<Rightarrow> bool)) list" where
  "tool_schemas t =
     (if t = ''patch_memory_limit'' then
        [(''name'', is_nonempty_str), (''container'', is_nonempty_str),
         (''limit'', is_valid_memory_quantity)]
      else if t = ''patch_cpu_limit'' then
        [(''name'', is_nonempty_str), (''container'', is_nonempty_str),
         (''limit'', is_valid_cpu_quantity)]
      else if t = ''scale_deployment'' then
        [(''name'', is_nonempty_str), (''replicas'', is_valid_replicas)]
      else [(''name'', is_nonempty_str)])"

section \<open>The verdict\<close>

datatype rejection =
    Not_Allowed pyval
  | Params_Not_Dict
  | Bad_Namespace pyval
  | Missing_Param string string
  | Failed_Param string string pyval
  | Unexpected_Params string "string list"

fun check_schema ::
    "string \<Rightarrow> (string \<times> (pyval \<Rightarrow> bool)) list \<Rightarrow> pydict \<Rightarrow> rejection option" where
  "check_schema t [] d = None"
| "check_schema t ((p, ok) # ps) d =
     (case map_of d p of
        None \<Rightarrow> Some (Missing_Param t p)
      | Some v \<Rightarrow> if \<not> ok v then Some (Failed_Param t p v) else check_schema t ps d)"

definition unexpected_params :: "string \<Rightarrow> pydict \<Rightarrow> string list" where
  "unexpected_params t d =
     filter (\<lambda>k. k \<notin> set (map fst (tool_schemas t)) \<and> k \<noteq> ''namespace'') (dict_keys d)"

text \<open>\<open>Inr None\<close> is \<^verbatim>\<open>(True, None)\<close>, \<open>Inr (Some r)\<close> is \<^verbatim>\<open>(False, r)\<close>. An unhashable tool name
  makes the membership test raise.\<close>

definition validate_tool_call :: "pyval \<Rightarrow> pyval \<Rightarrow> rejection option res" where
  "validate_tool_call tool params =
     (if \<not> hashable tool then Inl TypeError
      else case tool of
        PStr t \<Rightarrow>
          (if t \<notin> set allowed_actions then Inr (Some (Not_Allowed tool))
           else case params of
             PDict d \<Rightarrow>
               (if dict_get d ''namespace'' \<noteq> PNone
                   \<and> dict_get d ''namespace'' \<noteq> PStr default_namespace
                then Inr (Some (Bad_Namespace (dict_get d ''namespace'')))
                else case check_schema t (tool_schemas t) d of
                       Some r \<Rightarrow> Inr (Some r)
                     | None \<Rightarrow>
                         if unexpected_params t d \<noteq> []
                         then Inr (Some (Unexpected_Params t (unexpected_params t d)))
                         else Inr None)
           | _ \<Rightarrow> Inr (Some Params_Not_Dict))
      | _ \<Rightarrow> Inr (Some (Not_Allowed tool)))"

section \<open>What an accepted call is\<close>

text \<open>The specification: which calls should pass, parameter by parameter.\<close>

definition well_formed_params :: "string \<Rightarrow> pydict \<Rightarrow> bool" where
  "well_formed_params t d =
     (is_nonempty_str (dict_get d ''name'')
      \<and> dict_get d ''namespace'' \<in> {PNone, PStr default_namespace}
      \<and> (t = ''patch_memory_limit'' \<longrightarrow>
           is_nonempty_str (dict_get d ''container'') \<and> is_valid_memory_quantity (dict_get d ''limit''))
      \<and> (t = ''patch_cpu_limit'' \<longrightarrow>
           is_nonempty_str (dict_get d ''container'') \<and> is_valid_cpu_quantity (dict_get d ''limit''))
      \<and> (t = ''scale_deployment'' \<longrightarrow> is_valid_replicas (dict_get d ''replicas''))
      \<and> set (dict_keys d) \<subseteq> insert ''namespace'' (set (map fst (tool_schemas t))))"

lemma check_schema_None_iff:
  "check_schema t ps d = None \<longleftrightarrow>
     (\<forall>(p, ok) \<in> set ps. \<exists>v. map_of d p = Some v \<and> ok v)"
  by (induction t ps d rule: check_schema.induct) (auto split: option.splits)

lemma checks_reject_None [simp]:
  "\<not> is_nonempty_str PNone" "\<not> is_valid_memory_quantity PNone"
  "\<not> is_valid_cpu_quantity PNone" "\<not> is_valid_replicas PNone"
  by (simp_all add: is_nonempty_str_def is_valid_memory_quantity_def is_valid_cpu_quantity_def
      is_valid_replicas_def)

lemma dict_get_Some [simp]: "map_of d k = Some v \<Longrightarrow> dict_get d k = v"
  by (simp add: dict_get_def)

lemma present_and_ok:
  "\<not> ok PNone \<Longrightarrow> (\<exists>v. map_of d p = Some v \<and> ok v) \<longleftrightarrow> ok (dict_get d p)"
  by (auto simp: dict_get_def split: option.splits)

lemma unexpected_Nil_iff:
  "unexpected_params t d = [] \<longleftrightarrow>
     set (dict_keys d) \<subseteq> insert ''namespace'' (set (map fst (tool_schemas t)))"
  by (auto simp: unexpected_params_def filter_empty_conv)

lemma check_schema_tools:
  "check_schema t (tool_schemas t) d = None \<longleftrightarrow>
     is_nonempty_str (dict_get d ''name'')
      \<and> (t = ''patch_memory_limit'' \<longrightarrow>
           is_nonempty_str (dict_get d ''container'') \<and> is_valid_memory_quantity (dict_get d ''limit''))
      \<and> (t = ''patch_cpu_limit'' \<longrightarrow>
           is_nonempty_str (dict_get d ''container'') \<and> is_valid_cpu_quantity (dict_get d ''limit''))
      \<and> (t = ''scale_deployment'' \<longrightarrow> is_valid_replicas (dict_get d ''replicas''))"
  by (auto simp: check_schema_None_iff tool_schemas_def present_and_ok)

lemma accepted_iff:
  "validate_tool_call tool params = Inr None \<longleftrightarrow>
     (\<exists>t d. tool = PStr t \<and> params = PDict d \<and> t \<in> set allowed_actions \<and> well_formed_params t d)"
proof (cases "\<exists>t d. tool = PStr t \<and> params = PDict d")
  case True
  then obtain t d where td: "tool = PStr t" "params = PDict d" by blast
  have "validate_tool_call tool params = Inr None \<longleftrightarrow>
      t \<in> set allowed_actions \<and> dict_get d ''namespace'' \<in> {PNone, PStr default_namespace}
      \<and> check_schema t (tool_schemas t) d = None \<and> unexpected_params t d = []"
    by (auto simp: validate_tool_call_def td split: option.splits)
  also have "\<dots> \<longleftrightarrow> t \<in> set allowed_actions \<and> well_formed_params t d"
    unfolding check_schema_tools unexpected_Nil_iff well_formed_params_def by blast
  finally show ?thesis using td by auto
next
  case False
  then show ?thesis
    by (auto simp: validate_tool_call_def split: pyval.splits if_splits)
qed

lemma validate_raises_iff:
  "(\<exists>e. validate_tool_call tool params = Inl e) \<longleftrightarrow> \<not> hashable tool"
  by (auto simp: validate_tool_call_def split: pyval.splits option.splits)

section \<open>Quantities are not negative\<close>

lemma dec_float_nonneg: "0 \<le> dec_float ds fs"
  by (simp add: dec_float_def py_float_nonneg)

lemma memory_mi_nonneg: "memory_mi s = Some q \<Longrightarrow> 0 \<le> q"
  by (auto simp: memory_mi_def fmul_def mi_factor_def split: option.splits
      intro!: py_float_nonneg mult_nonneg_nonneg dec_float_nonneg)

lemma cpu_millicores_nonneg: "cpu_millicores s = Some q \<Longrightarrow> 0 \<le> q"
  by (auto simp: cpu_millicores_def fmul_def split: option.splits
      intro!: py_float_nonneg mult_nonneg_nonneg dec_float_nonneg)

section \<open>A trailing newline\<close>

lemma takeWhile_digit_newline [simp]: "takeWhile is_digit (s @ [newline]) = takeWhile is_digit s"
  by (induction s) (auto simp: is_digit_def newline_def)

lemma dropWhile_digit_newline [simp]:
  "dropWhile is_digit (s @ [newline]) = dropWhile is_digit s @ [newline]"
  by (induction s) (auto simp: is_digit_def newline_def)

lemma last_dropWhile: "dropWhile P s \<noteq> [] \<Longrightarrow> last (dropWhile P s) = last s"
  by (induction s) auto

lemma match_quantity_newline:
  assumes "s = [] \<or> last s \<noteq> newline"
  shows "match_quantity suffixes (s @ [newline]) = match_quantity suffixes s"
proof -
  define r where "r = dropWhile is_digit s"
  have last_r: "r = [] \<or> last r \<noteq> newline"
    using assms last_dropWhile[of is_digit s] unfolding r_def by (metis dropWhile.simps(1))
  show ?thesis
  proof (cases r)
    case Nil
    then show ?thesis
      by (simp add: match_quantity_def Let_def newline_def[symmetric] flip: r_def)
  next
    case (Cons c r')
    have "dropWhile is_digit r' = [] \<or> last (dropWhile is_digit r') \<noteq> newline"
      using last_r last_dropWhile[of is_digit r'] Cons by (metis last_ConsR dropWhile.simps(1) list.simps(3))
    with Cons last_r show ?thesis
      by (auto simp: match_quantity_def Let_def simp flip: r_def)
  qed
qed

section \<open>Properties\<close>

text \<open>C26: the validator accepts a tool call exactly when the tool is one of the six allowed
  actions and its parameters are well formed: a non-empty name, the fixed namespace if one
  is given, a container and a quantity within the cap, a replica count in 0..20, and no
  other parameter.\<close>

theorem validator_accepts_exactly:
  "validate_tool_call tool params = Inr None \<longleftrightarrow>
     (\<exists>t d. tool = PStr t \<and> params = PDict d \<and> t \<in> set allowed_actions \<and> well_formed_params t d)"
  by (rule accepted_iff)

text \<open>The validator, documented never to raise, raises exactly on a tool name that cannot
  be a dictionary key (a list or an object in the LLM's JSON), and then TypeError.\<close>

theorem validator_raises_exactly:
  "(\<exists>e. validate_tool_call tool params = Inl e) = (\<not> hashable tool)
   \<and> (\<forall>e. validate_tool_call tool params = Inl e \<longrightarrow> e = TypeError)"
  using validate_raises_iff[of tool params]
  by (auto simp: validate_tool_call_def split: pyval.splits option.splits)

lemma validator_raises_exactly_witness:
  "validate_tool_call (PList [PStr ''oom'']) (PDict []) = Inl TypeError"
  using validator_raises_exactly[of "PList [PStr ''oom'']" "PDict []"] by auto

text \<open>A quantity with a newline appended is accepted whenever the quantity is: the
  pattern's end anchor does not see a final newline.\<close>

theorem trailing_newline_accepted:
  assumes "s = [] \<or> last s \<noteq> newline"
  shows "is_valid_memory_quantity (PStr (s @ [newline])) = is_valid_memory_quantity (PStr s)
    \<and> is_valid_cpu_quantity (PStr (s @ [newline])) = is_valid_cpu_quantity (PStr s)"
  using match_quantity_newline[OF assms]
  by (simp_all add: is_valid_memory_quantity_def is_valid_cpu_quantity_def memory_mi_def
      cpu_millicores_def)

lemma trailing_newline_accepted_witness:
  "is_valid_memory_quantity (PStr (''500Mi'' @ [newline])) = is_valid_memory_quantity (PStr ''500Mi'')"
  using trailing_newline_accepted[of "''500Mi''"] by (simp add: newline_def)

end
