(* ===== verification/K6_Probe.thy ===== *)
theory K6_Probe
  imports Prelude Tool_Validator
begin

text \<open>
  The active capacity probe of \<^verbatim>\<open>agent.py\<close> and \<^verbatim>\<open>verifier.py\<close>: a k6 burst run by
  \<^verbatim>\<open>kubectl\<close>, and the p95 read out of its text summary. Text is the UTF-8 bytes k6 prints.
\<close>

section \<open>_parse_k6_p95_ms\<close>

text \<open>\<^verbatim>\<open>float(s)\<close> of a string over digits and dots: at most one dot and at least one digit.\<close>

definition float_of_digits :: "string \<Rightarrow> rat res" where
  "float_of_digits s =
     (let ds = takeWhile is_digit s; r = dropWhile is_digit s;
          fs = (case r of [] \<Rightarrow> [] | _ # r' \<Rightarrow> r')
      in if ds @ fs = [] \<or> \<not> list_all is_digit fs then Inl ValueError
         else Inr (dec_float ds fs))"

definition word_char :: "char \<Rightarrow> bool" where
  "word_char c = (let n = of_char c :: nat in
     is_digit c \<or> (65 \<le> n \<and> n \<le> 90) \<or> (97 \<le> n \<and> n \<le> 122) \<or> n = 95 \<or> 128 \<le> n)"

definition at_boundary :: "string \<Rightarrow> bool" where
  "at_boundary s = (case s of [] \<Rightarrow> True | c # _ \<Rightarrow> \<not> word_char c)"

text \<open>The three units and their order in the pattern; micro is two bytes.\<close>

definition micro_s :: string where
  "micro_s = [CHR 0xC2, CHR 0xB5, CHR ''s'']"

definition unit_at :: "string \<Rightarrow> string option" where
  "unit_at s =
     find (\<lambda>u. is_prefix u s \<and> at_boundary (drop (length u) s)) [micro_s, ''ms'', ''s'']"

text \<open>\<^verbatim>\<open>p\(95\)=([\d.]+)(unit)\b\<close> at the start of a string.\<close>

definition p95_at :: "string \<Rightarrow> (string \<times> string) option" where
  "p95_at s =
     (if \<not> is_prefix ''p(95)='' s then None
      else let r = drop 6 s; num = takeWhile (\<lambda>c. is_digit c \<or> c = CHR ''.'') r
           in if num = [] then None
              else map_option (Pair num) (unit_at (drop (length num) r)))"

text \<open>The greedy \<^verbatim>\<open>[^\n]*\<close> takes the last place of the line where the rest matches.\<close>

fun last_p95 :: "string \<Rightarrow> (string \<times> string) option" where
  "last_p95 [] = None"
| "last_p95 (c # cs) =
     (if c = newline then None
      else case last_p95 cs of Some m \<Rightarrow> Some m | None \<Rightarrow> p95_at (c # cs))"

text \<open>\<^verbatim>\<open>re.search\<close>: the first place with the metric's name whose line has a match.\<close>

definition metric_name :: string where
  "metric_name = ''http_req_duration''"

fun search_p95 :: "string \<Rightarrow> (string \<times> string) option" where
  "search_p95 [] = None"
| "search_p95 (c # cs) =
     (case (if is_prefix metric_name (c # cs)
            then last_p95 (drop (length metric_name) (c # cs)) else None) of
        Some m \<Rightarrow> Some m
      | None \<Rightarrow> search_p95 cs)"

definition parse_k6_p95_ms :: "string \<Rightarrow> rat option res" where
  "parse_k6_p95_ms text =
     (case search_p95 text of
        None \<Rightarrow> Inr None
      | Some (num, u) \<Rightarrow>
          (case float_of_digits num of
             Inl e \<Rightarrow> Inl e
           | Inr v \<Rightarrow> Inr (Some (if u = ''s'' then fmul v 1000
                                else if u = micro_s then py_float (v / 1000) else v))))"

section \<open>The burst\<close>

text \<open>What \<^verbatim>\<open>subprocess.run\<close> of the kubectl command gives: a timeout, or an exit code and the
  standard output.\<close>

datatype k6_run = K6_Timeout | K6_Exit int string

definition probe_max_attempts :: nat where
  "probe_max_attempts = 3"

fun probe_attempts :: "nat \<Rightarrow> ('w \<Rightarrow> k6_run \<times> 'w) \<Rightarrow> 'w \<Rightarrow> rat option res \<times> 'w" where
  "probe_attempts 0 run w = (Inr None, w)"
| "probe_attempts (Suc n) run w =
     (case run w of
        (K6_Timeout, w1) \<Rightarrow> probe_attempts n run w1
      | (K6_Exit code out, w1) \<Rightarrow>
          if code \<noteq> 0 then probe_attempts n run w1
          else (case parse_k6_p95_ms out of
                  Inl e \<Rightarrow> (Inl e, w1)
                | Inr (Some p) \<Rightarrow> (Inr (Some p), w1)
                | Inr None \<Rightarrow> probe_attempts n run w1))"

definition probe_catalogue_capacity :: "('w \<Rightarrow> k6_run \<times> 'w) \<Rightarrow> 'w \<Rightarrow> rat option res \<times> 'w" where
  "probe_catalogue_capacity run w = probe_attempts probe_max_attempts run w"

section \<open>Facts\<close>

text \<open>A probe that answers None failed on every attempt.\<close>

lemma probe_attempts_none:
  assumes "probe_attempts n run w = (Inr None, w')"
  shows "w' = ((snd \<circ> run) ^^ n) w \<and>
    (\<forall>i < n. \<forall>out. fst (run (((snd \<circ> run) ^^ i) w)) = K6_Exit 0 out \<longrightarrow> parse_k6_p95_ms out = Inr None)"
  using assms
proof (induction n arbitrary: w)
  case (Suc n)
  obtain r w1 where r: "run w = (r, w1)" by (cases "run w")
  have rest: "probe_attempts n run w1 = (Inr None, w')"
    and first: "\<And>out. r = K6_Exit 0 out \<Longrightarrow> parse_k6_p95_ms out = Inr None"
    using Suc.prems r by (auto split: k6_run.splits if_splits sum.splits option.splits)
  have shift: "((snd \<circ> run) ^^ Suc i) w = ((snd \<circ> run) ^^ i) w1" for i
    using r by (simp add: funpow_Suc_right del: funpow.simps)
  show ?case
  proof (intro conjI allI impI)
    show "w' = ((snd \<circ> run) ^^ Suc n) w" using Suc.IH[OF rest] shift[of n] by (simp only:)
  next
    fix i out
    assume i: "i < Suc n" and o: "fst (run (((snd \<circ> run) ^^ i) w)) = K6_Exit 0 out"
    show "parse_k6_p95_ms out = Inr None"
    proof (cases i)
      case 0
      with o r first show ?thesis by simp
    next
      case (Suc j)
      with o shift[of j] have "fst (run (((snd \<circ> run) ^^ j) w1)) = K6_Exit 0 out" by (simp only:)
      moreover have "j < n" using i Suc by simp
      ultimately show ?thesis using Suc.IH[OF rest] by blast
    qed
  qed
qed simp

end
