(* ===== verification/Stub_Diagnoser.thy ===== *)
theory Stub_Diagnoser
  imports Wardence_DB K6_Probe
begin

text \<open>
  \<^verbatim>\<open>p2_readonly_loop/agent.py\<close>: the Prometheus evidence of an episode, the rule that reads
  it, and the two fallbacks (capacity probe, log detector). Prometheus, \<^verbatim>\<open>kubectl\<close> and the
  detector service are not under this repository: they are the record \<open>'w sources\<close>. A query
  is the text the code sends.
\<close>

section \<open>Thresholds and services\<close>

definition dl_detector_services :: "string list" where
  "dl_detector_services = [''front-end'', ''orders'', ''user'', ''catalogue'', ''queue-master'']"

definition high_latency_threshold_ms :: rat where "high_latency_threshold_ms = 300"
definition memory_leak_rise_threshold_kb :: rat where "memory_leak_rise_threshold_kb = 20000"
definition connection_pool_threshold :: rat where "connection_pool_threshold = 100"
definition network_probe_min_connect_failures :: int where "network_probe_min_connect_failures = 4"
definition network_probe_latency_ceiling_ms :: int where "network_probe_latency_ceiling_ms = 10000"
definition cpu_throttle_increase_threshold :: rat where "cpu_throttle_increase_threshold = 100"

text \<open>The two thresholds read from the environment (defaults 200 and 130).\<close>

record thresholds =
  th_max_throughput_bps :: rat
  th_probe_ms :: rat

definition default_thresholds :: thresholds where
  "default_thresholds = \<lparr>th_max_throughput_bps = 200, th_probe_ms = 130\<rparr>"

section \<open>Prometheus\<close>

text \<open>One series of an instant query: its \<^verbatim>\<open>pod\<close> and \<^verbatim>\<open>status\<close> labels and its value.\<close>

record series =
  se_pod :: "string option"
  se_status :: "string option"
  se_value :: rat

datatype detector_reply = Detector_Unreachable | Detector_Answer int pydict

record 'w sources =
  src_prom :: "string \<Rightarrow> string option \<Rightarrow> ('w, series list) step"
  src_k6 :: "string \<Rightarrow> 'w \<Rightarrow> k6_run \<times> 'w"
  src_detector :: "string \<Rightarrow> 'w \<Rightarrow> detector_reply \<times> 'w"

text \<open>A label matcher, and the selector \<^verbatim>\<open>{a="x", b=~"y"}\<close>.\<close>

definition quoted :: "string \<Rightarrow> string" where
  "quoted s = [CHR 0x22] @ s @ [CHR 0x22]"

fun join_comma :: "string list \<Rightarrow> string" where
  "join_comma [] = []"
| "join_comma [x] = x"
| "join_comma (x # y # xs) = x @ '', '' @ join_comma (y # xs)"

definition selector :: "(string \<times> string) list \<Rightarrow> string" where
  "selector kvs = ''{'' @ join_comma (List.map (\<lambda>(k, v). k @ quoted v) kvs) @ ''}''"

definition pod_re :: "string \<Rightarrow> string" where
  "pod_re target = target @ ''-[^-]+-[^-]+$''"

definition ns_pod :: "string \<Rightarrow> string \<Rightarrow> (string \<times> string) list" where
  "ns_pod ns target = [(''namespace='', ns), (''pod=~'', pod_re target)]"

section \<open>The queries\<close>

definition oom_query :: "string \<Rightarrow> string \<Rightarrow> string" where
  "oom_query target ns =
     ''(kube_pod_container_status_last_terminated_reason'' @
     selector (ns_pod ns target @ [(''reason='', ''OOMKilled'')]) @ '' == 1) '' @
     ''and on(namespace, pod) (increase(kube_pod_container_status_restarts_total'' @
     selector (ns_pod ns target) @ ''[6m]) > 0)''"

definition oom_sticky_query :: "string \<Rightarrow> string \<Rightarrow> string" where
  "oom_sticky_query target ns =
     ''kube_pod_container_status_last_terminated_reason'' @
     selector (ns_pod ns target @ [(''reason='', ''OOMKilled'')]) @ '' == 1 '' @
     ''and on(namespace, pod, container) ((time() - container_start_time_seconds'' @
     selector (ns_pod ns target) @ '') < OOM_STICKY_MAX_CONTAINER_AGE_S)''"

definition evicted_query :: "string \<Rightarrow> string \<Rightarrow> string" where
  "evicted_query target ns =
     ''kube_pod_status_reason'' @ selector (ns_pod ns target @ [(''reason='', ''Evicted'')]) @ '' == 1''"

definition recent_running_pod_query :: "string \<Rightarrow> string \<Rightarrow> string" where
  "recent_running_pod_query target ns =
     ''(kube_pod_status_phase'' @ selector (ns_pod ns target @ [(''phase='', ''Running'')]) @ '' == 1) '' @
     ''and on(namespace, pod) ((time() - kube_pod_created'' @ selector (ns_pod ns target) @ '') < 180)''"

definition crash_query :: "string \<Rightarrow> string \<Rightarrow> string" where
  "crash_query target ns =
     ''(kube_pod_container_status_waiting_reason'' @
     selector (ns_pod ns target @ [(''reason='', ''CrashLoopBackOff'')]) @ '' == 1) '' @
     ''or (increase(kube_pod_container_status_restarts_total'' @ selector (ns_pod ns target) @ ''[3m]) > 0)''"

definition latency_query :: "string \<Rightarrow> string" where
  "latency_query target =
     ''max_over_time(k6_http_req_duration_p95'' @ selector [(''url=~'', ''.*'' @ target @ ''.*'')] @ ''[2m])''"

definition throughput_query :: "string \<Rightarrow> string \<Rightarrow> string" where
  "throughput_query target ns =
     ''min_over_time((sum(rate(container_network_transmit_bytes_total'' @ selector (ns_pod ns target) @
     ''[30s])))[2m:30s]) + '' @
     ''min_over_time((sum(rate(container_network_receive_bytes_total'' @ selector (ns_pod ns target) @
     ''[30s])))[2m:30s])''"

definition ready_false_query :: "string \<Rightarrow> string \<Rightarrow> string" where
  "ready_false_query target ns =
     ''max_over_time(kube_pod_status_ready'' @ selector (ns_pod ns target @ [(''condition='', ''false'')]) @
     ''[2m]) == 1''"

definition image_pull_failing_query :: "string \<Rightarrow> string \<Rightarrow> string" where
  "image_pull_failing_query target ns =
     ''max_over_time(kube_pod_container_status_waiting_reason'' @
     selector (ns_pod ns target @ [(''reason=~'', ''ImagePullBackOff|ErrImagePull'')]) @ ''[2m]) == 1''"

definition ns_deployment :: "string \<Rightarrow> string \<Rightarrow> (string \<times> string) list" where
  "ns_deployment ns target = [(''namespace='', ns), (''deployment='', target)]"

definition min_replicas_query :: "string \<Rightarrow> string \<Rightarrow> string" where
  "min_replicas_query target ns =
     ''min_over_time(kube_deployment_status_replicas_available'' @ selector (ns_deployment ns target) @ ''[2m])''"

definition memory_query :: "string \<Rightarrow> string \<Rightarrow> string" where
  "memory_query target ns =
     ''max_over_time(container_memory_working_set_bytes'' @
     selector (ns_pod ns target @ [(''container='', target)]) @ ''[6m])''"

definition heap_query :: "string \<Rightarrow> string \<Rightarrow> string" where
  "heap_query target ns = ''max_over_time(heap_used'' @ selector (ns_pod ns target) @ ''[300s])''"

definition threads_query :: "string \<Rightarrow> string \<Rightarrow> string" where
  "threads_query target ns =
     ''max_over_time(mysql_global_status_threads_connected'' @ selector (ns_pod ns target) @ ''[3m])''"

definition throttle_query :: "string \<Rightarrow> string \<Rightarrow> string" where
  "throttle_query target ns =
     ''increase(container_cpu_cfs_throttled_periods_total'' @
     selector (ns_pod ns target @ [(''container='', target)]) @ ''[6m])''"

definition replicas_query :: "string \<Rightarrow> string \<Rightarrow> string" where
  "replicas_query target ns = ''kube_deployment_spec_replicas'' @ selector (ns_deployment ns target)"

section \<open>The signals\<close>

definition max_opt :: "rat list \<Rightarrow> rat option" where
  "max_opt vs = (if vs = [] then None else Some (Max (set vs)))"

definition head_value :: "series list \<Rightarrow> rat option" where
  "head_value ss = (case ss of [] \<Rightarrow> None | s # _ \<Rightarrow> Some (se_value s))"

text \<open>\<^verbatim>\<open>int(float(v))\<close> truncates towards zero.\<close>

definition trunc :: "rat \<Rightarrow> int" where
  "trunc q = (if 0 \<le> q then floor q else ceiling q)"

text \<open>Each thresholded signal is read for its own service only, and is absent elsewhere.\<close>

definition when_target :: "bool \<Rightarrow> 'a \<Rightarrow> ('w, 'a) step \<Rightarrow> ('w, 'a) step" where
  "when_target here absent m = (if here then m else ret_step absent)"

definition p95_signal :: "'w sources \<Rightarrow> string \<Rightarrow> string option \<Rightarrow> ('w, rat option) step" where
  "p95_signal S target snap =
     when_target (target = ''orders'') None
       (map_step (\<lambda>ss. max_opt (List.map (\<lambda>s. fmul (se_value s) 1000)
                         (filter (\<lambda>s. se_status s \<noteq> Some ''0'') ss)))
          (src_prom S (latency_query target) snap))"

definition throughput_signal :: "'w sources \<Rightarrow> string \<Rightarrow> string \<Rightarrow> string option \<Rightarrow> ('w, rat option) step" where
  "throughput_signal S target ns snap =
     when_target (target = ''orders'') None (map_step head_value (src_prom S (throughput_query target ns) snap))"

definition not_ready_signal :: "'w sources \<Rightarrow> string \<Rightarrow> string \<Rightarrow> string option \<Rightarrow> ('w, bool) step" where
  "not_ready_signal S target ns snap =
     when_target (target = ''payment'') False
       (map_step (\<lambda>ss. ss \<noteq> []) (src_prom S (ready_false_query target ns) snap))"

definition image_pull_signal :: "'w sources \<Rightarrow> string \<Rightarrow> string \<Rightarrow> string option \<Rightarrow> ('w, bool) step" where
  "image_pull_signal S target ns snap =
     when_target (target = ''front-end'') False
       (map_step (\<lambda>ss. ss \<noteq> []) (src_prom S (image_pull_failing_query target ns) snap))"

definition zero_replicas_signal :: "'w sources \<Rightarrow> string \<Rightarrow> string \<Rightarrow> string option \<Rightarrow> ('w, bool) step" where
  "zero_replicas_signal S target ns snap =
     when_target (target = ''session-db'') False
       (map_step (\<lambda>ss. head_value ss = Some 0) (src_prom S (min_replicas_query target ns) snap))"

definition peak_memory_signal :: "'w sources \<Rightarrow> string \<Rightarrow> string \<Rightarrow> string option \<Rightarrow> ('w, rat option) step" where
  "peak_memory_signal S target ns snap =
     when_target (target = ''catalogue'') None
       (map_step (\<lambda>ss. max_opt (List.map (\<lambda>s. py_float (se_value s / (1024 * 1024))) ss))
          (src_prom S (memory_query target ns) snap))"

definition heap_signal ::
    "'w sources \<Rightarrow> string \<Rightarrow> string \<Rightarrow> string option \<Rightarrow> rat option \<Rightarrow> ('w, rat option) step" where
  "heap_signal S target ns snap baseline =
     (case baseline of None \<Rightarrow> ret_step None
      | Some b \<Rightarrow>
          when_target (target = ''shipping'') None
            (map_step (\<lambda>ss. map_option (\<lambda>p. py_float (p - b)) (max_opt (List.map se_value ss)))
               (src_prom S (heap_query target ns) snap)))"

definition threads_signal :: "'w sources \<Rightarrow> string \<Rightarrow> string \<Rightarrow> string option \<Rightarrow> ('w, rat option) step" where
  "threads_signal S target ns snap =
     when_target (target = ''catalogue-db'') None
       (map_step (\<lambda>ss. max_opt (List.map se_value ss)) (src_prom S (threads_query target ns) snap))"

definition throttle_signal :: "'w sources \<Rightarrow> string \<Rightarrow> string \<Rightarrow> string option \<Rightarrow> ('w, rat option) step" where
  "throttle_signal S target ns snap =
     when_target (target = ''user'') None
       (map_step (\<lambda>ss. max_opt (List.map se_value ss)) (src_prom S (throttle_query target ns) snap))"

definition pods_of :: "series list \<Rightarrow> string option list" where
  "pods_of ss = List.map se_pod ss"

definition choose_oom_pods :: "series list \<Rightarrow> series list \<Rightarrow> string option list" where
  "choose_oom_pods joined sticky = (if pods_of joined = [] then pods_of sticky else pods_of joined)"

definition choose_evicted_pods :: "series list \<Rightarrow> series list \<Rightarrow> string option list" where
  "choose_evicted_pods evicted fresh = (if evicted \<noteq> [] \<and> fresh \<noteq> [] then pods_of evicted else [])"

text \<open>\<^verbatim>\<open>query_prometheus\<close>: the queries in the code's order; the first that raises ends it.\<close>

definition query_prometheus ::
    "'w sources \<Rightarrow> string \<Rightarrow> string \<Rightarrow> string option \<Rightarrow> rat option \<Rightarrow> (int option \<times> int option) option
       \<Rightarrow> ('w, tool_output) step" where
  "query_prometheus S target ns snap baseline probe =
     then_step (src_prom S (oom_query target ns) snap) (\<lambda>oom.
     then_step (src_prom S (oom_sticky_query target ns) snap) (\<lambda>sticky.
     then_step (src_prom S (evicted_query target ns) snap) (\<lambda>evicted.
     then_step (src_prom S (recent_running_pod_query target ns) snap) (\<lambda>fresh.
     then_step (src_prom S (crash_query target ns) snap) (\<lambda>crash.
     then_step (p95_signal S target snap) (\<lambda>p95.
     then_step (throughput_signal S target ns snap) (\<lambda>throughput.
     then_step (not_ready_signal S target ns snap) (\<lambda>not_ready.
     then_step (image_pull_signal S target ns snap) (\<lambda>image_pull.
     then_step (zero_replicas_signal S target ns snap) (\<lambda>zero_replicas.
     then_step (peak_memory_signal S target ns snap) (\<lambda>peak_memory.
     then_step (heap_signal S target ns snap baseline) (\<lambda>heap.
     then_step (threads_signal S target ns snap) (\<lambda>threads.
     then_step (throttle_signal S target ns snap) (\<lambda>throttle.
     map_step (\<lambda>replicas.
       \<lparr>oom_pods = choose_oom_pods oom sticky,
        evicted_pods = choose_evicted_pods evicted fresh,
        crashlooping_pods = pods_of crash,
        connect_failures = (case probe of None \<Rightarrow> None | Some p \<Rightarrow> fst p),
        max_http_ms = (case probe of None \<Rightarrow> None | Some p \<Rightarrow> snd p),
        p95_latency_ms = p95, combined_throughput_bps = throughput,
        payment_stuck_not_ready = not_ready, session_db_replicas_hit_zero = zero_replicas,
        peak_memory_mib = peak_memory, peak_threads_connected = threads,
        cpu_throttle_periods_increase = throttle, front_end_image_pull_failing = image_pull,
        current_replicas = map_option trunc (head_value replicas), heap_rise_kb = heap,
        catalogue_probe_p95_ms = None, dl_detector_result = None\<rparr>)
       (src_prom S (replicas_query target ns) snap)))))))))))))))"

section \<open>The rule\<close>

definition rule_confidence :: rat where "rule_confidence = py_float (6 / 10)"

definition verdict_of :: "string \<Rightarrow> rat \<Rightarrow> ftext \<Rightarrow> diagnosis" where
  "verdict_of c conf why = \<lparr>dg_diagnosis = c, dg_confidence = Some conf, dg_reasoning = Some why\<rparr>"

definition pods_value :: "string option list \<Rightarrow> pyval" where
  "pods_value ps = PList (List.map (\<lambda>p. case p of None \<Rightarrow> PNone | Some s \<Rightarrow> PStr s) ps)"

definition int_value :: "int option \<Rightarrow> pyval" where
  "int_value v = (case v of None \<Rightarrow> PNone | Some i \<Rightarrow> PInt i)"

definition rat_value :: "rat option \<Rightarrow> pyval" where
  "rat_value v = (case v of None \<Rightarrow> PNone | Some q \<Rightarrow> PFloat q)"

definition stubbed :: string where "stubbed = ''(stubbed rule, not LLM)''"

definition at_least :: "rat \<Rightarrow> rat option \<Rightarrow> bool" where
  "at_least b v = (case v of None \<Rightarrow> False | Some q \<Rightarrow> b \<le> q)"

definition below :: "rat \<Rightarrow> rat option \<Rightarrow> bool" where
  "below b v = (case v of None \<Rightarrow> False | Some q \<Rightarrow> q < b)"

text \<open>The two answers of the connectivity probe.\<close>

definition probe_says_cut :: "tool_output \<Rightarrow> bool" where
  "probe_says_cut t = (case connect_failures t of None \<Rightarrow> False
                       | Some n \<Rightarrow> network_probe_min_connect_failures \<le> n)"

definition probe_says_slow :: "tool_output \<Rightarrow> bool" where
  "probe_says_slow t =
     (case max_http_ms t of None \<Rightarrow> False
      | Some m \<Rightarrow> high_latency_threshold_ms \<le> of_int m \<and> m < network_probe_latency_ceiling_ms \<and>
          (case connect_failures t of None \<Rightarrow> True | Some n \<Rightarrow> n \<le> 1))"

text \<open>The reason is the f-string of the code, its literal fragments and its values; a format
  such as \<open>:.1f\<close> is applied when the text is rendered.\<close>

definition kb_and_mib :: "rat option \<Rightarrow> ftext" where
  "kb_and_mib kb = [Val (rat_value kb), Lit ''KB ('', Val (rat_value (map_option (\<lambda>q. py_float (q / 1024)) kb)),
                    Lit ''MiB)'']"

definition stub_diagnose :: "thresholds \<Rightarrow> tool_output \<Rightarrow> diagnosis" where
  "stub_diagnose th t =
     (let say = (\<lambda>c why. verdict_of c rule_confidence (why @ [Lit stubbed])) in
      if oom_pods t \<noteq> [] then
        say ''oom'' [Lit ''pods with last termination reason OOMKilled: '', Val (pods_value (oom_pods t)), Lit '' '']
      else if evicted_pods t \<noteq> [] then
        say ''disk-full'' [Lit ''pods with status reason Evicted: '', Val (pods_value (evicted_pods t)), Lit '' '']
      else if front_end_image_pull_failing t then
        say ''bad-rollout'' [Lit ''a front-end pod is stuck in ImagePullBackOff/ErrImagePull -- a bad '',
          Lit ''deploy, not a crash-loop or generic restart '']
      else if crashlooping_pods t \<noteq> [] then
        say ''crash-loop'' [Lit ''pods in CrashLoopBackOff: '', Val (pods_value (crashlooping_pods t)), Lit '' '']
      else if payment_stuck_not_ready t then
        say ''init-failure'' [Lit ''a payment pod is reporting Ready=false with no restart -- stuck, never '',
          Lit ''becoming ready, not crash-looping '']
      else if session_db_replicas_hit_zero t then
        say ''session-cart-failure'' [Lit ''session-db had zero available replicas within the recent window -- '',
          Lit ''the session/cart store itself is down, not a crash-loop or generic '', Lit ''restart '']
      else if probe_says_cut t then
        say ''network-partition'' [Lit ''connectivity probe: '', Val (int_value (connect_failures t)),
          Lit ''/5 requests from inside the '', Lit ''front-end pod got no HTTP response at all (>= '',
          Val (PInt network_probe_min_connect_failures), Lit '') '',
          Lit ''-- the path to orders is cut, not merely slow '']
      else if probe_says_slow t then
        say ''network-latency'' [Lit ''connectivity probe: requests from inside the front-end pod completed '',
          Lit ''but slow (max '', Val (int_value (max_http_ms t)), Lit ''ms, in ['',
          Val (PInt (trunc high_latency_threshold_ms)), Lit '', '', Val (PInt network_probe_latency_ceiling_ms),
          Lit '')ms) with connect_failures='', Val (int_value (connect_failures t)), Lit '' -- delayed, not cut '']
      else if at_least high_latency_threshold_ms (p95_latency_ms t) then
        say ''network-latency'' [Lit ''p95 request latency '', Val (rat_value (p95_latency_ms t)), Lit ''ms >= '',
          Val (PInt (trunc high_latency_threshold_ms)), Lit ''ms threshold '']
      else if below (th_max_throughput_bps th) (combined_throughput_bps t) then
        say ''network-partition'' [Lit ''orders'', Lit [CHR 0x27],
          Lit '' combined network throughput '', Val (rat_value (combined_throughput_bps t)), Lit '' bytes/s '',
          Lit ''< '', Val (PInt (trunc (th_max_throughput_bps th))), Lit '' bytes/s threshold '']
      else if at_least memory_leak_rise_threshold_kb (heap_rise_kb t) then
        say ''memory-leak'' ([Lit ''shipping'', Lit [CHR 0x27], Lit ''s JVM heap rose ''] @ kb_and_mib (heap_rise_kb t) @
          [Lit '' over its '', Lit ''own real per-episode baseline >= ''] @
          kb_and_mib (Some memory_leak_rise_threshold_kb) @
          [Lit '' threshold, no restart/OOM/eviction '', Lit ''observed ''])
      else if at_least connection_pool_threshold (peak_threads_connected t) then
        say ''connection-pool-exhaustion'' [Lit ''peak MySQL Threads_connected '',
          Val (rat_value (peak_threads_connected t)), Lit '' >= '', Val (PInt (trunc connection_pool_threshold)),
          Lit '' threshold '']
      else if at_least cpu_throttle_increase_threshold (cpu_throttle_periods_increase t) then
        say ''cpu-throttling'' [Lit ''user'', Lit [CHR 0x27], Lit ''s CFS throttled-periods increased by '',
          Val (rat_value (cpu_throttle_periods_increase t)), Lit '' >= '',
          Val (PInt (trunc cpu_throttle_increase_threshold)), Lit '' threshold over the last 2m '']
      else verdict_of ''no anomaly detected'' (1 / 2)
             [Lit ''no pods in CrashLoopBackOff, no recent OOM kill, no eviction, no elevated latency/memory/connections '',
              Lit stubbed])"

section \<open>The fallbacks\<close>

definition call_dl_detector :: "'w sources \<Rightarrow> string \<Rightarrow> 'w \<Rightarrow> pydict option \<times> 'w" where
  "call_dl_detector S service w =
     (case src_detector S service w of
        (Detector_Unreachable, w1) \<Rightarrow> (None, w1)
      | (Detector_Answer code data, w1) \<Rightarrow>
          if code \<noteq> 200 then (None, w1)
          else if dict_get data ''status'' = PStr ''insufficient_data'' then (None, w1)
          else (Some data, w1))"

definition no_anomaly :: "diagnosis \<Rightarrow> bool" where
  "no_anomaly r \<longleftrightarrow> dg_diagnosis r = ''no anomaly detected''"

definition probe_fallback ::
    "'w sources \<Rightarrow> thresholds \<Rightarrow> string \<Rightarrow> string \<Rightarrow> tool_output \<times> diagnosis
       \<Rightarrow> ('w, tool_output \<times> diagnosis) step" where
  "probe_fallback S th target ns tr =
     (if no_anomaly (snd tr) \<and> target = ''catalogue''
      then map_step (\<lambda>p95.
             (fst tr\<lparr>catalogue_probe_p95_ms := Some p95\<rparr>,
              if at_least (th_probe_ms th) p95
              then verdict_of ''under-provisioned-replicas'' rule_confidence
                     [Lit ''active capacity probe against catalogue showed p95='', Val (rat_value p95),
                      Lit ''ms '', Lit ''>= '', Val (PInt (trunc (th_probe_ms th))), Lit ''ms threshold '',
                      Lit stubbed]
              else snd tr))
             (probe_catalogue_capacity (src_k6 S ns))
      else ret_step tr)"

definition detector_fallback ::
    "'w sources \<Rightarrow> string \<Rightarrow> tool_output \<times> diagnosis \<Rightarrow> ('w, tool_output \<times> diagnosis) step" where
  "detector_fallback S target tr w =
     (if no_anomaly (snd tr) \<and> target \<in> set dl_detector_services
      then (case call_dl_detector S target w of (d, w1) \<Rightarrow>
              (Inr (fst tr\<lparr>dl_detector_result := Some (case d of None \<Rightarrow> PNone | Some x \<Rightarrow> PDict x)\<rparr>,
                    case d of None \<Rightarrow> snd tr
                    | Some x \<Rightarrow>
                        if truthy (dict_get x ''is_anomalous'')
                        then verdict_of ''log-anomaly detected (unclassified)'' (1 / 2)
                               [Lit ''DL/HMM/SPC detector flagged '', Val (PStr target),
                                Lit '' as anomalous '', Lit ''(track='', Val (dict_get x ''track''),
                                Lit '') with no Prometheus-based '',
                                Lit ''signal to explain it -- real anomaly, but this generic detector '',
                                Lit ''cannot identify which specific fault class it is '', Lit stubbed]
                        else snd tr), w1))
      else (Inr tr, w))"

text \<open>The body of \<^verbatim>\<open>/diagnose\<close>, here and in \<^verbatim>\<open>p3_agent.py\<close>: evidence, rule, fallbacks.\<close>

definition stub_pipeline ::
    "'w sources \<Rightarrow> thresholds \<Rightarrow> string \<Rightarrow> string \<Rightarrow> string option \<Rightarrow> rat option
       \<Rightarrow> (int option \<times> int option) option \<Rightarrow> ('w, tool_output \<times> diagnosis) step" where
  "stub_pipeline S th target ns snap baseline probe =
     then_step (query_prometheus S target ns snap baseline probe) (\<lambda>t.
     then_step (probe_fallback S th target ns (t, stub_diagnose th t)) (\<lambda>tr.
       detector_fallback S target tr))"

section \<open>The rule as a decision list\<close>

definition stub_rules :: "thresholds \<Rightarrow> (string \<times> (tool_output \<Rightarrow> bool)) list" where
  "stub_rules th =
     [(''oom'', \<lambda>t. oom_pods t \<noteq> []), (''disk-full'', \<lambda>t. evicted_pods t \<noteq> []),
      (''bad-rollout'', front_end_image_pull_failing), (''crash-loop'', \<lambda>t. crashlooping_pods t \<noteq> []),
      (''init-failure'', payment_stuck_not_ready), (''session-cart-failure'', session_db_replicas_hit_zero),
      (''network-partition'', probe_says_cut), (''network-latency'', probe_says_slow),
      (''network-latency'', \<lambda>t. at_least 300 (p95_latency_ms t)),
      (''network-partition'', \<lambda>t. below (th_max_throughput_bps th) (combined_throughput_bps t)),
      (''memory-leak'', \<lambda>t. at_least 20000 (heap_rise_kb t)),
      (''connection-pool-exhaustion'', \<lambda>t. at_least 100 (peak_threads_connected t)),
      (''cpu-throttling'', \<lambda>t. at_least 100 (cpu_throttle_periods_increase t))]"

fun first_rule :: "(string \<times> (tool_output \<Rightarrow> bool)) list \<Rightarrow> tool_output \<Rightarrow> string" where
  "first_rule [] t = ''no anomaly detected''"
| "first_rule ((c, p) # rs) t = (if p t then c else first_rule rs t)"

lemma verdict_of_diagnosis [simp]: "dg_diagnosis (verdict_of c k why) = c"
  by (simp add: verdict_of_def)

lemma stub_diagnose_list: "dg_diagnosis (stub_diagnose th t) = first_rule (stub_rules th) t"
  by (simp only: stub_diagnose_def stub_rules_def Let_def if_distrib[of dg_diagnosis] verdict_of_diagnosis
      first_rule.simps high_latency_threshold_ms_def memory_leak_rise_threshold_kb_def
      connection_pool_threshold_def cpu_throttle_increase_threshold_def)

text \<open>A diagnosis names a rule that holds.\<close>

lemma first_rule_holds:
  "first_rule rs t = c \<Longrightarrow> c \<noteq> ''no anomaly detected'' \<Longrightarrow> \<exists>p. (c, p) \<in> set rs \<and> p t"
  by (induction rs t rule: first_rule.induct) (auto split: if_splits)

section \<open>Every thresholded signal is its own service's\<close>

lemma when_target_Inr:
  "when_target here absent m w = (Inr a, w') \<Longrightarrow> \<not> here \<Longrightarrow> a = absent"
  by (simp add: when_target_def)

definition gated :: "string \<Rightarrow> (int option \<times> int option) option \<Rightarrow> tool_output \<Rightarrow> bool" where
  "gated target probe t \<longleftrightarrow>
     (target = ''orders'' \<or> p95_latency_ms t = None \<and> combined_throughput_bps t = None) \<and>
     (target = ''payment'' \<or> \<not> payment_stuck_not_ready t) \<and>
     (target = ''front-end'' \<or> \<not> front_end_image_pull_failing t) \<and>
     (target = ''session-db'' \<or> \<not> session_db_replicas_hit_zero t) \<and>
     (target = ''catalogue'' \<or> peak_memory_mib t = None) \<and>
     (target = ''shipping'' \<or> heap_rise_kb t = None) \<and>
     (target = ''catalogue-db'' \<or> peak_threads_connected t = None) \<and>
     (target = ''user'' \<or> cpu_throttle_periods_increase t = None) \<and>
     (probe \<noteq> None \<or> connect_failures t = None \<and> max_http_ms t = None)"

lemma map_step_when_target:
  assumes "when_target here absent (map_step g m) w = (Inr a, w')"
  shows "here \<or> a = absent"
  using assms by (cases here) (simp_all add: when_target_def)

lemma signals_gated:
  "p95_signal S target snap w = (Inr a, w') \<Longrightarrow> target = ''orders'' \<or> a = None"
  "throughput_signal S target ns snap w = (Inr a, w') \<Longrightarrow> target = ''orders'' \<or> a = None"
  "not_ready_signal S target ns snap w = (Inr b, w') \<Longrightarrow> target = ''payment'' \<or> \<not> b"
  "image_pull_signal S target ns snap w = (Inr b, w') \<Longrightarrow> target = ''front-end'' \<or> \<not> b"
  "zero_replicas_signal S target ns snap w = (Inr b, w') \<Longrightarrow> target = ''session-db'' \<or> \<not> b"
  "peak_memory_signal S target ns snap w = (Inr a, w') \<Longrightarrow> target = ''catalogue'' \<or> a = None"
  "heap_signal S target ns snap base w = (Inr a, w') \<Longrightarrow> target = ''shipping'' \<or> a = None"
  "threads_signal S target ns snap w = (Inr a, w') \<Longrightarrow> target = ''catalogue-db'' \<or> a = None"
  "throttle_signal S target ns snap w = (Inr a, w') \<Longrightarrow> target = ''user'' \<or> a = None"
  by (auto simp: p95_signal_def throughput_signal_def not_ready_signal_def image_pull_signal_def
      zero_replicas_signal_def peak_memory_signal_def heap_signal_def threads_signal_def
      throttle_signal_def dest: map_step_when_target split: option.splits)

lemma query_prometheus_gated:
  assumes "query_prometheus S target ns snap baseline probe w = (Inr t, w')"
  shows "gated target probe t"
  using assms
  unfolding query_prometheus_def then_step_Inr map_step_Inr
  apply (elim exE conjE)
  apply (drule signals_gated)+
  apply (cases probe; simp add: gated_def; blast)
  done

section \<open>Properties\<close>

text \<open>The diagnosis of the rule is the first class of its priority list whose signal holds,
  and no anomaly if none does: OOM, eviction and the image pull win over the restart
  catch-all, the connectivity probe over the passive network signals.\<close>

theorem stub_priority:
  "dg_diagnosis (stub_diagnose th t) =
     first_rule
       [(''oom'', \<lambda>t. oom_pods t \<noteq> []), (''disk-full'', \<lambda>t. evicted_pods t \<noteq> []),
        (''bad-rollout'', front_end_image_pull_failing), (''crash-loop'', \<lambda>t. crashlooping_pods t \<noteq> []),
        (''init-failure'', payment_stuck_not_ready), (''session-cart-failure'', session_db_replicas_hit_zero),
        (''network-partition'', probe_says_cut), (''network-latency'', probe_says_slow),
        (''network-latency'', \<lambda>t. at_least 300 (p95_latency_ms t)),
        (''network-partition'', \<lambda>t. below (th_max_throughput_bps th) (combined_throughput_bps t)),
        (''memory-leak'', \<lambda>t. at_least 20000 (heap_rise_kb t)),
        (''connection-pool-exhaustion'', \<lambda>t. at_least 100 (peak_threads_connected t)),
        (''cpu-throttling'', \<lambda>t. at_least 100 (cpu_throttle_periods_increase t))] t"
  using stub_diagnose_list[of th t] unfolding stub_rules_def .

text \<open>No service is diagnosed with another service's calibrated threshold: whatever
  Prometheus answers, a memory leak is only ever diagnosed for shipping, an exhausted
  connection pool for catalogue-db, throttling for user, an init failure for payment, a
  session failure for session-db, a bad rollout for front-end, and a network fault for
  orders or with a connectivity probe.\<close>

theorem thresholds_do_not_cross:
  assumes "query_prometheus S target ns snap baseline probe w = (Inr t, w')"
    and "dg_diagnosis (stub_diagnose th t) = c"
  shows "(c, target) \<in> {(''memory-leak'', ''shipping''), (''connection-pool-exhaustion'', ''catalogue-db''),
           (''cpu-throttling'', ''user''), (''init-failure'', ''payment''),
           (''session-cart-failure'', ''session-db''), (''bad-rollout'', ''front-end'')}
       \<or> c \<in> {''network-latency'', ''network-partition''} \<and> (target = ''orders'' \<or> probe \<noteq> None)
       \<or> c \<in> {''oom'', ''disk-full'', ''crash-loop'', ''no anomaly detected''}"
proof (cases "c = ''no anomaly detected''")
  case False
  then obtain p where p: "(c, p) \<in> set (stub_rules th)" "p t"
    using assms(2) first_rule_holds[of "stub_rules th" t c] by (auto simp: stub_diagnose_list)
  have g: "gated target probe t" by (rule query_prometheus_gated[OF assms(1)])
  from p g show ?thesis
    unfolding stub_rules_def
    by (simp add: gated_def) (elim disjE; clarsimp simp: probe_says_cut_def probe_says_slow_def at_least_def below_def)
qed simp

text \<open>Sources for the examples: one heap series of 30000 KB, nothing else.\<close>

definition demo_sources :: "unit sources" where
  "demo_sources = \<lparr>src_prom = \<lambda>q _ w.
       (Inr (if is_prefix ''max_over_time(heap_'' q
             then [\<lparr>se_pod = None, se_status = None, se_value = 30000\<rparr>] else []), w),
     src_k6 = \<lambda>_ w. (K6_Timeout, w), src_detector = \<lambda>_ w. (Detector_Unreachable, w)\<rparr>"

lemma demo_query:
  "\<exists>t. query_prometheus demo_sources ''shipping'' ''sock-shop'' None (Some 1000) None () = (Inr t, ()) \<and>
       oom_pods t = [] \<and> evicted_pods t = [] \<and> crashlooping_pods t = [] \<and> heap_rise_kb t = Some 29000"
proof -
  have q: "src_prom demo_sources q snap () = (Inr (if is_prefix ''max_over_time(heap_'' q
             then [\<lparr>se_pod = None, se_status = None, se_value = 30000\<rparr>] else []), ())" for q snap
    by (simp add: demo_sources_def)
  have "src_prom demo_sources (f ''shipping'' ''sock-shop'') None () = (Inr [], ())"
    if "f \<in> {oom_query, oom_sticky_query, evicted_query, recent_running_pod_query, crash_query,
        replicas_query}" for f
    unfolding q using that
    by (auto simp: oom_query_def oom_sticky_query_def evicted_query_def recent_running_pod_query_def
        crash_query_def replicas_query_def)
  then have "src_prom demo_sources (oom_query ''shipping'' ''sock-shop'') None () = (Inr [], ())"
    "src_prom demo_sources (oom_sticky_query ''shipping'' ''sock-shop'') None () = (Inr [], ())"
    "src_prom demo_sources (evicted_query ''shipping'' ''sock-shop'') None () = (Inr [], ())"
    "src_prom demo_sources (recent_running_pod_query ''shipping'' ''sock-shop'') None () = (Inr [], ())"
    "src_prom demo_sources (crash_query ''shipping'' ''sock-shop'') None () = (Inr [], ())"
    "src_prom demo_sources (replicas_query ''shipping'' ''sock-shop'') None () = (Inr [], ())" by simp_all
  moreover have "heap_signal demo_sources ''shipping'' ''sock-shop'' None (Some 1000) () = (Inr (Some 29000), ())"
    by (simp add: heap_signal_def when_target_def map_step_def then_step_def q heap_query_def max_opt_def
        ret_step_def)
  ultimately show ?thesis
    by (simp add: query_prometheus_def then_step_def map_step_def ret_step_def p95_signal_def
        throughput_signal_def not_ready_signal_def image_pull_signal_def zero_replicas_signal_def
        peak_memory_signal_def threads_signal_def throttle_signal_def when_target_def
        choose_oom_pods_def choose_evicted_pods_def pods_of_def)
qed

lemma thresholds_do_not_cross_witness:
  "\<exists>t. query_prometheus demo_sources ''shipping'' ''sock-shop'' None (Some 1000) None () = (Inr t, ()) \<and>
     (dg_diagnosis (stub_diagnose default_thresholds t), ''shipping'')
       \<in> {(''memory-leak'', ''shipping''), (''no anomaly detected'', ''shipping'')}"
proof -
  from demo_query obtain t where
    q: "query_prometheus demo_sources ''shipping'' ''sock-shop'' None (Some 1000) None () = (Inr t, ())"
    and t: "oom_pods t = []" "evicted_pods t = []" "crashlooping_pods t = []" by blast
  have "dg_diagnosis (stub_diagnose default_thresholds t) \<notin> {''oom'', ''disk-full'', ''crash-loop''}"
    using t first_rule_holds[of "stub_rules default_thresholds" t] by (auto simp: stub_diagnose_list stub_rules_def)
  with thresholds_do_not_cross[OF q refl] q show ?thesis by auto
qed

text \<open>The query that is to bound the sticky OOM gauge to 1200 seconds compares with a metric
  named like the constant: its text ends in that name, not in a number.\<close>

theorem sticky_query_compares_with_a_metric:
  "\<exists>head. oom_sticky_query target ns = head @ ''OOM_STICKY_MAX_CONTAINER_AGE_S)''"
  unfolding oom_sticky_query_def
  by (rule exI[of _ "''kube_pod_container_status_last_terminated_reason'' @
     selector (ns_pod ns target @ [(''reason='', ''OOMKilled'')]) @ '' == 1 '' @
     ''and on(namespace, pod, container) ((time() - container_start_time_seconds'' @
     selector (ns_pod ns target) @ '') < ''"]) simp

end
