(* ===== verification/React_Loop.thy ===== *)
theory React_Loop
  imports Model_Backend Fault_Taxonomy Stub_Diagnoser
begin

text \<open>
  \<^verbatim>\<open>p2_readonly_loop/react_agent.py\<close>: the LLM's evidence loop. Every entry of the chain gets a
  fresh transcript and at most five turns; a turn is one LLM call, and then a tool call, a
  diagnosis, or an answer in the wrong format. Also the tools \<^verbatim>\<open>/diagnose\<close> binds for it. The
  prompt is the record of the values the template interpolates, the transcript a list with
  one constructor per text the code appends.
\<close>

section \<open>Prompt, transcript and events\<close>

definition max_turns :: nat where
  "max_turns = 5"

datatype transcript_line =
    Action_Line nat string
  | Result_Line pyval
  | Strong_Line
  | Threshold_Line string pyval rat string
  | All_Called_Line
  | Unparseable_Line nat
  | Format_Reminder

datatype guidance = Base_Guidance | Catalogue_Guidance | Tail_Guidance

datatype evidence_rule = One_Result | Two_Results

record react_prompt =
  rp_target :: string
  rp_namespace :: string
  rp_turns_left :: nat
  rp_tools :: "string list"
  rp_classes :: "string list"
  rp_guidance :: "guidance list"
  rp_evidence :: evidence_rule
  rp_transcript :: "transcript_line list"
  rp_turn :: nat

datatype react_event =
    Provider_Attempt string string string
  | Turn_Start nat
  | Reasoning_Chunk pyval
  | Done string

text \<open>\<^verbatim>\<open>call_one\<close> and \<^verbatim>\<open>call_one_streaming\<close> with their timeout and episode bound (the streamed
  call hands its chunks to \<^verbatim>\<open>on_event\<close> itself), the optional \<^verbatim>\<open>on_event\<close>, and \<^verbatim>\<open>str(e)\<close>.\<close>

record 'w react_env =
  re_call :: "llm_entry \<Rightarrow> react_prompt \<Rightarrow> ('w, llm_reply) step"
  re_stream :: "llm_entry \<Rightarrow> react_prompt \<Rightarrow> ('w, llm_reply) step"
  re_emit :: "(react_event \<Rightarrow> 'w \<Rightarrow> 'w) option"
  re_error_text :: "py_error \<Rightarrow> string"

type_synonym 'w tools = "(string \<times> ('w, pyval) step) list"

definition field_guidance :: "'w tools \<Rightarrow> guidance list" where
  "field_guidance tools =
     Base_Guidance #
     (if map_of tools ''probe_catalogue_capacity'' \<noteq> None then [Catalogue_Guidance] else []) @
     [Tail_Guidance]"

definition evidence_rule :: "'w tools \<Rightarrow> evidence_rule" where
  "evidence_rule tools = (if length tools \<le> 1 then One_Result else Two_Results)"

definition tool_desc :: "'w tools \<Rightarrow> string list" where
  "tool_desc tools = List.map fst tools"

section \<open>Hints\<close>

definition strong_signal_fields :: "string list" where
  "strong_signal_fields =
     [''oom_pods'', ''evicted_pods'', ''crashlooping_pods'', ''payment_stuck_not_ready'',
      ''session_db_replicas_hit_zero'', ''front_end_image_pull_failing'']"

definition numeric_threshold_fields :: "(string \<times> rat \<times> string) list" where
  "numeric_threshold_fields =
     [(''cpu_throttle_periods_increase'', 100, ''cpu-throttling''),
      (''catalogue_probe_p95_ms'', 130, ''under-provisioned-replicas''),
      (''heap_rise_kb'', 20000, ''memory-leak''),
      (''peak_threads_connected'', 100, ''connection-pool-exhaustion''),
      (''connect_failures'', 4, ''network-partition'')]"

definition over_threshold :: "pydict \<Rightarrow> string \<times> rat \<times> string \<Rightarrow> bool" where
  "over_threshold obs = (\<lambda>(field, threshold, diagnosis).
     case as_num (dict_get obs field) of None \<Rightarrow> False | Some q \<Rightarrow> threshold \<le> q)"

fun numeric_threshold_hit :: "pyval \<Rightarrow> (string \<times> pyval \<times> rat \<times> string) option" where
  "numeric_threshold_hit (PDict obs) =
     map_option (\<lambda>(field, threshold, diagnosis). (field, dict_get obs field, threshold, diagnosis))
       (find (over_threshold obs) numeric_threshold_fields)"
| "numeric_threshold_hit _ = None"

fun has_strong_signal :: "string \<Rightarrow> pyval \<Rightarrow> bool" where
  "has_strong_signal name (PDict obs) =
     (name = ''query_prometheus'' \<and> (\<exists>f \<in> set strong_signal_fields. truthy (dict_get obs f)))"
| "has_strong_signal name _ = False"

definition tool_hint :: "'w tools \<Rightarrow> string list \<Rightarrow> string \<Rightarrow> pyval \<Rightarrow> transcript_line list" where
  "tool_hint tools called name obs =
     (if has_strong_signal name obs then [Strong_Line]
      else case numeric_threshold_hit obs of
        Some (field, v, threshold, diagnosis) \<Rightarrow> [Threshold_Line field v threshold diagnosis]
      | None \<Rightarrow> if set called = set (List.map fst tools) then [All_Called_Line] else [])"

section \<open>One turn\<close>

record react_state =
  rx_transcript :: "transcript_line list"
  rx_failures :: nat
  rx_called :: "string list"
  rx_seen :: "(string \<times> pyval) list"

definition react_start :: react_state where
  "react_start = \<lparr>rx_transcript = [], rx_failures = 0, rx_called = [], rx_seen = []\<rparr>"

text \<open>How an attempt on one entry ends: \<^verbatim>\<open>diagnosed\<close>, \<^verbatim>\<open>invalid_tool_name\<close>,
  \<^verbatim>\<open>max_turns_exceeded\<close>, \<^verbatim>\<open>provider_failure\<close>.\<close>

datatype react_attempt =
    Attempt_Diagnosed llm_result nat react_state
  | Attempt_Invalid_Tool pyval nat react_state
  | Attempt_Max_Turns react_state
  | Attempt_Failed llm_failure react_state

definition emit :: "'w react_env \<Rightarrow> react_event \<Rightarrow> ('w, unit) step" where
  "emit E ev w = (Inr (), case re_emit E of None \<Rightarrow> w | Some f \<Rightarrow> f ev w)"

definition make_prompt ::
    "string \<Rightarrow> string \<Rightarrow> 'w tools \<Rightarrow> nat \<Rightarrow> react_state \<Rightarrow> react_prompt" where
  "make_prompt target ns tools turn st =
     \<lparr>rp_target = target, rp_namespace = ns, rp_turns_left = max_turns - turn + 1,
      rp_tools = tool_desc tools, rp_classes = fault_classes, rp_guidance = field_guidance tools,
      rp_evidence = evidence_rule tools, rp_transcript = rx_transcript st, rp_turn = turn\<rparr>"

text \<open>The reasoning a plain answer carries, if it does, is shown after the call.\<close>

definition posthoc_reasoning :: "llm_result \<Rightarrow> pyval res" where
  "posthoc_reasoning r =
     (case lr_raw r of
        PDict raw \<Rightarrow>
          (let choices = py_or (dict_get raw ''choices'') (PList []) in
           if truthy choices
           then try_res (py_first choices) (\<lambda>c.
                try_res (py_get_or c ''message'' (PDict [])) (\<lambda>m. py_get m ''reasoning_content''))
           else Inr PNone)
      | _ \<Rightarrow> Inr PNone)"

definition show_reasoning :: "'w react_env \<Rightarrow> llm_reply \<Rightarrow> ('w, llm_reply) step" where
  "show_reasoning E reply =
     (case reply of
        LLM_Failure _ \<Rightarrow> ret_step reply
      | LLM_Result r \<Rightarrow>
          then_step (res_step (posthoc_reasoning r)) (\<lambda>v.
            if truthy v then map_step (\<lambda>_. reply) (emit E (Reasoning_Chunk v)) else ret_step reply))"

definition ask :: "'w react_env \<Rightarrow> llm_entry \<Rightarrow> react_prompt \<Rightarrow> ('w, llm_reply) step" where
  "ask E e prompt =
     (if re_emit E \<noteq> None \<and> streaming_capable (le_provider e) \<and> le_format e = ''openai_compat''
      then re_stream E e prompt
      else if re_emit E \<noteq> None then then_step (re_call E e prompt) (show_reasoning E)
      else re_call E e prompt)"

text \<open>A tool that raises is an observation too.\<close>

definition observe :: "'w react_env \<Rightarrow> ('w, pyval) step \<Rightarrow> ('w, pyval) step" where
  "observe E tool w =
     (case tool w of
        (Inl err, w1) \<Rightarrow> (Inr (PDict [(''error'', PStr (re_error_text E err))]), w1)
      | (Inr v, w1) \<Rightarrow> (Inr v, w1))"

definition after_tool :: "'w tools \<Rightarrow> nat \<Rightarrow> string \<Rightarrow> pyval \<Rightarrow> react_state \<Rightarrow> react_state" where
  "after_tool tools turn name obs st =
     (let called = (if name \<in> set (rx_called st) then rx_called st else rx_called st @ [name]) in
      st\<lparr>rx_seen := AList.update name obs (rx_seen st), rx_called := called,
         rx_transcript := rx_transcript st @ [Action_Line turn name, Result_Line obs] @
           tool_hint tools called name obs\<rparr>)"

text \<open>What an answer leads to: the state of the next turn, or the end of the attempt. Asking
  whether a list or a dictionary is a tool's name raises.\<close>

definition react_answer ::
    "'w react_env \<Rightarrow> llm_entry \<Rightarrow> 'w tools \<Rightarrow> nat \<Rightarrow> react_state \<Rightarrow> llm_result
       \<Rightarrow> ('w, react_state + react_attempt) step" where
  "react_answer E e tools turn st r =
     (let action = dict_get (lr_parsed r) ''action''; tool = dict_get (lr_parsed r) ''tool'' in
      if action = PStr ''diagnose'' then ret_step (Inr (Attempt_Diagnosed r turn st))
      else if action = PStr ''call_tool'' then
        (if \<not> hashable tool then res_step (Inl TypeError)
         else case tool of
           PStr name \<Rightarrow>
             (case map_of tools name of
                None \<Rightarrow> ret_step (Inr (Attempt_Invalid_Tool tool turn st))
              | Some f \<Rightarrow> map_step (\<lambda>obs. Inl (after_tool tools turn name obs st)) (observe E f))
         | _ \<Rightarrow> ret_step (Inr (Attempt_Invalid_Tool tool turn st)))
      else if 2 \<le> rx_failures st + 1 then
        ret_step (Inr (Attempt_Failed \<lparr>lf_provider = le_provider e, lf_model = le_model e,
          lf_type = ''parse_failure'', lf_detail = Invalid_Twice\<rparr> (st\<lparr>rx_failures := rx_failures st + 1\<rparr>)))
      else ret_step (Inl (st\<lparr>rx_failures := rx_failures st + 1,
             rx_transcript := rx_transcript st @ [Unparseable_Line turn, Format_Reminder]\<rparr>)))"

definition react_turn ::
    "'w react_env \<Rightarrow> llm_entry \<Rightarrow> string \<Rightarrow> string \<Rightarrow> 'w tools \<Rightarrow> nat \<Rightarrow> react_state
       \<Rightarrow> ('w, react_state + react_attempt) step" where
  "react_turn E e target ns tools turn st =
     then_step (emit E (Turn_Start turn)) (\<lambda>_.
     then_step (ask E e (make_prompt target ns tools turn st)) (\<lambda>reply.
       case reply of
         LLM_Failure f \<Rightarrow> ret_step (Inr (Attempt_Failed f st))
       | LLM_Result r \<Rightarrow> react_answer E e tools turn st r))"

fun react_turns ::
    "'w react_env \<Rightarrow> llm_entry \<Rightarrow> string \<Rightarrow> string \<Rightarrow> 'w tools \<Rightarrow> nat list \<Rightarrow> react_state
       \<Rightarrow> ('w, react_attempt) step" where
  "react_turns E e target ns tools [] st = ret_step (Attempt_Max_Turns st)"
| "react_turns E e target ns tools (turn # turns) st =
     then_step (react_turn E e target ns tools turn st) (\<lambda>next_st.
       case next_st of
         Inl st' \<Rightarrow> react_turns E e target ns tools turns st'
       | Inr a \<Rightarrow> ret_step a)"

definition run_episode_with_provider ::
    "'w react_env \<Rightarrow> string \<Rightarrow> string \<Rightarrow> 'w tools \<Rightarrow> llm_entry \<Rightarrow> ('w, react_attempt) step" where
  "run_episode_with_provider E target ns tools e =
     then_step (emit E (Provider_Attempt (le_provider e) (le_model e) (le_tier e))) (\<lambda>_.
       react_turns E e target ns tools [1..<max_turns + 1] react_start)"

section \<open>The chain\<close>

datatype react_result =
    React_Diagnosed llm_result nat react_state "llm_failure list"
  | React_Stopped string react_state "llm_failure list"
  | React_Unavailable "llm_failure list"

fun react_chain ::
    "'w react_env \<Rightarrow> string \<Rightarrow> string \<Rightarrow> 'w tools \<Rightarrow> llm_entry list \<Rightarrow> llm_failure list
       \<Rightarrow> ('w, react_result) step" where
  "react_chain E target ns tools [] failed = ret_step (React_Unavailable failed)"
| "react_chain E target ns tools (e # es) failed =
     then_step (run_episode_with_provider E target ns tools e) (\<lambda>a.
       case a of
         Attempt_Diagnosed r turn st \<Rightarrow> ret_step (React_Diagnosed r turn st failed)
       | Attempt_Invalid_Tool tool turn st \<Rightarrow> ret_step (React_Stopped ''invalid_tool_name'' st failed)
       | Attempt_Max_Turns st \<Rightarrow> ret_step (React_Stopped ''max_turns_exceeded'' st failed)
       | Attempt_Failed f st \<Rightarrow> react_chain E target ns tools es (failed @ [f]))"

definition run_react_diagnosis ::
    "'w react_env \<Rightarrow> string \<Rightarrow> string \<Rightarrow> 'w tools \<Rightarrow> llm_entry list option
       \<Rightarrow> ('w, react_result) step" where
  "run_react_diagnosis E target ns tools chain =
     react_chain E target ns tools (case chain of None \<Rightarrow> provider_chain | Some es \<Rightarrow> es) []"

section \<open>The tools of an episode\<close>

text \<open>\<^verbatim>\<open>query_prometheus\<close>'s result as the dictionary it is.\<close>

definition tool_output_dict :: "tool_output \<Rightarrow> pydict" where
  "tool_output_dict t =
     [(''oom_pods'', pods_value (oom_pods t)), (''evicted_pods'', pods_value (evicted_pods t)),
      (''crashlooping_pods'', pods_value (crashlooping_pods t)),
      (''connect_failures'', int_value (connect_failures t)), (''max_http_ms'', int_value (max_http_ms t)),
      (''p95_latency_ms'', rat_value (p95_latency_ms t)),
      (''combined_throughput_bps'', rat_value (combined_throughput_bps t)),
      (''payment_stuck_not_ready'', PBool (payment_stuck_not_ready t)),
      (''session_db_replicas_hit_zero'', PBool (session_db_replicas_hit_zero t)),
      (''peak_memory_mib'', rat_value (peak_memory_mib t)),
      (''peak_threads_connected'', rat_value (peak_threads_connected t)),
      (''cpu_throttle_periods_increase'', rat_value (cpu_throttle_periods_increase t)),
      (''front_end_image_pull_failing'', PBool (front_end_image_pull_failing t)),
      (''current_replicas'', int_value (current_replicas t)),
      (''heap_rise_kb'', rat_value (heap_rise_kb t))]"

definition build_llm_tools ::
    "'w sources \<Rightarrow> string \<Rightarrow> string \<Rightarrow> string option \<Rightarrow> rat option \<Rightarrow> (int option \<times> int option) option
       \<Rightarrow> 'w tools" where
  "build_llm_tools S target ns snap baseline probe =
     (''query_prometheus'',
        map_step (\<lambda>t. PDict (tool_output_dict t)) (query_prometheus S target ns snap baseline probe)) #
     (if target \<in> set dl_detector_services
      then [(''call_dl_detector'', \<lambda>w. case call_dl_detector S target w of
               (None, w1) \<Rightarrow> (Inr PNone, w1) | (Some d, w1) \<Rightarrow> (Inr (PDict d), w1))]
      else []) @
     (if target = ''catalogue''
      then [(''probe_catalogue_capacity'', map_step rat_value (probe_catalogue_capacity (src_k6 S ns)))]
      else [])"

section \<open>What a step can spend\<close>

text \<open>\<open>spends cnt k m\<close>: the step raises the counter by at most \<open>k\<close>, whether it returns or raises.\<close>

definition spends :: "('w \<Rightarrow> nat) \<Rightarrow> nat \<Rightarrow> ('w, 'a) step \<Rightarrow> bool" where
  "spends cnt k m \<longleftrightarrow> (\<forall>w. cnt (snd (m w)) \<le> cnt w + k)"

named_theorems spending

lemma spends_ret [spending]: "spends cnt k (ret_step a)" "spends cnt k (res_step r)"
  by (simp_all add: spends_def ret_step_def res_step_def)

lemma spends_mono: "spends cnt k m \<Longrightarrow> k \<le> k' \<Longrightarrow> spends cnt k' m"
  by (force simp: spends_def intro: order.trans)

lemma spends_then:
  assumes "spends cnt a m" "\<And>x. spends cnt b (f x)"
  shows "spends cnt (a + b) (then_step m f)"
proof -
  have "cnt (snd (then_step m f w)) \<le> cnt w + (a + b)" for w
  proof (cases "m w")
    case (Pair x w1)
    have "cnt w1 \<le> cnt w + a" using assms(1) Pair unfolding spends_def by (metis snd_conv)
    moreover have "cnt (snd (f y w1)) \<le> cnt w1 + b" for y using assms(2) unfolding spends_def by blast
    then have "cnt (snd (f y w1)) \<le> cnt w + (a + b)" for y
      using calculation by (metis add.assoc add_le_mono1 order.trans)
    ultimately show ?thesis using Pair by (cases x) (auto simp: then_step_def)
  qed
  then show ?thesis by (simp add: spends_def)
qed

lemma spends_free_then:
  "spends cnt 0 m \<Longrightarrow> (\<And>x. spends cnt b (f x)) \<Longrightarrow> spends cnt b (then_step m f)"
  using spends_then[of cnt 0 m b f] by simp

lemma spends_then_free:
  "spends cnt a m \<Longrightarrow> (\<And>x. spends cnt 0 (f x)) \<Longrightarrow> spends cnt a (then_step m f)"
  using spends_then[of cnt a m 0 f] by simp

lemma spends_map: "spends cnt a m \<Longrightarrow> spends cnt a (map_step g m)"
  unfolding map_step_def by (rule spends_then_free) (auto intro: spends_ret)

text \<open>The contract of an environment: a call costs at most \<open>a\<close>, a tool at most \<open>b\<close>, an event
  nothing.\<close>

definition priced :: "('w \<Rightarrow> nat) \<Rightarrow> nat \<Rightarrow> nat \<Rightarrow> 'w react_env \<Rightarrow> 'w tools \<Rightarrow> bool" where
  "priced cnt a b E tools \<longleftrightarrow>
     (\<forall>e p. spends cnt a (re_call E e p) \<and> spends cnt a (re_stream E e p)) \<and>
     (\<forall>name f. (name, f) \<in> set tools \<longrightarrow> spends cnt b f) \<and>
     (\<forall>g ev w. re_emit E = Some g \<longrightarrow> cnt (g ev w) \<le> cnt w)"

lemma emit_free: "priced cnt a b E tools \<Longrightarrow> spends cnt 0 (emit E ev)"
  by (auto simp: priced_def spends_def emit_def split: option.split)

lemma observe_spends: "spends cnt b f \<Longrightarrow> spends cnt b (observe E f)"
proof -
  have "snd (observe E f w) = snd (f w)" for w
    by (simp add: observe_def split: prod.split sum.split)
  then show "spends cnt b f \<Longrightarrow> spends cnt b (observe E f)" by (simp add: spends_def)
qed

lemma ask_spends:
  assumes "priced cnt a b E tools"
  shows "spends cnt a (ask E e prompt)"
proof -
  have "spends cnt 0 (show_reasoning E reply)" for reply
    using emit_free[OF assms]
    by (auto simp: show_reasoning_def intro!: spends_ret spends_free_then spends_map split: llm_reply.split)
  with assms show ?thesis
    by (auto simp: ask_def priced_def intro: spends_then_free)
qed

lemma react_answer_spends:
  assumes "priced cnt a b E tools"
  shows "spends cnt b (react_answer E e tools turn st r)"
proof -
  have "spends cnt b (observe E f)" if "map_of tools name = Some f" for name f
    using assms map_of_SomeD[OF that] by (auto simp: priced_def intro: observe_spends)
  then show ?thesis
    by (auto simp: react_answer_def Let_def intro!: spends_ret spends_map split: pyval.split option.split)
qed

lemma react_turn_spends:
  assumes "priced cnt a b E tools"
  shows "spends cnt (a + b) (react_turn E e target ns tools turn st)"
  unfolding react_turn_def
  by (intro spends_free_then[OF emit_free[OF assms]] spends_then[OF ask_spends[OF assms]])
     (auto intro: spends_ret react_answer_spends[OF assms] split: llm_reply.split)

lemma react_turns_spends:
  assumes "priced cnt a b E tools"
  shows "spends cnt (length turns * (a + b)) (react_turns E e target ns tools turns st)"
proof (induction turns arbitrary: st)
  case (Cons turn turns)
  then show ?case
    by (auto intro!: spends_then react_turn_spends[OF assms] spends_ret split: sum.split)
qed (simp add: spends_ret)

lemma provider_spends:
  assumes "priced cnt a b E tools"
  shows "spends cnt (5 * (a + b)) (run_episode_with_provider E target ns tools e)"
  using react_turns_spends[OF assms, of "[1..<max_turns + 1]"]
  by (auto simp: run_episode_with_provider_def max_turns_def intro!: spends_free_then emit_free[OF assms])

lemma react_chain_spends:
  assumes "priced cnt a b E tools"
  shows "spends cnt (length es * (5 * (a + b))) (react_chain E target ns tools es failed)"
proof (induction es arbitrary: failed)
  case (Cons e es)
  have "spends cnt (5 * (a + b) + length es * (5 * (a + b)))
      (react_chain E target ns tools (e # es) failed)"
    unfolding react_chain.simps
    by (rule spends_then[OF provider_spends[OF assms]])
       (use Cons.IH in \<open>auto intro: spends_ret split: react_attempt.split\<close>)
  then show ?case by simp
qed (simp add: spends_ret)

section \<open>What a diagnosis rests on\<close>

text \<open>The worlds that calls, events and tool runs can lead to.\<close>

inductive reached :: "'w react_env \<Rightarrow> 'w tools \<Rightarrow> 'w \<Rightarrow> 'w \<Rightarrow> bool" for E tools w0 where
  here: "reached E tools w0 w0"
| called: "reached E tools w0 w \<Longrightarrow> reached E tools w0 (snd (re_call E e p w))"
| streamed: "reached E tools w0 w \<Longrightarrow> reached E tools w0 (snd (re_stream E e p w))"
| shown: "reached E tools w0 w \<Longrightarrow> re_emit E = Some g \<Longrightarrow> reached E tools w0 (g ev w)"
| ran: "reached E tools w0 w \<Longrightarrow> (name, f) \<in> set tools \<Longrightarrow> reached E tools w0 (snd (f w))"

text \<open>To leave the worlds that are reached costs one, and nothing the loop does leaves them.\<close>

definition away :: "'w react_env \<Rightarrow> 'w tools \<Rightarrow> 'w \<Rightarrow> 'w \<Rightarrow> nat" where
  "away E tools w0 w = (if reached E tools w0 w then 0 else 1)"

lemma away_priced: "priced (away E tools w0) 0 0 E tools"
  by (auto simp: priced_def spends_def away_def intro: reached.intros)

lemma stays: "spends (away E tools w0) 0 m \<Longrightarrow> reached E tools w0 w \<Longrightarrow> m w = (x, w') \<Longrightarrow> reached E tools w0 w'"
  unfolding spends_def away_def by (metis add_cancel_right_left le_zero_eq snd_conv zero_neq_one)

text \<open>An observation is what the tool of that name gave, an error included, when it was run.\<close>

definition observed :: "'w react_env \<Rightarrow> 'w tools \<Rightarrow> 'w \<Rightarrow> string \<Rightarrow> pyval \<Rightarrow> bool" where
  "observed E tools w0 name obs \<longleftrightarrow>
     (\<exists>f w. map_of tools name = Some f \<and> reached E tools w0 w \<and> fst (observe E f w) = Inr obs)"

text \<open>The state of an attempt that began at \<open>w0\<close>: nothing but observations, no more than turns passed.\<close>

definition gathered :: "'w react_env \<Rightarrow> 'w tools \<Rightarrow> 'w \<Rightarrow> nat \<Rightarrow> react_state \<Rightarrow> bool" where
  "gathered E tools w0 n st \<longleftrightarrow> (\<forall>(name, obs) \<in> set (rx_seen st). observed E tools w0 name obs) \<and>
     length (rx_seen st) \<le> n \<and> rx_failures st \<le> 1"

text \<open>The answer is the entry's own, to a prompt with the transcript of that state.\<close>

definition said ::
    "'w react_env \<Rightarrow> string \<Rightarrow> string \<Rightarrow> 'w tools \<Rightarrow> llm_entry \<Rightarrow> 'w \<Rightarrow> llm_result \<Rightarrow> nat \<Rightarrow> react_state \<Rightarrow> bool" where
  "said E target ns tools e w0 r turn st \<longleftrightarrow> dict_get (lr_parsed r) ''action'' = PStr ''diagnose'' \<and>
     (\<exists>w. reached E tools w0 w \<and> fst (ask E e (make_prompt target ns tools turn st) w) = Inr (LLM_Result r))"

lemma length_update_le: "length (AList.update k v xs) \<le> Suc (length xs)"
  by (induction xs) auto

lemma after_tool_gathered:
  assumes "gathered E tools w0 n st" "observed E tools w0 name obs"
  shows "gathered E tools w0 (Suc n) (after_tool tools turn name obs st)"
  using assms length_update_le[of name obs "rx_seen st"]
  by (auto simp: gathered_def after_tool_def Let_def dest!: set_update)

lemma failed_gathered:
  "gathered E tools w0 n st \<Longrightarrow> rx_failures st = 0 \<Longrightarrow>
     gathered E tools w0 (Suc n) (st\<lparr>rx_failures := Suc (rx_failures st), rx_transcript := tr\<rparr>)"
  by (auto simp: gathered_def)

lemma observe_observed:
  "map_of tools name = Some f \<Longrightarrow> reached E tools w0 w \<Longrightarrow> observe E f w = (Inr obs, w') \<Longrightarrow> observed E tools w0 name obs"
  unfolding observed_def by (metis fst_conv)

lemma react_answer_cases:
  assumes "react_answer E e tools turn st r w = (Inr out, w')" "gathered E tools w0 n st" "reached E tools w0 w"
  shows "(\<forall>st'. out = Inl st' \<longrightarrow> gathered E tools w0 (Suc n) st') \<and>
    (\<forall>r' t st'. out = Inr (Attempt_Diagnosed r' t st') \<longrightarrow>
       r' = r \<and> t = turn \<and> st' = st \<and> dict_get (lr_parsed r) ''action'' = PStr ''diagnose'')"
  using assms(1) after_tool_gathered[OF assms(2) observe_observed[OF _ assms(3)]]
  by (auto simp: react_answer_def Let_def map_step_Inr intro: failed_gathered[OF assms(2)]
      split: if_splits pyval.splits option.splits)

lemma react_turn_cases:
  assumes "react_turn E e target ns tools turn st w = (Inr out, w')" "gathered E tools w0 n st" "reached E tools w0 w"
  shows "reached E tools w0 w'" "(\<forall>st'. out = Inl st' \<longrightarrow> gathered E tools w0 (Suc n) st') \<and>
    (\<forall>r t st'. out = Inr (Attempt_Diagnosed r t st') \<longrightarrow> t = turn \<and> st' = st \<and> said E target ns tools e w0 r turn st)"
proof -
  note free = away_priced[of E tools w0]
  show "reached E tools w0 w'"
    by (rule stays[where m = "react_turn E e target ns tools turn st", OF _ assms(3,1)])
      (use react_turn_spends[OF free, of e target ns turn st] in simp)
  obtain x w1 reply w2 where w1: "emit E (Turn_Start turn) w = (Inr x, w1)"
    and w2: "ask E e (make_prompt target ns tools turn st) w1 = (Inr reply, w2)"
    and k: "(case reply of LLM_Failure f \<Rightarrow> ret_step (Inr (Attempt_Failed f st))
      | LLM_Result r \<Rightarrow> react_answer E e tools turn st r) w2 = (Inr out, w')"
    using assms(1) by (auto simp: react_turn_def then_step_Inr)
  have r1: "reached E tools w0 w1" by (rule stays[OF emit_free[OF free] assms(3) w1])
  have r2: "reached E tools w0 w2" by (rule stays[OF ask_spends[OF free] r1 w2])
  show "(\<forall>st'. out = Inl st' \<longrightarrow> gathered E tools w0 (Suc n) st') \<and>
    (\<forall>r t st'. out = Inr (Attempt_Diagnosed r t st') \<longrightarrow> t = turn \<and> st' = st \<and> said E target ns tools e w0 r turn st)"
  proof (cases reply)
    case (LLM_Result r)
    have "said E target ns tools e w0 r turn st" if "dict_get (lr_parsed r) ''action'' = PStr ''diagnose''"
      using that r1 w2 LLM_Result unfolding said_def by (metis fst_conv)
    then show ?thesis using react_answer_cases[OF _ assms(2) r2, of e turn r out w'] k LLM_Result by auto
  qed (use k in auto)
qed

lemma react_turns_diagnosed:
  assumes "react_turns E e target ns tools [Suc n..<m] st w = (Inr (Attempt_Diagnosed r turn st'), w')"
    and "gathered E tools w0 n st" "reached E tools w0 w"
  shows "Suc n \<le> turn \<and> turn < m \<and> gathered E tools w0 (turn - 1) st' \<and> said E target ns tools e w0 r turn st'"
  using assms
proof (induction "m - n" arbitrary: n st w)
  case (Suc k)
  show ?case
  proof (cases "Suc n < m")
    case False
    with Suc.prems(1) show ?thesis by simp
  next
    case True
    with Suc.prems(1) obtain out w1
      where t: "react_turn E e target ns tools (Suc n) st w = (Inr out, w1)"
        and k: "(case out of Inl st1 \<Rightarrow> react_turns E e target ns tools [Suc (Suc n)..<m] st1
                 | Inr a \<Rightarrow> ret_step a) w1 = (Inr (Attempt_Diagnosed r turn st'), w')"
      by (auto simp: upt_conv_Cons then_step_Inr)
    note c = react_turn_cases[OF t Suc.prems(2,3)]
    show ?thesis
    proof (cases out)
      case (Inl st1)
      with c(2) have g: "gathered E tools w0 (Suc n) st1" by simp
      have "k = m - Suc n" using Suc.hyps(2) by simp
      from Suc.hyps(1)[OF this _ g c(1)] k Inl show ?thesis by simp
    next
      case (Inr a)
      with k c(2) True Suc.prems(2) show ?thesis by auto
    qed
  qed
qed simp

lemma provider_diagnosed:
  assumes "run_episode_with_provider E target ns tools e w = (Inr (Attempt_Diagnosed r turn st), w')"
  shows "1 \<le> turn \<and> turn \<le> max_turns \<and> gathered E tools w (turn - 1) st \<and> said E target ns tools e w r turn st"
proof -
  obtain x w1 where w1: "emit E (Provider_Attempt (le_provider e) (le_model e) (le_tier e)) w = (Inr x, w1)"
    and t: "react_turns E e target ns tools [Suc 0..<Suc max_turns] react_start w1 = (Inr (Attempt_Diagnosed r turn st), w')"
    using assms by (auto simp: run_episode_with_provider_def then_step_Inr simp del: upt_Suc)
  have "reached E tools w w1" by (rule stays[OF emit_free[OF away_priced] here w1])
  moreover have "gathered E tools w 0 react_start" by (simp add: gathered_def react_start_def)
  ultimately show ?thesis using react_turns_diagnosed[OF t, of w] by auto
qed

text \<open>The failures of a series of entries, one after another, with the world they leave; \<open>None\<close> when one
  of them ends otherwise.\<close>

fun all_fail ::
    "'w react_env \<Rightarrow> string \<Rightarrow> string \<Rightarrow> 'w tools \<Rightarrow> llm_entry list \<Rightarrow> 'w \<Rightarrow> (llm_failure list \<times> 'w) option" where
  "all_fail E target ns tools [] w = Some ([], w)"
| "all_fail E target ns tools (e # es) w =
     (case run_episode_with_provider E target ns tools e w of
        (Inr (Attempt_Failed f st), w1) \<Rightarrow> map_option (\<lambda>(fs, w2). (f # fs, w2)) (all_fail E target ns tools es w1)
      | _ \<Rightarrow> None)"

lemma react_chain_diagnosed:
  assumes "react_chain E target ns tools es failed w = (Inr (React_Diagnosed r turn st fs), w')"
  shows "\<exists>front e rest fs' w1. es = front @ e # rest \<and> fs = failed @ fs' \<and>
    all_fail E target ns tools front w = Some (fs', w1) \<and>
    run_episode_with_provider E target ns tools e w1 = (Inr (Attempt_Diagnosed r turn st), w')"
  using assms
proof (induction es arbitrary: failed w)
  case (Cons e es)
  then obtain a w1 where a: "run_episode_with_provider E target ns tools e w = (Inr a, w1)"
    and k: "(case a of
         Attempt_Diagnosed r turn st \<Rightarrow> ret_step (React_Diagnosed r turn st failed)
       | Attempt_Invalid_Tool tool turn st \<Rightarrow> ret_step (React_Stopped ''invalid_tool_name'' st failed)
       | Attempt_Max_Turns st \<Rightarrow> ret_step (React_Stopped ''max_turns_exceeded'' st failed)
       | Attempt_Failed f st \<Rightarrow> react_chain E target ns tools es (failed @ [f])) w1 =
      (Inr (React_Diagnosed r turn st fs), w')"
    by (auto simp: then_step_Inr)
  show ?case
  proof (cases a)
    case (Attempt_Diagnosed r' t st')
    with k a show ?thesis by (intro exI[of _ "[]"] exI[of _ e] exI[of _ es]) auto
  next
    case (Attempt_Failed f st')
    with k Cons.IH[of "failed @ [f]" w1] obtain front e' rest fs' w2 where
      "es = front @ e' # rest" "fs = (failed @ [f]) @ fs'" "all_fail E target ns tools front w1 = Some (fs', w2)"
      "run_episode_with_provider E target ns tools e' w2 = (Inr (Attempt_Diagnosed r turn st), w')"
      by auto
    then show ?thesis
      using a Attempt_Failed
      by (intro exI[of _ "e # front"] exI[of _ e'] exI[of _ rest] exI[of _ "f # fs'"] exI[of _ w2]) simp
  qed (use k in auto)
qed simp

section \<open>Hints and the stub's thresholds\<close>

lemma tool_output_fields:
  "dict_get (tool_output_dict t) ''oom_pods'' = pods_value (oom_pods t)"
  "dict_get (tool_output_dict t) ''evicted_pods'' = pods_value (evicted_pods t)"
  "dict_get (tool_output_dict t) ''crashlooping_pods'' = pods_value (crashlooping_pods t)"
  "dict_get (tool_output_dict t) ''payment_stuck_not_ready'' = PBool (payment_stuck_not_ready t)"
  "dict_get (tool_output_dict t) ''session_db_replicas_hit_zero'' = PBool (session_db_replicas_hit_zero t)"
  "dict_get (tool_output_dict t) ''front_end_image_pull_failing'' = PBool (front_end_image_pull_failing t)"
  "dict_get (tool_output_dict t) ''connect_failures'' = int_value (connect_failures t)"
  "dict_get (tool_output_dict t) ''heap_rise_kb'' = rat_value (heap_rise_kb t)"
  "dict_get (tool_output_dict t) ''peak_threads_connected'' = rat_value (peak_threads_connected t)"
  "dict_get (tool_output_dict t) ''cpu_throttle_periods_increase'' =
     rat_value (cpu_throttle_periods_increase t)"
  "dict_get (tool_output_dict t) ''catalogue_probe_p95_ms'' = PNone"
  by (simp_all add: tool_output_dict_def dict_get_def)

lemma truthy_pods [simp]: "truthy (pods_value ps) \<longleftrightarrow> ps \<noteq> []"
  by (simp add: pods_value_def)

lemma as_num_values [simp]:
  "as_num (rat_value q) = q"
  "as_num (int_value i) = map_option of_int i"
  by (simp_all add: rat_value_def int_value_def split: option.split)

lemma numeric_hit_field:
  assumes "numeric_threshold_hit (PDict obs) = Some (field, v, threshold, d)"
  shows "(field, threshold, d) \<in> set numeric_threshold_fields" "over_threshold obs (field, threshold, d)"
  using assms by (auto simp: find_Some_iff)

lemma over_threshold_output:
  "over_threshold (tool_output_dict t) (''cpu_throttle_periods_increase'', c, d) \<longleftrightarrow>
     at_least c (cpu_throttle_periods_increase t)"
  "over_threshold (tool_output_dict t) (''heap_rise_kb'', c, d) \<longleftrightarrow> at_least c (heap_rise_kb t)"
  "over_threshold (tool_output_dict t) (''peak_threads_connected'', c, d) \<longleftrightarrow>
     at_least c (peak_threads_connected t)"
  "\<not> over_threshold (tool_output_dict t) (''catalogue_probe_p95_ms'', c, d)"
  by (simp_all add: over_threshold_def tool_output_fields at_least_def split: option.split)

lemma over_threshold_probe:
  "over_threshold (tool_output_dict t) (''connect_failures'', 4, d) \<longleftrightarrow> probe_says_cut t"
proof -
  have "(4 :: rat) \<le> of_int i \<longleftrightarrow> 4 \<le> i" for i
    using of_int_le_iff[of 4 i, where 'a = rat] by simp
  then show ?thesis
    by (simp add: over_threshold_def tool_output_fields probe_says_cut_def
        network_probe_min_connect_failures_def split: option.split)
qed

text \<open>The numeric hint on a result of \<^verbatim>\<open>query_prometheus\<close>: the first of four of the stub's thresholds, in
  the table's order.\<close>

definition numeric_hint :: "tool_output \<Rightarrow> string option" where
  "numeric_hint t = map_option (\<lambda>(field, v, threshold, d). d) (numeric_threshold_hit (PDict (tool_output_dict t)))"

lemma numeric_hint_order:
  "numeric_hint t =
     (if at_least 100 (cpu_throttle_periods_increase t) then Some ''cpu-throttling''
      else if at_least 20000 (heap_rise_kb t) then Some ''memory-leak''
      else if at_least 100 (peak_threads_connected t) then Some ''connection-pool-exhaustion''
      else if probe_says_cut t then Some ''network-partition'' else None)"
  by (simp add: numeric_hint_def numeric_threshold_fields_def over_threshold_output over_threshold_probe)

lemma strong_signal_rules:
  "has_strong_signal ''query_prometheus'' (PDict (tool_output_dict t)) \<longleftrightarrow>
     oom_pods t \<noteq> [] \<or> evicted_pods t \<noteq> [] \<or> crashlooping_pods t \<noteq> [] \<or> payment_stuck_not_ready t \<or>
     session_db_replicas_hit_zero t \<or> front_end_image_pull_failing t"
  by (simp add: strong_signal_fields_def tool_output_fields)

text \<open>The class a hint names.\<close>

fun hinted_class :: "transcript_line list \<Rightarrow> string option" where
  "hinted_class [Threshold_Line field v threshold d] = Some d"
| "hinted_class _ = None"

lemma hint_on_result:
  fixes tools :: "'w tools" and called :: "string list"
  defines "hint \<equiv> \<lambda>t. tool_hint tools called ''query_prometheus'' (PDict (tool_output_dict t))"
  shows "hint t = [Strong_Line] \<longleftrightarrow> has_strong_signal ''query_prometheus'' (PDict (tool_output_dict t))"
    "hint t \<noteq> [Strong_Line] \<Longrightarrow> hinted_class (hint t) = numeric_hint t"
proof -
  show s: "hint t = [Strong_Line] \<longleftrightarrow> has_strong_signal ''query_prometheus'' (PDict (tool_output_dict t))"
    by (simp add: hint_def tool_hint_def split: option.split)
  assume "hint t \<noteq> [Strong_Line]"
  then have "\<not> has_strong_signal ''query_prometheus'' (PDict (tool_output_dict t))" unfolding s .
  then show "hinted_class (hint t) = numeric_hint t"
    by (simp add: hint_def tool_hint_def numeric_hint_def del: has_strong_signal.simps split: option.split)
qed

definition evicted_output :: tool_output where
  "evicted_output = \<lparr>oom_pods = [], evicted_pods = [Some ''queue-master''], crashlooping_pods = [],
     connect_failures = None, max_http_ms = None, p95_latency_ms = None, combined_throughput_bps = None,
     payment_stuck_not_ready = False, session_db_replicas_hit_zero = False, peak_memory_mib = None,
     peak_threads_connected = None, cpu_throttle_periods_increase = None,
     front_end_image_pull_failing = False, current_replicas = None, heap_rise_kb = None,
     catalogue_probe_p95_ms = None, dl_detector_result = None\<rparr>"

section \<open>Properties\<close>

text \<open>C34: an episode of the LLM costs a bounded number of calls: with five turns an entry, at most
  five LLM calls and five tool runs for each entry of the chain, whatever the answers are,
  and also when the loop raises. A call costs \<open>a\<close> and a tool run \<open>b\<close> of any counter.\<close>

theorem react_cost_bounded:
  fixes cnt :: "'w \<Rightarrow> nat"
  assumes "\<And>e p w. cnt (snd (re_call E e p w)) \<le> cnt w + a"
    and "\<And>e p w. cnt (snd (re_stream E e p w)) \<le> cnt w + a"
    and "\<And>name f w. (name, f) \<in> set tools \<Longrightarrow> cnt (snd (f w)) \<le> cnt w + b"
    and "\<And>g ev w. re_emit E = Some g \<Longrightarrow> cnt (g ev w) \<le> cnt w"
  shows "cnt (snd (run_react_diagnosis E target ns tools (Some chain) w))
    \<le> cnt w + length chain * (5 * (a + b))"
proof -
  have "priced cnt a b E tools"
    using assms unfolding priced_def spends_def by blast
  from react_chain_spends[OF this] show ?thesis
    by (simp add: run_react_diagnosis_def spends_def)
qed

definition babbling_env :: "nat react_env" where
  "babbling_env = \<lparr>re_call = (\<lambda>e p n. (Inr (llm_answer [] [] (le_provider e) (le_model e) (le_tier e)
      PNone PNone (None, None)), n + 1)), re_stream = (\<lambda>e p n. (Inl ValueError, n)), re_emit = None,
     re_error_text = (\<lambda>_. [])\<rparr>"

lemma react_cost_bounded_witness:
  "snd (run_react_diagnosis babbling_env [] [] [] (Some [gemini_entry]) 0) \<le> 5"
  using react_cost_bounded[of "\<lambda>n. n" babbling_env 1 "[]" 0 "[]" "[]" "[gemini_entry]" 0]
  by (simp add: babbling_env_def)

text \<open>C33: a diagnosis is the answer of one entry, after each entry before it in the chain has failed in
  turn, with the failure that is reported. The entry gave it within five turns, to a prompt with the
  very transcript that is returned; and every observation in the result is what the tool of its name
  gave when it was run in this attempt, at most one for each earlier turn.\<close>

theorem diagnosis_is_grounded:
  assumes "run_react_diagnosis E target ns tools (Some chain) w = (Inr (React_Diagnosed r turn st failed), w')"
  shows "\<exists>front e rest w1. chain = front @ e # rest \<and> all_fail E target ns tools front w = Some (failed, w1) \<and>
    run_episode_with_provider E target ns tools e w1 = (Inr (Attempt_Diagnosed r turn st), w') \<and>
    1 \<le> turn \<and> turn \<le> 5 \<and> said E target ns tools e w1 r turn st \<and>
    (\<forall>(name, obs) \<in> set (rx_seen st). observed E tools w1 name obs) \<and> length (rx_seen st) \<le> turn - 1"
proof -
  have "react_chain E target ns tools chain [] w = (Inr (React_Diagnosed r turn st failed), w')"
    using assms by (simp add: run_react_diagnosis_def)
  from react_chain_diagnosed[OF this] obtain front e rest w1 where
    c: "chain = front @ e # rest" "all_fail E target ns tools front w = Some (failed, w1)"
      "run_episode_with_provider E target ns tools e w1 = (Inr (Attempt_Diagnosed r turn st), w')" by auto
  from provider_diagnosed[OF c(3)] have "1 \<le> turn" "turn \<le> 5" "said E target ns tools e w1 r turn st"
    "\<forall>(name, obs) \<in> set (rx_seen st). observed E tools w1 name obs" "length (rx_seen st) \<le> turn - 1"
    by (auto simp: gathered_def max_turns_def)
  with c show ?thesis by blast
qed

definition decided_env :: "unit react_env" where
  "decided_env = \<lparr>re_call = (\<lambda>e p w. (Inr (llm_answer [] [(''action'', PStr ''diagnose'')]
      (le_provider e) (le_model e) (le_tier e) PNone PNone (None, None)), w)),
     re_stream = (\<lambda>e p w. (Inl ValueError, w)), re_emit = None, re_error_text = (\<lambda>_. [])\<rparr>"

lemma diagnosis_is_grounded_witness:
  "\<exists>r turn st failed. run_react_diagnosis decided_env [] [] [] (Some [gemini_entry]) () =
     (Inr (React_Diagnosed r turn st failed), ()) \<and> turn \<le> 5"
proof -
  obtain r turn st failed where d: "run_react_diagnosis decided_env [] [] [] (Some [gemini_entry]) () =
     (Inr (React_Diagnosed r turn st failed), ())"
    by (simp add: run_react_diagnosis_def run_episode_with_provider_def max_turns_def upt_conv_Cons
        then_step_def emit_def decided_env_def react_turn_def ask_def react_answer_def llm_answer_def
        dict_get_def ret_step_def)
  from diagnosis_is_grounded[OF d] d show ?thesis by auto
qed

text \<open>C35: on a result of \<^verbatim>\<open>query_prometheus\<close> the loop calls the evidence unambiguous exactly when the stub
  finds one of its six pod-level classes. Else a numeric hint names a class exactly when CPU
  throttling, heap, MySQL threads or the connectivity probe is past the stub's own threshold: the first
  of them in that order. When the stub finds one of the first three classes there is such a hint, and
  when there is one the stub finds some class, though by its own order it may be another.\<close>

theorem hints_agree_with_stub:
  fixes t th tools called
  defines "found \<equiv> dg_diagnosis (stub_diagnose th t)"
    and "hint \<equiv> tool_hint tools called ''query_prometheus'' (PDict (tool_output_dict t))"
  shows "(hint = [Strong_Line] \<longleftrightarrow> found \<in> {''oom'', ''disk-full'', ''bad-rollout'', ''crash-loop'', ''init-failure'',
      ''session-cart-failure''}) \<and>
    (hint \<noteq> [Strong_Line] \<longrightarrow> hinted_class hint =
       (if at_least 100 (cpu_throttle_periods_increase t) then Some ''cpu-throttling''
        else if at_least 20000 (heap_rise_kb t) then Some ''memory-leak''
        else if at_least 100 (peak_threads_connected t) then Some ''connection-pool-exhaustion''
        else if probe_says_cut t then Some ''network-partition'' else None)) \<and>
    (found \<in> {''cpu-throttling'', ''memory-leak'', ''connection-pool-exhaustion''} \<longrightarrow> hinted_class hint \<noteq> None) \<and>
    (hinted_class hint \<noteq> None \<longrightarrow> found \<noteq> ''no anomaly detected'')"
proof (cases "has_strong_signal ''query_prometheus'' (PDict (tool_output_dict t))")
  case True
  then have "found \<in> {''oom'', ''disk-full'', ''bad-rollout'', ''crash-loop'', ''init-failure'', ''session-cart-failure''}"
    unfolding strong_signal_rules by (auto simp: found_def stub_diagnose_list stub_rules_def)
  moreover have "hint = [Strong_Line]" using True unfolding hint_def hint_on_result(1) .
  ultimately show ?thesis by auto
next
  case False
  then have f: "found = first_rule (drop 6 (stub_rules th)) t"
    unfolding strong_signal_rules by (simp add: found_def stub_diagnose_list stub_rules_def)
  have h: "hint \<noteq> [Strong_Line]" using False unfolding hint_def hint_on_result(1) .
  then have n: "hinted_class hint = numeric_hint t" unfolding hint_def by (rule hint_on_result(2))
  have "found \<notin> {''oom'', ''disk-full'', ''bad-rollout'', ''crash-loop'', ''init-failure'', ''session-cart-failure''}"
    unfolding f by (simp add: stub_rules_def)
  moreover have "found \<in> {''cpu-throttling'', ''memory-leak'', ''connection-pool-exhaustion''} \<longrightarrow> numeric_hint t \<noteq> None"
    "numeric_hint t \<noteq> None \<longrightarrow> found \<noteq> ''no anomaly detected''"
    unfolding f numeric_hint_order by (simp_all add: stub_rules_def)
  ultimately show ?thesis using h n numeric_hint_order[of t] by simp
qed

lemma hints_agree_with_stub_witness:
  "tool_hint [] [] ''query_prometheus'' (PDict (tool_output_dict evicted_output)) = [Strong_Line]"
  by (rule hints_agree_with_stub[of _ _ _ default_thresholds, THEN conjunct1, THEN iffD2])
     (simp add: stub_diagnose_list stub_rules_def evicted_output_def)

text \<open>The numeric hint for under-provisioned-replicas is never given: the tool that measures the
  capacity returns a bare number, not the dictionary the check looks the field up in, and no
  other field of the tools' results has that name.\<close>

theorem capacity_hint_never_fires:
  assumes "(name, tool) \<in> set (build_llm_tools S target ns snap baseline probe)"
    and "name \<noteq> ''call_dl_detector''" "tool w = (Inr v, w')"
  shows "numeric_threshold_hit v \<noteq> Some (field, x, threshold, ''under-provisioned-replicas'')"
proof
  assume hit: "numeric_threshold_hit v = Some (field, x, threshold, ''under-provisioned-replicas'')"
  have "tool = map_step (\<lambda>t. PDict (tool_output_dict t)) (query_prometheus S target ns snap baseline probe) \<or>
      tool = map_step rat_value (probe_catalogue_capacity (src_k6 S ns))"
    using assms(1,2) by (auto simp: build_llm_tools_def split: if_splits)
  then consider t where "v = PDict (tool_output_dict t)" | q where "v = rat_value q"
    using assms(3) map_step_Inr by metis
  then show False
  proof cases
    case 1
    note h = numeric_hit_field[OF hit[unfolded 1]]
    from h(1) have "field = ''catalogue_probe_p95_ms''"
      by (simp add: numeric_threshold_fields_def)
    with h(2) show False by (simp only: over_threshold_output)
  next
    case 2
    with hit show False by (cases q) (simp_all add: rat_value_def)
  qed
qed

lemma capacity_hint_never_fires_witness:
  "\<exists>tool v. (''probe_catalogue_capacity'', tool) \<in>
      set (build_llm_tools demo_sources ''catalogue'' ''sock-shop'' None None None) \<and>
    (v = rat_value (Some 297) \<longrightarrow> numeric_threshold_hit v = None) \<and>
    (\<forall>v w' x. tool () = (Inr v, w') \<longrightarrow>
       numeric_threshold_hit v \<noteq> Some (''catalogue_probe_p95_ms'', x, 130, ''under-provisioned-replicas''))"
proof -
  let ?tool = "map_step rat_value (probe_catalogue_capacity (src_k6 demo_sources ''sock-shop''))"
  have m: "(''probe_catalogue_capacity'', ?tool) \<in>
      set (build_llm_tools demo_sources ''catalogue'' ''sock-shop'' None None None)"
    by (simp add: build_llm_tools_def)
  with capacity_hint_never_fires[OF m] show ?thesis by (auto simp: rat_value_def)
qed

text \<open>When every entry is over its quota, the loop ends unavailable without a request and
  without touching the tables: the episode falls back to the stub.\<close>

theorem exhausted_chain_is_unavailable:
  fixes N :: "('h, react_prompt) net"
  assumes quiet: "re_emit E = None"
    and calls: "\<And>e p. re_call E e p = call_one N e p 30 None episode"
    and closed: "\<And>e. e \<in> set chain \<Longrightarrow>
       \<not> may_send (le_provider e, le_model e) (net_now N (lw_net w)) (lw_quota w)"
  shows "\<exists>fs. run_react_diagnosis E target ns tools (Some chain) w = (Inr (React_Unavailable fs), w) \<and>
    length fs = length chain \<and> (\<forall>f \<in> set fs. lf_type f = ''quota_exhausted'')"
proof -
  have one: "\<exists>f st. run_episode_with_provider E target ns tools e w = (Inr (Attempt_Failed f st), w) \<and>
      lf_type f = ''quota_exhausted''" if "e \<in> set chain" for e
  proof -
    have "\<exists>f. call_one N e p 30 None episode w = (Inr (LLM_Failure f), w) \<and> lf_type f = ''quota_exhausted''" for p
      using closed[OF that]
      by (simp add: call_one_def metered_def may_send_def route_of_def world_now_def quota_failure_def
          llm_fail_def Let_def)
    then obtain f where f: "call_one N e (make_prompt target ns tools 1 react_start) 30 None episode w =
        (Inr (LLM_Failure f), w)" "lf_type f = ''quota_exhausted''" by blast
    have "run_episode_with_provider E target ns tools e w = (Inr (Attempt_Failed f react_start), w)"
      using f(1) by (simp add: run_episode_with_provider_def then_step_def emit_def quiet max_turns_def
          upt_conv_Cons react_turn_def ask_def calls ret_step_def)
    with f(2) show ?thesis by blast
  qed
  have "\<exists>fs. react_chain E target ns tools es failed w = (Inr (React_Unavailable (failed @ fs)), w) \<and>
      length fs = length es \<and> (\<forall>f \<in> set fs. lf_type f = ''quota_exhausted'')"
    if "set es \<subseteq> set chain" for es failed
    using that
  proof (induction es arbitrary: failed)
    case (Cons e es)
    then obtain f st where r: "run_episode_with_provider E target ns tools e w = (Inr (Attempt_Failed f st), w)"
      and q: "lf_type f = ''quota_exhausted''" using one by force
    from Cons obtain fs where "react_chain E target ns tools es (failed @ [f]) w =
        (Inr (React_Unavailable ((failed @ [f]) @ fs)), w)" "length fs = length es"
      "\<forall>f \<in> set fs. lf_type f = ''quota_exhausted''" by (meson list.set_intros(2) subset_code(1))
    with r q show ?case by (intro exI[of _ "f # fs"]) (simp add: then_step_def)
  qed (simp add: ret_step_def)
  from this[of chain "[]"] show ?thesis by (simp add: run_react_diagnosis_def)
qed

definition spent_world :: "int llm_world" where
  "spent_world = \<lparr>lw_quota = mark_exhausted (le_provider gemini_entry, le_model gemini_entry) (Some ''spent'') 0
     empty_quota, lw_net = 0\<rparr>"

definition spent_env :: "int llm_world react_env" where
  "spent_env = \<lparr>re_call = (\<lambda>e p. call_one \<lparr>net_post = (\<lambda>rq h. (Timeout, h + 1)), net_now = (\<lambda>h. h), net_tick = (\<lambda>h. h),
       net_env = (\<lambda>_. None), net_loads = (\<lambda>_. None), net_exp = (\<lambda>q. q)\<rparr> e p 30 None None),
     re_stream = (\<lambda>e p. res_step (Inl ValueError)), re_emit = None, re_error_text = (\<lambda>_. [])\<rparr>"

lemma exhausted_chain_is_unavailable_witness:
  "snd (run_react_diagnosis spent_env [] [] [] (Some [gemini_entry]) spent_world) = spent_world"
proof -
  have "\<not> may_send (le_provider gemini_entry, le_model gemini_entry) 0 (lw_quota spent_world)"
    by (simp add: may_send_def check_quota_def is_marked_mark spent_world_def probe_cooldown_def
        next_utc_midnight_def utc_day_def day_us_def)
  then show ?thesis
    using exhausted_chain_is_unavailable[of spent_env "\<lparr>net_post = (\<lambda>rq h. (Timeout, h + 1)), net_now = (\<lambda>h. h), net_tick = (\<lambda>h. h),
       net_env = (\<lambda>_. None), net_loads = (\<lambda>_. None), net_exp = (\<lambda>q. q)\<rparr>" None "[gemini_entry]" spent_world
       "[]" "[]" "[]"]
    by (auto simp: spent_env_def spent_world_def)
qed

end
