(* ===== verification/Constraint_Checks.thy ===== *)
theory Constraint_Checks
  imports Wardence_DB Fault_Taxonomy Tool_Validator
begin

text \<open>
  \<^verbatim>\<open>p3_trust_action/constraint_checks.py\<close>: is a proposed magnitude safe for the real fault?
  \<open>kube_cpu\<close> is what \<^verbatim>\<open>kubectl get deployment .. limits.cpu\<close> prints for a target and a
  namespace; the cluster is not under this repository.
\<close>

definition to_mi :: "pyval \<Rightarrow> rat option" where
  "to_mi v = (case v of PStr s \<Rightarrow> memory_mi s | _ \<Rightarrow> None)"

definition to_millicores :: "pyval \<Rightarrow> rat option" where
  "to_millicores v = (case v of PStr s \<Rightarrow> cpu_millicores s | _ \<Rightarrow> None)"

type_synonym kube_cpu = "string \<Rightarrow> string \<Rightarrow> string"

definition live_cpu_limit_millicores :: "kube_cpu \<Rightarrow> string \<Rightarrow> string \<Rightarrow> rat option" where
  "live_cpu_limit_millicores kube_cpu target ns = to_millicores (PStr (py_strip (kube_cpu target ns)))"

text \<open>\<^verbatim>\<open>int(raw) if raw.isdigit() else None\<close> on what \<^verbatim>\<open>kubectl\<close> prints for \<^verbatim>\<open>.spec.replicas\<close>.\<close>

definition live_replica_count :: "(string \<Rightarrow> string \<Rightarrow> string) \<Rightarrow> string \<Rightarrow> string \<Rightarrow> int option" where
  "live_replica_count kube_replicas target ns =
     (let raw = py_strip (kube_replicas target ns)
      in if raw \<noteq> [] \<and> (\<forall>c \<in> set raw. is_digit c) then Some (int (dec_nat raw)) else None)"

text \<open>One definition per branch of \<^verbatim>\<open>check_safe\<close>.\<close>

definition check_memory :: "pydict \<Rightarrow> tool_output option \<Rightarrow> bool \<times> safe_reason" where
  "check_memory params tool =
     (case (case tool of None \<Rightarrow> None | Some t \<Rightarrow> peak_memory_mib t) of
        None \<Rightarrow> (False, No_Peak_Memory)
      | Some peak \<Rightarrow>
          (case to_mi (dict_get params ''limit'') of
             None \<Rightarrow> (False, Unparseable_Memory (dict_get params ''limit''))
           | Some proposed \<Rightarrow>
               (let floor_mi = (case to_mi (PStr oom_baseline_memory_limit) of
                                  None \<Rightarrow> peak | Some known \<Rightarrow> max peak known)
                in if \<not> (floor_mi < proposed \<and> proposed \<le> max_memory_limit_mi)
                   then (False, Memory_Outside proposed floor_mi peak)
                   else (True, Memory_Within proposed floor_mi))))"

definition check_cpu :: "kube_cpu \<Rightarrow> pydict \<Rightarrow> string \<Rightarrow> bool \<times> safe_reason" where
  "check_cpu kube_cpu params actual =
     (case fault_config actual of
        None \<Rightarrow> (False, No_Fault_Config actual)
      | Some cfg \<Rightarrow>
          (case live_cpu_limit_millicores kube_cpu (cfg_target cfg) (cfg_namespace cfg) of
             None \<Rightarrow> (False, Unreadable_Cpu (cfg_target cfg))
           | Some current \<Rightarrow>
               (case to_millicores (dict_get params ''limit'') of
                  None \<Rightarrow> (False, Unparseable_Cpu (dict_get params ''limit''))
                | Some proposed \<Rightarrow>
                    if \<not> (current < proposed \<and> proposed \<le> max_cpu_limit_m)
                    then (False, Cpu_Outside proposed current)
                    else (True, Cpu_Within proposed current))))"

definition check_replicas :: "pydict \<Rightarrow> string \<Rightarrow> tool_output option \<Rightarrow> bool \<times> safe_reason" where
  "check_replicas params actual tool =
     (case fault_config actual of
        None \<Rightarrow> (False, No_Fault_Config actual)
      | Some cfg \<Rightarrow>
          (case (case tool of None \<Rightarrow> None | Some t \<Rightarrow> current_replicas t) of
             None \<Rightarrow> (False, No_Current_Replicas)
           | Some current \<Rightarrow>
               (case dict_get params ''replicas'' of
                  PInt proposed \<Rightarrow>
                    (let floor_n = max current (validated_safe_replicas - 1)
                     in if \<not> (floor_n < proposed \<and> proposed \<le> max_replicas)
                        then (False, Replicas_Outside proposed floor_n current)
                        else (True, Replicas_Within proposed floor_n))
                | v \<Rightarrow> (False, Non_Integer_Replicas v))))"

definition check_safe ::
    "kube_cpu \<Rightarrow> string \<Rightarrow> pydict \<Rightarrow> string \<Rightarrow> tool_output option \<Rightarrow> bool \<times> safe_reason" where
  "check_safe kube_cpu tool params actual out =
     (if tool = ''patch_memory_limit'' then check_memory params out
      else if tool = ''patch_cpu_limit'' then check_cpu kube_cpu params actual
      else if tool = ''scale_deployment'' then check_replicas params actual out
      else (True, No_Magnitude tool))"

section \<open>What a safe verdict means\<close>

lemma baseline_mi: "to_mi (PStr oom_baseline_memory_limit) = Some 200"
proof -
  have "match_quantity memory_suffixes ''200Mi'' = Some (''200'', [], ''Mi'')"
    by (simp add: match_quantity_def memory_suffixes_def is_digit_def newline_def Let_def)
  moreover have "dec_nat ''200'' = 200"
    by (simp add: dec_nat_def digit_val_def)
  ultimately show ?thesis
    by (simp add: to_mi_def oom_baseline_memory_limit_def memory_mi_def dec_float_def mi_factor_def
        fmul_def)
qed

lemma check_memory_safe_iff:
  "fst (check_memory params out) \<longleftrightarrow>
     (\<exists>t peak proposed. out = Some t \<and> peak_memory_mib t = Some peak
        \<and> to_mi (dict_get params ''limit'') = Some proposed
        \<and> peak < proposed \<and> 200 < proposed \<and> proposed \<le> 2048)"
  by (auto simp: check_memory_def baseline_mi max_memory_limit_mi_def Let_def
      split: option.splits)

lemma check_cpu_safe_iff:
  "fst (check_cpu kube params actual) \<longleftrightarrow>
     (\<exists>cfg current proposed. fault_config actual = Some cfg
        \<and> live_cpu_limit_millicores kube (cfg_target cfg) (cfg_namespace cfg) = Some current
        \<and> to_millicores (dict_get params ''limit'') = Some proposed
        \<and> current < proposed \<and> proposed \<le> 2000)"
  by (auto simp: check_cpu_def max_cpu_limit_m_def split: option.splits)

lemma check_replicas_safe_iff:
  "fst (check_replicas params actual out) \<longleftrightarrow>
     (\<exists>cfg t current proposed. fault_config actual = Some cfg \<and> out = Some t
        \<and> current_replicas t = Some current \<and> dict_get params ''replicas'' = PInt proposed
        \<and> current < proposed \<and> 3 \<le> proposed \<and> proposed \<le> 20)"
  by (auto simp: check_replicas_def validated_safe_replicas_def max_replicas_def Let_def
      split: option.splits pyval.splits)

section \<open>Properties\<close>

text \<open>C27: exactly when a magnitude is judged safe for the real fault: above both the observed
  peak and the 200Mi that failed and at most 2048Mi; above the live CPU limit and at most
  2000m; above the recorded replica count, at least the validated 3 and at most 20; always
  when a reading is missing, unsafe; and every other tool is safe.\<close>

theorem check_safe_exactly:
  "fst (check_safe kube tool params actual out) \<longleftrightarrow>
     (if tool = ''patch_memory_limit'' then
        (\<exists>t peak proposed. out = Some t \<and> peak_memory_mib t = Some peak
           \<and> to_mi (dict_get params ''limit'') = Some proposed
           \<and> peak < proposed \<and> 200 < proposed \<and> proposed \<le> 2048)
      else if tool = ''patch_cpu_limit'' then
        (\<exists>cfg current proposed. fault_config actual = Some cfg
           \<and> live_cpu_limit_millicores kube (cfg_target cfg) (cfg_namespace cfg) = Some current
           \<and> to_millicores (dict_get params ''limit'') = Some proposed
           \<and> current < proposed \<and> proposed \<le> 2000)
      else if tool = ''scale_deployment'' then
        (\<exists>cfg t current proposed. fault_config actual = Some cfg \<and> out = Some t
           \<and> current_replicas t = Some current \<and> dict_get params ''replicas'' = PInt proposed
           \<and> current < proposed \<and> 3 \<le> proposed \<and> proposed \<le> 20)
      else True)"
  unfolding check_safe_def
  by (simp only: check_memory_safe_iff check_cpu_safe_iff check_replicas_safe_iff fst_conv split: if_split)
     simp

text \<open>A memory or CPU limit or a replica count that is safe for some fault is one the
  validator accepts for that parameter: the two layers agree on the caps.\<close>

theorem safe_magnitude_is_valid:
  assumes "fst (check_safe kube tool params actual out)"
  shows "(tool = ''patch_memory_limit'' \<longrightarrow> is_valid_memory_quantity (dict_get params ''limit''))
    \<and> (tool = ''patch_cpu_limit'' \<longrightarrow> is_valid_cpu_quantity (dict_get params ''limit''))
    \<and> (tool = ''scale_deployment'' \<longrightarrow> is_valid_replicas (dict_get params ''replicas''))"
proof (intro conjI impI)
  assume "tool = ''patch_memory_limit''"
  with assms show "is_valid_memory_quantity (dict_get params ''limit'')"
    by (auto simp: check_safe_def check_memory_safe_iff is_valid_memory_quantity_def to_mi_def
        max_memory_limit_mi_def split: pyval.splits)
next
  assume t: "tool = ''patch_cpu_limit''"
  have "0 \<le> current" if "live_cpu_limit_millicores kube a b = Some current" for a b current
    using that cpu_millicores_nonneg by (simp add: live_cpu_limit_millicores_def to_millicores_def)
  with assms t show "is_valid_cpu_quantity (dict_get params ''limit'')"
    by (fastforce simp: check_safe_def check_cpu_safe_iff is_valid_cpu_quantity_def
        to_millicores_def max_cpu_limit_m_def split: pyval.splits)
next
  assume "tool = ''scale_deployment''"
  with assms show "is_valid_replicas (dict_get params ''replicas'')"
    by (auto simp: check_safe_def check_replicas_safe_iff is_valid_replicas_def max_replicas_def)
qed

lemma safe_magnitude_is_valid_witness:
  "is_valid_replicas (PInt 3)"
proof -
  define out where "out = \<lparr>oom_pods = [], evicted_pods = [], crashlooping_pods = [],
     connect_failures = None, max_http_ms = None, p95_latency_ms = None,
     combined_throughput_bps = None, payment_stuck_not_ready = False,
     session_db_replicas_hit_zero = False, peak_memory_mib = None, peak_threads_connected = None,
     cpu_throttle_periods_increase = None, front_end_image_pull_failing = False,
     current_replicas = Some 1, heap_rise_kb = None, catalogue_probe_p95_ms = None,
     dl_detector_result = None\<rparr>"
  have "fst (check_safe (\<lambda>_ _. []) ''scale_deployment'' [(''replicas'', PInt 3)]
        ''under-provisioned-replicas'' (Some out))"
    by (simp add: check_safe_def check_replicas_safe_iff fault_config_def out_def dict_get_def)
  from safe_magnitude_is_valid[OF this] show ?thesis by (simp add: dict_get_def)
qed

end
