(* ===== verification/Dispatch_Gate.thy ===== *)
theory Dispatch_Gate
  imports Constraint_Checks
begin

text \<open>
  \<^verbatim>\<open>p3_trust_action/dispatch_gate.py\<close>: the check that redirects a dangerous wrong fix to the
  fix of the real fault. The action map of \<^verbatim>\<open>p3_agent.py\<close> is an argument, as in the code:
  a class maps to its action and the builder of its parameters.
\<close>

type_synonym action_map = "string \<Rightarrow> (string \<times> (string \<Rightarrow> string \<Rightarrow> pydict)) option"

text \<open>\<^verbatim>\<open>{"substituted": False}\<close>, or the substitution with its reason.\<close>

datatype gate_result =
    Dispatch_As_Is
  | Substituted (actual_tool: string) (actual_params: pydict) (sub_reason: gate_reason)

definition gate_check ::
    "kube_cpu \<Rightarrow> action_map \<Rightarrow> string \<Rightarrow> string \<Rightarrow> string \<Rightarrow> pydict \<Rightarrow> string \<Rightarrow> string
       \<Rightarrow> tool_output option \<Rightarrow> gate_result" where
  "gate_check kube_cpu actions predicted actual tool params target ns out =
     (if predicted = actual then Dispatch_As_Is
      else case actions actual of
             None \<Rightarrow> Dispatch_As_Is
           | Some (fix_tool, fix_params) \<Rightarrow>
               if tool \<noteq> fix_tool
               then Substituted fix_tool (fix_params target ns)
                      (Cross_Tool predicted tool actual fix_tool)
               else (case check_safe kube_cpu tool params actual out of
                       (True, _) \<Rightarrow> Dispatch_As_Is
                     | (False, why) \<Rightarrow>
                         Substituted fix_tool (fix_params target ns)
                           (Unsafe_Magnitude tool actual why)))"

definition log_intervention ::
    "string option \<Rightarrow> string \<Rightarrow> string \<Rightarrow> string \<Rightarrow> string \<Rightarrow> gate_reason \<Rightarrow> int \<Rightarrow> db \<Rightarrow> db" where
  "log_intervention episode predicted actual proposed substituted why now d =
     d\<lparr>gate_log := gate_log d @
        [\<lparr>g_episode = episode, g_predicted = predicted, g_actual = actual, g_proposed = proposed,
          g_substituted = substituted, g_reason = why, g_at = now\<rparr>]\<rparr>"

lemma log_intervention_frame [frame]:
  "trust_state (log_intervention ep p a t s r now d) = trust_state d"
  "diagnoser_mode (log_intervention ep p a t s r now d) = diagnoser_mode d"
  "action_trust (log_intervention ep p a t s r now d) = action_trust d"
  "safety_hold (log_intervention ep p a t s r now d) = safety_hold d"
  "trust_history (log_intervention ep p a t s r now d) = trust_history d"
  "scores (log_intervention ep p a t s r now d) = scores d"
  by (simp_all add: log_intervention_def)

section \<open>When the gate fires\<close>

text \<open>The fire condition of the module's documentation, as a specification.\<close>

definition hazardous ::
    "kube_cpu \<Rightarrow> action_map \<Rightarrow> string \<Rightarrow> string \<Rightarrow> string \<Rightarrow> pydict \<Rightarrow> tool_output option \<Rightarrow> bool" where
  "hazardous kube_cpu actions predicted actual tool params out =
     (predicted \<noteq> actual \<and>
      (case actions actual of None \<Rightarrow> False
       | Some (fix_tool, _) \<Rightarrow>
           tool \<noteq> fix_tool \<or> \<not> fst (check_safe kube_cpu tool params actual out)))"

lemma gate_fires_iff:
  "gate_check kube actions predicted actual tool params target ns out \<noteq> Dispatch_As_Is \<longleftrightarrow>
     hazardous kube actions predicted actual tool params out"
  by (auto simp: gate_check_def hazardous_def split: option.splits prod.splits bool.splits)

lemma gate_substitute:
  assumes "gate_check kube actions predicted actual tool params target ns out = Substituted t p r"
  shows "\<exists>mk. actions actual = Some (t, mk) \<and> p = mk target ns"
  using assms by (auto simp: gate_check_def split: option.splits prod.splits bool.splits if_splits)

lemma gate_correct [simp]:
  "gate_check kube actions c c tool params target ns out = Dispatch_As_Is"
  by (simp add: gate_check_def)

section \<open>Properties\<close>

text \<open>C28: the gate redirects exactly when the diagnosis is wrong, the real fault has a fix, and
  the proposed tool is another one or its magnitude is unsafe for the real fault; it then
  substitutes that fix with that fix's own parameters.\<close>

theorem gate_redirects_exactly:
  "case gate_check kube actions predicted actual tool params target ns out of
     Dispatch_As_Is \<Rightarrow> \<not> hazardous kube actions predicted actual tool params out
   | Substituted t p _ \<Rightarrow> hazardous kube actions predicted actual tool params out \<and>
       (\<exists>mk. actions actual = Some (t, mk) \<and> p = mk target ns)"
  using gate_fires_iff[of kube actions predicted actual tool params target ns out]
    gate_substitute[of kube actions predicted actual tool params target ns out]
  by (auto split: gate_result.splits)

end
