(* ===== verification/Action_Proposer.thy ===== *)
theory Action_Proposer
  imports Model_Backend Constraint_Checks
begin

text \<open>
  \<^verbatim>\<open>p2_readonly_loop/action_proposer.py\<close>: the LLM's proposal of one fix for its own
  diagnosis, with one retry, one escalation and the deterministic fix as the last resort.
  \<open>call\<close> is \<^verbatim>\<open>model_backend.call_one\<close>; the prompt is the record of the values the template
  interpolates.
\<close>

section \<open>The deterministic fixes\<close>

definition name_ns :: "string \<Rightarrow> string \<Rightarrow> pydict" where
  "name_ns target ns = [(''name'', PStr target), (''namespace'', PStr ns)]"

definition deterministic_action_map ::
    "string \<Rightarrow> (string \<times> (string \<Rightarrow> string \<Rightarrow> pydict)) option" where
  "deterministic_action_map c =
     (if c = ''crash-loop'' then Some (''restart_deployment'', name_ns)
      else if c = ''oom'' then
        Some (''patch_memory_limit'',
              \<lambda>t n. name_ns t n @ [(''container'', PStr ''catalogue''), (''limit'', PStr ''400Mi'')])
      else if c = ''disk-full'' then
        Some (''restore_from_disk_full'', \<lambda>t n. name_ns t n @ [(''replicas'', PInt 1)])
      else if c = ''cpu-throttling'' then
        Some (''patch_cpu_limit'',
              \<lambda>t n. name_ns t n @ [(''container'', PStr ''user''), (''limit'', PStr ''600m'')])
      else if c = ''under-provisioned-replicas'' then
        Some (''scale_deployment'', \<lambda>t n. name_ns t n @ [(''replicas'', PInt 3)])
      else if c = ''bad-rollout'' then Some (''rollback_deployment'', name_ns)
      else None)"

definition det_tool :: "string \<Rightarrow> string option" where
  "det_tool c = map_option fst (deterministic_action_map c)"

section \<open>One proposal\<close>

datatype reject_reason =
    Schema_Rejection rejection
  | Wrong_Tool string string string

text \<open>\<open>pp_replicas\<close> is the live count merged into the data as \<^verbatim>\<open>current_replicas\<close>.\<close>

record proposal_prompt =
  pp_diagnosis :: string
  pp_target :: string
  pp_namespace :: string
  pp_confidence :: "rat option"
  pp_reasoning :: "ftext option"
  pp_data :: "tool_output option"
  pp_replicas :: "int option option"
  pp_feedback :: "reject_reason option"

datatype attempt =
    Provider_Failure llm_failure
  | Parse_Failure string
  | Validator_Rejected pyval pyval reject_reason string string string
  | Validated string pydict string string string pyval

type_synonym 'w llm_call = "llm_entry \<Rightarrow> proposal_prompt \<Rightarrow> ('w, llm_reply) step"

text \<open>The replica count of the disk-full fix is not the model's to choose.\<close>

definition pin_replicas :: "string \<Rightarrow> pydict \<Rightarrow> pydict" where
  "pin_replicas t p =
     (if t = ''restore_from_disk_full'' then AList.update ''replicas'' (PInt 1) p else p)"

text \<open>What \<^verbatim>\<open>_propose_once\<close> makes of an answer. \<^verbatim>\<open>result.parsed or _extract_json(result.text)\<close>
  is \<open>lr_parsed\<close>: that field is the extraction of the same text.\<close>

definition judge_answer :: "string \<Rightarrow> llm_result \<Rightarrow> attempt res" where
  "judge_answer fault r =
     (let parsed = lr_parsed r in
      if parsed = [] \<or> \<not> dict_has parsed ''tool'' then Inr (Parse_Failure (take 300 (lr_text r)))
      else
        let tool = dict_get parsed ''tool'';
            params = (case map_of parsed ''params'' of None \<Rightarrow> PDict [] | Some p \<Rightarrow> p)
        in case validate_tool_call tool params of
             Inl e \<Rightarrow> Inl e
           | Inr (Some why) \<Rightarrow>
               Inr (Validator_Rejected tool params (Schema_Rejection why)
                      (lr_provider r) (lr_model r) (lr_tier r))
           | Inr None \<Rightarrow>
               (case (tool, params) of
                  (PStr t, PDict p) \<Rightarrow>
                    (case det_tool fault of
                       Some expected \<Rightarrow>
                         if t \<noteq> expected
                         then Inr (Validator_Rejected tool params (Wrong_Tool fault expected t)
                                     (lr_provider r) (lr_model r) (lr_tier r))
                         else Inr (Validated t
                                     (pin_replicas t p)
                                     (lr_provider r) (lr_model r) (lr_tier r)
                                     (dict_get parsed ''reasoning''))
                     | None \<Rightarrow>
                         Inr (Validated t
                                (pin_replicas t p)
                                (lr_provider r) (lr_model r) (lr_tier r)
                                (dict_get parsed ''reasoning'')))
                | _ \<Rightarrow> Inl TypeError))"

definition propose_once ::
    "'w llm_call \<Rightarrow> llm_entry \<Rightarrow> proposal_prompt \<Rightarrow> string \<Rightarrow> 'w \<Rightarrow> attempt res \<times> 'w" where
  "propose_once call e prompt fault w =
     (case call e prompt w of
        (Inl err, w1) \<Rightarrow> (Inl err, w1)
      | (Inr (LLM_Failure f), w1) \<Rightarrow> (Inr (Provider_Failure f), w1)
      | (Inr (LLM_Result r), w1) \<Rightarrow> (judge_answer fault r, w1))"

section \<open>Retry, escalation, fallback\<close>

definition find_chain_entry :: "string option \<Rightarrow> string option \<Rightarrow> llm_entry option" where
  "find_chain_entry provider model =
     find (\<lambda>e. Some (le_provider e) = provider \<and> Some (le_model e) = model) provider_chain"

text \<open>The entry after the given one, if there is one.\<close>

definition next_entry :: "llm_entry \<Rightarrow> llm_entry option" where
  "next_entry e = (case dropWhile (\<lambda>x. x \<noteq> e) provider_chain of
                     _ # e' # _ \<Rightarrow> Some e' | _ \<Rightarrow> None)"

record proposal =
  pr_source :: string
  pr_class :: string
  pr_tool :: "string option"
  pr_params :: "pydict option"
  pr_provider :: "string option"
  pr_model :: "string option"
  pr_tier :: "string option"
  pr_attempts :: "attempt list"

definition not_auto_fix :: "string \<Rightarrow> proposal" where
  "not_auto_fix fault =
     \<lparr>pr_source = ''not_auto_fix_class'', pr_class = fault, pr_tool = None, pr_params = None,
      pr_provider = None, pr_model = None, pr_tier = None, pr_attempts = []\<rparr>"

fun accept_attempt :: "string \<Rightarrow> string \<Rightarrow> attempt list \<Rightarrow> attempt \<Rightarrow> proposal option" where
  "accept_attempt source fault attempts (Validated t p provider model tier _) =
     Some \<lparr>pr_source = source, pr_class = fault, pr_tool = Some t, pr_params = Some p,
           pr_provider = Some provider, pr_model = Some model, pr_tier = Some tier,
           pr_attempts = attempts\<rparr>"
| "accept_attempt source fault attempts _ = None"

definition fallback_proposal :: "string \<Rightarrow> string \<Rightarrow> string \<Rightarrow> attempt list \<Rightarrow> proposal" where
  "fallback_proposal fault target ns attempts =
     (case deterministic_action_map fault of
        None \<Rightarrow> not_auto_fix fault
      | Some (t, mk) \<Rightarrow>
          \<lparr>pr_source = ''deterministic_fallback'', pr_class = fault, pr_tool = Some t,
           pr_params = Some (mk target ns), pr_provider = None, pr_model = None,
           pr_tier = Some ''deterministic_fallback'', pr_attempts = attempts\<rparr>)"

text \<open>The last step: one call to the next provider, then the deterministic fix.\<close>

definition escalate ::
    "'w llm_call \<Rightarrow> llm_entry \<Rightarrow> proposal_prompt \<Rightarrow> string \<Rightarrow> attempt list \<Rightarrow> 'w \<Rightarrow> proposal res \<times> 'w" where
  "escalate call e prompt fault attempts w =
     (case next_entry e of
        None \<Rightarrow> (Inr (fallback_proposal fault (pp_target prompt) (pp_namespace prompt) attempts), w)
      | Some e' \<Rightarrow>
          (case propose_once call e' prompt fault w of
             (Inl err, w1) \<Rightarrow> (Inl err, w1)
           | (Inr a, w1) \<Rightarrow>
               (case accept_attempt ''llm_escalated'' fault (attempts @ [a]) a of
                  Some p \<Rightarrow> (Inr p, w1)
                | None \<Rightarrow> (Inr (fallback_proposal fault (pp_target prompt) (pp_namespace prompt)
                                  (attempts @ [a])), w1))))"

definition propose_action ::
    "'w llm_call \<Rightarrow> (string \<Rightarrow> string \<Rightarrow> string) \<Rightarrow> string \<Rightarrow> diagnosis \<Rightarrow> string \<Rightarrow> string
       \<Rightarrow> string option \<Rightarrow> string option \<Rightarrow> tool_output option \<Rightarrow> 'w \<Rightarrow> proposal res \<times> 'w" where
  "propose_action call kube_replicas fault diag target ns provider model out w =
     (if deterministic_action_map fault = None then (Inr (not_auto_fix fault), w)
      else
        let prompt = \<lparr>pp_diagnosis = dg_diagnosis diag, pp_target = target, pp_namespace = ns,
                      pp_confidence = dg_confidence diag, pp_reasoning = dg_reasoning diag, pp_data = out,
                      pp_replicas = (if fault = ''under-provisioned-replicas''
                                     then Some (live_replica_count kube_replicas target ns) else None),
                      pp_feedback = None\<rparr>
        in case find_chain_entry provider model of
             None \<Rightarrow> (Inr (fallback_proposal fault target ns []), w)
           | Some e \<Rightarrow>
               (case propose_once call e prompt fault w of
                  (Inl err, w1) \<Rightarrow> (Inl err, w1)
                | (Inr a, w1) \<Rightarrow>
                    (case accept_attempt ''llm_primary_retry'' fault [a] a of
                       Some p \<Rightarrow> (Inr p, w1)
                     | None \<Rightarrow>
                         (case a of
                            Validator_Rejected _ _ why _ _ _ \<Rightarrow>
                              (case propose_once call e (prompt\<lparr>pp_feedback := Some why\<rparr>) fault w1 of
                                 (Inl err, w2) \<Rightarrow> (Inl err, w2)
                               | (Inr a2, w2) \<Rightarrow>
                                   (case accept_attempt ''llm_primary_retry'' fault [a, a2] a2 of
                                      Some p \<Rightarrow> (Inr p, w2)
                                    | None \<Rightarrow> escalate call e prompt fault [a, a2] w2))
                          | _ \<Rightarrow> escalate call e prompt fault [a] w1))))"

section \<open>Comparison and logging\<close>

definition matches_deterministic_action ::
    "string \<Rightarrow> string \<Rightarrow> pydict option \<Rightarrow> string \<Rightarrow> string \<Rightarrow> bool option" where
  "matches_deterministic_action fault tool params target ns =
     (case deterministic_action_map fault of
        None \<Rightarrow> None
      | Some (t, mk) \<Rightarrow>
          Some (tool = t \<and>
                (case params of None \<Rightarrow> False | Some p \<Rightarrow> map_of p = map_of (mk target ns))))"

definition log_proposal :: "string \<Rightarrow> string \<Rightarrow> string \<Rightarrow> proposal \<Rightarrow> db \<Rightarrow> db" where
  "log_proposal episode target ns p d =
     d\<lparr>proposal_log := proposal_log d @
        [\<lparr>p_episode = episode, p_class = pr_class p, p_source = pr_source p, p_tool = pr_tool p,
          p_params = pr_params p, p_tier = pr_tier p,
          p_matches = (case pr_tool p of None \<Rightarrow> None
                       | Some t \<Rightarrow> matches_deterministic_action (pr_class p) t (pr_params p) target ns)\<rparr>]\<rparr>"

section \<open>What every proposal satisfies\<close>

text \<open>A well-formed proposal for a class: the class's own tool, and parameters that pass the
  validator, up to the fixed replica count of the disk-full fix.\<close>

definition validated_params :: "string \<Rightarrow> pydict \<Rightarrow> bool" where
  "validated_params t d \<longleftrightarrow>
     (\<exists>d0. validate_tool_call (PStr t) (PDict d0) = Inr None \<and> d = pin_replicas t d0)"

definition sound_proposal :: "string \<Rightarrow> string \<Rightarrow> string \<Rightarrow> proposal \<Rightarrow> bool" where
  "sound_proposal fault target ns p \<longleftrightarrow>
     pr_class p = fault \<and> length (pr_attempts p) \<le> 3 \<and>
     (\<exists>t d mk. deterministic_action_map fault = Some (t, mk) \<and>
        pr_tool p = Some t \<and> pr_params p = Some d \<and>
        (if pr_source p = ''deterministic_fallback'' then d = mk target ns
         else pr_source p \<in> {''llm_primary_retry'', ''llm_escalated''} \<and> validated_params t d))"

lemma judge_answer_validated:
  assumes "judge_answer fault r = Inr (Validated t p pv m ti why)" "det_tool fault = Some expected"
  shows "t = expected \<and> validated_params t p"
  using assms
  by (auto simp: judge_answer_def Let_def validated_params_def
      split: if_splits sum.splits option.splits pyval.splits)

lemma accept_attempt_sound:
  assumes "accept_attempt src fault as a = Some p"
    and "propose_once call e prompt fault w = (Inr a, w')"
    and "det_tool fault \<noteq> None" "length as \<le> 3" "src \<in> {''llm_primary_retry'', ''llm_escalated''}"
  shows "sound_proposal fault target ns p"
proof -
  obtain t d pv m ti why where a: "a = Validated t d pv m ti why"
    using assms(1) by (cases a) auto
  with assms(2) obtain r where "judge_answer fault r = Inr (Validated t d pv m ti why)"
    by (auto simp: propose_once_def split: prod.splits sum.splits llm_reply.splits)
  from judge_answer_validated[OF this] assms show ?thesis
    by (auto simp: a sound_proposal_def det_tool_def)
qed

lemma fallback_sound:
  assumes "deterministic_action_map fault \<noteq> None" "length as \<le> 3"
  shows "sound_proposal fault target ns (fallback_proposal fault target ns as)"
  using assms by (auto simp: fallback_proposal_def sound_proposal_def det_tool_def)

lemma escalate_sound:
  assumes "escalate call e prompt fault as w = (Inr p, w')"
    and "deterministic_action_map fault \<noteq> None" "length as \<le> 2"
  shows "sound_proposal fault (pp_target prompt) (pp_namespace prompt) p"
  using assms
  by (auto simp: escalate_def det_tool_def split: option.splits prod.splits sum.splits
      intro!: fallback_sound elim!: accept_attempt_sound)

lemma propose_action_sound:
  assumes "propose_action call kube fault diag target ns provider model out w = (Inr p, w')"
    and "deterministic_action_map fault \<noteq> None"
  shows "sound_proposal fault target ns p"
  using assms
  by (auto simp: propose_action_def Let_def det_tool_def
      split: option.splits prod.splits sum.splits attempt.splits
      intro!: fallback_sound elim!: accept_attempt_sound dest!: escalate_sound)

section \<open>Properties\<close>

text \<open>C25: a proposal for a class with an automatic fix always names that class's own tool;
  its parameters passed the validator (with the disk-full replica count pinned to 1), or
  they are the deterministic fix itself; and it took at most three LLM calls.\<close>

theorem proposal_is_sound:
  assumes "propose_action call kube fault diag target ns provider model out w = (Inr p, w')"
    and "deterministic_action_map fault \<noteq> None"
  shows "pr_class p = fault \<and> length (pr_attempts p) \<le> 3 \<and>
     (\<exists>t d mk. deterministic_action_map fault = Some (t, mk) \<and>
        pr_tool p = Some t \<and> pr_params p = Some d \<and>
        (if pr_source p = ''deterministic_fallback'' then d = mk target ns
         else pr_source p \<in> {''llm_primary_retry'', ''llm_escalated''} \<and>
           (\<exists>d0. validate_tool_call (PStr t) (PDict d0) = Inr None \<and> d = pin_replicas t d0)))"
  using propose_action_sound[OF assms] unfolding sound_proposal_def validated_params_def .

lemma proposal_is_sound_witness:
  "\<exists>p. propose_action (\<lambda>_ _ w. (Inr (LLM_Result \<lparr>lr_text = [],
          lr_parsed = [(''tool'', PStr ''restart_deployment''), (''params'', PDict [(''name'', PStr ''carts'')])],
          lr_provider = ''gemini'', lr_model = ''gemini-3-flash-preview'', lr_tier = ''primary'',
          lr_confidence = None, lr_confidence_source = None, lr_raw = PNone, lr_fingerprint = PNone\<rparr>), w)) (\<lambda>_ _. []) ''crash-loop''
        \<lparr>dg_diagnosis = ''crash-loop'', dg_confidence = None, dg_reasoning = None\<rparr> ''carts'' ''sock-shop''
        (Some ''gemini'') (Some ''gemini-3-flash-preview'') None () = (Inr p, ())
      \<and> pr_tool p = Some ''restart_deployment''"
proof -
  let ?r = "\<lparr>lr_text = [], lr_parsed = [(''tool'', PStr ''restart_deployment''),
      (''params'', PDict [(''name'', PStr ''carts'')])], lr_provider = ''gemini'',
      lr_model = ''gemini-3-flash-preview'', lr_tier = ''primary'', lr_confidence = None,
      lr_confidence_source = None, lr_raw = PNone, lr_fingerprint = PNone\<rparr>"
  let ?go = "propose_action (\<lambda>_ _ w. (Inr (LLM_Result ?r), w)) (\<lambda>_ _. []) ''crash-loop''
        \<lparr>dg_diagnosis = ''crash-loop'', dg_confidence = None, dg_reasoning = None\<rparr> ''carts'' ''sock-shop''
        (Some ''gemini'') (Some ''gemini-3-flash-preview'') None ()"
  have "validate_tool_call (PStr ''restart_deployment'') (PDict [(''name'', PStr ''carts'')]) = Inr None"
    by (auto simp: accepted_iff allowed_actions_def well_formed_params_def is_nonempty_str_def
        dict_get_def dict_keys_def py_strip_def is_space_def tool_schemas_def)
  then have "judge_answer ''crash-loop'' ?r = Inr (Validated ''restart_deployment''
      [(''name'', PStr ''carts'')] ''gemini'' ''gemini-3-flash-preview'' ''primary'' PNone)"
    by (simp add: judge_answer_def dict_has_def dict_get_def det_tool_def
        deterministic_action_map_def pin_replicas_def)
  moreover have "find_chain_entry (Some ''gemini'') (Some ''gemini-3-flash-preview'') \<noteq> None"
    by (simp add: find_chain_entry_def provider_chain_def)
  ultimately obtain p where p: "?go = (Inr p, ())"
    by (auto simp: propose_action_def deterministic_action_map_def propose_once_def split: option.splits)
  from proposal_is_sound[OF p] p show ?thesis by (auto simp: deterministic_action_map_def)
qed

text \<open>The system prompt tells the model to answer restart_deployment when the metric that
  sizes a fix is missing; for an oom or cpu-throttling diagnosis that answer, however well
  formed, is never accepted.\<close>

theorem prompted_restart_is_rejected:
  assumes "fault \<in> {''oom'', ''cpu-throttling''}"
    and "dict_get (lr_parsed r) ''tool'' = PStr ''restart_deployment''"
  shows "\<forall>t p pv m ti why. judge_answer fault r \<noteq> Inr (Validated t p pv m ti why)"
proof (intro allI notI)
  fix t p pv m ti why
  assume j: "judge_answer fault r = Inr (Validated t p pv m ti why)"
  obtain expected where e: "det_tool fault = Some expected" "expected \<noteq> ''restart_deployment''"
    using assms(1) by (auto simp: det_tool_def deterministic_action_map_def)
  from j assms(2) have "t = ''restart_deployment''"
    by (auto simp: judge_answer_def Let_def split: if_splits sum.splits option.splits pyval.splits)
  with judge_answer_validated[OF j e(1)] e(2) show False by simp
qed

lemma prompted_restart_is_rejected_witness:
  "judge_answer ''oom'' \<lparr>lr_text = [], lr_parsed = [(''tool'', PStr ''restart_deployment'')],
     lr_provider = [], lr_model = [], lr_tier = [], lr_confidence = None,
     lr_confidence_source = None, lr_raw = PNone, lr_fingerprint = PNone\<rparr> \<noteq> Inr (Validated ''restart_deployment'' [] [] [] [] PNone)"
  using prompted_restart_is_rejected[of "''oom''"
      "\<lparr>lr_text = [], lr_parsed = [(''tool'', PStr ''restart_deployment'')],
        lr_provider = [], lr_model = [], lr_tier = [], lr_confidence = None,
        lr_confidence_source = None, lr_raw = PNone, lr_fingerprint = PNone\<rparr>"] by (simp add: dict_get_def)

end
