(* ===== verification/Streak_Ladder.thy ===== *)
theory Streak_Ladder
  imports Prelude
begin

text \<open>
  The contract the three trust dimensions share: trust is earned by a streak of correct
  outcomes on one class and lost at the first wrong one. \<open>streak_ladder\<close> states it for any
  store; \<open>streak_spec\<close> and \<open>trusted_spec\<close> are what it amounts to over a whole history of
  outcomes, and the locale proves that every store with the contract implements them.
\<close>

section \<open>The abstract specification\<close>

text \<open>An outcome: its class, whether it was correct, and what the store logs beside it.\<close>

type_synonym 'x outcome = "string \<times> bool \<times> 'x"

definition outcomes_of :: "string \<Rightarrow> 'x outcome list \<Rightarrow> bool list" where
  "outcomes_of c os = map (\<lambda>(_, b, _). b) (filter (\<lambda>(c', _). c' = c) os)"

text \<open>How many outcomes were correct since the last wrong one.\<close>

definition since_miss :: "bool list \<Rightarrow> int" where
  "since_miss bs = int (length (takeWhile id (rev bs)))"

definition streak_spec :: "int \<Rightarrow> bool list \<Rightarrow> int" where
  "streak_spec k bs = (if False \<in> set bs then since_miss bs else k + int (length bs))"

definition trusted_spec :: "int \<Rightarrow> bool \<Rightarrow> int \<Rightarrow> bool list \<Rightarrow> bool" where
  "trusted_spec n t k bs =
     (if False \<in> set bs then n \<le> since_miss bs
      else t \<or> (bs \<noteq> [] \<and> n \<le> k + int (length bs)))"

definition run_outcomes ::
    "('s \<Rightarrow> string \<Rightarrow> bool \<Rightarrow> 'x \<Rightarrow> 's) \<Rightarrow> 's \<Rightarrow> 'x outcome list \<Rightarrow> 's" where
  "run_outcomes rec s os = foldl (\<lambda>s (c, b, x). rec s c b x) s os"

lemma run_outcomes_Nil [simp]: "run_outcomes rec s [] = s"
  by (simp add: run_outcomes_def)

lemma run_outcomes_snoc [simp]:
  "run_outcomes rec s (os @ [(c, b, x)]) = rec (run_outcomes rec s os) c b x"
  by (simp add: run_outcomes_def)

lemma run_outcomes_Cons [simp]:
  "run_outcomes rec s ((c, b, x) # os) = run_outcomes rec (rec s c b x) os"
  by (simp add: run_outcomes_def)

lemma outcomes_of_snoc [simp]:
  "outcomes_of c (os @ [(c', b, x)]) = outcomes_of c os @ (if c' = c then [b] else [])"
  by (simp add: outcomes_of_def)

lemma outcomes_of_Nil [simp]: "outcomes_of c [] = []"
  by (simp add: outcomes_of_def)

lemma outcomes_of_Cons [simp]:
  "outcomes_of c ((c', b, x) # os) = (if c' = c then b # outcomes_of c os else outcomes_of c os)"
  by (simp add: outcomes_of_def)

lemma since_miss_snoc [simp]:
  "since_miss (bs @ [b]) = (if b then since_miss bs + 1 else 0)"
  by (simp add: since_miss_def)

lemma since_miss_nonneg [simp]: "0 \<le> since_miss bs"
  by (simp add: since_miss_def)

lemma streak_spec_Nil [simp]: "streak_spec k [] = k"
  by (simp add: streak_spec_def)

lemma streak_spec_snoc [simp]:
  "streak_spec k (bs @ [b]) = (if b then streak_spec k bs + 1 else 0)"
  by (auto simp: streak_spec_def)

lemma trusted_spec_Nil [simp]: "trusted_spec n t k [] = t"
  by (simp add: trusted_spec_def)

lemma trusted_spec_snoc [simp]:
  "0 < n \<Longrightarrow> trusted_spec n t k (bs @ [b]) =
     (b \<and> (trusted_spec n t k bs \<or> n \<le> streak_spec k bs + 1))"
  by (auto simp: trusted_spec_def streak_spec_def)

section \<open>The contract\<close>

locale streak_ladder =
  fixes trusted :: "'s \<Rightarrow> string \<Rightarrow> bool"
    and streak :: "'s \<Rightarrow> string \<Rightarrow> int"
    and rec :: "'s \<Rightarrow> string \<Rightarrow> bool \<Rightarrow> 'x \<Rightarrow> 's"
    and policy :: "string \<Rightarrow> int option"
  assumes policy_pos: "policy c = Some n \<Longrightarrow> 0 < n"
    and rec_streak: "policy c = Some n \<Longrightarrow>
          streak (rec s c b x) c = (if b then streak s c + 1 else 0)"
    and rec_trusted: "policy c = Some n \<Longrightarrow>
          trusted (rec s c b x) c = (b \<and> (trusted s c \<or> n \<le> streak s c + 1))"
    and rec_other: "c' \<noteq> c \<Longrightarrow>
          streak (rec s c b x) c' = streak s c' \<and> trusted (rec s c b x) c' = trusted s c'"
begin

lemma run_streak:
  "policy c = Some n \<Longrightarrow>
     streak (run_outcomes rec s os) c = streak_spec (streak s c) (outcomes_of c os)"
proof (induction os rule: rev_induct)
  case (snoc e os)
  obtain c' b x where e: "e = (c', b, x)" by (cases e)
  with snoc show ?case
    by (cases "c' = c") (simp_all add: rec_streak rec_other)
qed simp

lemma run_trusted:
  "policy c = Some n \<Longrightarrow>
     trusted (run_outcomes rec s os) c =
       trusted_spec n (trusted s c) (streak s c) (outcomes_of c os)"
proof (induction os rule: rev_induct)
  case (snoc e os)
  obtain c' b x where e: "e = (c', b, x)" by (cases e)
  with snoc policy_pos[OF snoc.prems] show ?case
    by (cases "c' = c") (simp_all add: rec_trusted rec_other run_streak)
qed simp

lemma miss_revokes:
  "policy c = Some n \<Longrightarrow> \<not> trusted (rec s c False x) c \<and> streak (rec s c False x) c = 0"
  by (simp add: rec_streak rec_trusted)

text \<open>The streak never goes negative, so a class without trust needs \<open>n\<close> more outcomes.\<close>

lemma run_streak_nonneg:
  "policy c = Some n \<Longrightarrow> 0 \<le> streak s c \<Longrightarrow> 0 \<le> streak (run_outcomes rec s os) c"
  by (simp add: run_streak streak_spec_def)

lemma earned_only:
  assumes "policy c = Some n" "\<not> trusted s c" "streak s c = 0"
    and "trusted (run_outcomes rec s os) c"
  shows "n \<le> since_miss (outcomes_of c os)"
proof (cases "False \<in> set (outcomes_of c os)")
  case True
  with assms show ?thesis by (simp add: run_trusted trusted_spec_def)
next
  case False
  then have "length (takeWhile id (rev (outcomes_of c os))) = length (outcomes_of c os)"
    by (subst takeWhile_eq_all_conv [THEN iffD2]) (auto, metis (full_types))
  with False assms show ?thesis
    by (simp add: run_trusted trusted_spec_def since_miss_def)
qed

end

end
