(* ===== verification/Trust_Engine.thy ===== *)
theory Trust_Engine
  imports Wardence_DB Streak_Ladder
begin

text \<open>
  \<^verbatim>\<open>p3_trust_action/trust_engine.py\<close>: Dimension A, the per-class right to act, kept in the
  tables \<^verbatim>\<open>trust_state\<close> and \<^verbatim>\<open>trust_history\<close>. A class is promoted after PROMOTION_STREAK
  correct outcomes in a row and loses its right at the first wrong one.
\<close>

section \<open>Operations\<close>

text \<open>PROMOTION_STREAK: the classes with an automatic fix and their streak.\<close>

definition promotion_streak :: "string \<Rightarrow> int option" where
  "promotion_streak = map_of
     [(''crash-loop'', 5), (''oom'', 5), (''disk-full'', 5), (''cpu-throttling'', 5),
      (''under-provisioned-replicas'', 5), (''bad-rollout'', 5)]"

definition get_trust_state :: "db \<Rightarrow> string \<Rightarrow> a_state \<times> int" where
  "get_trust_state d c = row_or (Report_Only, 0) (trust_state d) c"

definition upsert_trust_state :: "db \<Rightarrow> string \<Rightarrow> a_state \<Rightarrow> int \<Rightarrow> db" where
  "upsert_trust_state d c s n = d\<lparr>trust_state := AList.update c (s, n) (trust_state d)\<rparr>"

text \<open>The TEXT values a caller may pass, and \<^verbatim>\<open>manual_set_state\<close>'s check of them.\<close>

definition parse_a_state :: "string \<Rightarrow> a_state option" where
  "parse_a_state s =
     (if s = ''report_only'' then Some Report_Only
      else if s = ''can_act'' then Some Can_Act
      else if s = ''demoted'' then Some Demoted else None)"

definition manual_set_state :: "db \<Rightarrow> string \<Rightarrow> string \<Rightarrow> int \<Rightarrow> db res" where
  "manual_set_state d c s n =
     (case parse_a_state s of None \<Rightarrow> Inl ValueError
      | Some st \<Rightarrow> Inr (upsert_trust_state d c st n))"

record a_outcome =
  o_before :: a_state
  o_after :: a_state
  o_streak_before :: int
  o_streak_after :: int
  o_promoted :: bool
  o_demoted :: bool

text \<open>The transition itself: the three branches of \<^verbatim>\<open>record_outcome\<close>.\<close>

definition a_transition :: "int \<Rightarrow> a_state \<Rightarrow> int \<Rightarrow> bool \<Rightarrow> a_state \<times> int" where
  "a_transition target s n correct =
     (if s = Can_Act \<and> \<not> correct then (Report_Only, 0)
      else if correct then (if n + 1 \<ge> target then Can_Act else s, n + 1)
      else (s, 0))"

definition record_outcome ::
    "int \<Rightarrow> db \<Rightarrow> string \<Rightarrow> bool \<Rightarrow> string option \<Rightarrow> (a_outcome \<times> db) res" where
  "record_outcome now d c correct ep =
     (case promotion_streak c of
        None \<Rightarrow> Inl ValueError
      | Some target \<Rightarrow>
          (let (s, n) = get_trust_state d c;
               (s', n') = a_transition target s n correct;
               d1 = upsert_trust_state d c s' n';
               d2 = d1\<lparr>trust_history := trust_history d1 @
                      [\<lparr>h_episode = ep, h_class = c, h_correct = correct, h_before = s,
                        h_after = s', h_streak_before = n, h_streak_after = n', h_at = now\<rparr>]\<rparr>
           in Inr (\<lparr>o_before = s, o_after = s', o_streak_before = n, o_streak_after = n',
                   o_promoted = (s \<noteq> Can_Act \<and> s' = Can_Act),
                   o_demoted = (s = Can_Act \<and> s' = Report_Only)\<rparr>, d2)))"

section \<open>Equations\<close>

lemma get_upsert_trust_state [simp]:
  "get_trust_state (upsert_trust_state d c s n) c' =
     (if c' = c then (s, n) else get_trust_state d c')"
  by (simp add: get_trust_state_def upsert_trust_state_def)

lemma get_trust_state_cong [simp]:
  "get_trust_state (d\<lparr>trust_history := h\<rparr>) c = get_trust_state d c"
  by (simp add: get_trust_state_def)

lemma record_outcome_unknown [step_eqs]:
  "promotion_streak c = None \<Longrightarrow> record_outcome now d c b ep = Inl ValueError"
  by (simp add: record_outcome_def)

lemma record_outcome_state:
  assumes "record_outcome now d c b ep = Inr (r, d')"
  shows "\<exists>target. promotion_streak c = Some target \<and>
           get_trust_state d' c' =
             (if c' = c then a_transition target (fst (get_trust_state d c))
                               (snd (get_trust_state d c)) b
              else get_trust_state d c')"
  using assms
  by (auto simp: record_outcome_def Let_def split: option.splits prod.splits)

lemma record_outcome_total:
  "promotion_streak c \<noteq> None \<Longrightarrow> \<exists>r d'. record_outcome now d c b ep = Inr (r, d')"
  by (auto simp: record_outcome_def Let_def split: prod.splits)

text \<open>Only the two tables of Dimension A change.\<close>

lemma record_outcome_frame:
  assumes "record_outcome now d c b ep = Inr (r, d')"
  shows "d' = d\<lparr>trust_state := trust_state d', trust_history := trust_history d'\<rparr>"
  using assms
  by (auto simp: record_outcome_def upsert_trust_state_def Let_def
      split: option.splits prod.splits)

lemma promotion_streak_Some [simp]: "promotion_streak c = Some n \<Longrightarrow> n = 5"
  by (auto simp: promotion_streak_def split: if_splits)

section \<open>The streak contract\<close>

text \<open>
  Recording as a total function of the store: an outcome of a class without a policy
  raises and changes nothing.
\<close>

definition a_record :: "db \<Rightarrow> string \<Rightarrow> bool \<Rightarrow> int \<times> string option \<Rightarrow> db" where
  "a_record d c b x = (case record_outcome (fst x) d c b (snd x) of Inl _ \<Rightarrow> d | Inr (_, d') \<Rightarrow> d')"

definition a_trusted :: "db \<Rightarrow> string \<Rightarrow> bool" where
  "a_trusted d c = (fst (get_trust_state d c) = Can_Act)"

definition a_streak :: "db \<Rightarrow> string \<Rightarrow> int" where
  "a_streak d c = snd (get_trust_state d c)"

lemma a_record_state:
  "get_trust_state (a_record d c b x) c' =
     (case promotion_streak c of None \<Rightarrow> get_trust_state d c'
      | Some n \<Rightarrow> if c' = c then a_transition n (fst (get_trust_state d c))
                                   (snd (get_trust_state d c)) b
                  else get_trust_state d c')"
proof (cases "promotion_streak c")
  case None
  then show ?thesis by (simp add: a_record_def step_eqs)
next
  case (Some n)
  then obtain r d' where "record_outcome (fst x) d c b (snd x) = Inr (r, d')"
    using record_outcome_total[of c] by blast
  with Some record_outcome_state[OF this, of c'] show ?thesis
    by (auto simp: a_record_def)
qed

interpretation a_ladder: streak_ladder a_trusted a_streak a_record promotion_streak
  by unfold_locales
    (auto simp: a_trusted_def a_streak_def a_record_state a_transition_def
       dest: promotion_streak_Some split: option.splits)

section \<open>Properties\<close>

text \<open>C1: over any history of outcomes, Dimension A trusts a class exactly when the ladder's
  specification says so: it was trusted before and has not missed since, or the streak
  since its last miss reached its promotion streak.\<close>

theorem dimension_a_ladder:
  assumes "promotion_streak c = Some n"
  shows "a_trusted (run_outcomes a_record d os) c =
           trusted_spec n (a_trusted d c) (a_streak d c) (outcomes_of c os)"
  using assms by (rule a_ladder.run_trusted)

lemma dimension_a_ladder_witness:
  "a_trusted (run_outcomes a_record empty_db
      ((''oom'', False, (0, None)) # replicate 5 (''oom'', True, (1, None)))) ''oom''"
proof -
  have policy: "promotion_streak ''oom'' = Some 5" by (simp add: promotion_streak_def)
  have "replicate 5 (''oom'', True, (1::int, None::string option)) =
      [(''oom'', True, (1, None)), (''oom'', True, (1, None)), (''oom'', True, (1, None)),
       (''oom'', True, (1, None)), (''oom'', True, (1, None))]" by (simp add: eval_nat_numeral)
  then show ?thesis
    by (simp only: dimension_a_ladder[OF policy]) (simp add: trusted_spec_def since_miss_def)
qed

text \<open>\<^verbatim>\<open>record_outcome\<close> raises ValueError exactly for a class without a promotion policy;
  otherwise it moves only that class, by the transition, logs one history row with the
  state before and after, and leaves every other table alone.\<close>

theorem record_outcome_contract:
  "case record_outcome now d c b ep of
     Inl e \<Rightarrow> e = ValueError \<and> promotion_streak c = None
   | Inr (r, d') \<Rightarrow>
       (\<exists>target. promotion_streak c = Some target \<and>
          (let old = get_trust_state d c; new = a_transition target (fst old) (snd old) b
           in get_trust_state d' = (get_trust_state d)(c := new) \<and>
              trust_history d' = trust_history d @
                [\<lparr>h_episode = ep, h_class = c, h_correct = b, h_before = fst old, h_after = fst new,
                  h_streak_before = snd old, h_streak_after = snd new, h_at = now\<rparr>])) \<and>
       d' = d\<lparr>trust_state := trust_state d', trust_history := trust_history d'\<rparr>"
proof (cases "record_outcome now d c b ep")
  case (Inl e)
  then show ?thesis
    by (auto simp: record_outcome_def Let_def split: option.splits prod.splits)
next
  case (Inr p)
  obtain r d' where p: "p = (r, d')" by (cases p)
  from record_outcome_frame[of now d c b ep r d'] record_outcome_state[of now d c b ep r d'] Inr p
  show ?thesis
    by (auto simp: record_outcome_def Let_def fun_eq_iff upsert_trust_state_def
        split: option.splits prod.splits)
qed

text \<open>No history of outcomes ever writes DEMOTED: a class that was not demoted by hand is
  Report-Only or Can-Act for good.\<close>

theorem outcomes_never_demote:
  assumes "fst (get_trust_state d c) \<noteq> Demoted"
  shows "fst (get_trust_state (run_outcomes a_record d os) c) \<noteq> Demoted"
proof (induction os rule: rev_induct)
  case (snoc e os)
  obtain c' b x where "e = (c', b, x)" by (cases e)
  with snoc show ?case
    by (auto simp: a_record_state a_transition_def split: option.splits)
qed (use assms in simp)

lemma outcomes_never_demote_witness:
  "fst (get_trust_state (run_outcomes a_record empty_db [(''oom'', False, (0, None))]) ''oom'') \<noteq> Demoted"
  by (rule outcomes_never_demote) (simp add: get_trust_state_def empty_db_def)

end
