(* ===== verification/LLM_Trust.thy ===== *)
theory LLM_Trust
  imports Wardence_DB Streak_Ladder
begin

text \<open>
  \<^verbatim>\<open>p3_trust_action/llm_trust_state.py\<close>: Dimension B (which diagnoser drives a class, tables
  \<^verbatim>\<open>diagnoser_mode\<close> and its history) and Dimension C (whether the LLM's own action may be
  dispatched, tables \<^verbatim>\<open>action_trust\<close> and its history).
\<close>

section \<open>Operations\<close>

text \<open>DIAGNOSER_PROMOTION_STREAK, ACTION_PROMOTION_STREAK, MAGNITUDE_SENSITIVE_ACTIONS.\<close>

definition diagnoser_promotion_streak :: int where
  "diagnoser_promotion_streak = 5"

definition action_promotion_streak :: int where
  "action_promotion_streak = 5"

definition magnitude_sensitive_actions :: "string list" where
  "magnitude_sensitive_actions = [''patch_memory_limit'', ''patch_cpu_limit'', ''scale_deployment'']"

definition get_diagnoser_mode :: "db \<Rightarrow> string \<Rightarrow> b_mode \<times> int" where
  "get_diagnoser_mode d c = row_or (Stub, 0) (diagnoser_mode d) c"

definition get_action_trust :: "db \<Rightarrow> string \<Rightarrow> c_state \<times> int" where
  "get_action_trust d c = row_or (Deterministic_Fallback, 0) (action_trust d) c"

definition upsert_diagnoser_mode :: "db \<Rightarrow> string \<Rightarrow> b_mode \<Rightarrow> int \<Rightarrow> db" where
  "upsert_diagnoser_mode d c m n = d\<lparr>diagnoser_mode := AList.update c (m, n) (diagnoser_mode d)\<rparr>"

definition upsert_action_trust :: "db \<Rightarrow> string \<Rightarrow> c_state \<Rightarrow> int \<Rightarrow> db" where
  "upsert_action_trust d c s n = d\<lparr>action_trust := AList.update c (s, n) (action_trust d)\<rparr>"

definition parse_b_mode :: "string \<Rightarrow> b_mode option" where
  "parse_b_mode s = (if s = ''stub'' then Some Stub else if s = ''llm'' then Some Llm else None)"

definition parse_c_state :: "string \<Rightarrow> c_state option" where
  "parse_c_state s =
     (if s = ''deterministic_fallback'' then Some Deterministic_Fallback
      else if s = ''llm_can_act'' then Some Llm_Can_Act else None)"

definition manual_set_diagnoser_mode :: "db \<Rightarrow> string \<Rightarrow> string \<Rightarrow> int \<Rightarrow> db res" where
  "manual_set_diagnoser_mode d c m n =
     (case parse_b_mode m of None \<Rightarrow> Inl ValueError
      | Some b \<Rightarrow> Inr (upsert_diagnoser_mode d c b n))"

definition manual_set_action_trust :: "db \<Rightarrow> string \<Rightarrow> string \<Rightarrow> int \<Rightarrow> db res" where
  "manual_set_action_trust d c s n =
     (case parse_c_state s of None \<Rightarrow> Inl ValueError
      | Some st \<Rightarrow> Inr (upsert_action_trust d c st n))"

definition log_diagnoser ::
    "int \<Rightarrow> string option \<Rightarrow> string \<Rightarrow> bool \<Rightarrow> b_mode \<times> int \<Rightarrow> b_mode \<times> int \<Rightarrow> db \<Rightarrow> db" where
  "log_diagnoser now ep c correct before after d =
     d\<lparr>diagnoser_history := diagnoser_history d @
        [\<lparr>h_episode = ep, h_class = c, h_correct = correct, h_before = fst before,
          h_after = fst after, h_streak_before = snd before, h_streak_after = snd after,
          h_at = now\<rparr>]\<rparr>"

definition log_action ::
    "int \<Rightarrow> string option \<Rightarrow> string \<Rightarrow> bool \<Rightarrow> c_state \<times> int \<Rightarrow> c_state \<times> int \<Rightarrow> db \<Rightarrow> db" where
  "log_action now ep c correct before after d =
     d\<lparr>action_history := action_history d @
        [\<lparr>h_episode = ep, h_class = c, h_correct = correct, h_before = fst before,
          h_after = fst after, h_streak_before = snd before, h_streak_after = snd after,
          h_at = now\<rparr>]\<rparr>"

text \<open>Both tables are written only when they are not at their safe value; both histories
  always get a row.\<close>

definition reset_to_safe_defaults :: "int \<Rightarrow> db \<Rightarrow> string \<Rightarrow> string option \<Rightarrow> db" where
  "reset_to_safe_defaults now d c ep =
     (let b = get_diagnoser_mode d c;
          d1 = (if fst b \<noteq> Stub \<or> snd b \<noteq> 0 then upsert_diagnoser_mode d c Stub 0 else d);
          d2 = log_diagnoser now ep c False b (Stub, 0) d1;
          a = get_action_trust d2 c;
          d3 = (if fst a \<noteq> Deterministic_Fallback \<or> snd a \<noteq> 0
                then upsert_action_trust d2 c Deterministic_Fallback 0 else d2)
      in log_action now ep c False a (Deterministic_Fallback, 0) d3)"

record b_outcome =
  bo_before :: b_mode
  bo_after :: b_mode
  bo_streak_before :: int
  bo_streak_after :: int
  bo_promoted :: bool
  bo_reverted :: bool

record c_outcome =
  co_before :: c_state
  co_after :: c_state
  co_streak_before :: int
  co_streak_after :: int
  co_promoted :: bool
  co_revoked :: bool

definition b_transition :: "b_mode \<Rightarrow> int \<Rightarrow> bool \<Rightarrow> b_mode \<times> int" where
  "b_transition m n correct =
     (if correct then (if n + 1 \<ge> diagnoser_promotion_streak then Llm else m, n + 1)
      else (Stub, 0))"

definition c_transition :: "c_state \<Rightarrow> int \<Rightarrow> bool \<Rightarrow> c_state \<times> int" where
  "c_transition s n correct =
     (if correct then (if n + 1 \<ge> action_promotion_streak then Llm_Can_Act else s, n + 1)
      else (Deterministic_Fallback, 0))"

definition record_diagnoser_outcome ::
    "int \<Rightarrow> db \<Rightarrow> string \<Rightarrow> bool \<Rightarrow> string option \<Rightarrow> b_outcome \<times> db" where
  "record_diagnoser_outcome now d c correct ep =
     (let (m, n) = get_diagnoser_mode d c;
          (m', n') = b_transition m n correct;
          d1 = upsert_diagnoser_mode d c m' n'
      in (\<lparr>bo_before = m, bo_after = m', bo_streak_before = n, bo_streak_after = n',
           bo_promoted = (m \<noteq> Llm \<and> m' = Llm), bo_reverted = (m = Llm \<and> m' = Stub)\<rparr>,
          log_diagnoser now ep c correct (m, n) (m', n') d1))"

definition record_action_outcome ::
    "int \<Rightarrow> db \<Rightarrow> string \<Rightarrow> bool \<Rightarrow> string option \<Rightarrow> c_outcome \<times> db" where
  "record_action_outcome now d c correct ep =
     (let (s, n) = get_action_trust d c;
          (s', n') = c_transition s n correct;
          d1 = upsert_action_trust d c s' n'
      in (\<lparr>co_before = s, co_after = s', co_streak_before = n, co_streak_after = n',
           co_promoted = (s \<noteq> Llm_Can_Act \<and> s' = Llm_Can_Act),
           co_revoked = (s = Llm_Can_Act \<and> s' = Deterministic_Fallback)\<rparr>,
          log_action now ep c correct (s, n) (s', n') d1))"

section \<open>Equations\<close>

lemma get_upsert_diagnoser_mode [simp]:
  "get_diagnoser_mode (upsert_diagnoser_mode d c m n) c' =
     (if c' = c then (m, n) else get_diagnoser_mode d c')"
  "get_action_trust (upsert_diagnoser_mode d c m n) c' = get_action_trust d c'"
  by (simp_all add: get_diagnoser_mode_def get_action_trust_def upsert_diagnoser_mode_def)

lemma get_upsert_action_trust [simp]:
  "get_action_trust (upsert_action_trust d c s n) c' =
     (if c' = c then (s, n) else get_action_trust d c')"
  "get_diagnoser_mode (upsert_action_trust d c s n) c' = get_diagnoser_mode d c'"
  by (simp_all add: get_diagnoser_mode_def get_action_trust_def upsert_action_trust_def)

lemma get_log_diagnoser [simp]:
  "get_diagnoser_mode (log_diagnoser now ep c b x y d) c' = get_diagnoser_mode d c'"
  "get_action_trust (log_diagnoser now ep c b x y d) c' = get_action_trust d c'"
  by (simp_all add: get_diagnoser_mode_def get_action_trust_def log_diagnoser_def)

lemma get_log_action [simp]:
  "get_diagnoser_mode (log_action now ep c b x y d) c' = get_diagnoser_mode d c'"
  "get_action_trust (log_action now ep c b x y d) c' = get_action_trust d c'"
  by (simp_all add: get_diagnoser_mode_def get_action_trust_def log_action_def)

lemma reset_to_safe_state [simp]:
  "get_diagnoser_mode (reset_to_safe_defaults now d c ep) c' =
     (if c' = c then (Stub, 0) else get_diagnoser_mode d c')"
  "get_action_trust (reset_to_safe_defaults now d c ep) c' =
     (if c' = c then (Deterministic_Fallback, 0) else get_action_trust d c')"
  by (auto simp: reset_to_safe_defaults_def Let_def prod_eq_iff)

lemma record_diagnoser_state [simp]:
  "get_diagnoser_mode (snd (record_diagnoser_outcome now d c b ep)) c' =
     (if c' = c then b_transition (fst (get_diagnoser_mode d c)) (snd (get_diagnoser_mode d c)) b
      else get_diagnoser_mode d c')"
  "get_action_trust (snd (record_diagnoser_outcome now d c b ep)) c' = get_action_trust d c'"
  by (simp_all add: record_diagnoser_outcome_def Let_def split: prod.split)

lemma record_action_state [simp]:
  "get_action_trust (snd (record_action_outcome now d c b ep)) c' =
     (if c' = c then c_transition (fst (get_action_trust d c)) (snd (get_action_trust d c)) b
      else get_action_trust d c')"
  "get_diagnoser_mode (snd (record_action_outcome now d c b ep)) c' = get_diagnoser_mode d c'"
  by (simp_all add: record_action_outcome_def Let_def split: prod.split)

section \<open>Frames: what these operations leave alone\<close>

lemma upsert_llm_frame [frame]:
  "trust_state (upsert_diagnoser_mode d c m n) = trust_state d"
  "trust_state (upsert_action_trust d c s n) = trust_state d"
  "trust_state (log_diagnoser now ep c b x y d) = trust_state d"
  "trust_state (log_action now ep c b x' y' d) = trust_state d"
  "safety_hold (upsert_diagnoser_mode d c m n) = safety_hold d"
  "safety_hold (upsert_action_trust d c s n) = safety_hold d"
  "safety_hold (log_diagnoser now ep c b x y d) = safety_hold d"
  "safety_hold (log_action now ep c b x' y' d) = safety_hold d"
  "failure_log (upsert_diagnoser_mode d c m n) = failure_log d"
  "failure_log (upsert_action_trust d c s n) = failure_log d"
  "failure_log (log_diagnoser now ep c b x y d) = failure_log d"
  "failure_log (log_action now ep c b x' y' d) = failure_log d"
  "scores (upsert_diagnoser_mode d c m n) = scores d"
  "scores (upsert_action_trust d c s n) = scores d"
  "scores (log_diagnoser now ep c b x y d) = scores d"
  "scores (log_action now ep c b x' y' d) = scores d"
  "misdispatch_log (upsert_diagnoser_mode d c m n) = misdispatch_log d"
  "misdispatch_log (upsert_action_trust d c s n) = misdispatch_log d"
  "misdispatch_log (log_diagnoser now ep c b x y d) = misdispatch_log d"
  "misdispatch_log (log_action now ep c b x' y' d) = misdispatch_log d"
  by (simp_all add: upsert_diagnoser_mode_def upsert_action_trust_def log_diagnoser_def
      log_action_def)

lemma reset_to_safe_frame [frame]:
  "trust_state (reset_to_safe_defaults now d c ep) = trust_state d"
  "safety_hold (reset_to_safe_defaults now d c ep) = safety_hold d"
  "failure_log (reset_to_safe_defaults now d c ep) = failure_log d"
  "misdispatch_log (reset_to_safe_defaults now d c ep) = misdispatch_log d"
  "scores (reset_to_safe_defaults now d c ep) = scores d"
  by (simp_all add: reset_to_safe_defaults_def Let_def frame)

lemma record_llm_frame [frame]:
  "trust_state (snd (record_diagnoser_outcome now d c b ep)) = trust_state d"
  "trust_state (snd (record_action_outcome now d c b ep)) = trust_state d"
  "safety_hold (snd (record_diagnoser_outcome now d c b ep)) = safety_hold d"
  "safety_hold (snd (record_action_outcome now d c b ep)) = safety_hold d"
  "failure_log (snd (record_diagnoser_outcome now d c b ep)) = failure_log d"
  "failure_log (snd (record_action_outcome now d c b ep)) = failure_log d"
  "misdispatch_log (snd (record_diagnoser_outcome now d c b ep)) = misdispatch_log d"
  "misdispatch_log (snd (record_action_outcome now d c b ep)) = misdispatch_log d"
  "scores (snd (record_diagnoser_outcome now d c b ep)) = scores d"
  "scores (snd (record_action_outcome now d c b ep)) = scores d"
  by (simp_all add: record_diagnoser_outcome_def record_action_outcome_def Let_def frame
      split: prod.split)

section \<open>The streak contract\<close>

definition b_record :: "db \<Rightarrow> string \<Rightarrow> bool \<Rightarrow> int \<times> string option \<Rightarrow> db" where
  "b_record d c b x = snd (record_diagnoser_outcome (fst x) d c b (snd x))"

definition b_trusted :: "db \<Rightarrow> string \<Rightarrow> bool" where
  "b_trusted d c = (fst (get_diagnoser_mode d c) = Llm)"

definition b_streak :: "db \<Rightarrow> string \<Rightarrow> int" where
  "b_streak d c = snd (get_diagnoser_mode d c)"

definition c_record :: "db \<Rightarrow> string \<Rightarrow> bool \<Rightarrow> int \<times> string option \<Rightarrow> db" where
  "c_record d c b x = snd (record_action_outcome (fst x) d c b (snd x))"

definition c_trusted :: "db \<Rightarrow> string \<Rightarrow> bool" where
  "c_trusted d c = (fst (get_action_trust d c) = Llm_Can_Act)"

definition c_streak :: "db \<Rightarrow> string \<Rightarrow> int" where
  "c_streak d c = snd (get_action_trust d c)"

interpretation b_ladder: streak_ladder b_trusted b_streak b_record
    "\<lambda>_. Some diagnoser_promotion_streak"
  by unfold_locales
    (auto simp: b_trusted_def b_streak_def b_record_def b_transition_def
       diagnoser_promotion_streak_def)

interpretation c_ladder: streak_ladder c_trusted c_streak c_record
    "\<lambda>_. Some action_promotion_streak"
  by unfold_locales
    (auto simp: c_trusted_def c_streak_def c_record_def c_transition_def
       action_promotion_streak_def)

section \<open>Properties\<close>

text \<open>C37: over any history of diagnoses, the LLM drives a class exactly when the ladder's
  specification says so.\<close>

theorem dimension_b_ladder:
  "b_trusted (run_outcomes b_record d os) c =
     trusted_spec diagnoser_promotion_streak (b_trusted d c) (b_streak d c) (outcomes_of c os)"
  by (rule b_ladder.run_trusted) simp

text \<open>Over any history of proposals, the LLM's own action is trusted for a class exactly
  when the ladder's specification says so.\<close>

theorem dimension_c_ladder:
  "c_trusted (run_outcomes c_record d os) c =
     trusted_spec action_promotion_streak (c_trusted d c) (c_streak d c) (outcomes_of c os)"
  by (rule c_ladder.run_trusted) simp

text \<open>The joint reset puts both dimensions of the class at their safe value with an empty
  streak, leaves every other class alone, and a second reset changes no trust state.\<close>

theorem reset_is_safe_and_idempotent:
  "get_diagnoser_mode (reset_to_safe_defaults now d c ep) = (get_diagnoser_mode d)(c := (Stub, 0))
   \<and> get_action_trust (reset_to_safe_defaults now d c ep) =
       (get_action_trust d)(c := (Deterministic_Fallback, 0))
   \<and> diagnoser_mode (reset_to_safe_defaults now' (reset_to_safe_defaults now d c ep) c ep') =
       diagnoser_mode (reset_to_safe_defaults now d c ep)
   \<and> action_trust (reset_to_safe_defaults now' (reset_to_safe_defaults now d c ep) c ep') =
       action_trust (reset_to_safe_defaults now d c ep)"
proof -
  let ?d = "reset_to_safe_defaults now d c ep"
  have b: "get_diagnoser_mode ?d c = (Stub, 0)" and a: "get_action_trust ?d c = (Deterministic_Fallback, 0)"
    by simp_all
  have "diagnoser_mode (reset_to_safe_defaults now' ?d c ep') = diagnoser_mode ?d
      \<and> action_trust (reset_to_safe_defaults now' ?d c ep') = action_trust ?d"
    unfolding reset_to_safe_defaults_def[of now' "reset_to_safe_defaults now d c ep"]
    using a b by (simp add: Let_def log_diagnoser_def log_action_def get_action_trust_def)
  then show ?thesis by (auto simp: fun_eq_iff)
qed

end
