(* ===== verification/Window_Alarm.thy ===== *)
theory Window_Alarm
  imports Prelude
begin

text \<open>
  The contract of the sliding-window counters: the circuit breaker (3 failures in 5
  minutes), the misdispatch guard (3 misdispatches of a class in 24 hours). Every event is
  logged with its time; the alarm goes off when enough logged events are recent.
\<close>

definition recent_count :: "int \<Rightarrow> int \<Rightarrow> int list \<Rightarrow> nat" where
  "recent_count w now ts = length (filter (\<lambda>t. now - w \<le> t) ts)"

lemma recent_count_Nil [simp]: "recent_count w now [] = 0"
  by (simp add: recent_count_def)

lemma recent_count_append [simp]:
  "recent_count w now (ts @ us) = recent_count w now ts + recent_count w now us"
  by (simp add: recent_count_def)

lemma recent_count_Cons [simp]:
  "recent_count w now (t # ts) = (if now - w \<le> t then 1 else 0) + recent_count w now ts"
  by (simp add: recent_count_def)

lemma recent_count_le_length: "recent_count w now ts \<le> length ts"
  by (simp add: recent_count_def)

lemma recent_count_all:
  "\<forall>t \<in> set ts. now - w \<le> t \<Longrightarrow> recent_count w now ts = length ts"
  by (simp add: recent_count_def)

lemma recent_count_none:
  "\<forall>t \<in> set ts. t < now - w \<Longrightarrow> recent_count w now ts = 0"
  by (auto simp: recent_count_def filter_empty_conv)

lemma recent_count_mono:
  "now \<le> now' \<Longrightarrow> recent_count w now' ts \<le> recent_count w now ts"
  by (induction ts) auto

text \<open>A run of events, each at its time; the alarms it raised, in order.\<close>

fun run_window :: "(int \<Rightarrow> 'k \<Rightarrow> 's \<Rightarrow> 's \<times> bool) \<Rightarrow> 's \<Rightarrow> (int \<times> 'k) list \<Rightarrow> 's \<times> bool list" where
  "run_window logev s [] = (s, [])"
| "run_window logev s ((t, k) # es) =
     (let (s', b) = logev t k s; (s'', bs) = run_window logev s' es in (s'', b # bs))"

locale window_alarm =
  fixes times :: "'s \<Rightarrow> 'k \<Rightarrow> int list"
    and logev :: "int \<Rightarrow> 'k \<Rightarrow> 's \<Rightarrow> 's \<times> bool"
    and group :: "'k \<Rightarrow> 'g"
    and window :: int
    and threshold :: nat
  assumes note_times: "times (fst (logev now k s)) k' =
        (if group k' = group k then times s k @ [now] else times s k')"
    and times_group: "group k' = group k \<Longrightarrow> times s k' = times s k"
    and note_alarm: "snd (logev now k s) = (threshold \<le> recent_count window now (times s k @ [now]))"
    and window_nonneg: "0 \<le> window"
begin

lemma alarm_iff:
  "snd (logev now k s) = (threshold \<le> Suc (recent_count window now (times s k)))"
  using window_nonneg by (simp add: note_alarm)

lemma quiet_no_alarm:
  assumes "1 < threshold" "\<forall>t \<in> set (times s k). t < now - window"
  shows "\<not> snd (logev now k s)"
  using assms by (simp add: alarm_iff recent_count_none)

lemma other_groups_never_alarm:
  assumes "group k' \<noteq> group k"
  shows "snd (logev now k' (fst (logev t k s))) = snd (logev now k' s)"
  using assms by (simp add: alarm_iff note_times)

lemma run_times:
  "times (fst (run_window logev s es)) k =
     times s k @ map fst (filter (\<lambda>(t, k'). group k' = group k) es)"
proof (induction es arbitrary: s)
  case (Cons e es)
  obtain t k' where e: "e = (t, k')" by (cases e)
  obtain s' b where n: "logev t k' s = (s', b)" by (cases "logev t k' s")
  then have "times s' k = (if group k = group k' then times s k' @ [t] else times s k)"
    using note_times[of t k' s k] by simp
  with Cons e n times_group[of k' k s] show ?case
    by (auto simp: split_beta)
qed simp

text \<open>The whole sequence of alarms of a run: event \<open>i\<close> raises one iff enough events of its
  group, itself included, lie in its window.\<close>

lemma run_alarms:
  "i < length es \<Longrightarrow> es ! i = (t, k) \<Longrightarrow>
     snd (run_window logev s es) ! i =
       (threshold \<le> recent_count window t
          (times s k @ map fst (filter (\<lambda>e. group (snd e) = group k) (take (Suc i) es))))"
proof (induction es arbitrary: s i)
  case (Cons e es)
  obtain t' k' where e: "e = (t', k')" by (cases e)
  obtain s' b where n: "logev t' k' s = (s', b)" by (cases "logev t' k' s")
  show ?case
  proof (cases i)
    case 0
    with Cons.prems e n note_alarm[of t' k' s] show ?thesis by (auto simp: split_beta)
  next
    case (Suc j)
    have ts: "times s' k = (if group k = group k' then times s k' @ [t'] else times s k)"
      using note_times[of t' k' s k] n by simp
    have "snd (run_window logev s' es) ! j =
       (threshold \<le> recent_count window t
          (times s' k @ map fst (filter (\<lambda>e. group (snd e) = group k) (take (Suc j) es))))"
      using Cons.IH[of j s'] Cons.prems Suc by simp
    with Suc e n ts times_group[of k' k s] show ?thesis by (auto simp: split_beta)
  qed
qed simp

lemma run_window_length [simp]: "length (snd (run_window logev s es)) = length es"
  by (induction es arbitrary: s) (auto simp: split_beta)

text \<open>A burst: once \<open>threshold - 1\<close> events of a group lie in the window, the next one
  of that group raises the alarm.\<close>

lemma burst_alarms:
  assumes "threshold \<le> Suc (length ts)" "\<forall>t \<in> set ts. now - window \<le> t"
    and "times s k = old @ ts"
  shows "snd (logev now k s)"
  using assms by (simp add: alarm_iff recent_count_all)

end

end
