(* ===== verification/Misdispatch_Guard.thy ===== *)
theory Misdispatch_Guard
  imports Trust_Engine Window_Alarm
begin

text \<open>
  \<^verbatim>\<open>p3_trust_action/misdispatch_guard.py\<close>: a class invoked too often for faults that are
  not its own is put on a safety hold, without touching its trust state.
\<close>

section \<open>Operations\<close>

definition misdispatch_hold_threshold :: nat where
  "misdispatch_hold_threshold = 3"

text \<open>MISDISPATCH_HOLD_WINDOW_HOURS, in seconds.\<close>

definition misdispatch_hold_window :: int where
  "misdispatch_hold_window = 24 * 3600"

definition get_safety_hold :: "db \<Rightarrow> string \<Rightarrow> hold_row" where
  "get_safety_hold d c = row_or \<lparr>active = False, hold_why = None, held_since = None\<rparr> (safety_hold d) c"

definition set_safety_hold :: "int \<Rightarrow> db \<Rightarrow> string \<Rightarrow> bool \<Rightarrow> hold_reason option \<Rightarrow> db" where
  "set_safety_hold now d c act why =
     (let existing = get_safety_hold d c;
          since = (if act \<and> active existing then held_since existing
                   else if act then Some now else None)
      in d\<lparr>safety_hold := AList.update c
             \<lparr>active = act, hold_why = why, held_since = since\<rparr> (safety_hold d)\<rparr>)"

definition clear_safety_hold :: "int \<Rightarrow> db \<Rightarrow> string \<Rightarrow> hold_reason \<Rightarrow> db" where
  "clear_safety_hold now d c why = set_safety_hold now d c False (Some why)"

text \<open>\<^verbatim>\<open>SELECT fault_class FROM safety_hold WHERE active = 1\<close>, then one write per row.\<close>

definition clear_all_safety_holds :: "int \<Rightarrow> hold_reason \<Rightarrow> db \<Rightarrow> db" where
  "clear_all_safety_holds now why d =
     foldl (\<lambda>d' c. set_safety_hold now d' c False (Some why)) d
       (map fst (filter (\<lambda>(_, r). active r) (safety_hold d)))"

record misdispatch_result =
  mr_predicted :: string
  mr_actual :: string
  mr_recent :: nat
  mr_triggered :: bool

definition record_misdispatch ::
    "int \<Rightarrow> db \<Rightarrow> string \<Rightarrow> string \<Rightarrow> string \<Rightarrow> misdispatch_result \<times> db" where
  "record_misdispatch now d ep predicted actual =
     (let d1 = d\<lparr>misdispatch_log := misdispatch_log d @
                  [\<lparr>m_episode = ep, m_predicted = predicted, m_actual = actual, m_at = now\<rparr>]\<rparr>;
          recent = recent_count misdispatch_hold_window now
                     (map m_at (filter (\<lambda>r. m_predicted r = predicted) (misdispatch_log d1)));
          fire = (misdispatch_hold_threshold \<le> recent);
          triggered = (fire \<and> \<not> active (get_safety_hold d1 predicted));
          d2 = (if fire then set_safety_hold now d1 predicted True (Some (Hold_Count recent)) else d1)
      in (\<lparr>mr_predicted = predicted, mr_actual = actual, mr_recent = recent,
           mr_triggered = triggered\<rparr>, d2))"

section \<open>Equations\<close>

lemma get_set_safety_hold:
  "get_safety_hold (set_safety_hold now d c act why) c' =
     (if c' = c
      then \<lparr>active = act, hold_why = why,
            held_since = (if act \<and> active (get_safety_hold d c) then held_since (get_safety_hold d c)
                          else if act then Some now else None)\<rparr>
      else get_safety_hold d c')"
  by (simp add: get_safety_hold_def set_safety_hold_def Let_def)

lemma active_set_safety_hold [simp]:
  "active (get_safety_hold (set_safety_hold now d c act why) c') =
     (if c' = c then act else active (get_safety_hold d c'))"
  by (simp add: get_set_safety_hold)

lemma set_safety_hold_tables [simp]:
  "trust_state (set_safety_hold now d c act why) = trust_state d"
  "trust_history (set_safety_hold now d c act why) = trust_history d"
  "diagnoser_mode (set_safety_hold now d c act why) = diagnoser_mode d"
  "action_trust (set_safety_hold now d c act why) = action_trust d"
  "failure_log (set_safety_hold now d c act why) = failure_log d"
  "misdispatch_log (set_safety_hold now d c act why) = misdispatch_log d"
  "gate_log (set_safety_hold now d c act why) = gate_log d"
  "scores (set_safety_hold now d c act why) = scores d"
  by (simp_all add: set_safety_hold_def Let_def)

lemma set_safety_hold_trust [simp]:
  "get_trust_state (set_safety_hold now d c act why) c' = get_trust_state d c'"
  by (simp add: get_trust_state_def)

lemma clear_fold_active:
  "active (get_safety_hold (foldl (\<lambda>d' c. set_safety_hold now d' c False why) d cs) c') =
     (c' \<notin> set cs \<and> active (get_safety_hold d c'))"
  by (induction cs arbitrary: d) auto

lemma clear_fold_tables:
  "trust_state (foldl (\<lambda>d' c. set_safety_hold now d' c False why) d cs) = trust_state d"
  "trust_history (foldl (\<lambda>d' c. set_safety_hold now d' c False why) d cs) = trust_history d"
  "diagnoser_mode (foldl (\<lambda>d' c. set_safety_hold now d' c False why) d cs) = diagnoser_mode d"
  "action_trust (foldl (\<lambda>d' c. set_safety_hold now d' c False why) d cs) = action_trust d"
  "failure_log (foldl (\<lambda>d' c. set_safety_hold now d' c False why) d cs) = failure_log d"
  "misdispatch_log (foldl (\<lambda>d' c. set_safety_hold now d' c False why) d cs) = misdispatch_log d"
  "gate_log (foldl (\<lambda>d' c. set_safety_hold now d' c False why) d cs) = gate_log d"
  "scores (foldl (\<lambda>d' c. set_safety_hold now d' c False why) d cs) = scores d"
  by (induction cs arbitrary: d) simp_all

lemma clear_all_tables [simp]:
  "trust_state (clear_all_safety_holds now why d) = trust_state d"
  "trust_history (clear_all_safety_holds now why d) = trust_history d"
  "diagnoser_mode (clear_all_safety_holds now why d) = diagnoser_mode d"
  "action_trust (clear_all_safety_holds now why d) = action_trust d"
  "failure_log (clear_all_safety_holds now why d) = failure_log d"
  "misdispatch_log (clear_all_safety_holds now why d) = misdispatch_log d"
  "gate_log (clear_all_safety_holds now why d) = gate_log d"
  "scores (clear_all_safety_holds now why d) = scores d"
  by (simp_all add: clear_all_safety_holds_def clear_fold_tables)

lemma clear_all_inactive: "\<not> active (get_safety_hold (clear_all_safety_holds now why d) c)"
proof -
  have "active (get_safety_hold d c) \<Longrightarrow>
      c \<in> set (map fst (filter (\<lambda>(_, r). active r) (safety_hold d)))"
    by (force simp: get_safety_hold_def row_or_def dest: map_of_SomeD split: option.splits)
  then show ?thesis by (auto simp: clear_all_safety_holds_def clear_fold_active)
qed

lemma record_misdispatch_state:
  "active (get_safety_hold (snd (record_misdispatch now d ep p a)) c) =
     (active (get_safety_hold d c) \<or>
      c = p \<and> misdispatch_hold_threshold \<le> mr_recent (fst (record_misdispatch now d ep p a)))"
  by (auto simp: record_misdispatch_def Let_def get_safety_hold_def[of "_\<lparr>misdispatch_log := _\<rparr>"]
      simp flip: get_safety_hold_def)

lemma record_misdispatch_frame [frame]:
  "trust_state (snd (record_misdispatch now d ep p a)) = trust_state d"
  "trust_history (snd (record_misdispatch now d ep p a)) = trust_history d"
  "get_trust_state (snd (record_misdispatch now d ep p a)) c = get_trust_state d c"
  by (simp_all add: record_misdispatch_def Let_def set_safety_hold_def get_trust_state_def)

section \<open>The window contract\<close>

definition misdispatch_times :: "db \<Rightarrow> string \<times> string \<times> string \<Rightarrow> int list" where
  "misdispatch_times d k = map m_at (filter (\<lambda>r. m_predicted r = fst (snd k)) (misdispatch_log d))"

text \<open>The event with the count it reached, for the contract.\<close>

definition misdispatch_note :: "int \<Rightarrow> string \<times> string \<times> string \<Rightarrow> db \<Rightarrow> db \<times> bool" where
  "misdispatch_note now k d =
     (let (r, d') = record_misdispatch now d (fst k) (fst (snd k)) (snd (snd k))
      in (d', misdispatch_hold_threshold \<le> mr_recent r))"

interpretation misdispatch_window: window_alarm misdispatch_times misdispatch_note
    "\<lambda>k. fst (snd k)" misdispatch_hold_window misdispatch_hold_threshold
  by unfold_locales
    (auto simp: misdispatch_times_def misdispatch_note_def record_misdispatch_def Let_def
       misdispatch_hold_window_def)

section \<open>A run of misdispatches\<close>

type_synonym misdispatch = "int \<times> string \<times> string \<times> string"

definition after_misdispatches :: "db \<Rightarrow> misdispatch list \<Rightarrow> db" where
  "after_misdispatches d es = foldl (\<lambda>d (t, ep, predicted, actual). snd (record_misdispatch t d ep predicted actual)) d es"

text \<open>The answer of the code to event \<open>i\<close>.\<close>

definition misdispatch_answer :: "db \<Rightarrow> misdispatch list \<Rightarrow> nat \<Rightarrow> misdispatch_result" where
  "misdispatch_answer d es i = (case es ! i of (t, ep, predicted, actual) \<Rightarrow>
     fst (record_misdispatch t (after_misdispatches d (take i es)) ep predicted actual))"

definition predicted_at :: "misdispatch list \<Rightarrow> nat \<Rightarrow> string" where
  "predicted_at es i = fst (snd (snd (es ! i)))"

text \<open>What the code promises to count: the misdispatches of the class of event \<open>i\<close>, it included, in the
  24 hours before it.\<close>

definition third_in_a_day :: "db \<Rightarrow> misdispatch list \<Rightarrow> nat \<Rightarrow> bool" where
  "third_in_a_day d es i \<longleftrightarrow> 3 \<le> recent_count 86400 (fst (es ! i))
     (List.map m_at (filter (\<lambda>r. m_predicted r = predicted_at es i) (misdispatch_log d)) @
      List.map fst (filter (\<lambda>(_, _, p, _). p = predicted_at es i) (take (Suc i) es)))"

lemma after_snoc [simp]:
  "after_misdispatches d (es @ [(t, ep, p, a)]) = snd (record_misdispatch t (after_misdispatches d es) ep p a)"
  by (simp add: after_misdispatches_def)

lemma after_run: "fst (run_window misdispatch_note d es) = after_misdispatches d es"
proof (induction es arbitrary: d)
  case (Cons e es)
  then show ?case
    by (cases e) (simp add: after_misdispatches_def misdispatch_note_def case_prod_unfold Let_def)
qed (simp add: after_misdispatches_def)

lemma after_times:
  "misdispatch_times (after_misdispatches d es) k =
     misdispatch_times d k @ List.map fst (filter (\<lambda>(_, _, p, _). p = fst (snd k)) es)"
  using misdispatch_window.run_times[of d es k] unfolding after_run by (simp add: case_prod_unfold)

lemma recent_misdispatches:
  "mr_recent (fst (record_misdispatch t d ep p a)) =
     recent_count misdispatch_hold_window t (misdispatch_times d (ep, p, a) @ [t])"
  by (simp add: record_misdispatch_def Let_def misdispatch_times_def misdispatch_hold_window_def)

lemma triggered_new:
  "mr_triggered (fst (record_misdispatch t d ep p a)) \<longleftrightarrow>
     misdispatch_hold_threshold \<le> mr_recent (fst (record_misdispatch t d ep p a)) \<and> \<not> active (get_safety_hold d p)"
  by (simp add: record_misdispatch_def Let_def get_safety_hold_def)

lemma third_counts:
  assumes "i < length es" "es ! i = (t, ep, p, a)"
  shows "misdispatch_hold_threshold \<le> mr_recent (fst (record_misdispatch t (after_misdispatches d (take i es)) ep p a)) \<longleftrightarrow>
    third_in_a_day d es i"
  using assms after_times[of d "take i es" "(ep, p, a)"]
  by (simp add: recent_misdispatches third_in_a_day_def predicted_at_def take_Suc_conv_app_nth
      misdispatch_hold_threshold_def misdispatch_hold_window_def misdispatch_times_def)

lemma third_prefix:
  "i < length es \<Longrightarrow> third_in_a_day d (es @ fs) i = third_in_a_day d es i"
  "i < length es \<Longrightarrow> predicted_at (es @ fs) i = predicted_at es i"
  by (simp_all add: third_in_a_day_def predicted_at_def nth_append)

lemma held_after:
  "active (get_safety_hold (after_misdispatches d es) c) \<longleftrightarrow> active (get_safety_hold d c) \<or>
     (\<exists>i < length es. predicted_at es i = c \<and> third_in_a_day d es i)"
proof (induction es rule: rev_induct)
  case Nil
  then show ?case by (simp add: after_misdispatches_def)
next
  case (snoc e es)
  obtain t ep p a where e: "e = (t, ep, p, a)" by (cases e)
  have "misdispatch_hold_threshold \<le> mr_recent (fst (record_misdispatch t (after_misdispatches d es) ep p a)) \<longleftrightarrow>
      third_in_a_day d (es @ [e]) (length es)"
    using third_counts[of "length es" "es @ [e]" t ep p a d] by (simp add: e)
  moreover have "predicted_at (es @ [e]) (length es) = p" by (simp add: predicted_at_def e)
  ultimately show ?case
    using snoc by (auto simp: e record_misdispatch_state less_Suc_eq third_prefix)
qed

section \<open>Properties\<close>

text \<open>C36: after any run of misdispatches a class is on hold exactly when it was before or one of them was
  the third of that class within 24 hours; and the code reports the hold as new exactly for the first
  of these, when the class was not held already.\<close>

theorem misdispatch_holds_exactly:
  "(active (get_safety_hold (after_misdispatches d es) c) \<longleftrightarrow> active (get_safety_hold d c) \<or>
      (\<exists>i < length es. predicted_at es i = c \<and> third_in_a_day d es i)) \<and>
   (\<forall>i < length es. mr_triggered (misdispatch_answer d es i) \<longleftrightarrow> third_in_a_day d es i \<and>
      \<not> active (get_safety_hold d (predicted_at es i)) \<and>
      (\<forall>j < i. predicted_at es j = predicted_at es i \<longrightarrow> \<not> third_in_a_day d es j))"
proof (intro conjI allI impI)
  show "active (get_safety_hold (after_misdispatches d es) c) \<longleftrightarrow> active (get_safety_hold d c) \<or>
      (\<exists>i < length es. predicted_at es i = c \<and> third_in_a_day d es i)" by (rule held_after)
next
  fix i
  assume i: "i < length es"
  obtain t ep p a where e: "es ! i = (t, ep, p, a)" by (cases "es ! i")
  have p: "predicted_at es i = p" by (simp add: predicted_at_def e)
  have same: "third_in_a_day d (take i es) j = third_in_a_day d es j" "predicted_at (take i es) j = predicted_at es j"
    if "j < i" for j
    using third_prefix[where i = j and es = "take i es" and fs = "drop i es"] that i by simp_all
  show "mr_triggered (misdispatch_answer d es i) \<longleftrightarrow> third_in_a_day d es i \<and>
      \<not> active (get_safety_hold d (predicted_at es i)) \<and>
      (\<forall>j < i. predicted_at es j = predicted_at es i \<longrightarrow> \<not> third_in_a_day d es j)"
    using held_after[of d "take i es" p] third_counts[OF i e, of d] i same
    by (auto simp: misdispatch_answer_def e triggered_new p)
qed

text \<open>Three misdispatches of a class, the third of them a day after the first.\<close>

lemma misdispatch_holds_exactly_witness:
  "active (get_safety_hold (after_misdispatches empty_db [(0, ''e1'', ''oom'', ''x''), (5, ''e2'', ''crash-loop'', ''x''),
     (9, ''e3'', ''oom'', ''x''), (86400, ''e4'', ''oom'', ''y'')]) ''oom'')"
  by (rule misdispatch_holds_exactly[THEN conjunct1, THEN iffD2], intro disjI2 exI[of _ 3])
     (simp add: third_in_a_day_def predicted_at_def empty_db_def recent_count_def eval_nat_numeral)

text \<open>A misdispatch never touches a trust state; it holds exactly the predicted class,
  exactly when the threshold is reached, and a hold already in place keeps the time it
  began.\<close>

theorem misdispatch_holds_without_demoting:
  "let (r, d') = record_misdispatch now d ep predicted actual in
     trust_state d' = trust_state d \<and> trust_history d' = trust_history d
     \<and> (\<forall>c. active (get_safety_hold d' c) =
            (active (get_safety_hold d c) \<or> c = predicted \<and> 3 \<le> mr_recent r))
     \<and> (active (get_safety_hold d predicted) \<longrightarrow>
          held_since (get_safety_hold d' predicted) = held_since (get_safety_hold d predicted))
     \<and> (mr_triggered r = (3 \<le> mr_recent r \<and> \<not> active (get_safety_hold d predicted)))"
proof -
  obtain r d' where rd: "record_misdispatch now d ep predicted actual = (r, d')" by fastforce
  have hold_log: "get_safety_hold (d\<lparr>misdispatch_log := l\<rparr>) c = get_safety_hold d c" for l c
    by (simp add: get_safety_hold_def)
  have "held_since (get_safety_hold d' predicted) = held_since (get_safety_hold d predicted)"
    if "active (get_safety_hold d predicted)"
    using rd that by (auto simp: record_misdispatch_def Let_def get_set_safety_hold hold_log)
  moreover have "mr_triggered r = (3 \<le> mr_recent r \<and> \<not> active (get_safety_hold d predicted))"
    using rd by (auto simp: record_misdispatch_def Let_def hold_log misdispatch_hold_threshold_def)
  ultimately show ?thesis
    using rd record_misdispatch_state[of now d ep predicted actual]
      record_misdispatch_frame[of now d ep predicted actual]
    by (simp add: misdispatch_hold_threshold_def)
qed

lemma misdispatch_holds_without_demoting_witness:
  "held_since (get_safety_hold (snd (record_misdispatch 50 (empty_db\<lparr>safety_hold :=
      [(''oom'', \<lparr>active = True, hold_why = None, held_since = Some 7\<rparr>)]\<rparr>) ''e'' ''oom'' ''x'')) ''oom'') = Some 7"
proof -
  let ?d = "empty_db\<lparr>safety_hold :=
      [(''oom'', \<lparr>active = True, hold_why = None, held_since = Some 7\<rparr>)]\<rparr>"
  have "get_safety_hold ?d ''oom'' = \<lparr>active = True, hold_why = None, held_since = Some 7\<rparr>"
    by (simp add: get_safety_hold_def row_or_def)
  with misdispatch_holds_without_demoting[of 50 ?d "''e''" "''oom''" "''x''"] show ?thesis
    by (simp add: case_prod_unfold Let_def)
qed

end
