(* ===== verification/Circuit_Breaker.thy ===== *)
theory Circuit_Breaker
  imports Trust_Engine LLM_Trust Misdispatch_Guard Fault_Taxonomy
begin

text \<open>
  \<^verbatim>\<open>p3_trust_action/circuit_breaker.py\<close>: three failures within five minutes take every
  class out of Can-Act, reset Dimensions B and C of the whole roster and release every
  safety hold. The order in which SQLite returns the rows of \<^verbatim>\<open>trust_state\<close> is the order of
  the association list here; it shows only in \<open>br_demoted\<close> and in the order of the history.
\<close>

section \<open>Operations\<close>

text \<open>FAILURE_WINDOW_S and FAILURE_THRESHOLD.\<close>

definition failure_window :: int where
  "failure_window = 5 * 60"

definition failure_threshold :: nat where
  "failure_threshold = 3"

record breaker_result =
  br_tripped :: bool
  br_recent :: nat
  br_demoted :: "string list"
  br_reset :: "string list"

definition recent_failure_count :: "int \<Rightarrow> db \<Rightarrow> nat" where
  "recent_failure_count now d = recent_count failure_window now (map f_at (failure_log d))"

definition all_fault_classes :: "db \<Rightarrow> string list" where
  "all_fault_classes d = map fst (trust_state d)"

text \<open>One turn of the demotion loop: the UPDATE of an existing row and the history row.\<close>

definition demote_class :: "int \<Rightarrow> string \<Rightarrow> db \<times> string list \<Rightarrow> db \<times> string list" where
  "demote_class now c acc =
     (let (d, demoted) = acc; (s, n) = get_trust_state d c in
      if s = Can_Act
      then (d\<lparr>trust_state := AList.update c (Report_Only, 0) (trust_state d),
              trust_history := trust_history d @
                [\<lparr>h_episode = None, h_class = c, h_correct = False, h_before = Can_Act,
                  h_after = Report_Only, h_streak_before = n, h_streak_after = 0,
                  h_at = now\<rparr>]\<rparr>, demoted @ [c])
      else (d, demoted))"

definition reset_classes :: "int \<Rightarrow> string list \<Rightarrow> db \<Rightarrow> db" where
  "reset_classes now cs d = foldl (\<lambda>d' c. reset_to_safe_defaults now d' c None) d cs"

definition check_circuit_breaker :: "int \<Rightarrow> db \<Rightarrow> breaker_result \<times> db" where
  "check_circuit_breaker now d =
     (let recent = recent_failure_count now d in
      if recent < failure_threshold
      then (\<lparr>br_tripped = False, br_recent = recent, br_demoted = [], br_reset = []\<rparr>, d)
      else (let (d1, demoted) = fold (demote_class now) (all_fault_classes d) (d, []);
                d2 = reset_classes now fault_classes d1;
                d3 = clear_all_safety_holds now (Hold_Text ''circuit breaker global trip'') d2
            in (\<lparr>br_tripped = True, br_recent = recent, br_demoted = demoted,
                 br_reset = fault_classes\<rparr>, d3)))"

definition record_failure ::
    "int \<Rightarrow> db \<Rightarrow> string \<Rightarrow> string option \<Rightarrow> breaker_result \<times> db" where
  "record_failure now d reason c =
     check_circuit_breaker now
       (d\<lparr>failure_log := failure_log d @ [\<lparr>f_reason = reason, f_class = c, f_at = now\<rparr>]\<rparr>)"

section \<open>The demotion loop\<close>

lemma demote_class_fst:
  "get_trust_state (fst (demote_class now c (d, ds))) c' =
     (if c' = c \<and> fst (get_trust_state d c) = Can_Act then (Report_Only, 0)
      else get_trust_state d c')"
  by (auto simp: demote_class_def Let_def get_trust_state_def split: prod.splits)

lemma demote_fold_state:
  "get_trust_state (fst (fold (demote_class now) cs (d, ds))) c' =
     (if c' \<in> set cs \<and> fst (get_trust_state d c') = Can_Act then (Report_Only, 0)
      else get_trust_state d c')"
proof (induction cs arbitrary: d ds)
  case (Cons c cs)
  obtain d' ds' where s: "demote_class now c (d, ds) = (d', ds')" by fastforce
  with demote_class_fst[of now c d ds]
  have "\<And>x. get_trust_state d' x =
      (if x = c \<and> fst (get_trust_state d c) = Can_Act then (Report_Only, 0)
       else get_trust_state d x)" by simp
  with Cons[of d' ds'] s show ?case by auto
qed simp

lemma demote_class_tables:
  "failure_log (fst (demote_class now c acc)) = failure_log (fst acc)"
  "misdispatch_log (fst (demote_class now c acc)) = misdispatch_log (fst acc)"
  "scores (fst (demote_class now c acc)) = scores (fst acc)"
  by (auto simp: demote_class_def Let_def split: prod.splits)

lemma demote_fold_tables:
  "failure_log (fst (fold (demote_class now) cs acc)) = failure_log (fst acc)"
  "misdispatch_log (fst (fold (demote_class now) cs acc)) = misdispatch_log (fst acc)"
  "scores (fst (fold (demote_class now) cs acc)) = scores (fst acc)"
  by (induction cs arbitrary: acc) (simp_all add: demote_class_tables)

lemma can_act_in_table:
  "fst (get_trust_state d c) = Can_Act \<Longrightarrow> c \<in> set (all_fault_classes d)"
  by (force simp: get_trust_state_def row_or_def all_fault_classes_def
      dest: map_of_SomeD split: option.splits)

section \<open>The reset of Dimensions B and C\<close>

lemma reset_classes_state:
  "get_diagnoser_mode (reset_classes now cs d) c =
     (if c \<in> set cs then (Stub, 0) else get_diagnoser_mode d c)"
  "get_action_trust (reset_classes now cs d) c =
     (if c \<in> set cs then (Deterministic_Fallback, 0) else get_action_trust d c)"
  unfolding reset_classes_def by (induction cs arbitrary: d) auto

lemma reset_classes_frame [frame]:
  "trust_state (reset_classes now cs d) = trust_state d"
  "safety_hold (reset_classes now cs d) = safety_hold d"
  "failure_log (reset_classes now cs d) = failure_log d"
  "misdispatch_log (reset_classes now cs d) = misdispatch_log d"
  "scores (reset_classes now cs d) = scores d"
  unfolding reset_classes_def by (induction cs arbitrary: d) (auto simp: frame)

section \<open>The trip\<close>

definition tripped_db :: "int \<Rightarrow> db \<Rightarrow> db" where
  "tripped_db now d =
     clear_all_safety_holds now (Hold_Text ''circuit breaker global trip'')
       (reset_classes now fault_classes (fst (fold (demote_class now) (all_fault_classes d) (d, []))))"

lemma check_circuit_breaker_eq [step_eqs]:
  "snd (check_circuit_breaker now d) =
     (if failure_threshold \<le> recent_failure_count now d then tripped_db now d else d)"
  "br_tripped (fst (check_circuit_breaker now d)) =
     (failure_threshold \<le> recent_failure_count now d)"
  by (auto simp: check_circuit_breaker_def tripped_db_def Let_def split: prod.splits)

lemma tripped_trust:
  "get_trust_state (tripped_db now d) c =
     (if fst (get_trust_state d c) = Can_Act then (Report_Only, 0) else get_trust_state d c)"
  using demote_fold_state[of now "all_fault_classes d" d "[]" c] can_act_in_table[of d c]
  by (auto simp: tripped_db_def get_trust_state_def frame)

lemma tripped_llm:
  assumes "c \<in> set fault_classes"
  shows "get_diagnoser_mode (tripped_db now d) c = (Stub, 0)"
    and "get_action_trust (tripped_db now d) c = (Deterministic_Fallback, 0)"
  using assms reset_classes_state[of now fault_classes _ c]
  by (simp_all add: tripped_db_def get_diagnoser_mode_def get_action_trust_def)

lemma tripped_holds: "\<not> active (get_safety_hold (tripped_db now d) c)"
  by (simp add: tripped_db_def clear_all_inactive)

lemma tripped_frame:
  "failure_log (tripped_db now d) = failure_log d"
  "misdispatch_log (tripped_db now d) = misdispatch_log d"
  "scores (tripped_db now d) = scores d"
  by (simp_all add: tripped_db_def frame demote_fold_tables)

section \<open>The window contract\<close>

definition breaker_times :: "db \<Rightarrow> string \<times> string option \<Rightarrow> int list" where
  "breaker_times d k = map f_at (failure_log d)"

definition breaker_note :: "int \<Rightarrow> string \<times> string option \<Rightarrow> db \<Rightarrow> db \<times> bool" where
  "breaker_note now k d = (let (r, d') = record_failure now d (fst k) (snd k) in (d', br_tripped r))"

text \<open>Failures of all classes count together: one group.\<close>

interpretation breaker_window: window_alarm breaker_times breaker_note "\<lambda>_. ()"
    failure_window failure_threshold
proof unfold_locales
  fix now k s k'
  have rf: "record_failure now s (fst k) (snd k) =
      check_circuit_breaker now (s\<lparr>failure_log := failure_log s @
        [\<lparr>f_reason = fst k, f_class = snd k, f_at = now\<rparr>]\<rparr>)"
    by (simp add: record_failure_def)
  show "breaker_times (fst (breaker_note now k s)) k' =
      (if () = () then breaker_times s k @ [now] else breaker_times s k')"
    by (simp add: breaker_times_def breaker_note_def rf split_beta step_eqs tripped_frame)
  show "snd (breaker_note now k s) =
      (failure_threshold \<le> recent_count failure_window now (breaker_times s k @ [now]))"
    by (simp add: breaker_times_def breaker_note_def rf split_beta step_eqs recent_failure_count_def)
qed (simp_all add: breaker_times_def failure_window_def)

section \<open>Properties\<close>

text \<open>C40: when a failure trips the breaker, no class may act any more, both LLM dimensions of
  the whole roster are at their safe value and no safety hold is active; when it does not,
  nothing changes but the failure log.\<close>

theorem record_failure_effect:
  "let (r, d') = record_failure now d reason c0 in
     (if br_tripped r
      then (\<forall>c. fst (get_trust_state d' c) \<noteq> Can_Act \<and> \<not> active (get_safety_hold d' c))
         \<and> (\<forall>c \<in> set fault_classes. get_diagnoser_mode d' c = (Stub, 0)
              \<and> get_action_trust d' c = (Deterministic_Fallback, 0))
      else d' = d\<lparr>failure_log := failure_log d @ [\<lparr>f_reason = reason, f_class = c0, f_at = now\<rparr>]\<rparr>)"
proof -
  let ?d = "d\<lparr>failure_log := failure_log d @ [\<lparr>f_reason = reason, f_class = c0, f_at = now\<rparr>]\<rparr>"
  obtain r d' where rd: "record_failure now d reason c0 = (r, d')" by fastforce
  then have "br_tripped r = (failure_threshold \<le> recent_failure_count now ?d)"
    "d' = (if br_tripped r then tripped_db now ?d else ?d)"
    using check_circuit_breaker_eq[of now ?d] by (simp_all add: record_failure_def)
  then show ?thesis
    using rd tripped_trust[of now ?d] tripped_holds[of now ?d] tripped_llm[of _ now ?d] by auto
qed

lemma record_failure_effect_witness:
  "br_tripped (fst (record_failure 10 (empty_db\<lparr>failure_log := [\<lparr>f_reason = ''a'', f_class = None, f_at = 0\<rparr>,
       \<lparr>f_reason = ''b'', f_class = None, f_at = 1\<rparr>], trust_state := [(''oom'', Can_Act, 7)]\<rparr>) ''c'' None)) \<and>
   fst (get_trust_state (snd (record_failure 10 (empty_db\<lparr>failure_log := [\<lparr>f_reason = ''a'', f_class = None, f_at = 0\<rparr>,
       \<lparr>f_reason = ''b'', f_class = None, f_at = 1\<rparr>], trust_state := [(''oom'', Can_Act, 7)]\<rparr>) ''c'' None)) ''oom'')
     \<noteq> Can_Act"
proof -
  let ?d = "empty_db\<lparr>failure_log := [\<lparr>f_reason = ''a'', f_class = None, f_at = 0\<rparr>,
       \<lparr>f_reason = ''b'', f_class = None, f_at = 1\<rparr>], trust_state := [(''oom'', Can_Act, 7)]\<rparr>"
  have t: "br_tripped (fst (record_failure 10 ?d ''c'' None))"
    by (simp add: record_failure_def step_eqs recent_failure_count_def failure_threshold_def
        failure_window_def)
  with record_failure_effect[of 10 ?d "''c''" None] show ?thesis
    by (simp add: case_prod_unfold Let_def)
qed

text \<open>C12: over any sequence of failures, from any database, failure \<open>i\<close> trips the breaker
  exactly when at least three failures, logged before or in the sequence up to it, lie in
  the five minutes before it.\<close>

theorem breaker_trips_exactly:
  assumes "i < length es" "es ! i = (t, k)"
  shows "snd (run_window breaker_note d es) ! i =
           (3 \<le> recent_count 300 t (List.map f_at (failure_log d) @ List.map fst (take (Suc i) es)))"
  using breaker_window.run_alarms[OF assms, of d]
  by (simp add: failure_threshold_def failure_window_def breaker_times_def case_prod_unfold)

lemma breaker_trips_exactly_witness:
  "snd (run_window breaker_note empty_db
      [(0, ''a'', None), (100, ''b'', None), (301, ''c'', None), (350, ''d'', None)]) ! 3"
  by (subst breaker_trips_exactly[where t = 350 and k = "(''d'', None)"])
    (simp_all add: empty_db_def recent_count_def)

end
