(* ===== verification/Cage_Actions.thy ===== *)
theory Cage_Actions
  imports Tool_Validator
begin

text \<open>
  \<^verbatim>\<open>p3_trust_action/actions.py\<close>: the fixed set of cluster actions, each a server-side dry
  run followed by the real call. The Kubernetes client, the token file and the clock are
  not under this repository: they are the record \<open>'w kube\<close> of functions on a world \<open>'w\<close>.
  An action result is the dictionary the code returns.
\<close>

section \<open>The Kubernetes client\<close>

text \<open>What a client call does: it returns, raises \<^verbatim>\<open>ApiException\<close> (with the text
  \<^verbatim>\<open>status: reason\<close>), or raises something else.\<close>

datatype 'a reply = Reply 'a | Api_Error string | Raised py_error

record pod =
  pod_name :: string
  pod_phase :: string
  pod_containers :: "(string \<times> pydict) list"

record replica_set =
  rs_annotations :: "(string \<times> string) list"
  rs_template :: pyval

text \<open>
  \<open>k_token\<close> reads the token file and decodes its \<^verbatim>\<open>exp\<close> claim; \<open>k_now\<close> is \<^verbatim>\<open>time.time()\<close>;
  the boolean of the three patch calls is \<^verbatim>\<open>dry_run\<close>. Names and namespaces are Python
  values, as the callers pass them.
\<close>

record 'w kube =
  k_token :: "'w \<Rightarrow> rat option res"
  k_now :: "'w \<Rightarrow> rat"
  k_isotime :: "'w \<Rightarrow> string"
  k_sleep :: "rat \<Rightarrow> 'w \<Rightarrow> 'w"
  k_patch :: "pyval \<Rightarrow> pyval \<Rightarrow> pyval \<Rightarrow> bool \<Rightarrow> 'w \<Rightarrow> unit reply \<times> 'w"
  k_scale :: "pyval \<Rightarrow> pyval \<Rightarrow> pyval \<Rightarrow> bool \<Rightarrow> 'w \<Rightarrow> unit reply \<times> 'w"
  k_resize :: "string \<Rightarrow> pyval \<Rightarrow> pyval \<Rightarrow> bool \<Rightarrow> 'w \<Rightarrow> unit reply \<times> 'w"
  k_pods :: "pyval \<Rightarrow> pyval \<Rightarrow> 'w \<Rightarrow> pod list reply \<times> 'w"
  k_deployment :: "pyval \<Rightarrow> pyval \<Rightarrow> 'w \<Rightarrow> (string \<times> string) list reply \<times> 'w"
  k_replica_sets :: "pyval \<Rightarrow> pyval \<Rightarrow> 'w \<Rightarrow> replica_set list reply \<times> 'w"

section \<open>Credentials\<close>

definition check_token_expiry :: "rat option \<Rightarrow> rat \<Rightarrow> unit res" where
  "check_token_expiry expiry now =
     (case expiry of None \<Rightarrow> Inr ()
      | Some e \<Rightarrow> if e - now < 0 then Inl RuntimeError else Inr ())"

text \<open>\<^verbatim>\<open>_apps_v1()\<close> and \<^verbatim>\<open>_core_v1()\<close>: both read the token and check it first.\<close>

definition api_client :: "'w kube \<Rightarrow> 'w \<Rightarrow> unit res" where
  "api_client K w =
     (case k_token K w of Inl e \<Rightarrow> Inl e | Inr expiry \<Rightarrow> check_token_expiry expiry (k_now K w))"

section \<open>The patch with its dry run\<close>

definition call_result :: "bool \<Rightarrow> bool \<Rightarrow> pyval \<Rightarrow> pydict" where
  "call_result dry applied err =
     [(''dry_run_ok'', PBool dry), (''applied'', PBool applied), (''error'', err)]"

text \<open>
  Dry run, then the real call; \<open>call\<close> is the client's patch function applied to its
  target. \<^verbatim>\<open>_patch_deployment\<close> and \<^verbatim>\<open>scale_deployment\<close> share this shape.
\<close>

definition dry_then_apply ::
    "'w kube \<Rightarrow> (bool \<Rightarrow> 'w \<Rightarrow> unit reply \<times> 'w) \<Rightarrow> 'w \<Rightarrow> pydict res \<times> 'w" where
  "dry_then_apply K call w =
     (case api_client K w of
        Inl e \<Rightarrow> (Inl e, w)
      | Inr _ \<Rightarrow>
          (case call True w of
             (Raised e, w1) \<Rightarrow> (Inl e, w1)
           | (Api_Error msg, w1) \<Rightarrow> (Inr (call_result False False (PStr msg)), w1)
           | (Reply _, w1) \<Rightarrow>
               (case call False w1 of
                  (Raised e, w2) \<Rightarrow> (Inl e, w2)
                | (Api_Error msg, w2) \<Rightarrow> (Inr (call_result True False (PStr msg)), w2)
                | (Reply _, w2) \<Rightarrow> (Inr (call_result True True PNone), w2))))"

definition patch_deployment :: "'w kube \<Rightarrow> pyval \<Rightarrow> pyval \<Rightarrow> pyval \<Rightarrow> 'w \<Rightarrow> pydict res \<times> 'w" where
  "patch_deployment K name ns body = dry_then_apply K (k_patch K name ns body)"

text \<open>\<^verbatim>\<open>return {"action": .., **result}\<close>\<close>

definition with_header :: "pydict \<Rightarrow> pydict res \<times> 'w \<Rightarrow> pydict res \<times> 'w" where
  "with_header h r = (case r of (Inl e, w) \<Rightarrow> (Inl e, w) | (Inr d, w) \<Rightarrow> (Inr (h @ d), w))"

definition action_header :: "string \<Rightarrow> pyval \<Rightarrow> pyval \<Rightarrow> pydict" where
  "action_header a name ns = [(''action'', PStr a), (''target'', name), (''namespace'', ns)]"

definition template_body :: "pydict \<Rightarrow> pyval" where
  "template_body t = PDict [(''spec'', PDict [(''template'', PDict t)])]"

definition limits_body :: "pyval \<Rightarrow> string \<Rightarrow> pyval \<Rightarrow> pyval" where
  "limits_body container res limit =
     template_body [(''spec'', PDict [(''containers'', PList
       [PDict [(''name'', container),
               (''resources'', PDict [(''limits'', PDict [(res, limit)])])]])])]"

section \<open>The actions\<close>

definition restart_deployment :: "'w kube \<Rightarrow> pyval \<Rightarrow> pyval \<Rightarrow> 'w \<Rightarrow> pydict res \<times> 'w" where
  "restart_deployment K name ns w =
     with_header (action_header ''restart_deployment'' name ns)
       (patch_deployment K name ns
          (template_body [(''metadata'', PDict [(''annotations'', PDict
             [(''kubectl.kubernetes.io/restartedAt'', PStr (k_isotime K w))])])]) w)"

definition patch_memory_limit ::
    "'w kube \<Rightarrow> pyval \<Rightarrow> pyval \<Rightarrow> pyval \<Rightarrow> pyval \<Rightarrow> 'w \<Rightarrow> pydict res \<times> 'w" where
  "patch_memory_limit K name container limit ns w =
     with_header (action_header ''patch_memory_limit'' name ns @
                    [(''container'', container), (''limit'', limit)])
       (patch_deployment K name ns (limits_body container ''memory'' limit) w)"

definition running_pods :: "pod list \<Rightarrow> pod list" where
  "running_pods ps = filter (\<lambda>p. pod_phase p = ''Running'') ps"

text \<open>
  \<^verbatim>\<open>resources.setdefault("limits", {})["cpu"] = limit\<close>: the key may be there with the
  value None, which has no item assignment.
\<close>

definition set_cpu_limit :: "pydict \<Rightarrow> pyval \<Rightarrow> pydict res" where
  "set_cpu_limit resources limit =
     (case map_of resources ''limits'' of
        None \<Rightarrow> Inr (AList.update ''limits'' (PDict [(''cpu'', limit)]) resources)
      | Some (PDict l) \<Rightarrow> Inr (AList.update ''limits'' (PDict (AList.update ''cpu'' limit l)) resources)
      | Some _ \<Rightarrow> Inl TypeError)"

text \<open>The in-place resize: \<open>Inr None\<close> falls back to the Deployment patch.\<close>

definition try_resize ::
    "'w kube \<Rightarrow> pyval \<Rightarrow> pyval \<Rightarrow> pyval \<Rightarrow> pyval \<Rightarrow> pod \<Rightarrow> 'w \<Rightarrow> pydict option res \<times> 'w" where
  "try_resize K name container limit ns p w =
     (case find (\<lambda>(n, _). PStr n = container) (pod_containers p) of
        None \<Rightarrow> (Inr None, w)
      | Some (_, resources) \<Rightarrow>
          (case set_cpu_limit resources limit of
             Inl e \<Rightarrow> (Inl e, w)
           | Inr res \<Rightarrow>
               (let body = PDict [(''spec'', PDict [(''containers'', PList
                             [PDict [(''name'', container), (''resources'', PDict res)]])])]
                in case k_resize K (pod_name p) ns body True w of
                     (Raised e, w1) \<Rightarrow> (Inl e, w1)
                   | (Api_Error _, w1) \<Rightarrow> (Inr None, w1)
                   | (Reply _, w1) \<Rightarrow>
                       (case k_resize K (pod_name p) ns body False w1 of
                          (Raised e, w2) \<Rightarrow> (Inl e, w2)
                        | (Api_Error _, w2) \<Rightarrow> (Inr None, w2)
                        | (Reply _, w2) \<Rightarrow>
                            (Inr (Some (action_header ''patch_cpu_limit'' name ns @
                               [(''container'', container), (''limit'', limit)] @
                               call_result True True PNone @
                               [(''method'', PStr ''in_place_resize''),
                                (''pod'', PStr (pod_name p))])), w2)))))"

definition patch_cpu_fallback ::
    "'w kube \<Rightarrow> pyval \<Rightarrow> pyval \<Rightarrow> pyval \<Rightarrow> pyval \<Rightarrow> 'w \<Rightarrow> pydict res \<times> 'w" where
  "patch_cpu_fallback K name container limit ns w =
     with_header (action_header ''patch_cpu_limit'' name ns @
                    [(''container'', container), (''limit'', limit),
                     (''method'', PStr ''deployment_patch_fallback'')])
       (patch_deployment K name ns (limits_body container ''cpu'' limit) w)"

definition patch_cpu_limit ::
    "'w kube \<Rightarrow> pyval \<Rightarrow> pyval \<Rightarrow> pyval \<Rightarrow> pyval \<Rightarrow> 'w \<Rightarrow> pydict res \<times> 'w" where
  "patch_cpu_limit K name container limit ns w =
     (case api_client K w of
        Inl e \<Rightarrow> (Inl e, w)
      | Inr _ \<Rightarrow>
          (case k_pods K ns name w of
             (Raised e, w1) \<Rightarrow> (Inl e, w1)
           | (Api_Error _, w1) \<Rightarrow> (Inl ApiException, w1)
           | (Reply ps, w1) \<Rightarrow>
               (case running_pods ps of
                  [] \<Rightarrow> patch_cpu_fallback K name container limit ns w1
                | p # _ \<Rightarrow>
                    (case try_resize K name container limit ns p w1 of
                       (Inl e, w2) \<Rightarrow> (Inl e, w2)
                     | (Inr (Some d), w2) \<Rightarrow> (Inr d, w2)
                     | (Inr None, w2) \<Rightarrow> patch_cpu_fallback K name container limit ns w2))))"

text \<open>\<^verbatim>\<open>int(s)\<close> of an annotation: an optional sign and ASCII digits, with single underscores
  between digits.\<close>

fun digit_groups :: "string \<Rightarrow> bool" where
  "digit_groups [] = False"
| "digit_groups [c] = is_digit c"
| "digit_groups (c # d # cs) =
     (is_digit c \<and> (if d = CHR ''_'' then digit_groups cs else digit_groups (d # cs)))"

definition py_int :: "string \<Rightarrow> int res" where
  "py_int s =
     (let t = py_strip s;
          (neg, ds) = (case t of c # cs \<Rightarrow>
                         if c = CHR ''-'' then (True, cs)
                         else if c = CHR ''+'' then (False, cs) else (False, t)
                       | [] \<Rightarrow> (False, t))
      in if digit_groups ds
         then Inr ((if neg then - 1 else 1) * int (dec_nat (filter (\<lambda>c. c \<noteq> CHR ''_'') ds)))
         else Inl ValueError)"

definition revision_key :: string where
  "revision_key = ''deployment.kubernetes.io/revision''"

text \<open>The revisions strictly below the current one, with their templates, in list order.\<close>

fun previous_candidates :: "int \<Rightarrow> replica_set list \<Rightarrow> (int \<times> pyval) list res" where
  "previous_candidates cur [] = Inr []"
| "previous_candidates cur (r # rs) =
     (case map_of (rs_annotations r) revision_key of
        None \<Rightarrow> previous_candidates cur rs
      | Some s \<Rightarrow>
          (case py_int s of
             Inl e \<Rightarrow> Inl e
           | Inr n \<Rightarrow>
               (case previous_candidates cur rs of
                  Inl e \<Rightarrow> Inl e
                | Inr cs \<Rightarrow> Inr (if n < cur then (n, rs_template r) # cs else cs))))"

definition rollback_deployment :: "'w kube \<Rightarrow> pyval \<Rightarrow> pyval \<Rightarrow> 'w \<Rightarrow> pydict res \<times> 'w" where
  "rollback_deployment K name ns w =
     (let hd0 = action_header ''rollback_deployment'' name ns;
          failed = (\<lambda>msg. hd0 @ call_result False False (PStr msg))
      in case api_client K w of
        Inl e \<Rightarrow> (Inl e, w)
      | Inr _ \<Rightarrow>
          (case k_deployment K name ns w of
             (Raised e, w1) \<Rightarrow> (Inl e, w1)
           | (Api_Error msg, w1) \<Rightarrow> (Inr (failed msg), w1)
           | (Reply ann, w1) \<Rightarrow>
               (case py_int (case map_of ann revision_key of None \<Rightarrow> ''0'' | Some s \<Rightarrow> s) of
                  Inl e \<Rightarrow> (Inl e, w1)
                | Inr cur \<Rightarrow>
                    (case k_replica_sets K ns name w1 of
                       (Raised e, w2) \<Rightarrow> (Inl e, w2)
                     | (Api_Error msg, w2) \<Rightarrow> (Inr (failed msg), w2)
                     | (Reply rs, w2) \<Rightarrow>
                         (case previous_candidates cur rs of
                            Inl e \<Rightarrow> (Inl e, w2)
                          | Inr [] \<Rightarrow> (Inr (failed ''no previous revision found to roll back to''), w2)
                          | Inr cs \<Rightarrow>
                              with_header hd0
                                (patch_deployment K name ns
                                   (PDict [(''spec'', PDict [(''template'',
                                      snd (last (sort_key fst cs)))])]) w2))))))"

definition scale_deployment :: "'w kube \<Rightarrow> pyval \<Rightarrow> pyval \<Rightarrow> pyval \<Rightarrow> 'w \<Rightarrow> pydict res \<times> 'w" where
  "scale_deployment K name replicas ns w =
     with_header [(''action'', PStr ''scale_deployment''), (''target'', name),
                  (''replicas'', replicas), (''namespace'', ns)]
       (dry_then_apply K (k_scale K name ns (PDict [(''spec'', PDict [(''replicas'', replicas)])])) w)"

section \<open>Restoring a full disk\<close>

text \<open>
  \<^verbatim>\<open>_PROGRESS\<close>, the in-memory step log, keyed by (namespace, name). A Python list cannot be
  part of a key.
\<close>

type_synonym progress = "((pyval \<times> pyval) \<times> pydict list) list"

definition reset_progress :: "pyval \<Rightarrow> pyval \<Rightarrow> progress \<Rightarrow> progress" where
  "reset_progress name ns = AList.update (ns, name) []"

definition get_progress :: "pyval \<Rightarrow> pyval \<Rightarrow> progress \<Rightarrow> pydict list" where
  "get_progress name ns P = (case map_of P (ns, name) of None \<Rightarrow> [] | Some l \<Rightarrow> l)"

definition record_step ::
    "pyval \<Rightarrow> pyval \<Rightarrow> string \<Rightarrow> string \<Rightarrow> pyval \<Rightarrow> string \<Rightarrow> progress \<Rightarrow> progress" where
  "record_step name ns step status detail stamp P =
     AList.update (ns, name)
       (get_progress name ns P @
        [[(''step'', PStr step), (''status'', PStr status), (''detail'', detail), (''at'', PStr stamp)]]) P"

text \<open>\<^verbatim>\<open>n == v\<close> for a Python number \<open>v\<close>.\<close>

fun count_eq :: "nat \<Rightarrow> pyval \<Rightarrow> bool" where
  "count_eq n (PInt i) = (i = int n)"
| "count_eq n (PFloat q) = (q = of_nat n)"
| "count_eq n (PBool b) = (n = (if b then 1 else 0))"
| "count_eq n _ = False"

text \<open>
  The poll of \<^verbatim>\<open>_wait_for_pod_count\<close>; the fuel bounds the number of polls. The listing is
  not guarded: its exception leaves the function.
\<close>

fun poll_pod_count ::
    "'w kube \<Rightarrow> pyval \<Rightarrow> pyval \<Rightarrow> pyval \<Rightarrow> rat \<Rightarrow> nat \<Rightarrow> 'w \<Rightarrow> bool res \<times> 'w" where
  "poll_pod_count K name ns expected deadline 0 w = (Inl Out_Of_Fuel, w)"
| "poll_pod_count K name ns expected deadline (Suc fuel) w =
     (if \<not> k_now K w < deadline then (Inr False, w)
      else (case k_pods K ns name w of
              (Raised e, w1) \<Rightarrow> (Inl e, w1)
            | (Api_Error _, w1) \<Rightarrow> (Inl ApiException, w1)
            | (Reply ps, w1) \<Rightarrow>
                (if count_eq (length (running_pods ps)) expected then (Inr True, w1)
                 else poll_pod_count K name ns expected deadline fuel (k_sleep K 2 w1))))"

definition wait_for_pod_count ::
    "'w kube \<Rightarrow> nat \<Rightarrow> pyval \<Rightarrow> pyval \<Rightarrow> pyval \<Rightarrow> rat \<Rightarrow> 'w \<Rightarrow> bool res \<times> 'w" where
  "wait_for_pod_count K fuel name ns expected timeout_s w =
     (case api_client K w of Inl e \<Rightarrow> (Inl e, w)
      | Inr _ \<Rightarrow> poll_pod_count K name ns expected (k_now K w + timeout_s) fuel w)"

definition pod_terminate_timeout_s :: rat where "pod_terminate_timeout_s = 60"
definition pod_start_timeout_s :: rat where "pod_start_timeout_s = 60"

definition is_applied :: "pydict \<Rightarrow> bool" where
  "is_applied d = truthy (dict_get d ''applied'')"

definition start_timeout_error :: string where
  "start_timeout_error = ''timed out waiting for new pod to start Running''"

definition terminate_timeout_error :: string where
  "terminate_timeout_error =
     ''timed out waiting for old pod to terminate before scaling back up -- '' @
     ''the fix cannot be trusted to have cleared the disk (scaled back up '' @
     ''anyway to avoid leaving the deployment at 0)''"

definition error_text :: "pyval \<Rightarrow> string" where
  "error_text v = (case v of PStr s \<Rightarrow> s | _ \<Rightarrow> ''None'')"

text \<open>The second half: scale back up and wait for the new pod. It returns the scale-up result
  with its \<^verbatim>\<open>applied\<close> field corrected by the wait.\<close>

definition scale_back_up ::
    "'w kube \<Rightarrow> nat \<Rightarrow> pyval \<Rightarrow> pyval \<Rightarrow> pyval \<Rightarrow> progress \<Rightarrow> 'w \<Rightarrow> pydict res \<times> progress \<times> 'w" where
  "scale_back_up K fuel name ns replicas P w =
     (let log = (\<lambda>w step status detail. record_step name ns step status detail (k_isotime K w));
          P1 = log w ''scaling_up'' ''in_progress'' PNone P
      in case scale_deployment K name replicas ns w of
           (Inl e, w1) \<Rightarrow> (Inl e, P1, w1)
         | (Inr up, w1) \<Rightarrow>
             if is_applied up
             then (let P2 = log w1 ''waiting_for_new_pod'' ''in_progress'' PNone
                              (log w1 ''scaling_up'' ''done'' PNone P1)
                   in case wait_for_pod_count K fuel name ns replicas pod_start_timeout_s w1 of
                        (Inl e, w2) \<Rightarrow> (Inl e, P2, w2)
                      | (Inr True, w2) \<Rightarrow>
                          (Inr up, log w2 ''waiting_for_new_pod'' ''done'' PNone P2, w2)
                      | (Inr False, w2) \<Rightarrow>
                          (Inr (AList.update ''error'' (PStr start_timeout_error)
                                 (AList.update ''applied'' (PBool False) up)),
                           log w2 ''waiting_for_new_pod'' ''timed_out'' PNone P2, w2))
             else (Inr up, log w1 ''scaling_up'' ''failed'' (dict_get up ''error'') P1, w1))"

definition restore_result ::
    "pyval \<Rightarrow> pyval \<Rightarrow> pyval \<Rightarrow> pyval \<Rightarrow> pydict \<Rightarrow> pyval \<Rightarrow> progress \<Rightarrow> pydict" where
  "restore_result name ns applied err down up P =
     action_header ''restore_from_disk_full'' name ns @
       [(''applied'', applied), (''error'', err), (''scale_down'', PDict down), (''scale_up'', up),
        (''progress_log'', PList (List.map PDict (get_progress name ns P)))]"

definition restore_from_disk_full ::
    "'w kube \<Rightarrow> nat \<Rightarrow> pyval \<Rightarrow> pyval \<Rightarrow> pyval \<Rightarrow> progress \<Rightarrow> 'w \<Rightarrow> pydict res \<times> progress \<times> 'w" where
  "restore_from_disk_full K fuel name ns replicas P0 w =
     (if \<not> (hashable name \<and> hashable ns) then (Inl TypeError, P0, w)
      else
       let log = (\<lambda>w step status detail. record_step name ns step status detail (k_isotime K w));
           P1 = log w ''scaling_down'' ''in_progress'' PNone (reset_progress name ns P0)
       in case scale_deployment K name (PInt 0) ns w of
            (Inl e, w1) \<Rightarrow> (Inl e, P1, w1)
          | (Inr down, w1) \<Rightarrow>
              if \<not> is_applied down
              then (let P2 = log w1 ''scaling_down'' ''failed'' (dict_get down ''error'') P1
                    in (Inr (restore_result name ns (PBool False)
                               (PStr (''scale-to-0 failed: '' @ error_text (dict_get down ''error'')))
                               down PNone P2), P2, w1))
              else
                let P2 = log w1 ''waiting_for_termination'' ''in_progress'' PNone
                           (log w1 ''scaling_down'' ''done'' PNone P1)
                in case wait_for_pod_count K fuel name ns (PInt 0) pod_terminate_timeout_s w1 of
                     (Inl e, w2) \<Rightarrow> (Inl e, P2, w2)
                   | (Inr gone, w2) \<Rightarrow>
                       (case scale_back_up K fuel name ns replicas
                               (log w2 ''waiting_for_termination''
                                  (if gone then ''done'' else ''timed_out'') PNone P2) w2 of
                          (Inl e, P3, w3) \<Rightarrow> (Inl e, P3, w3)
                        | (Inr up, P3, w3) \<Rightarrow>
                            if \<not> gone
                            then (let P4 = log w3 ''complete'' ''failed''
                                             (PStr ''old pod never terminated'') P3
                                  in (Inr (restore_result name ns (PBool False)
                                        (PStr terminate_timeout_error) down (PDict up) P4), P4, w3))
                            else (let P4 = log w3 ''complete''
                                             (if is_applied up then ''done'' else ''failed'') PNone P3
                                  in (Inr (restore_result name ns (dict_get up ''applied'')
                                        (dict_get up ''error'') down (PDict up) P4), P4, w3))))"

section \<open>The allowlist\<close>

text \<open>Python's keyword binding: every required parameter, no unknown one, defaults for the rest.\<close>

definition bind_kwargs :: "string list \<Rightarrow> pydict \<Rightarrow> pydict \<Rightarrow> pydict res" where
  "bind_kwargs required defaults params =
     (if set (List.map fst params) \<subseteq> set required \<union> set (List.map fst defaults) \<and>
         set required \<subseteq> set (List.map fst params)
      then Inr (params @ defaults) else Inl TypeError)"

definition action_signature :: "string \<Rightarrow> (string list \<times> pydict) option" where
  "action_signature tool =
     (let ns = (''namespace'', PStr default_namespace)
      in map_of
       [(''restart_deployment'', ([''name''], [ns])),
        (''patch_memory_limit'', ([''name'', ''container'', ''limit''], [ns])),
        (''patch_cpu_limit'', ([''name'', ''container'', ''limit''], [ns])),
        (''scale_deployment'', ([''name'', ''replicas''], [ns])),
        (''rollback_deployment'', ([''name''], [ns])),
        (''restore_from_disk_full'', ([''name''], [ns, (''replicas'', PInt 1)]))] tool)"

definition lift_world :: "'r \<times> 'w \<Rightarrow> progress \<Rightarrow> 'r \<times> progress \<times> 'w" where
  "lift_world r P = (case r of (x, w) \<Rightarrow> (x, P, w))"

text \<open>\<^verbatim>\<open>ALLOWED_ACTIONS[tool](**params)\<close>.\<close>

definition call_action ::
    "'w kube \<Rightarrow> nat \<Rightarrow> string \<Rightarrow> pydict \<Rightarrow> progress \<Rightarrow> 'w \<Rightarrow> pydict res \<times> progress \<times> 'w" where
  "call_action K fuel tool params P w =
     (case action_signature tool of
        None \<Rightarrow> (Inl (KeyError tool), P, w)
      | Some (required, defaults) \<Rightarrow>
          (case bind_kwargs required defaults params of
             Inl e \<Rightarrow> (Inl e, P, w)
           | Inr d \<Rightarrow>
               let g = dict_get d; name = g ''name''; ns = g ''namespace''
               in if tool = ''restart_deployment'' then lift_world (restart_deployment K name ns w) P
                  else if tool = ''patch_memory_limit'' then
                    lift_world (patch_memory_limit K name (g ''container'') (g ''limit'') ns w) P
                  else if tool = ''patch_cpu_limit'' then
                    lift_world (patch_cpu_limit K name (g ''container'') (g ''limit'') ns w) P
                  else if tool = ''scale_deployment'' then
                    lift_world (scale_deployment K name (g ''replicas'') ns w) P
                  else if tool = ''rollback_deployment'' then
                    lift_world (rollback_deployment K name ns w) P
                  else restore_from_disk_full K fuel name ns (g ''replicas'') P w))"

section \<open>The dry run guards the call\<close>

lemma is_applied_simps [simp]:
  "is_applied (call_result d a e) = a"
  "is_applied (AList.update ''error'' v d1) = is_applied d1"
  "is_applied (AList.update ''applied'' v d1) = truthy v"
  "is_applied ((''action'', v) # d1) = is_applied d1"
  "is_applied ((''target'', v) # d1) = is_applied d1"
  "is_applied ((''replicas'', v) # d1) = is_applied d1"
  "is_applied ((''namespace'', v) # d1) = is_applied d1"
  "is_applied ((''container'', v) # d1) = is_applied d1"
  "is_applied ((''limit'', v) # d1) = is_applied d1"
  "is_applied ((''method'', v) # d1) = is_applied d1"
  "is_applied ((''applied'', v) # d1) = truthy v"
  by (simp_all add: is_applied_def call_result_def dict_get_def update_conv')

lemma is_applied_header [simp]: "is_applied (action_header a name ns @ d) = is_applied d"
  by (simp add: action_header_def)

lemma is_applied_restore [simp]: "is_applied (restore_result name ns a e d u P) = truthy a"
  by (simp add: restore_result_def)

lemma with_header_eq [simp]: "with_header h (Inr d, w) = (Inr (h @ d), w)" "with_header h (Inl e, w) = (Inl e, w)"
  by (simp_all add: with_header_def)

lemma dry_then_apply_cases:
  assumes "dry_then_apply K call w = (r, w')"
  obtains (no_client) e where "api_client K w = Inl e" "r = Inl e" "w' = w"
  | (dry_error) msg where "call True w = (Api_Error msg, w')" "r = Inr (call_result False False (PStr msg))"
  | (dry_raise) e where "call True w = (Raised e, w')" "r = Inl e"
  | (real_error) u msg w1 where "call True w = (Reply u, w1)" "call False w1 = (Api_Error msg, w')"
      "r = Inr (call_result True False (PStr msg))"
  | (real_raise) u e w1 where "call True w = (Reply u, w1)" "call False w1 = (Raised e, w')" "r = Inl e"
  | (applied) u v w1 where "call True w = (Reply u, w1)" "call False w1 = (Reply v, w')"
      "r = Inr (call_result True True PNone)"
  using assms
  by (auto simp: dry_then_apply_def split: sum.splits prod.splits reply.splits)

lemma dry_then_apply_applied:
  assumes "dry_then_apply K call w = (Inr d, w')" "is_applied d"
  shows "\<exists>w1. call True w = (Reply (), w1) \<and> call False w1 = (Reply (), w')"
  using assms by (cases rule: dry_then_apply_cases) auto

lemma dry_then_apply_refused:
  assumes "fst (call True w) \<noteq> Reply ()" "api_client K w = Inr ()"
  shows "snd (dry_then_apply K call w) = snd (call True w)"
  using assms by (cases "call True w"; cases "fst (call True w)") (auto simp: dry_then_apply_def)

text \<open>A successful scale: both calls of the client, in this order.\<close>

definition scale_call :: "'w kube \<Rightarrow> pyval \<Rightarrow> pyval \<Rightarrow> pyval \<Rightarrow> bool \<Rightarrow> 'w \<Rightarrow> unit reply \<times> 'w" where
  "scale_call K name ns replicas = k_scale K name ns (PDict [(''spec'', PDict [(''replicas'', replicas)])])"

lemma scale_deployment_applied:
  assumes "scale_deployment K name n ns w = (Inr d, w')" "is_applied d"
  shows "\<exists>w1. scale_call K name ns n True w = (Reply (), w1) \<and> scale_call K name ns n False w1 = (Reply (), w')"
  using assms
  by (auto simp: scale_deployment_def scale_call_def with_header_def dest!: dry_then_apply_applied
      split: sum.splits prod.splits)

section \<open>The wait loop returns\<close>

text \<open>
  What the code relies on of the clock: sleeping \<open>s\<close> seconds moves it by at least \<open>s\<close>, and a
  listing does not move it back. \<open>k_pods\<close> is a real client: its errors are Python's.
\<close>

definition clock_ok :: "'w kube \<Rightarrow> bool" where
  "clock_ok K \<longleftrightarrow>
     (\<forall>w s. k_now K w + s \<le> k_now K (k_sleep K s w)) \<and>
     (\<forall>ns name w. k_now K w \<le> k_now K (snd (k_pods K ns name w))) \<and>
     (\<forall>ns name w. fst (k_pods K ns name w) \<noteq> Raised Out_Of_Fuel)"

lemma poll_pod_count_returns:
  assumes "clock_ok K" "deadline - k_now K w \<le> 2 * rat_of_nat fuel"
  shows "fst (poll_pod_count K name ns n deadline (Suc fuel) w) \<noteq> Inl Out_Of_Fuel"
  using assms(2)
proof (induction fuel arbitrary: w)
  case (Suc fuel)
  show ?case
  proof (cases "k_now K w < deadline")
    case True
    obtain r w1 where pods: "k_pods K ns name w = (r, w1)" by (cases "k_pods K ns name w")
    have "k_now K w \<le> k_now K w1" "k_now K w1 + 2 \<le> k_now K (k_sleep K 2 w1)"
      and r: "r \<noteq> Raised Out_Of_Fuel"
      using assms(1) pods unfolding clock_ok_def by (metis snd_conv, blast, metis fst_conv)
    with Suc.prems have "deadline - k_now K (k_sleep K 2 w1) \<le> 2 * rat_of_nat fuel" by simp
    from Suc.IH[OF this] True pods r show ?thesis
      by (cases r) (auto simp del: poll_pod_count.simps simp: poll_pod_count.simps(2)[of _ _ _ _ _ "Suc fuel"])
  qed simp
qed simp

lemma wait_for_pod_count_returns:
  assumes "clock_ok K" "api_client K w = Inr ()" "t \<le> 2 * rat_of_nat fuel"
  shows "fst (wait_for_pod_count K (Suc fuel) name ns n t w) \<noteq> Inl Out_Of_Fuel"
  using poll_pod_count_returns[of K "k_now K w + t" w fuel name ns n] assms
  by (simp add: wait_for_pod_count_def)

text \<open>A wait that answers True did see the count.\<close>

lemma poll_pod_count_true:
  assumes "poll_pod_count K name ns n deadline fuel w = (Inr True, w')"
  shows "\<exists>w0 ps. k_pods K ns name w0 = (Reply ps, w') \<and> count_eq (length (running_pods ps)) n
                  \<and> k_now K w0 < deadline"
  using assms
proof (induction K name ns n deadline fuel w rule: poll_pod_count.induct)
  case (2 K name ns n deadline fuel w)
  obtain r w1 where pods: "k_pods K ns name w = (r, w1)" by (cases "k_pods K ns name w")
  with 2 show ?case by (cases r) (auto split: if_splits)
qed simp

lemma wait_for_pod_count_true:
  assumes "wait_for_pod_count K fuel name ns n t w = (Inr True, w')"
  shows "\<exists>w0 ps. k_pods K ns name w0 = (Reply ps, w') \<and> count_eq (length (running_pods ps)) n"
  using assms poll_pod_count_true
  by (fastforce simp: wait_for_pod_count_def split: sum.splits)

section \<open>Restoring a full disk\<close>

lemma scale_back_up_applied:
  assumes "scale_back_up K fuel name ns n P w = (Inr up, P', w')" "is_applied up"
  shows "\<exists>w1 up0. scale_deployment K name n ns w = (Inr up0, w1) \<and> is_applied up0 \<and>
           wait_for_pod_count K fuel name ns n pod_start_timeout_s w1 = (Inr True, w')"
  using assms
  by (auto simp: scale_back_up_def Let_def split: sum.splits prod.splits if_splits bool.splits)

lemma restore_applied:
  assumes "restore_from_disk_full K fuel name ns n P w = (Inr d, P', w')" "is_applied d"
  shows "\<exists>w1 w2 w3 down up.
           scale_deployment K name (PInt 0) ns w = (Inr down, w1) \<and> is_applied down \<and>
           wait_for_pod_count K fuel name ns (PInt 0) pod_terminate_timeout_s w1 = (Inr True, w2) \<and>
           scale_deployment K name n ns w2 = (Inr up, w3) \<and> is_applied up \<and>
           wait_for_pod_count K fuel name ns n pod_start_timeout_s w3 = (Inr True, w')"
proof -
  obtain down w1 w2 up P1 P2 where *:
    "scale_deployment K name (PInt 0) ns w = (Inr down, w1)" "is_applied down"
    "wait_for_pod_count K fuel name ns (PInt 0) pod_terminate_timeout_s w1 = (Inr True, w2)"
    "scale_back_up K fuel name ns n P1 w2 = (Inr up, P2, w')" "is_applied up"
    using assms
    by (auto simp: restore_from_disk_full_def Let_def is_applied_def[symmetric]
        split: sum.splits prod.splits if_splits bool.splits)
  with scale_back_up_applied[OF *(4,5)] show ?thesis by blast
qed

text \<open>Once the scale-down is applied, the deployment is scaled back up, unless an exception
  leaves the wait.\<close>

lemma restore_scales_back:
  assumes "hashable name" "hashable ns"
    and "scale_deployment K name (PInt 0) ns w = (Inr down, w1)" "is_applied down"
    and "wait_for_pod_count K fuel name ns (PInt 0) pod_terminate_timeout_s w1 = (Inr gone, w2)"
    and "scale_deployment K name n ns w2 = (Inr up, w3)"
    and "is_applied up"
    and "wait_for_pod_count K fuel name ns n pod_start_timeout_s w3 = (Inr came, w4)"
  shows "\<exists>d P'. restore_from_disk_full K fuel name ns n P w = (Inr d, P', w4) \<and>
           is_applied d = (gone \<and> came)"
  using assms
  by (cases gone; cases came)
    (simp_all add: restore_from_disk_full_def scale_back_up_def Let_def is_applied_def[symmetric])

lemma restore_wait_raises:
  assumes "hashable name" "hashable ns"
    and "scale_deployment K name (PInt 0) ns w = (Inr down, w1)" "is_applied down"
    and "wait_for_pod_count K fuel name ns (PInt 0) pod_terminate_timeout_s w1 = (Inl e, w2)"
  shows "\<exists>P'. restore_from_disk_full K fuel name ns n P w = (Inl e, P', w2)"
  using assms by (simp add: restore_from_disk_full_def Let_def)

section \<open>Rolling back\<close>

text \<open>The revision number of a replica set, when it carries one.\<close>

definition has_revision :: "replica_set \<Rightarrow> int \<Rightarrow> bool" where
  "has_revision r n \<longleftrightarrow>
     (\<exists>s. map_of (rs_annotations r) revision_key = Some s \<and> py_int s = Inr n)"

lemma previous_candidates_set:
  assumes "previous_candidates cur rs = Inr cs"
  shows "set cs = {(n, rs_template r) | n r. r \<in> set rs \<and> has_revision r n \<and> n < cur}"
  using assms
proof (induction rs arbitrary: cs)
  case (Cons r rs)
  show ?case
  proof (cases "map_of (rs_annotations r) revision_key")
    case None
    with Cons show ?thesis by (auto simp: has_revision_def)
  next
    case (Some s)
    with Cons.prems obtain n cs' where n: "py_int s = Inr n"
      and cs': "previous_candidates cur rs = Inr cs'"
      and cs: "cs = (if n < cur then (n, rs_template r) # cs' else cs')"
      by (auto split: sum.splits)
    have only: "has_revision r m \<longleftrightarrow> m = n" for m
      using Some n by (auto simp: has_revision_def)
    have "{(m, rs_template q) | m q. q \<in> set (r # rs) \<and> has_revision q m \<and> m < cur} =
        {(m, rs_template r) | m. m = n \<and> m < cur} \<union> set cs'"
      unfolding Cons.IH[OF cs'] by (force simp: only)
    then show ?thesis using cs by auto
  qed
qed simp

lemma sorted_le_last: "sorted xs \<Longrightarrow> x \<in> set xs \<Longrightarrow> x \<le> last xs"
  for xs :: "'a::linorder list"
  by (induction xs) auto

lemma last_sort_key_max:
  assumes "cs \<noteq> []"
  shows "last (sort_key f cs) \<in> set cs" "c \<in> set cs \<Longrightarrow> f c \<le> f (last (sort_key f cs))"
proof -
  let ?s = "sort_key f cs"
  have ne: "?s \<noteq> []" using assms by (metis length_0_conv length_sort)
  then show "last ?s \<in> set cs" using last_in_set[OF ne] by simp
  assume "c \<in> set cs"
  then have "f c \<in> set (List.map f ?s)" by simp
  from sorted_le_last[OF _ this] show "f c \<le> f (last ?s)" using ne by (simp add: last_map)
qed

lemma rollback_applied:
  assumes "rollback_deployment K name ns w = (Inr d, w')" "is_applied d"
  shows "\<exists>ann cur rs r n w1 w2 w3 s.
           k_deployment K name ns w = (Reply ann, w1) \<and>
           s = (case map_of ann revision_key of None \<Rightarrow> ''0'' | Some s \<Rightarrow> s) \<and> py_int s = Inr cur \<and>
           k_replica_sets K ns name w1 = (Reply rs, w2) \<and>
           r \<in> set rs \<and> has_revision r n \<and> n < cur \<and>
           (\<forall>r' \<in> set rs. \<forall>m. has_revision r' m \<and> m < cur \<longrightarrow> m \<le> n) \<and>
           (let body = PDict [(''spec'', PDict [(''template'', rs_template r)])]
            in k_patch K name ns body True w2 = (Reply (), w3) \<and>
               k_patch K name ns body False w3 = (Reply (), w'))"
proof -
  obtain ann w1 cur rs w2 cs where
    dep: "k_deployment K name ns w = (Reply ann, w1)" and
    cur: "py_int (case map_of ann revision_key of None \<Rightarrow> ''0'' | Some s \<Rightarrow> s) = Inr cur" and
    rsl: "k_replica_sets K ns name w1 = (Reply rs, w2)" and
    cs: "previous_candidates cur rs = Inr cs" "cs \<noteq> []" and
    patch: "with_header (action_header ''rollback_deployment'' name ns)
        (patch_deployment K name ns
          (PDict [(''spec'', PDict [(''template'', snd (last (sort_key fst cs)))])]) w2) = (Inr d, w')"
    using assms
    by (auto simp: rollback_deployment_def Let_def split: sum.splits prod.splits reply.splits list.splits)
  obtain n t where nt: "last (sort_key fst cs) = (n, t)" by (cases "last (sort_key fst cs)")
  then have "(n, t) \<in> set cs" using last_sort_key_max(1)[OF cs(2), of fst] by simp
  then obtain r where r: "r \<in> set rs" "has_revision r n" "n < cur" "t = rs_template r"
    using previous_candidates_set[OF cs(1)] by auto
  have max: "m \<le> n" if "r' \<in> set rs" "has_revision r' m" "m < cur" for r' m
  proof -
    have "(m, rs_template r') \<in> set cs" using that previous_candidates_set[OF cs(1)] by auto
    from last_sort_key_max(2)[OF cs(2) this, of fst] show ?thesis by (simp add: nt)
  qed
  from patch assms(2) obtain w3 where
    "k_patch K name ns (PDict [(''spec'', PDict [(''template'', t)])]) True w2 = (Reply (), w3)"
    "k_patch K name ns (PDict [(''spec'', PDict [(''template'', t)])]) False w3 = (Reply (), w')"
    by (auto simp: nt with_header_def patch_deployment_def dest!: dry_then_apply_applied
        split: sum.splits prod.splits)
  with dep cur rsl r max show ?thesis by (auto simp: Let_def)
qed

text \<open>No client call raises the model's own \<open>Out_Of_Fuel\<close>.\<close>

definition real_errors :: "'w kube \<Rightarrow> bool" where
  "real_errors K \<longleftrightarrow>
     (\<forall>w. k_token K w \<noteq> Inl Out_Of_Fuel) \<and>
     (\<forall>name ns body dry w. fst (k_scale K name ns body dry w) \<noteq> Raised Out_Of_Fuel)"

lemma api_client_real: "real_errors K \<Longrightarrow> api_client K w \<noteq> Inl Out_Of_Fuel"
  by (auto simp: real_errors_def api_client_def check_token_expiry_def split: sum.splits option.splits)

lemma scale_deployment_real:
  assumes "real_errors K"
  shows "fst (scale_deployment K name n ns w) \<noteq> Inl Out_Of_Fuel"
proof -
  have "fst (k_scale K name ns b d v) \<noteq> Raised Out_Of_Fuel" for b d v
    using assms by (simp add: real_errors_def)
  then have "k_scale K name ns b d v \<noteq> (Raised Out_Of_Fuel, v')" for b d v v' by (metis fst_conv)
  then show ?thesis
    using api_client_real[OF assms, of w]
    by (auto simp: scale_deployment_def with_header_def dry_then_apply_def
        split: sum.splits prod.splits reply.splits)
qed

lemma wait_for_pod_count_fuel:
  assumes "clock_ok K" "real_errors K" "31 \<le> fuel" "t \<le> 60"
  shows "fst (wait_for_pod_count K fuel name ns n t w) \<noteq> Inl Out_Of_Fuel"
proof (cases "api_client K w")
  case (Inl e)
  with api_client_real[OF assms(2), of w] show ?thesis by (auto simp: wait_for_pod_count_def)
next
  case (Inr u)
  obtain f where f: "fuel = Suc f" "30 \<le> f" using assms(3) by (cases fuel) auto
  then have "t \<le> 2 * rat_of_nat f"
    using assms(4) of_nat_mono[of 30 f, where 'a = rat] by simp
  with wait_for_pod_count_returns[OF assms(1), of w t f] Inr f show ?thesis by simp
qed

lemma scale_back_up_fuel:
  assumes "clock_ok K" "real_errors K" "31 \<le> fuel"
  shows "fst (scale_back_up K fuel name ns n P w) \<noteq> Inl Out_Of_Fuel"
proof -
  have "scale_deployment K name n ns w \<noteq> (Inl Out_Of_Fuel, v)" for v
    using scale_deployment_real[OF assms(2), of name n ns w] by (metis fst_conv)
  moreover have "wait_for_pod_count K fuel name ns n pod_start_timeout_s u \<noteq> (Inl Out_Of_Fuel, v)" for u v
    using wait_for_pod_count_fuel[OF assms, of pod_start_timeout_s name ns n u]
    by (metis fst_conv order_refl pod_start_timeout_s_def)
  ultimately show ?thesis
    by (auto simp: scale_back_up_def Let_def split: sum.splits prod.splits bool.splits)
qed

section \<open>A small cluster for the examples\<close>

text \<open>The world: the clock, the number of running pods, the number of dry runs so far. A scale
  takes effect at once.\<close>

type_synonym demo_world = "rat \<times> nat \<times> nat"

definition demo_pod :: pod where
  "demo_pod = \<lparr>pod_name = ''p'', pod_phase = ''Running'', pod_containers = []\<rparr>"

fun demo_scale :: "pyval \<Rightarrow> bool \<Rightarrow> demo_world \<Rightarrow> unit reply \<times> demo_world" where
  "demo_scale (PDict [(_, PDict [(_, PInt n)])]) dry (t, pods, runs) =
     (Reply (), if dry then (t, pods, Suc runs) else (t, nat n, runs))"
| "demo_scale _ dry w = (Api_Error ''422'', w)"

definition demo_kube :: "demo_world kube" where
  "demo_kube = \<lparr>k_token = \<lambda>_. Inr None, k_now = fst, k_isotime = \<lambda>_. [],
     k_sleep = \<lambda>s (t, w). (t + s, w),
     k_patch = \<lambda>_ _ _ dry (t, p, n). (Reply (), if dry then (t, p, Suc n) else (t, p, n)),
     k_scale = \<lambda>_ _ body dry w. demo_scale body dry w,
     k_resize = \<lambda>_ _ _ _ w. (Api_Error ''404'', w),
     k_pods = \<lambda>_ _ w. (Reply (replicate (fst (snd w)) demo_pod), w),
     k_deployment = \<lambda>_ _ w. (Reply [(revision_key, ''3'')], w),
     k_replica_sets = \<lambda>_ _ w. (Reply
        [\<lparr>rs_annotations = [(revision_key, ''2'')], rs_template = PStr ''old''\<rparr>], w)\<rparr>"

lemma demo_kube_simps [simp]:
  "api_client demo_kube w = Inr ()" "k_now demo_kube = fst" "k_isotime demo_kube w = []"
  "k_scale demo_kube a b body dry w = demo_scale body dry w"
  "k_pods demo_kube a b w = (Reply (replicate (fst (snd w)) demo_pod), w)"
  by (simp_all add: demo_kube_def api_client_def check_token_expiry_def)

lemma running_demo [simp]: "running_pods (replicate n demo_pod) = replicate n demo_pod"
  by (simp add: running_pods_def demo_pod_def)

lemma demo_clock_ok: "clock_ok demo_kube"
  by (auto simp: clock_ok_def demo_kube_def)

section \<open>Properties\<close>

text \<open>An action that is a dry run and a call makes the real call only after the server
  accepted the dry run, reports success only when both were accepted, and otherwise leaves
  the cluster as the refused dry run left it.\<close>

theorem dry_run_guards_call:
  "let (r, w') = dry_then_apply K call w;
       (dry, w1) = call True w; (real, w2) = call False w1
   in (if api_client K w \<noteq> Inr () then w' = w
       else if dry = Reply () then w' = w2 else w' = w1)
    \<and> (case r of Inl _ \<Rightarrow> True
       | Inr d \<Rightarrow> api_client K w = Inr () \<and>
           is_applied d = (dry = Reply () \<and> real = Reply ()))"
  by (cases "call True w"; cases "call False (snd (call True w))")
    (auto simp: dry_then_apply_def split: sum.splits reply.splits)

text \<open>C24: the disk-full fix reports success only if the scale to zero was accepted (dry run
  and call), then no Running pod was left, then the scale back up was accepted, and at the
  end exactly the requested number of pods was Running.\<close>

theorem restore_success_means_replaced:
  assumes "restore_from_disk_full K fuel name ns n P w = (Inr d, P', w')" "is_applied d"
  shows "\<exists>w1 w2 w3 w4 w5 w6 w7 ps ps'.
           scale_call K name ns (PInt 0) True w = (Reply (), w1) \<and>
           scale_call K name ns (PInt 0) False w1 = (Reply (), w2) \<and>
           k_pods K ns name w3 = (Reply ps, w4) \<and> running_pods ps = [] \<and>
           scale_call K name ns n True w4 = (Reply (), w5) \<and>
           scale_call K name ns n False w5 = (Reply (), w6) \<and>
           k_pods K ns name w7 = (Reply ps', w') \<and> count_eq (length (running_pods ps')) n"
proof -
  from restore_applied[OF assms] obtain a b c down up where
    "scale_deployment K name (PInt 0) ns w = (Inr down, a)" "is_applied down" and
    gone: "wait_for_pod_count K fuel name ns (PInt 0) pod_terminate_timeout_s a = (Inr True, b)" and
    "scale_deployment K name n ns b = (Inr up, c)" "is_applied up" and
    started: "wait_for_pod_count K fuel name ns n pod_start_timeout_s c = (Inr True, w')" by blast
  with scale_deployment_applied[of K name "PInt 0" ns w down a] scale_deployment_applied[of K name n ns b up c]
    wait_for_pod_count_true[OF gone] wait_for_pod_count_true[OF started]
  show ?thesis by simp blast
qed

lemma restore_success_means_replaced_witness:
  "\<exists>d P'. restore_from_disk_full demo_kube 3 (PStr ''queue-master'') (PStr ''sock-shop'') (PInt 1)
      [] (0, 1, 0) = (Inr d, P', (0, 1, 2)) \<and> is_applied d \<and>
      (\<exists>w ps. k_pods demo_kube (PStr ''sock-shop'') (PStr ''queue-master'') w = (Reply ps, (0, 1, 2))
         \<and> count_eq (length (running_pods ps)) (PInt 1))"
proof -
  have scale: "scale_deployment demo_kube name (PInt m) ns (t, k, r) =
      (Inr ([(''action'', PStr ''scale_deployment''), (''target'', name), (''replicas'', PInt m),
             (''namespace'', ns)] @ call_result True True PNone), (t, nat m, Suc r))" for name m ns t k r
    by (simp add: scale_deployment_def dry_then_apply_def)
  have wait: "wait_for_pod_count demo_kube 3 name ns (PInt (int k)) 60 (t, k, r) = (Inr True, (t, k, r))"
    for name ns t k r by (simp add: wait_for_pod_count_def numeral_3_eq_3)
  from restore_scales_back[of "PStr ''queue-master''" "PStr ''sock-shop''" demo_kube "(0, 1, 0)" _ "(0, 0, 1)"
      3 True "(0, 0, 1)" "PInt 1" _ "(0, 1, 2)" True "(0, 1, 2)" "[]"]
    scale wait[of _ _ 0] wait[of _ _ 1]
  obtain d P' where r: "restore_from_disk_full demo_kube 3 (PStr ''queue-master'') (PStr ''sock-shop'')
      (PInt 1) [] (0, 1, 0) = (Inr d, P', (0, 1, 2))" and a: "is_applied d"
    by (fastforce simp: pod_terminate_timeout_s_def pod_start_timeout_s_def)
  from restore_success_means_replaced[OF r a] r a show ?thesis by blast
qed

text \<open>Once the scale to zero is applied and the wait has answered, in time or not, the
  deployment is scaled back up: the run goes on exactly as \<open>scale_back_up\<close>, and reports
  success iff the old pod was gone and the scale back up succeeded.\<close>

theorem restore_always_scales_back_up:
  assumes "hashable name" "hashable ns"
    and "scale_deployment K name (PInt 0) ns w = (Inr down, w1)" "is_applied down"
    and "wait_for_pod_count K fuel name ns (PInt 0) pod_terminate_timeout_s w1 = (Inr gone, w2)"
  shows "\<exists>P1 r P3 w3. scale_back_up K fuel name ns n P1 w2 = (r, P3, w3) \<and>
           (\<forall>e. r = Inl e \<longrightarrow> restore_from_disk_full K fuel name ns n P w = (Inl e, P3, w3)) \<and>
           (\<forall>up. r = Inr up \<longrightarrow>
              (\<exists>d P4. restore_from_disk_full K fuel name ns n P w = (Inr d, P4, w3) \<and>
                     is_applied d = (gone \<and> is_applied up)))"
proof -
  let ?P1 = "record_step name ns ''waiting_for_termination'' (if gone then ''done'' else ''timed_out'')
    PNone (k_isotime K w2)
    (record_step name ns ''waiting_for_termination'' ''in_progress'' PNone (k_isotime K w1)
      (record_step name ns ''scaling_down'' ''done'' PNone (k_isotime K w1)
        (record_step name ns ''scaling_down'' ''in_progress'' PNone (k_isotime K w)
          (reset_progress name ns P))))"
  obtain r P3 w3 where u: "scale_back_up K fuel name ns n ?P1 w2 = (r, P3, w3)"
    by (cases "scale_back_up K fuel name ns n ?P1 w2")
  show ?thesis
    by (intro exI[of _ ?P1] exI[of _ r] exI[of _ P3] exI[of _ w3] conjI u; cases r; cases gone)
      (use assms u in \<open>simp_all add: restore_from_disk_full_def Let_def is_applied_def[symmetric]\<close>)
qed

lemma restore_always_scales_back_up_witness:
  "\<exists>r P'. restore_from_disk_full demo_kube 3 (PStr ''q'') (PStr ''s'') (PInt 1) [] (0, 1, 0)
            = (r, P', (0, 1, 2))"
proof -
  have scale: "scale_deployment demo_kube name (PInt m) ns (t, k, r) =
      (Inr ([(''action'', PStr ''scale_deployment''), (''target'', name), (''replicas'', PInt m),
             (''namespace'', ns)] @ call_result True True PNone), (t, nat m, Suc r))" for name m ns t k r
    by (simp add: scale_deployment_def dry_then_apply_def)
  have wait: "wait_for_pod_count demo_kube 3 name ns (PInt (int k)) 60 (t, k, r) = (Inr True, (t, k, r))"
    for name ns t k r by (simp add: wait_for_pod_count_def numeral_3_eq_3)
  have back_up: "\<exists>up P3. scale_back_up demo_kube 3 (PStr ''q'') (PStr ''s'') (PInt 1) P1 (0, 0, 1)
      = (Inr up, P3, (0, 1, 2))" for P1
    using wait[of _ _ 1] by (simp add: scale_back_up_def scale pod_start_timeout_s_def Let_def)
  have down: "scale_deployment demo_kube (PStr ''q'') (PInt 0) (PStr ''s'') (0, 1, 0) =
      (Inr ([(''action'', PStr ''scale_deployment''), (''target'', PStr ''q''), (''replicas'', PInt 0),
             (''namespace'', PStr ''s'')] @ call_result True True PNone), (0, 0, 1))"
    by (simp add: scale)
  have gone: "wait_for_pod_count demo_kube 3 (PStr ''q'') (PStr ''s'') (PInt 0) pod_terminate_timeout_s
      (0, 0, 1) = (Inr True, (0, 0, 1))"
    using wait[of _ _ 0] by (simp add: pod_terminate_timeout_s_def)
  from restore_always_scales_back_up[OF _ _ down _ gone, where n = "PInt 1" and P = "[]"]
  obtain P1 r P3 w3 where u: "scale_back_up demo_kube 3 (PStr ''q'') (PStr ''s'') (PInt 1) P1 (0, 0, 1) = (r, P3, w3)"
    and ok: "\<And>up. r = Inr up \<Longrightarrow> \<exists>d P4. restore_from_disk_full demo_kube 3 (PStr ''q'') (PStr ''s'')
      (PInt 1) [] (0, 1, 0) = (Inr d, P4, w3)" by (simp del: One_nat_def) blast
  from back_up[of P1] u ok show ?thesis by (simp del: One_nat_def) blast
qed

text \<open>An exception in the termination wait leaves the function: the run ends in the state
  the wait left, with the scale to zero applied and no call to scale back up.\<close>

theorem restore_wait_exception_leaves_it_down:
  assumes "hashable name" "hashable ns"
    and "scale_deployment K name (PInt 0) ns w = (Inr down, w1)" "is_applied down"
    and "k_now K w1 < k_now K w1 + pod_terminate_timeout_s" "0 < fuel" "api_client K w1 = Inr ()"
    and "k_pods K ns name w1 = (Api_Error msg, w2)"
  shows "\<exists>P'. restore_from_disk_full K fuel name ns n P w = (Inl ApiException, P', w2)"
proof (rule restore_wait_raises[OF assms(1-4)])
  show "wait_for_pod_count K fuel name ns (PInt 0) pod_terminate_timeout_s w1 = (Inl ApiException, w2)"
    using assms(5-8) by (cases fuel) (simp_all add: wait_for_pod_count_def)
qed

lemma restore_wait_exception_leaves_it_down_witness:
  "\<exists>P'. restore_from_disk_full (demo_kube\<lparr>k_pods := \<lambda>_ _ w. (Api_Error ''500'', w)\<rparr>) 31
      (PStr ''q'') (PStr ''s'') (PInt 1) [] (0, 1, 0) = (Inl ApiException, P', (0, 0, 1))"
proof -
  let ?K = "demo_kube\<lparr>k_pods := \<lambda>_ _ w. (Api_Error ''500'', w)\<rparr>"
  have "api_client ?K v = Inr ()" for v by (simp add: api_client_def check_token_expiry_def demo_kube_def)
  moreover have "scale_deployment ?K (PStr ''q'') (PInt 0) (PStr ''s'') (0, 1, 0) =
      (Inr ([(''action'', PStr ''scale_deployment''), (''target'', PStr ''q''), (''replicas'', PInt 0),
             (''namespace'', PStr ''s'')] @ call_result True True PNone), (0, 0, 1))"
    using calculation by (simp add: scale_deployment_def dry_then_apply_def)
  ultimately show ?thesis
    by (intro restore_wait_exception_leaves_it_down) (auto simp: pod_terminate_timeout_s_def)
qed

text \<open>The disk-full fix returns: with a clock that sleeping advances and a client that
  raises only real exceptions, 31 polls per wait are enough (60 seconds, 2 per poll).\<close>

theorem restore_returns:
  assumes "clock_ok K" "real_errors K" "31 \<le> fuel"
  shows "fst (restore_from_disk_full K fuel name ns n P w) \<noteq> Inl Out_Of_Fuel"
proof -
  have down: "scale_deployment K name (PInt 0) ns w \<noteq> (Inl Out_Of_Fuel, v)" for v
    using scale_deployment_real[OF assms(2), of name "PInt 0" ns w] by (metis fst_conv)
  have wait: "wait_for_pod_count K fuel name ns (PInt 0) pod_terminate_timeout_s u \<noteq> (Inl Out_Of_Fuel, v)"
    for u v
    using wait_for_pod_count_fuel[OF assms, of pod_terminate_timeout_s name ns "PInt 0" u]
    by (metis fst_conv order_refl pod_terminate_timeout_s_def)
  have up: "scale_back_up K fuel name ns n Q u \<noteq> (Inl Out_Of_Fuel, v)" for Q u v
    using scale_back_up_fuel[OF assms, of name ns n Q u] by (metis fst_conv)
  show ?thesis
    using down wait up
    by (auto simp: restore_from_disk_full_def Let_def split: sum.splits prod.splits)
qed

lemma restore_returns_witness:
  "fst (restore_from_disk_full demo_kube 31 (PStr ''q'') (PStr ''s'') (PInt 1) [] (0, 9, 0)) \<noteq> Inl Out_Of_Fuel"
proof (rule restore_returns[OF demo_clock_ok])
  have "fst (demo_scale b d w) \<noteq> Raised Out_Of_Fuel" for b d w
    by (cases "(b, d, w)" rule: demo_scale.cases) auto
  then show "real_errors demo_kube" by (simp add: real_errors_def demo_kube_def)
qed simp

text \<open>A successful rollback patched the deployment with the template of a replica set whose
  revision is below the current one and the largest such.\<close>

theorem rollback_takes_latest_previous:
  assumes "rollback_deployment K name ns w = (Inr d, w')" "is_applied d"
  shows "\<exists>ann cur rs r n w1 w2 w3.
           k_deployment K name ns w = (Reply ann, w1) \<and>
           py_int (case map_of ann revision_key of None \<Rightarrow> ''0'' | Some s \<Rightarrow> s) = Inr cur \<and>
           k_replica_sets K ns name w1 = (Reply rs, w2) \<and>
           r \<in> set rs \<and> has_revision r n \<and> n < cur \<and>
           (\<forall>r' \<in> set rs. \<forall>m. has_revision r' m \<and> m < cur \<longrightarrow> m \<le> n) \<and>
           (let body = PDict [(''spec'', PDict [(''template'', rs_template r)])]
            in k_patch K name ns body True w2 = (Reply (), w3) \<and>
               k_patch K name ns body False w3 = (Reply (), w'))"
  using rollback_applied[OF assms] by blast

lemma rollback_takes_latest_previous_witness:
  "\<exists>n. has_revision \<lparr>rs_annotations = [(revision_key, ''2'')], rs_template = PStr ''old''\<rparr> n \<and> n < 3"
proof -
  have ints: "py_int ''3'' = Inr 3" "py_int ''2'' = Inr 2"
    by (simp_all add: py_int_def py_strip_def is_space_def dec_nat_def digit_val_def is_digit_def Let_def)
  have run: "rollback_deployment demo_kube (PStr ''front-end'') (PStr ''sock-shop'') (0, 1, 0) =
      (Inr (action_header ''rollback_deployment'' (PStr ''front-end'') (PStr ''sock-shop'') @
            call_result True True PNone), (0, 1, 1))"
    using ints
    by (simp add: rollback_deployment_def patch_deployment_def dry_then_apply_def Let_def
        demo_kube_def api_client_def check_token_expiry_def)
  have "k_deployment demo_kube = (\<lambda>_ _ w. (Reply [(revision_key, ''3'')], w))"
    "k_replica_sets demo_kube = (\<lambda>_ _ w. (Reply
        [\<lparr>rs_annotations = [(revision_key, ''2'')], rs_template = PStr ''old''\<rparr>], w))"
    by (simp_all add: demo_kube_def)
  with rollback_takes_latest_previous[OF run] ints show ?thesis
    by (simp add: fun_eq_iff) blast
qed

end
