(* ===== verification/Carts_Rotation.thy ===== *)
theory Carts_Rotation
  imports Cage_Actions
begin

text \<open>
  \<^verbatim>\<open>p3_trust_action/carts_rotation.py\<close>: the selector of the carts Service is moved to the
  warm standby after a restart and back afterwards. Every failure of a client call is
  caught and answered with "unknown", "not ready" or "did not flip".
\<close>

text \<open>The three calls: the selector's \<^verbatim>\<open>name\<close>, the container statuses (name, ready) of each
  Running pod of a label, the patch of the selector.\<close>

record 'w rotation_api =
  ra_selector :: "'w \<Rightarrow> string option reply \<times> 'w"
  ra_pods :: "string \<Rightarrow> 'w \<Rightarrow> (string \<times> bool) list list reply \<times> 'w"
  ra_patch :: "string \<Rightarrow> 'w \<Rightarrow> unit reply \<times> 'w"

definition carts_label :: string where "carts_label = ''carts''"
definition carts_warm_label :: string where "carts_warm_label = ''carts-warm''"

definition get_active_label :: "'w kube \<Rightarrow> 'w rotation_api \<Rightarrow> 'w \<Rightarrow> string option \<times> 'w" where
  "get_active_label K R w =
     (case api_client K w of Inl _ \<Rightarrow> (None, w)
      | Inr _ \<Rightarrow> (case ra_selector R w of (Reply l, w1) \<Rightarrow> (l, w1) | (_, w1) \<Rightarrow> (None, w1)))"

definition is_pod_ready :: "'w kube \<Rightarrow> 'w rotation_api \<Rightarrow> string \<Rightarrow> 'w \<Rightarrow> bool \<times> 'w" where
  "is_pod_ready K R label w =
     (case api_client K w of Inl _ \<Rightarrow> (False, w)
      | Inr _ \<Rightarrow>
          (case ra_pods R label w of
             (Reply [], w1) \<Rightarrow> (False, w1)
           | (Reply (p # _), w1) \<Rightarrow> (list_ex (\<lambda>(n, ready). n = ''carts'' \<and> ready) p, w1)
           | (_, w1) \<Rightarrow> (False, w1)))"

definition patch_selector :: "'w kube \<Rightarrow> 'w rotation_api \<Rightarrow> string \<Rightarrow> 'w \<Rightarrow> bool \<times> 'w" where
  "patch_selector K R label w =
     (case api_client K w of Inl _ \<Rightarrow> (False, w)
      | Inr _ \<Rightarrow> (case ra_patch R label w of (Reply _, w1) \<Rightarrow> (True, w1) | (_, w1) \<Rightarrow> (False, w1)))"

text \<open>\<^verbatim>\<open>flip_to_warm\<close> and \<^verbatim>\<open>flip_to_carts\<close> differ in the label only.\<close>

definition flip_to :: "'w kube \<Rightarrow> 'w rotation_api \<Rightarrow> string \<Rightarrow> 'w \<Rightarrow> bool \<times> 'w" where
  "flip_to K R label w =
     (case get_active_label K R w of (l, w1) \<Rightarrow>
        if l = Some label then (True, w1)
        else case is_pod_ready K R label w1 of (ready, w2) \<Rightarrow>
               if \<not> ready then (False, w2) else patch_selector K R label w2)"

definition flip_to_warm :: "'w kube \<Rightarrow> 'w rotation_api \<Rightarrow> 'w \<Rightarrow> bool \<times> 'w" where
  "flip_to_warm K R w = flip_to K R carts_warm_label w"

definition flip_to_carts :: "'w kube \<Rightarrow> 'w rotation_api \<Rightarrow> 'w \<Rightarrow> bool \<times> 'w" where
  "flip_to_carts K R w = flip_to K R carts_label w"

text \<open>The flip reports success only for a selector seen in place, or patched right after the
  standby was seen ready.\<close>

lemma flip_to_true:
  assumes "flip_to K R label w = (True, w')"
  shows "ra_selector R w = (Reply (Some label), w') \<or>
    (\<exists>w1 w2 p ps. ra_pods R label w1 = (Reply (p # ps), w2) \<and>
       (\<exists>n. (n, True) \<in> set p \<and> n = ''carts'') \<and> ra_patch R label w2 = (Reply (), w'))"
  using assms
  by (auto simp: flip_to_def get_active_label_def is_pod_ready_def patch_selector_def list_ex_iff
      split: sum.splits prod.splits reply.splits list.splits if_splits; blast)

section \<open>Properties\<close>

text \<open>The flip answers True only if the selector was seen to have the label already, or if
  the first Running pod of that label was seen with its carts container ready and the
  patch was accepted right after.\<close>

theorem flip_only_onto_ready:
  assumes "flip_to K R label w = (True, w')"
  shows "ra_selector R w = (Reply (Some label), w') \<or>
    (\<exists>w1 w2 p ps. ra_pods R label w1 = (Reply (p # ps), w2) \<and> (''carts'', True) \<in> set p \<and>
       ra_patch R label w2 = (Reply (), w'))"
  using flip_to_true[OF assms] by blast

lemma flip_only_onto_ready_witness:
  "\<exists>R :: demo_world rotation_api. flip_to demo_kube R carts_warm_label (0, 1, 0) = (True, (0, 1, 7)) \<and>
     (''carts'', True) \<in> set [(''carts'', True)]"
proof -
  let ?R = "\<lparr>ra_selector = \<lambda>w. (Reply (Some ''carts''), w),
      ra_pods = \<lambda>_ w. (Reply [[(''carts'', True)]], w),
      ra_patch = \<lambda>_ (t, p, _). (Reply (), (t, p, 7))\<rparr>"
  have f: "flip_to demo_kube ?R carts_warm_label (0, 1, 0) = (True, (0, 1, 7))"
    by (simp add: flip_to_def get_active_label_def is_pod_ready_def patch_selector_def
        carts_warm_label_def)
  from flip_only_onto_ready[OF f] f show ?thesis by (intro exI[of _ ?R]) simp
qed

end
