(* ===== verification/Act_Endpoint.thy ===== *)
theory Act_Endpoint
  imports Dispatch_Gate Action_Proposer Circuit_Breaker Carts_Rotation
begin

text \<open>
  \<^verbatim>\<open>p3_trust_action/p3_agent.py\<close>, phase 2: \<^verbatim>\<open>/act\<close>. The LLM's background proposal, the
  ground-truth safety net, the trusted LLM dispatch behind its two vetoes, and the
  deterministic dispatch, all real dispatches through the gate. An exception is an HTTP
  500: \<open>Inl\<close>, with the state it leaves.
\<close>

section \<open>The production action map\<close>

definition fix_params :: "string \<Rightarrow> pydict" where
  "fix_params c =
     (if c = ''oom'' then [(''container'', PStr ''catalogue''), (''limit'', PStr ''400Mi'')]
      else if c = ''disk-full'' then [(''replicas'', PInt 1)]
      else if c = ''cpu-throttling'' then [(''container'', PStr ''user''), (''limit'', PStr ''600m'')]
      else if c = ''under-provisioned-replicas'' then [(''replicas'', PInt 3)]
      else [])"

definition production_fix :: "string \<Rightarrow> string \<Rightarrow> string \<Rightarrow> pydict" where
  "production_fix c target ns = [(''name'', PStr target), (''namespace'', PStr ns)] @ fix_params c"

definition production_tool :: "string \<Rightarrow> string option" where
  "production_tool = map_of
     [(''crash-loop'', ''restart_deployment''), (''oom'', ''patch_memory_limit''),
      (''disk-full'', ''restore_from_disk_full''), (''cpu-throttling'', ''patch_cpu_limit''),
      (''under-provisioned-replicas'', ''scale_deployment''), (''bad-rollout'', ''rollback_deployment'')]"

definition production_action_map :: action_map where
  "production_action_map c = map_option (\<lambda>t. (t, production_fix c)) (production_tool c)"

section \<open>State and environment\<close>

text \<open>Outside this repository: the cluster client, the LLM, what \<^verbatim>\<open>kubectl get\<close> prints.\<close>

record 'w env =
  ev_kube :: "'w kube"
  ev_rotation :: "'w rotation_api"
  ev_fuel :: nat
  ev_llm :: "'w llm_call"
  ev_cpu :: "'w \<Rightarrow> kube_cpu"
  ev_replicas :: "'w \<Rightarrow> string \<Rightarrow> string \<Rightarrow> string"

record 'w sys =
  s_db :: db
  s_progress :: progress
  s_world :: 'w

record act_request =
  ar_target :: string
  ar_namespace :: string
  ar_predicted :: string
  ar_mode :: string
  ar_llm_provider :: "string option"
  ar_llm_model :: "string option"
  ar_llm_diagnosis :: "string option"
  ar_llm_confidence :: "rat option"
  ar_llm_reasoning :: "ftext option"
  ar_tool_output :: "tool_output option"
  ar_episode :: "string option"
  ar_actual :: "string option"

record act_response =
  rs_taken :: "string option"
  rs_result :: "pydict option"
  rs_source :: "string option"
  rs_proposal :: "proposal option"
  rs_gate :: "gate_substitution option"

definition no_action :: "proposal option \<Rightarrow> act_response" where
  "no_action p = \<lparr>rs_taken = None, rs_result = None, rs_source = None, rs_proposal = p, rs_gate = None\<rparr>"

text \<open>One call into the cage on the whole state.\<close>

definition run_action :: "'w env \<Rightarrow> string \<Rightarrow> pydict \<Rightarrow> 'w sys \<Rightarrow> pydict res \<times> 'w sys" where
  "run_action E tool params s =
     (case call_action (ev_kube E) (ev_fuel E) tool params (s_progress s) (s_world s) of
        (r, P, w) \<Rightarrow> (r, s\<lparr>s_progress := P, s_world := w\<rparr>))"

definition maybe_flip_carts_warm :: "'w env \<Rightarrow> string \<Rightarrow> 'w sys \<Rightarrow> 'w sys" where
  "maybe_flip_carts_warm E tool s =
     (if tool = ''restart_deployment''
      then s\<lparr>s_world := snd (flip_to_warm (ev_kube E) (ev_rotation E) (s_world s))\<rparr> else s)"

section \<open>Dispatch through the gate\<close>

definition dispatch_with_gate ::
    "'w env \<Rightarrow> int \<Rightarrow> string \<Rightarrow> string \<Rightarrow> pydict \<Rightarrow> string \<Rightarrow> act_request \<Rightarrow> proposal option \<Rightarrow> 'w sys
       \<Rightarrow> act_response res \<times> 'w sys" where
  "dispatch_with_gate E now predicted tool params source req prp s =
     (case (case ar_actual req of None \<Rightarrow> Dispatch_As_Is
            | Some actual \<Rightarrow>
                gate_check (ev_cpu E (s_world s)) production_action_map predicted actual tool params
                  (ar_target req) (ar_namespace req) (ar_tool_output req)) of
        Dispatch_As_Is \<Rightarrow>
          (case run_action E tool params s of
             (Inl e, s1) \<Rightarrow> (Inl e, s1)
           | (Inr r, s1) \<Rightarrow>
               (Inr \<lparr>rs_taken = Some tool, rs_result = Some r, rs_source = Some source,
                     rs_proposal = prp, rs_gate = None\<rparr>, s1))
      | Substituted tool' params' why \<Rightarrow>
          (let actual = (case ar_actual req of None \<Rightarrow> '''' | Some a \<Rightarrow> a);
               s1 = s\<lparr>s_db := log_intervention (ar_episode req) predicted actual tool tool' why now
                                (s_db s)\<rparr>
           in case run_action E tool' params' s1 of
                (Inl e, s2) \<Rightarrow> (Inl e, s2)
              | (Inr r, s2) \<Rightarrow>
                  (Inr \<lparr>rs_taken = Some tool', rs_result = Some r, rs_source = Some ''gate_substituted'',
                        rs_proposal = prp,
                        rs_gate = Some \<lparr>gs_predicted = predicted, gs_actual = actual,
                          gs_proposed_tool = Some tool, gs_proposed_params = Some params,
                          gs_substituted_tool = tool', gs_substituted_params = params',
                          gs_reason = why\<rparr>\<rparr>, s2)))"

text \<open>A dispatch and the cosmetic flip after it.\<close>

definition dispatch_and_flip ::
    "'w env \<Rightarrow> int \<Rightarrow> string \<Rightarrow> string \<Rightarrow> pydict \<Rightarrow> string \<Rightarrow> act_request \<Rightarrow> proposal option \<Rightarrow> 'w sys
       \<Rightarrow> act_response res \<times> 'w sys" where
  "dispatch_and_flip E now predicted tool params source req prp s =
     (case dispatch_with_gate E now predicted tool params source req prp s of
        (Inl e, s1) \<Rightarrow> (Inl e, s1)
      | (Inr r, s1) \<Rightarrow>
          (Inr r, case rs_taken r of None \<Rightarrow> s1 | Some t \<Rightarrow> maybe_flip_carts_warm E t s1))"

section \<open>The three parts of /act\<close>

text \<open>Part 1: the background proposal, for an LLM diagnosis whose own class may act.\<close>

definition act_proposal :: "'w env \<Rightarrow> act_request \<Rightarrow> 'w sys \<Rightarrow> proposal option res \<times> 'w sys" where
  "act_proposal E req s =
     (case ar_llm_diagnosis req of
        None \<Rightarrow> (Inr None, s)
      | Some c \<Rightarrow>
          if deterministic_action_map c = None \<or> fst (get_trust_state (s_db s) c) \<noteq> Can_Act
          then (Inr None, s)
          else (case propose_action (ev_llm E) (ev_replicas E (s_world s)) c
                       \<lparr>dg_diagnosis = c, dg_confidence = ar_llm_confidence req,
                        dg_reasoning = ar_llm_reasoning req\<rparr>
                       (ar_target req) (ar_namespace req) (ar_llm_provider req) (ar_llm_model req)
                       (ar_tool_output req) (s_world s) of
                  (Inl e, w) \<Rightarrow> (Inl e, s\<lparr>s_world := w\<rparr>)
                | (Inr p, w) \<Rightarrow> (Inr (Some p), s\<lparr>s_world := w\<rparr>)))"

text \<open>Trusted and not on hold: the gate on every real dispatch.\<close>

definition may_act :: "db \<Rightarrow> string \<Rightarrow> bool" where
  "may_act d c \<longleftrightarrow> fst (get_trust_state d c) = Can_Act \<and> \<not> active (get_safety_hold d c)"

text \<open>Part 2: no action was proposed; the real fault's own fix, when its class may act.\<close>

definition act_safety_net ::
    "'w env \<Rightarrow> int \<Rightarrow> act_request \<Rightarrow> proposal option \<Rightarrow> 'w sys \<Rightarrow> act_response res \<times> 'w sys" where
  "act_safety_net E now req prp s =
     (case ar_actual req of
        None \<Rightarrow> (Inr (no_action prp), s)
      | Some actual \<Rightarrow>
          if actual = ar_predicted req then (Inr (no_action prp), s)
          else (case production_action_map actual of
                  None \<Rightarrow> (Inr (no_action prp), s)
                | Some (tool, mk) \<Rightarrow>
                    if \<not> may_act (s_db s) actual then (Inr (no_action prp), s)
                    else
                      let params = mk (ar_target req) (ar_namespace req);
                          why = Ground_Truth_Net (ar_predicted req) actual;
                          s1 = s\<lparr>s_db := log_intervention (ar_episode req) (ar_predicted req) actual
                                           ''none'' tool why now (s_db s)\<rparr>
                      in case run_action E tool params s1 of
                           (Inl e, s2) \<Rightarrow> (Inl e, s2)
                         | (Inr r, s2) \<Rightarrow>
                             (Inr \<lparr>rs_taken = Some tool, rs_result = Some r,
                                   rs_source = Some ''ground_truth_safety_net'', rs_proposal = prp,
                                   rs_gate = Some \<lparr>gs_predicted = ar_predicted req, gs_actual = actual,
                                     gs_proposed_tool = None, gs_proposed_params = None,
                                     gs_substituted_tool = tool, gs_substituted_params = params,
                                     gs_reason = why\<rparr>\<rparr>,
                              maybe_flip_carts_warm E tool s2)))"

text \<open>Does the LLM's own proposal drive this dispatch? Both trust dimensions, the tool veto
  and the magnitude veto.\<close>

definition llm_dispatch ::
    "'w env \<Rightarrow> act_request \<Rightarrow> string \<Rightarrow> proposal option \<Rightarrow> 'w sys \<Rightarrow> (string \<times> pydict \<times> string) option" where
  "llm_dispatch E req action prp s =
     (case prp of
        None \<Rightarrow> None
      | Some p \<Rightarrow>
          (case (pr_tool p, pr_params p) of
             (Some t, Some params) \<Rightarrow>
               if ar_mode req = ''llm'' \<and>
                  fst (get_action_trust (s_db s) (ar_predicted req)) = Llm_Can_Act \<and> t = action \<and>
                  fst (check_safe (ev_cpu E (s_world s)) t params (ar_predicted req) (ar_tool_output req))
               then Some (t, params, pr_source p) else None
           | _ \<Rightarrow> None))"

text \<open>Part 3: dispatch for a diagnosis with a fix.\<close>

definition act_dispatch ::
    "'w env \<Rightarrow> int \<Rightarrow> act_request \<Rightarrow> string \<Rightarrow> pydict \<Rightarrow> proposal option \<Rightarrow> 'w sys
       \<Rightarrow> act_response res \<times> 'w sys" where
  "act_dispatch E now req action params prp s =
     (if \<not> may_act (s_db s) (ar_predicted req) then (Inr (no_action prp), s)
      else case llm_dispatch E req action prp s of
             Some (t, ps, source) \<Rightarrow>
               dispatch_and_flip E now (ar_predicted req) t ps source req prp s
           | None \<Rightarrow>
               dispatch_and_flip E now (ar_predicted req) action params ''deterministic_production''
                 req prp s)"

definition act :: "'w env \<Rightarrow> int \<Rightarrow> act_request \<Rightarrow> 'w sys \<Rightarrow> act_response res \<times> 'w sys" where
  "act E now req s =
     (case act_proposal E req s of
        (Inl e, s1) \<Rightarrow> (Inl e, s1)
      | (Inr prp, s1) \<Rightarrow>
          (case production_action_map (ar_predicted req) of
             None \<Rightarrow> act_safety_net E now req prp s1
           | Some (action, mk) \<Rightarrow>
               act_dispatch E now req action (mk (ar_target req) (ar_namespace req)) prp s1))"

section \<open>Frames\<close>

text \<open>The database after a step: the same, or with rows appended to \<^verbatim>\<open>gate_intervention_log\<close>.\<close>

definition gate_log_only :: "db \<Rightarrow> db \<Rightarrow> bool" where
  "gate_log_only d d' \<longleftrightarrow> (\<exists>rows. length rows \<le> 1 \<and> d' = d\<lparr>gate_log := gate_log d @ rows\<rparr>)"

lemma gate_log_only_refl [simp]: "gate_log_only d d"
  unfolding gate_log_only_def by (rule exI[of _ "[]"]) simp

lemma gate_log_only_log [simp]: "gate_log_only d (log_intervention ep p a t t' why now d)"
  unfolding gate_log_only_def log_intervention_def by (rule exI, rule conjI[rotated], rule refl) simp

lemma run_action_db [simp]: "run_action E tool params s = (r, s') \<Longrightarrow> s_db s' = s_db s"
  by (auto simp: run_action_def split: prod.splits)

lemma maybe_flip_db [simp]: "s_db (maybe_flip_carts_warm E t s) = s_db s"
  by (simp add: maybe_flip_carts_warm_def)

lemma dispatch_with_gate_db:
  "dispatch_with_gate E now c tool params src req prp s = (r, s') \<Longrightarrow> gate_log_only (s_db s) (s_db s')"
  by (auto simp: dispatch_with_gate_def Let_def dest!: run_action_db
      split: gate_result.splits option.splits prod.splits sum.splits)

lemma dispatch_and_flip_db:
  "dispatch_and_flip E now c tool params src req prp s = (r, s') \<Longrightarrow> gate_log_only (s_db s) (s_db s')"
  by (auto simp: dispatch_and_flip_def dest!: dispatch_with_gate_db
      split: option.splits prod.splits sum.splits)

lemma act_proposal_db: "act_proposal E req s = (r, s') \<Longrightarrow> s_db s' = s_db s"
  by (auto simp: act_proposal_def split: option.splits prod.splits sum.splits if_splits)

lemma act_safety_net_db:
  "act_safety_net E now req prp s = (r, s') \<Longrightarrow> gate_log_only (s_db s) (s_db s')"
  by (auto simp: act_safety_net_def Let_def dest!: run_action_db
      split: option.splits prod.splits sum.splits if_splits)

lemma act_dispatch_db:
  "act_dispatch E now req action params prp s = (r, s') \<Longrightarrow> gate_log_only (s_db s) (s_db s')"
  by (auto simp: act_dispatch_def dest!: dispatch_and_flip_db
      split: option.splits prod.splits if_splits)

lemma act_db: "act E now req s = (r, s') \<Longrightarrow> gate_log_only (s_db s) (s_db s')"
  by (auto simp: act_def split: option.splits prod.splits sum.splits
      dest!: act_safety_net_db act_dispatch_db dest: act_proposal_db)

section \<open>The two action maps\<close>

lemma action_maps_agree: "deterministic_action_map = production_action_map"
proof
  fix c
  show "deterministic_action_map c = production_action_map c"
    by (auto simp: deterministic_action_map_def production_action_map_def production_tool_def
        production_fix_def[abs_def] fix_params_def name_ns_def[abs_def] fun_eq_iff)
qed

lemma det_tool_production: "det_tool = production_tool"
  by (rule ext) (simp add: det_tool_def action_maps_agree production_action_map_def option.map_comp comp_def option.map_ident)

section \<open>What a dispatch did\<close>

lemma dispatch_with_gate_taken:
  assumes "dispatch_with_gate E now c tool params src req prp s = (Inr r, s')"
  shows "\<exists>t. rs_taken r = Some t \<and> rs_proposal r = prp \<and>
    ((t = tool \<and> rs_source r = Some src \<and> rs_gate r = None) \<or>
     (\<exists>actual. ar_actual req = Some actual \<and> actual \<noteq> c \<and> production_tool actual = Some t \<and>
        rs_source r = Some ''gate_substituted'' \<and>
        (\<exists>g. rs_gate r = Some g \<and> gs_substituted_params g =
           production_fix actual (ar_target req) (ar_namespace req))))"
proof (cases "case ar_actual req of None \<Rightarrow> Dispatch_As_Is
            | Some actual \<Rightarrow>
                gate_check (ev_cpu E (s_world s)) production_action_map c actual tool params
                  (ar_target req) (ar_namespace req) (ar_tool_output req)")
  case Dispatch_As_Is
  with assms show ?thesis
    by (auto simp: dispatch_with_gate_def split: prod.splits sum.splits)
next
  case (Substituted t' p' why)
  then obtain actual where a: "ar_actual req = Some actual"
    and g: "gate_check (ev_cpu E (s_world s)) production_action_map c actual tool params
              (ar_target req) (ar_namespace req) (ar_tool_output req) = Substituted t' p' why"
    by (auto split: option.splits)
  have "actual \<noteq> c" using g by auto
  moreover have "production_tool actual = Some t'" "p' = production_fix actual (ar_target req) (ar_namespace req)"
    using gate_substitute[OF g] by (auto simp: production_action_map_def)
  ultimately show ?thesis using assms a g
    by (auto simp: dispatch_with_gate_def Let_def split: prod.splits sum.splits)
qed

lemma dispatch_and_flip_taken:
  assumes "dispatch_and_flip E now c tool params src req prp s = (Inr r, s')"
  shows "\<exists>s1. dispatch_with_gate E now c tool params src req prp s = (Inr r, s1)"
  using assms by (auto simp: dispatch_and_flip_def split: prod.splits sum.splits)

lemma no_action_taken [simp]: "rs_taken (no_action p) = None" "rs_gate (no_action p) = None"
    "rs_source (no_action p) = None" "rs_proposal (no_action p) = p" "rs_result (no_action p) = None"
  by (simp_all add: no_action_def)

text \<open>The ways \<open>act\<close> takes an action.\<close>

lemma act_taken_cases:
  assumes "act E now req s = (Inr r, s')" "rs_taken r = Some t"
  obtains
    (net) actual where "production_tool (ar_predicted req) = None" "ar_actual req = Some actual"
      "actual \<noteq> ar_predicted req" "production_tool actual = Some t" "may_act (s_db s) actual"
      "rs_source r = Some ''ground_truth_safety_net''"
  | (llm) s1 prp p ps where "act_proposal E req s = (Inr prp, s1)"
      "may_act (s_db s) (ar_predicted req)"
      "llm_dispatch E req (the (production_tool (ar_predicted req))) prp s1 = Some (p, ps, the (rs_source r))"
      "production_tool (ar_predicted req) = Some t" "rs_gate r = None"
  | (det) "production_tool (ar_predicted req) = Some t" "may_act (s_db s) (ar_predicted req)"
      "rs_source r = Some ''deterministic_production''" "rs_gate r = None"
  | (gate) actual where "may_act (s_db s) (ar_predicted req)" "ar_actual req = Some actual"
      "actual \<noteq> ar_predicted req" "production_tool (ar_predicted req) \<noteq> None"
      "production_tool actual = Some t" "rs_source r = Some ''gate_substituted''"
proof -
  obtain prp s1 where p: "act_proposal E req s = (Inr prp, s1)"
    using assms(1) by (auto simp: act_def split: prod.splits sum.splits)
  have db: "s_db s1 = s_db s" by (rule act_proposal_db[OF p])
  show thesis
  proof (cases "production_tool (ar_predicted req)")
    case None
    then have "act_safety_net E now req prp s1 = (Inr r, s')"
      using assms(1) p by (simp add: act_def production_action_map_def)
    with assms(2) None db show thesis
      by (auto simp: act_safety_net_def Let_def production_action_map_def intro: net
          split: option.splits if_splits prod.splits sum.splits)
  next
    case (Some a)
    let ?params = "production_fix (ar_predicted req) (ar_target req) (ar_namespace req)"
    have d: "act_dispatch E now req a ?params prp s1 = (Inr r, s')"
      using assms(1) p Some by (simp add: act_def production_action_map_def)
    then have may: "may_act (s_db s) (ar_predicted req)"
      using assms(2) db by (auto simp: act_dispatch_def split: if_splits)
    show thesis
    proof (cases "llm_dispatch E req a prp s1")
      case None
      with d may db have "dispatch_and_flip E now (ar_predicted req) a ?params
          ''deterministic_production'' req prp s1 = (Inr r, s')" by (simp add: act_dispatch_def)
      from dispatch_and_flip_taken[OF this] obtain s2 where
        "dispatch_with_gate E now (ar_predicted req) a ?params ''deterministic_production'' req prp s1
          = (Inr r, s2)" by blast
      from dispatch_with_gate_taken[OF this] assms(2) Some may show thesis
        by (auto intro: det gate)
    next
      case (Some l)
      obtain tl ps src where l: "l = (tl, ps, src)" by (cases l)
      with Some have tl: "tl = a"
        by (auto simp: llm_dispatch_def split: option.splits if_splits)
      from d may db Some l have "dispatch_and_flip E now (ar_predicted req) tl ps src req prp s1 = (Inr r, s')"
        by (simp add: act_dispatch_def)
      from dispatch_and_flip_taken[OF this] obtain s2 where
        "dispatch_with_gate E now (ar_predicted req) tl ps src req prp s1 = (Inr r, s2)" by blast
      from dispatch_with_gate_taken[OF this] assms(2) Some may l tl p \<open>production_tool _ = Some a\<close>
      show thesis by (auto intro: llm gate)
    qed
  qed
qed

section \<open>Binding the parameters of an action\<close>

definition binds :: "string \<Rightarrow> pydict \<Rightarrow> bool" where
  "binds t d = (case action_signature t of None \<Rightarrow> False
                | Some (required, defaults) \<Rightarrow> bind_kwargs required defaults d = Inr (d @ defaults))"

lemma production_fix_binds:
  assumes "production_tool c = Some t"
  shows "binds t (production_fix c target ns)"
  using assms
  by (auto simp: production_tool_def binds_def action_signature_def bind_kwargs_def production_fix_def
      fix_params_def split: if_splits)

lemma accepted_required_keys:
  assumes "validate_tool_call (PStr t) (PDict d) = Inr None" "p \<in> fst ` set (tool_schemas t)"
  shows "p \<in> set (List.map fst d)"
proof -
  have "check_schema t (tool_schemas t) d = None"
    using assms(1) by (auto simp: validate_tool_call_def split: if_splits option.splits)
  then have "map_of d p \<noteq> None"
    using assms(2) by (fastforce simp: check_schema_None_iff)
  then show ?thesis by (simp add: map_of_eq_None_iff)
qed

lemma signature_of_schema:
  assumes "t \<in> set allowed_actions"
  shows "\<exists>required defaults. action_signature t = Some (required, defaults) \<and>
     set required = fst ` set (tool_schemas t) \<and> ''namespace'' \<in> fst ` set defaults \<and>
     (t = ''restore_from_disk_full'' \<longrightarrow> ''replicas'' \<in> fst ` set defaults)"
  using assms
  by (simp add: allowed_actions_def; elim disjE; simp add: action_signature_def tool_schemas_def)

lemma accepted_binds:
  assumes "validate_tool_call (PStr t) (PDict d) = Inr None"
  shows "binds t (pin_replicas t d)"
proof -
  have t: "t \<in> set allowed_actions" and w: "well_formed_params t d"
    using assms by (auto simp: accepted_iff)
  have keys: "set (List.map fst d) \<subseteq> insert ''namespace'' (fst ` set (tool_schemas t))"
    using w by (simp add: well_formed_params_def dict_keys_def)
  have req: "fst ` set (tool_schemas t) \<subseteq> set (List.map fst d)"
    using accepted_required_keys[OF assms] by blast
  have pinned: "set (List.map fst (pin_replicas t d)) =
      (if t = ''restore_from_disk_full'' then insert ''replicas'' (set (List.map fst d))
       else set (List.map fst d))"
    by (simp add: pin_replicas_def dom_update)
  obtain required defaults where sig: "action_signature t = Some (required, defaults)"
    "set required = fst ` set (tool_schemas t)" "''namespace'' \<in> fst ` set defaults"
    "t = ''restore_from_disk_full'' \<Longrightarrow> ''replicas'' \<in> fst ` set defaults"
    using signature_of_schema[OF t] by (elim exE conjE) (rule that, simp_all)
  have "set (List.map fst (pin_replicas t d)) \<subseteq> set required \<union> set (List.map fst defaults)"
    using keys sig(2-4) unfolding pinned set_map[symmetric]
    by (cases "t = ''restore_from_disk_full''") (auto simp del: set_map)
  moreover have "set required \<subseteq> set (List.map fst (pin_replicas t d))"
    using req sig(2) unfolding pinned by auto
  ultimately show ?thesis by (simp add: binds_def sig(1) bind_kwargs_def del: set_map)
qed

section \<open>An example\<close>

definition demo_env :: "demo_world env" where
  "demo_env = \<lparr>ev_kube = demo_kube,
     ev_rotation = \<lparr>ra_selector = \<lambda>w. (Reply None, w), ra_pods = \<lambda>_ w. (Reply [], w),
                    ra_patch = \<lambda>_ w. (Reply (), w)\<rparr>,
     ev_fuel = 31, ev_llm = \<lambda>e _. ret_step (llm_fail (le_provider e) (le_model e) ''timeout'' (Timed_Out 30 [])),
     ev_cpu = \<lambda>_ _ _. ''300m'', ev_replicas = \<lambda>_ _ _. ''1''\<rparr>"

definition demo_request :: "string \<Rightarrow> string option \<Rightarrow> act_request" where
  "demo_request predicted actual = \<lparr>ar_target = ''catalogue'', ar_namespace = ''sock-shop'',
     ar_predicted = predicted, ar_mode = ''stub'', ar_llm_provider = None, ar_llm_model = None,
     ar_llm_diagnosis = None, ar_llm_confidence = None, ar_llm_reasoning = None,
     ar_tool_output = None, ar_episode = None, ar_actual = actual\<rparr>"

definition demo_sys :: "demo_world sys" where
  "demo_sys = \<lparr>s_db = empty_db\<lparr>trust_state := [(''oom'', Can_Act, 5)]\<rparr>, s_progress = [],
               s_world = (0, 1, 0)\<rparr>"

lemma demo_may_act: "may_act (s_db demo_sys) ''oom''"
  by (simp add: may_act_def demo_sys_def empty_db_def get_trust_state_def get_safety_hold_def row_or_def)

lemma demo_act:
  "\<exists>r s'. act demo_env 0 (demo_request ''oom'' (Some ''oom'')) demo_sys = (Inr r, s') \<and>
     rs_taken r = Some ''patch_memory_limit''"
proof -
  have sig: "action_signature ''patch_memory_limit'' =
      Some ([''name'', ''container'', ''limit''], [(''namespace'', PStr default_namespace)])"
    by (simp add: action_signature_def)
  have run: "\<exists>r s'. run_action demo_env ''patch_memory_limit'' (production_fix ''oom'' ''catalogue'' ''sock-shop'')
      demo_sys = (Inr r, s')"
    by (simp add: run_action_def call_action_def sig bind_kwargs_def production_fix_def fix_params_def
        lift_world_def patch_memory_limit_def patch_deployment_def dry_then_apply_def with_header_def
        demo_env_def demo_sys_def demo_kube_def api_client_def check_token_expiry_def Let_def)
  then show ?thesis
    using demo_may_act
    by (auto simp: act_def act_proposal_def act_dispatch_def demo_request_def production_action_map_def
        production_tool_def llm_dispatch_def dispatch_and_flip_def dispatch_with_gate_def)
qed

section \<open>Properties\<close>

text \<open>C2: \<^verbatim>\<open>/act\<close> takes an action only when the class may act (Can-Act and no safety hold)
  whose diagnosis drives it: the predicted class, or, when the prediction has no fix, the
  real one; the tool run is the fix of the predicted class or, redirected, of the real one.\<close>

theorem act_only_when_trusted:
  assumes "act E now req s = (Inr r, s')" "rs_taken r = Some t"
  shows "(production_tool (ar_predicted req) \<noteq> None \<and> may_act (s_db s) (ar_predicted req) \<and>
            (production_tool (ar_predicted req) = Some t \<or>
             (\<exists>a. ar_actual req = Some a \<and> a \<noteq> ar_predicted req \<and> production_tool a = Some t)))
       \<or> (production_tool (ar_predicted req) = None \<and>
            (\<exists>a. ar_actual req = Some a \<and> a \<noteq> ar_predicted req \<and> production_tool a = Some t \<and>
                 may_act (s_db s) a))"
  using assms by (cases rule: act_taken_cases) auto

lemma act_only_when_trusted_witness: "may_act (s_db demo_sys) ''oom''"
proof -
  from demo_act obtain r s' where
    a: "act demo_env 0 (demo_request ''oom'' (Some ''oom'')) demo_sys = (Inr r, s')"
       "rs_taken r = Some ''patch_memory_limit''" by blast
  from act_only_when_trusted[OF a] show ?thesis by (auto simp: demo_request_def)
qed

text \<open>\<^verbatim>\<open>/act\<close> writes nothing to the database but at most one row of
  \<^verbatim>\<open>gate_intervention_log\<close>, whatever happens, exceptions included: no trust state, no hold,
  no score changes.\<close>

theorem act_writes_only_gate_log:
  "\<exists>rows. length rows \<le> 1 \<and>
     s_db (snd (act E now req s)) = (s_db s)\<lparr>gate_log := gate_log (s_db s) @ rows\<rparr>"
  using act_db[of E now req s] by (cases "act E now req s") (auto simp: gate_log_only_def)

text \<open>With a correct diagnosis, or none to compare with, no action is ever substituted: what
  runs is the predicted class's own tool.\<close>

theorem act_keeps_correct_diagnosis:
  assumes "act E now req s = (Inr r, s')" "ar_actual req \<in> {None, Some (ar_predicted req)}"
  shows "rs_gate r = None \<and>
    (case rs_taken r of None \<Rightarrow> True | Some t \<Rightarrow> production_tool (ar_predicted req) = Some t)"
proof (cases "rs_taken r")
  case (Some t)
  from assms(1) Some show ?thesis
    by (cases rule: act_taken_cases) (use assms(2) Some in auto)
next
  case None
  have taken: "rs_taken q \<noteq> None"
    if "dispatch_and_flip E now c tool ps src req prp s1 = (Inr q, s2)" for c tool ps src prp s1 q s2
    using dispatch_and_flip_taken[OF that] dispatch_with_gate_taken by blast
  with assms(1) None assms(2) show ?thesis
    by (auto simp: act_def act_safety_net_def act_dispatch_def
        split: prod.splits sum.splits option.splits if_splits dest: taken)
qed

lemma act_keeps_correct_diagnosis_witness:
  "\<exists>r s'. act demo_env 0 (demo_request ''oom'' (Some ''oom'')) demo_sys = (Inr r, s') \<and> rs_gate r = None"
proof -
  from demo_act obtain r s' where
    a: "act demo_env 0 (demo_request ''oom'' (Some ''oom'')) demo_sys = (Inr r, s')" by blast
  from act_keeps_correct_diagnosis[OF a] a show ?thesis by (auto simp: demo_request_def)
qed

text \<open>The LLM's own parameters reach the cluster only in LLM mode, for a class whose
  Dimension C is trusted, with the deterministic tool of the diagnosis and a magnitude the
  safety check accepts for it.\<close>

theorem llm_dispatch_needs_trust_and_vetoes:
  assumes "llm_dispatch E req action prp s = Some (t, params, src)"
  shows "ar_mode req = ''llm'' \<and>
     fst (get_action_trust (s_db s) (ar_predicted req)) = Llm_Can_Act \<and> t = action \<and>
     (\<exists>p. prp = Some p \<and> pr_tool p = Some t \<and> pr_params p = Some params) \<and>
     fst (check_safe (ev_cpu E (s_world s)) t params (ar_predicted req) (ar_tool_output req))"
  using assms by (auto simp: llm_dispatch_def split: option.splits if_splits)

lemma llm_dispatch_needs_trust_and_vetoes_witness:
  "fst (get_action_trust (empty_db\<lparr>action_trust := [(''crash-loop'', Llm_Can_Act, 5)]\<rparr>) ''crash-loop'')
     = Llm_Can_Act"
proof -
  let ?d = "empty_db\<lparr>action_trust := [(''crash-loop'', Llm_Can_Act, 5)]\<rparr>"
  let ?p = "(not_auto_fix ''crash-loop'')\<lparr>pr_tool := Some ''restart_deployment'', pr_params := Some []\<rparr>"
  have "llm_dispatch demo_env ((demo_request ''crash-loop'' None)\<lparr>ar_mode := ''llm''\<rparr>) ''restart_deployment''
      (Some ?p) (demo_sys\<lparr>s_db := ?d\<rparr>) = Some (''restart_deployment'', [], ''not_auto_fix_class'')"
    by (simp add: llm_dispatch_def demo_request_def not_auto_fix_def get_action_trust_def row_or_def
        check_safe_def)
  from llm_dispatch_needs_trust_and_vetoes[OF this] show ?thesis by (simp add: demo_request_def)
qed

lemma check_safe_cong:
  assumes "dict_get d1 ''limit'' = dict_get d2 ''limit''" "dict_get d1 ''replicas'' = dict_get d2 ''replicas''"
  shows "check_safe c t d1 a out = check_safe c t d2 a out"
  unfolding check_safe_def check_memory_def check_cpu_def check_replicas_def assms ..

text \<open>None of the vetoes looks at the target: a trusted proposal for one deployment is
  dispatched just the same with any other deployment's name in it.\<close>

theorem llm_dispatch_ignores_target:
  "llm_dispatch E req action (Some (p\<lparr>pr_tool := Some t, pr_params := Some (AList.update ''name'' v d)\<rparr>)) s =
   map_option (\<lambda>(t, _, src). (t, AList.update ''name'' v d, src))
     (llm_dispatch E req action (Some (p\<lparr>pr_tool := Some t, pr_params := Some d\<rparr>)) s)"
proof -
  have "dict_get (AList.update ''name'' v d) k = dict_get d k" if "k \<noteq> ''name''" for k
    using that by (simp add: dict_get_def update_conv')
  then have "check_safe c t (AList.update ''name'' v d) a out = check_safe c t d a out" for c a out
    by (intro check_safe_cong) simp_all
  then show ?thesis by (auto simp: llm_dispatch_def)
qed

text \<open>The two hand-copied tables of deterministic fixes, the proposer's and the production
  one, are the same function.\<close>

theorem action_tables_in_sync: "deterministic_action_map = production_action_map"
  by (rule action_maps_agree)

text \<open>Every call the endpoint can make binds: a production fix, and a validated proposal
  with its pinned replica count, name an allowed action with all required parameters and
  no unknown one.\<close>

theorem cage_calls_bind:
  assumes "(\<exists>c. production_tool c = Some t \<and> d = production_fix c target ns) \<or>
     (\<exists>d0. validate_tool_call (PStr t) (PDict d0) = Inr None \<and> d = pin_replicas t d0)"
  shows "\<exists>required defaults. action_signature t = Some (required, defaults) \<and>
           bind_kwargs required defaults d = Inr (d @ defaults)"
proof -
  have "binds t d" using assms production_fix_binds accepted_binds by blast
  then show ?thesis by (auto simp: binds_def split: option.splits)
qed

lemma cage_calls_bind_witness:
  "\<exists>required defaults bound. action_signature ''patch_memory_limit'' = Some (required, defaults) \<and>
     bind_kwargs required defaults (production_fix ''oom'' ''catalogue'' ''sock-shop'') = Inr bound"
proof -
  have "production_tool ''oom'' = Some ''patch_memory_limit''" by (simp add: production_tool_def)
  with cage_calls_bind[of "''patch_memory_limit''" "production_fix ''oom'' ''catalogue'' ''sock-shop''"]
  show ?thesis by blast
qed

end
