(* ===== verification/Diagnose_Endpoint.thy ===== *)
theory Diagnose_Endpoint
  imports React_Loop Act_Endpoint
begin

text \<open>
  \<^verbatim>\<open>p3_trust_action/p3_agent.py\<close>, phase 1: \<^verbatim>\<open>/diagnose\<close>. The stub's pipeline, the LLM's
  background diagnosis (an argument of \<open>diagnose\<close>, for which \<open>llm_diagnosis_step\<close> is the
  ReAct loop on the episode's tools), the choice between the two by Dimension B, and whether \<^verbatim>\<open>/act\<close> is worth calling. The comparison calls are queued
  after the LLM's and change nothing here; their budget is in Comparison_Budget.
\<close>

text \<open>The result of a ReAct diagnosis: \<^verbatim>\<open>status\<close> "diagnosed" with its fields, or another
  status.\<close>

datatype llm_run =
    Llm_Diagnosed (llm_diag: diagnosis) (llm_provider: string) (llm_model: string) (llm_tier: string)
  | Llm_Not_Diagnosed string

text \<open>What \<^verbatim>\<open>/diagnose\<close> reads of the loop's result. A diagnosis that is not a text is outside the
  model and raises here; the code would report it, or raise at the lookup of its action.\<close>

definition llm_run_of :: "react_result \<Rightarrow> llm_run res" where
  "llm_run_of result =
     (case result of
        React_Diagnosed r _ _ _ \<Rightarrow>
          (case dict_get (lr_parsed r) ''diagnosis'' of
             PStr c \<Rightarrow> Inr (Llm_Diagnosed
               \<lparr>dg_diagnosis = c, dg_confidence = lr_confidence r,
                dg_reasoning = (let v = dict_get (lr_parsed r) ''reasoning''
                                in if v = PNone then None else Some [Val v])\<rparr>
               (lr_provider r) (lr_model r) (lr_tier r))
           | _ \<Rightarrow> Inl TypeError)
      | React_Stopped status _ _ \<Rightarrow> Inr (Llm_Not_Diagnosed status)
      | React_Unavailable _ \<Rightarrow> Inr (Llm_Not_Diagnosed ''llm_unavailable''))"

definition react_status :: "react_result \<Rightarrow> string" where
  "react_status result =
     (case result of
        React_Diagnosed _ _ _ _ \<Rightarrow> ''diagnosed''
      | React_Stopped status _ _ \<Rightarrow> status
      | React_Unavailable _ \<Rightarrow> ''llm_unavailable'')"

record diagnose_request =
  dr_target :: string
  dr_namespace :: string
  dr_snapshot :: "string option"
  dr_baseline :: "rat option"
  dr_probe :: "(int option \<times> int option) option"

record diagnose_response =
  dn_tool_output :: tool_output
  dn_result :: diagnosis
  dn_trust :: "(a_state \<times> int) option"
  dn_eligible :: bool
  dn_mode_used :: b_mode
  dn_stub :: diagnosis
  dn_llm :: llm_run

definition normalize_predicted_class :: "string \<Rightarrow> string option" where
  "normalize_predicted_class predicted =
     (if predicted = ''no anomaly detected'' then Some ''none''
      else if predicted = ''log-anomaly detected (unclassified)'' then None
      else Some predicted)"

text \<open>Which diagnoser drives the class the stub found.\<close>

definition diagnoser_for :: "db \<Rightarrow> diagnosis \<Rightarrow> b_mode" where
  "diagnoser_for d stub =
     (case normalize_predicted_class (dg_diagnosis stub) of
        None \<Rightarrow> Stub | Some c \<Rightarrow> fst (get_diagnoser_mode d c))"

definition choose_diagnosis :: "db \<Rightarrow> diagnosis \<Rightarrow> llm_run \<Rightarrow> b_mode \<times> diagnosis" where
  "choose_diagnosis d stub run =
     (case run of
        Llm_Diagnosed l _ _ _ \<Rightarrow> if diagnoser_for d stub = Llm then (Llm, l) else (Stub, stub)
      | Llm_Not_Diagnosed _ \<Rightarrow> (Stub, stub))"

text \<open>The answer, once both diagnoses are there.\<close>

definition diagnose_answer :: "db \<Rightarrow> tool_output \<Rightarrow> diagnosis \<Rightarrow> llm_run \<Rightarrow> diagnose_response" where
  "diagnose_answer d t stub run =
     (let (mode, result) = choose_diagnosis d stub run;
          c = dg_diagnosis result
      in \<lparr>dn_tool_output = t, dn_result = result,
          dn_trust = (case production_action_map c of None \<Rightarrow> None | Some _ \<Rightarrow> Some (get_trust_state d c)),
          dn_eligible = (case production_action_map c of None \<Rightarrow> False
             | Some _ \<Rightarrow> fst (get_trust_state d c) = Can_Act \<and> \<not> active (get_safety_hold d c)),
          dn_mode_used = mode, dn_stub = stub, dn_llm = run\<rparr>)"

text \<open>The background diagnosis: the loop over the chain on the tools bound to this episode, and
  the event that ends its stream.\<close>

definition llm_diagnosis_step ::
    "'w react_env \<Rightarrow> 'w sources \<Rightarrow> diagnose_request \<Rightarrow> ('w, llm_run) step" where
  "llm_diagnosis_step E S req =
     then_step (run_react_diagnosis E (dr_target req) (dr_namespace req)
         (build_llm_tools S (dr_target req) (dr_namespace req) (dr_snapshot req) (dr_baseline req)
            (dr_probe req)) None)
       (\<lambda>result. then_step (emit E (Done (react_status result))) (\<lambda>_. res_step (llm_run_of result)))"

text \<open>\<open>stub_only\<close> is WARDENCE_STUB_ONLY.\<close>

definition diagnose ::
    "'w sources \<Rightarrow> thresholds \<Rightarrow> bool \<Rightarrow> ('w, llm_run) step \<Rightarrow> diagnose_request \<Rightarrow> db
       \<Rightarrow> ('w, diagnose_response) step" where
  "diagnose S th stub_only react req d =
     then_step (stub_pipeline S th (dr_target req) (dr_namespace req) (dr_snapshot req)
                  (dr_baseline req) (dr_probe req)) (\<lambda>(t, stub).
       map_step (diagnose_answer d t stub)
         (if stub_only then ret_step (Llm_Not_Diagnosed ''llm_unavailable'') else react))"

section \<open>The fallbacks only fill a gap\<close>

lemma probe_fallback_cases:
  assumes "probe_fallback S th target ns (t, r) w = (Inr (t', r'), w')"
  shows "r' = r \<or> no_anomaly r \<and> target = ''catalogue'' \<and> dg_diagnosis r' = ''under-provisioned-replicas'' \<and>
     (\<exists>p. catalogue_probe_p95_ms t' = Some (Some p) \<and> th_probe_ms th \<le> p)"
  using assms
  by (auto simp: probe_fallback_def map_step_Inr at_least_def split: if_splits option.splits)

lemma detector_fallback_cases:
  assumes "detector_fallback S target (t, r) w = (Inr (t', r'), w')"
  shows "r' = r \<or> no_anomaly r \<and> target \<in> set dl_detector_services \<and>
     dg_diagnosis r' = ''log-anomaly detected (unclassified)''"
  using assms by (auto simp: detector_fallback_def split: if_splits option.splits prod.splits)

lemma stub_pipeline_cases:
  assumes "stub_pipeline S th target ns snap base probe w = (Inr (t, r), w')"
  shows "\<exists>t0 w1. query_prometheus S target ns snap base probe w = (Inr t0, w1) \<and>
    (r = stub_diagnose th t0 \<or>
     no_anomaly (stub_diagnose th t0) \<and>
       (target = ''catalogue'' \<and> dg_diagnosis r = ''under-provisioned-replicas'' \<or>
        target \<in> set dl_detector_services \<and> dg_diagnosis r = ''log-anomaly detected (unclassified)''))"
proof -
  obtain t0 w1 t1 r1 w2 where q: "query_prometheus S target ns snap base probe w = (Inr t0, w1)"
    and p: "probe_fallback S th target ns (t0, stub_diagnose th t0) w1 = (Inr (t1, r1), w2)"
    and d: "detector_fallback S target (t1, r1) w2 = (Inr (t, r), w')"
    using assms by (auto simp: stub_pipeline_def then_step_Inr)
  from probe_fallback_cases[OF p] detector_fallback_cases[OF d] q show ?thesis by blast
qed

section \<open>Properties\<close>

text \<open>\<^verbatim>\<open>/diagnose\<close> lets the LLM's diagnosis drive production exactly when it has one and
  Dimension B trusts the LLM for the class the stub found; otherwise the stub's stands; and
  it calls the episode eligible only for a class with a fix that may act.\<close>

theorem diagnose_choice:
  assumes "diagnose S th stub_only react req d w = (Inr r, w')"
  shows "(dn_mode_used r = Llm \<longleftrightarrow> diagnoser_for d (dn_stub r) = Llm \<and>
            (\<exists>l p m ti. dn_llm r = Llm_Diagnosed l p m ti \<and> dn_result r = l)) \<and>
         (dn_mode_used r = Stub \<longrightarrow> dn_result r = dn_stub r) \<and>
         (dn_eligible r \<longleftrightarrow> production_tool (dg_diagnosis (dn_result r)) \<noteq> None \<and>
            may_act d (dg_diagnosis (dn_result r))) \<and>
         (stub_only \<longrightarrow> dn_mode_used r = Stub)"
proof -
  obtain t stub w1 run where a: "r = diagnose_answer d t stub run"
    and only: "stub_only \<longrightarrow> run = Llm_Not_Diagnosed ''llm_unavailable''"
    using assms by (cases stub_only) (auto simp: diagnose_def then_step_Inr map_step_Inr)
  show ?thesis
    using only unfolding a diagnose_answer_def choose_diagnosis_def
    by (cases run) (auto simp: production_action_map_def may_act_def Let_def split: option.splits)
qed

lemma diagnose_choice_witness:
  "\<exists>r. diagnose demo_sources default_thresholds True (ret_step (Llm_Not_Diagnosed []))
        \<lparr>dr_target = ''shipping'', dr_namespace = ''sock-shop'', dr_snapshot = None,
         dr_baseline = Some 1000, dr_probe = None\<rparr> empty_db () = (Inr r, ()) \<and> dn_mode_used r = Stub"
proof -
  let ?req = "\<lparr>dr_target = ''shipping'', dr_namespace = ''sock-shop'', dr_snapshot = None,
         dr_baseline = Some 1000, dr_probe = None\<rparr>"
  let ?go = "diagnose demo_sources default_thresholds True (ret_step (Llm_Not_Diagnosed [])) ?req empty_db ()"
  obtain r where r: "?go = (Inr r, ())"
    using demo_query
    by (auto simp: diagnose_def stub_pipeline_def then_step_def probe_fallback_def
        detector_fallback_def dl_detector_services_def ret_step_def map_step_def)
  from diagnose_choice[OF r] r show ?thesis by blast
qed

text \<open>The two fallbacks never override a signal: when the rule finds a class, that class is
  the stub's diagnosis; the capacity probe adds its class for catalogue only, the log
  detector its unclassified flag for its five services only.\<close>

theorem fallbacks_only_fill_the_gap:
  assumes "stub_pipeline S th target ns snap base probe w = (Inr (t, r), w')"
  shows "\<exists>t0 w1. query_prometheus S target ns snap base probe w = (Inr t0, w1) \<and>
    (if dg_diagnosis (stub_diagnose th t0) \<noteq> ''no anomaly detected'' then r = stub_diagnose th t0
     else r = stub_diagnose th t0 \<or>
       target = ''catalogue'' \<and> dg_diagnosis r = ''under-provisioned-replicas'' \<or>
       target \<in> set dl_detector_services \<and> dg_diagnosis r = ''log-anomaly detected (unclassified)'')"
  using stub_pipeline_cases[OF assms] by (auto simp: no_anomaly_def)

lemma fallbacks_only_fill_the_gap_witness:
  "\<exists>t r. stub_pipeline demo_sources default_thresholds ''shipping'' ''sock-shop'' None (Some 1000) None ()
      = (Inr (t, r), ()) \<and> dg_diagnosis r \<noteq> ''under-provisioned-replicas''"
proof -
  obtain t r where p: "stub_pipeline demo_sources default_thresholds ''shipping'' ''sock-shop'' None
      (Some 1000) None () = (Inr (t, r), ())"
    using demo_query
    by (auto simp: stub_pipeline_def then_step_def probe_fallback_def detector_fallback_def
        dl_detector_services_def ret_step_def)
  have "c \<noteq> ''under-provisioned-replicas''" if "c = dg_diagnosis (stub_diagnose th t0)" for c th t0
    using first_rule_holds[of "stub_rules th" t0 c] that
    by (auto simp: stub_diagnose_list stub_rules_def)
  with fallbacks_only_fill_the_gap[OF p] p show ?thesis by (auto split: if_splits)
qed

end
