(* ===== verification/Verifier.thy ===== *)
theory Verifier
  imports Stub_Diagnoser Cage_Actions
begin

text \<open>
  \<^verbatim>\<open>p3_trust_action/verifier.py\<close>: did a fix last? Every class but one polls a check each 15
  seconds until its durability window closes; under-provisioned replicas are probed instead.
  The cluster (kubectl, Prometheus, k6, the clock) is the record \<open>'w cluster\<close>; what kubectl
  prints is taken as the JSON it stands for.
\<close>

section \<open>The cluster\<close>

text \<open>The fields of a pod's metadata the code reads.\<close>

record live_pod =
  lp_deleting :: "string option"
  lp_created :: string
  lp_name :: string

text \<open>
  \<open>cl_running\<close>: the Running pods of a label, \<open>None\<close> when the output has no items;
  \<open>cl_front_end\<close>: for each front-end pod the waiting reason of each container;
  \<open>cl_available\<close>: the text of \<^verbatim>\<open>.status.availableReplicas\<close>; \<open>cl_prom\<close>: the values of an
  instant query; \<open>cl_sleep\<close> takes seconds.
\<close>

record 'w cluster =
  cl_running :: "string \<Rightarrow> string \<Rightarrow> 'w \<Rightarrow> live_pod list option \<times> 'w"
  cl_front_end :: "string \<Rightarrow> 'w \<Rightarrow> string option list list option \<times> 'w"
  cl_available :: "string \<Rightarrow> 'w \<Rightarrow> string \<times> 'w"
  cl_prom :: "string \<Rightarrow> ('w, rat list) step"
  cl_k6 :: "string \<Rightarrow> 'w \<Rightarrow> k6_run \<times> 'w"
  cl_now :: "'w \<Rightarrow> rat"
  cl_sleep :: "rat \<Rightarrow> 'w \<Rightarrow> 'w"

section \<open>Windows and constants\<close>

text \<open>Each window can be set from the environment, which is the argument \<open>win\<close>; the keys are
  fixed.\<close>

definition default_window :: "string \<Rightarrow> int" where
  "default_window c =
     (if c = ''oom'' then 180 else if c = ''under-provisioned-replicas'' then 90 else 120)"

definition durability_windows :: "(string \<Rightarrow> int) \<Rightarrow> string \<Rightarrow> int option" where
  "durability_windows win c =
     (if c \<in> set [''crash-loop'', ''oom'', ''disk-full'', ''cpu-throttling'',
                  ''under-provisioned-replicas'', ''bad-rollout'']
      then Some (win c) else None)"

definition cpu_throttle_durability_min_increase :: int where "cpu_throttle_durability_min_increase = 50"
definition under_provisioned_probe_count :: nat where "under_provisioned_probe_count = 3"
definition under_provisioned_inter_probe_sleep_s :: int where "under_provisioned_inter_probe_sleep_s = 15"
definition under_provisioned_probe_duration_s :: int where "under_provisioned_probe_duration_s = 20"
definition under_provisioned_target_replicas :: int where "under_provisioned_target_replicas = 3"
definition under_provisioned_replica_wait_timeout_s :: int where
  "under_provisioned_replica_wait_timeout_s = 220"
definition default_verifier_probe_ms :: rat where "default_verifier_probe_ms = 140"
definition poll_interval_s :: int where "poll_interval_s = 15"
definition baseline_capture_retry_s :: int where "baseline_capture_retry_s = 30"
definition baseline_capture_poll_s :: int where "baseline_capture_poll_s = 5"

section \<open>The current pod\<close>

text \<open>The order of strings, by code point.\<close>

fun str_less :: "string \<Rightarrow> string \<Rightarrow> bool" where
  "str_less _ [] = False"
| "str_less [] (_ # _) = True"
| "str_less (x # xs) (y # ys) =
     (let a = of_char x :: nat; b = of_char y in a < b \<or> a = b \<and> str_less xs ys)"

text \<open>\<^verbatim>\<open>max(alive, key=...)\<close>: the first of the greatest.\<close>

fun newest_pod :: "live_pod \<Rightarrow> live_pod list \<Rightarrow> live_pod" where
  "newest_pod p [] = p"
| "newest_pod p (q # qs) = newest_pod (if str_less (lp_created p) (lp_created q) then q else p) qs"

definition is_alive :: "live_pod \<Rightarrow> bool" where
  "is_alive p \<longleftrightarrow> (case lp_deleting p of None \<Rightarrow> True | Some t \<Rightarrow> t = [])"

definition current_pod_of :: "live_pod list option \<Rightarrow> string option" where
  "current_pod_of items =
     (case items of None \<Rightarrow> None
      | Some ps \<Rightarrow> (case filter is_alive ps of [] \<Rightarrow> None | p # qs \<Rightarrow> Some (lp_name (newest_pod p qs))))"

definition current_pod_name_live ::
    "'w cluster \<Rightarrow> string \<Rightarrow> string \<Rightarrow> 'w \<Rightarrow> string option \<times> 'w" where
  "current_pod_name_live C target ns w =
     (case cl_running C target ns w of (items, w1) \<Rightarrow> (current_pod_of items, w1))"

function pod_name_loop :: "'w cluster \<Rightarrow> string \<Rightarrow> string \<Rightarrow> int \<Rightarrow> 'w \<Rightarrow> string res \<times> 'w" where
  "pod_name_loop C target ns elapsed w =
     (case current_pod_name_live C target ns w of
        (Some n, w1) \<Rightarrow> (Inr n, w1)
      | (None, w1) \<Rightarrow>
          if baseline_capture_retry_s \<le> elapsed then (Inl RuntimeError, w1)
          else pod_name_loop C target ns (elapsed + baseline_capture_poll_s)
                 (cl_sleep C (of_int baseline_capture_poll_s) w1))"
  by pat_completeness auto
termination
  by (relation "measure (\<lambda>(C, target, ns, elapsed, w). nat (baseline_capture_retry_s - elapsed))")
     (auto simp: baseline_capture_retry_s_def baseline_capture_poll_s_def)

declare pod_name_loop.simps [simp del]

definition current_pod_name_live_with_retry :: "'w cluster \<Rightarrow> string \<Rightarrow> string \<Rightarrow> ('w, string) step" where
  "current_pod_name_live_with_retry C target ns = pod_name_loop C target ns 0"

section \<open>The checks\<close>

definition exact_pod :: "string \<Rightarrow> string \<Rightarrow> (string \<times> string) list" where
  "exact_pod ns pod = [(''namespace='', ns), (''pod='', pod)]"

definition sum_trunc :: "rat list \<Rightarrow> int" where
  "sum_trunc vs = sum_list (map trunc vs)"

definition restart_count :: "'w cluster \<Rightarrow> string \<Rightarrow> string \<Rightarrow> ('w, int) step" where
  "restart_count C pod ns = map_step sum_trunc
     (cl_prom C (''kube_pod_container_status_restarts_total'' @ selector (exact_pod ns pod)))"

definition crash_loop_backoff_now :: "'w cluster \<Rightarrow> string \<Rightarrow> string \<Rightarrow> ('w, bool) step" where
  "crash_loop_backoff_now C pod ns = map_step (\<lambda>vs. vs \<noteq> [])
     (cl_prom C (''kube_pod_container_status_waiting_reason'' @
        selector (exact_pod ns pod @ [(''reason='', ''CrashLoopBackOff'')]) @ '' == 1''))"

definition cfs_throttled_periods_exact :: "'w cluster \<Rightarrow> string \<Rightarrow> string \<Rightarrow> string \<Rightarrow> ('w, int) step" where
  "cfs_throttled_periods_exact C pod ns container = map_step sum_trunc
     (cl_prom C (''container_cpu_cfs_throttled_periods_total'' @
        selector (exact_pod ns pod @ [(''container='', container)])))"

definition image_pull_stuck :: "string option list list option \<Rightarrow> bool" where
  "image_pull_stuck pods =
     (case pods of None \<Rightarrow> False
      | Some ps \<Rightarrow> (\<exists>rs \<in> set ps. \<exists>r \<in> set rs. r = Some ''ImagePullBackOff'' \<or> r = Some ''ErrImagePull''))"

definition front_end_image_pull_failing_live :: "'w cluster \<Rightarrow> string \<Rightarrow> 'w \<Rightarrow> bool \<times> 'w" where
  "front_end_image_pull_failing_live C ns w =
     (case cl_front_end C ns w of (pods, w1) \<Rightarrow> (image_pull_stuck pods, w1))"

text \<open>The clock loop before the bad-rollout checks: its fuel is the number of reads.\<close>

fun image_pull_loop :: "'w cluster \<Rightarrow> string \<Rightarrow> rat \<Rightarrow> nat \<Rightarrow> 'w \<Rightarrow> bool res \<times> 'w" where
  "image_pull_loop C ns deadline 0 w = (Inl Out_Of_Fuel, w)"
| "image_pull_loop C ns deadline (Suc fuel) w =
     (if \<not> cl_now C w < deadline then (Inr False, w)
      else (case front_end_image_pull_failing_live C ns w of
              (False, w1) \<Rightarrow> (Inr True, w1)
            | (True, w1) \<Rightarrow> image_pull_loop C ns deadline fuel (cl_sleep C 2 w1)))"

definition wait_for_no_image_pull_failure ::
    "'w cluster \<Rightarrow> nat \<Rightarrow> string \<Rightarrow> rat \<Rightarrow> 'w \<Rightarrow> bool res \<times> 'w" where
  "wait_for_no_image_pull_failure C fuel ns timeout_s w =
     image_pull_loop C ns (cl_now C w + timeout_s) fuel w"

definition crash_loop_check :: "'w cluster \<Rightarrow> string \<Rightarrow> int \<Rightarrow> string \<Rightarrow> ('w, bool) step" where
  "crash_loop_check C pod baseline ns =
     then_step (crash_loop_backoff_now C pod ns) (\<lambda>b.
       if b then ret_step True else map_step (\<lambda>n. baseline < n) (restart_count C pod ns))"

definition oom_check :: "'w cluster \<Rightarrow> string \<Rightarrow> int \<Rightarrow> string \<Rightarrow> ('w, bool) step" where
  "oom_check C pod baseline ns = map_step (\<lambda>n. baseline < n) (restart_count C pod ns)"

definition disk_full_check :: "'w cluster \<Rightarrow> string \<Rightarrow> string \<Rightarrow> string \<Rightarrow> ('w, bool) step" where
  "disk_full_check C baseline_pod target ns w =
     (case current_pod_name_live C target ns w of
        (None, w1) \<Rightarrow> (Inr True, w1)
      | (Some n, w1) \<Rightarrow> (Inr (n \<noteq> baseline_pod), w1))"

definition cpu_throttle_check ::
    "'w cluster \<Rightarrow> string \<Rightarrow> string \<Rightarrow> int \<Rightarrow> string \<Rightarrow> ('w, bool) step" where
  "cpu_throttle_check C pod container baseline ns =
     map_step (\<lambda>n. cpu_throttle_durability_min_increase \<le> n - baseline)
       (cfs_throttled_periods_exact C pod ns container)"

definition bad_rollout_check :: "'w cluster \<Rightarrow> string \<Rightarrow> ('w, bool) step" where
  "bad_rollout_check C ns w =
     (case front_end_image_pull_failing_live C ns w of (b, w1) \<Rightarrow> (Inr b, w1))"

text \<open>The branch of \<^verbatim>\<open>verify_durability\<close> that resolves the baseline and makes the check. The
  rollout wait looks at \<^verbatim>\<open>sock-shop\<close> whatever the namespace is.\<close>

definition make_check ::
    "'w cluster \<Rightarrow> nat \<Rightarrow> string \<Rightarrow> string \<Rightarrow> string \<Rightarrow> ('w, ('w, bool) step) step" where
  "make_check C fuel c target ns =
     (if c = ''crash-loop'' then
        then_step (current_pod_name_live_with_retry C target ns) (\<lambda>pod.
        map_step (\<lambda>base. crash_loop_check C pod base ns) (restart_count C pod ns))
      else if c = ''oom'' then
        then_step (current_pod_name_live_with_retry C target ns) (\<lambda>pod.
        map_step (\<lambda>base. oom_check C pod base ns) (restart_count C pod ns))
      else if c = ''disk-full'' then
        map_step (\<lambda>pod. disk_full_check C pod target ns) (current_pod_name_live_with_retry C target ns)
      else if c = ''cpu-throttling'' then
        then_step (current_pod_name_live_with_retry C target ns) (\<lambda>pod.
        map_step (\<lambda>base. cpu_throttle_check C pod target base ns)
          (cfs_throttled_periods_exact C pod ns target))
      else
        map_step (\<lambda>_. bad_rollout_check C ns) (wait_for_no_image_pull_failure C fuel ''sock-shop'' 60))"

section \<open>The verdict\<close>

record durability_result =
  vd_verdict :: verdict
  vd_elapsed_s :: int
  vd_fault_class :: string
  vd_target :: string

function poll_window ::
    "'w cluster \<Rightarrow> ('w, bool) step \<Rightarrow> int \<Rightarrow> int \<Rightarrow> 'w \<Rightarrow> (verdict \<times> int) res \<times> 'w" where
  "poll_window C chk window elapsed w =
     (if elapsed < window
      then (case chk (cl_sleep C (of_int poll_interval_s) w) of
              (Inl e, w1) \<Rightarrow> (Inl e, w1)
            | (Inr True, w1) \<Rightarrow> (Inr (Flapped, elapsed + poll_interval_s), w1)
            | (Inr False, w1) \<Rightarrow> poll_window C chk window (elapsed + poll_interval_s) w1)
      else (Inr (Confirmed, elapsed), w))"
  by pat_completeness auto
termination
  by (relation "measure (\<lambda>(C, chk, window, elapsed, w). nat (window - elapsed))")
     (auto simp: poll_interval_s_def)

declare poll_window.simps [simp del]

section \<open>Under-provisioned replicas\<close>

definition catalogue_probe_p95_ms_live :: "'w cluster \<Rightarrow> string \<Rightarrow> ('w, rat option) step" where
  "catalogue_probe_p95_ms_live C ns w =
     (case cl_k6 C ns w of
        (K6_Timeout, w1) \<Rightarrow> (Inr None, w1)
      | (K6_Exit code out, w1) \<Rightarrow> if code \<noteq> 0 then (Inr None, w1) else (parse_k6_p95_ms out, w1))"

definition catalogue_available_replicas_live :: "'w cluster \<Rightarrow> string \<Rightarrow> ('w, int) step" where
  "catalogue_available_replicas_live C ns w =
     (case cl_available C ns w of
        (out, w1) \<Rightarrow> (let value = py_strip out in (if value \<noteq> [] then py_int value else Inr 0, w1)))"

text \<open>\<^verbatim>\<open>n >= v\<close> for an int and a value out of a dictionary.\<close>

fun int_ge :: "int \<Rightarrow> pyval \<Rightarrow> bool res" where
  "int_ge n (PInt i) = Inr (i \<le> n)"
| "int_ge n (PBool b) = Inr ((if b then 1 else 0) \<le> n)"
| "int_ge n (PFloat q) = Inr (q \<le> of_int n)"
| "int_ge n _ = Inl TypeError"

function replicas_loop :: "'w cluster \<Rightarrow> string \<Rightarrow> pyval \<Rightarrow> int \<Rightarrow> int \<Rightarrow> 'w \<Rightarrow> bool res \<times> 'w" where
  "replicas_loop C ns count timeout_s elapsed w =
     (if elapsed \<le> timeout_s
      then (case catalogue_available_replicas_live C ns w of
              (Inl e, w1) \<Rightarrow> (Inl e, w1)
            | (Inr n, w1) \<Rightarrow>
                (case int_ge n count of
                   Inl e \<Rightarrow> (Inl e, w1)
                 | Inr True \<Rightarrow> (Inr True, w1)
                 | Inr False \<Rightarrow> replicas_loop C ns count timeout_s (elapsed + 10) (cl_sleep C 10 w1)))
      else (Inr False, w))"
  by pat_completeness auto
termination
  by (relation "measure (\<lambda>(C, ns, count, timeout_s, elapsed, w). nat (timeout_s + 1 - elapsed))") auto

declare replicas_loop.simps [simp del]

definition wait_for_catalogue_replicas_ready ::
    "'w cluster \<Rightarrow> string \<Rightarrow> pyval \<Rightarrow> int \<Rightarrow> 'w \<Rightarrow> bool res \<times> 'w" where
  "wait_for_catalogue_replicas_ready C ns count timeout_s = replicas_loop C ns count timeout_s 0"

text \<open>The probes left to run; all but the first sleep before they fire.\<close>

fun probe_loop ::
    "'w cluster \<Rightarrow> rat \<Rightarrow> string \<Rightarrow> bool \<Rightarrow> nat \<Rightarrow> int \<Rightarrow> 'w \<Rightarrow> (verdict \<times> int) res \<times> 'w" where
  "probe_loop C limit_ms ns first 0 elapsed w = (Inr (Confirmed, elapsed), w)"
| "probe_loop C limit_ms ns first (Suc n) elapsed w =
     (let (before, w0) =
        (if first then (elapsed, w)
         else (elapsed + under_provisioned_inter_probe_sleep_s,
               cl_sleep C (of_int under_provisioned_inter_probe_sleep_s) w))
      in case catalogue_probe_p95_ms_live C ns w0 of
           (Inl e, w1) \<Rightarrow> (Inl e, w1)
         | (Inr p95, w1) \<Rightarrow>
             (let after = before + under_provisioned_probe_duration_s in
              if at_least limit_ms p95 then (Inr (Flapped, after), w1)
              else probe_loop C limit_ms ns False n after w1))"

definition verify_under_provisioned ::
    "'w cluster \<Rightarrow> rat \<Rightarrow> string \<Rightarrow> pyval \<Rightarrow> ('w, verdict \<times> int) step" where
  "verify_under_provisioned C limit_ms ns count w =
     then_step (wait_for_catalogue_replicas_ready C ns count under_provisioned_replica_wait_timeout_s)
       (\<lambda>ready w1.
          let elapsed = trunc (cl_now C w1 - cl_now C w)
          in if \<not> ready then (Inr (Flapped, elapsed), w1)
             else probe_loop C limit_ms ns True under_provisioned_probe_count elapsed w1) w"

text \<open>\<^verbatim>\<open>(action_result or {}).get("replicas") or 3\<close>\<close>

definition requested_replicas :: "pydict option \<Rightarrow> pyval" where
  "requested_replicas action_result =
     (let v = dict_get (case action_result of None \<Rightarrow> [] | Some d \<Rightarrow> d) ''replicas''
      in if truthy v then v else PInt under_provisioned_target_replicas)"

definition verify_durability ::
    "'w cluster \<Rightarrow> (string \<Rightarrow> int) \<Rightarrow> rat \<Rightarrow> nat \<Rightarrow> string \<Rightarrow> string \<Rightarrow> string \<Rightarrow> pydict option
       \<Rightarrow> ('w, durability_result) step" where
  "verify_durability C win limit_ms fuel c target ns action_result =
     (case durability_windows win c of
        None \<Rightarrow> (\<lambda>w. (Inl ValueError, w))
      | Some window \<Rightarrow>
          map_step (\<lambda>(v, e). \<lparr>vd_verdict = v, vd_elapsed_s = e, vd_fault_class = c, vd_target = target\<rparr>)
            (if c = ''under-provisioned-replicas''
             then verify_under_provisioned C limit_ms ns (requested_replicas action_result)
             else then_step (make_check C fuel c target ns) (\<lambda>chk. poll_window C chk window 0)))"

section \<open>The window\<close>

text \<open>\<open>n\<close> polls in a row, each after its sleep, that found nothing.\<close>

inductive clean_polls :: "'w cluster \<Rightarrow> ('w, bool) step \<Rightarrow> nat \<Rightarrow> 'w \<Rightarrow> 'w \<Rightarrow> bool"
  for C :: "'w cluster" and chk :: "('w, bool) step" where
  none: "clean_polls C chk 0 w w"
| more: "chk (cl_sleep C 15 w) = (Inr False, w1) \<Longrightarrow> clean_polls C chk n w1 w'
           \<Longrightarrow> clean_polls C chk (Suc n) w w'"

inductive_simps clean_polls_0 [simp]: "clean_polls C chk 0 w w'"
inductive_simps clean_polls_Suc: "clean_polls C chk (Suc n) w w'"

definition polls_of :: "int \<Rightarrow> nat" where
  "polls_of window = nat ((window + 14) div 15)"

lemma polls_of_step:
  "elapsed < window \<Longrightarrow> polls_of (window - elapsed) = Suc (polls_of (window - (elapsed + 15)))"
  by (simp add: polls_of_def algebra_simps)

lemma polls_of_done: "\<not> elapsed < window \<Longrightarrow> polls_of (window - elapsed) = 0"
  by (simp add: polls_of_def)

text \<open>What a window of \<open>n\<close> polls that started at \<open>elapsed\<close> may answer.\<close>

definition window_outcome ::
    "'w cluster \<Rightarrow> ('w, bool) step \<Rightarrow> nat \<Rightarrow> int \<Rightarrow> 'w \<Rightarrow> verdict \<Rightarrow> int \<Rightarrow> 'w \<Rightarrow> bool" where
  "window_outcome C chk n elapsed w v e w' \<longleftrightarrow>
     v = Confirmed \<and> e = elapsed + 15 * int n \<and> clean_polls C chk n w w' \<or>
     v = Flapped \<and> (\<exists>k w2. k < n \<and> clean_polls C chk k w w2 \<and>
        chk (cl_sleep C 15 w2) = (Inr True, w') \<and> e = elapsed + 15 * (int k + 1))"

lemma window_outcome_more:
  assumes "chk (cl_sleep C 15 w) = (Inr False, w1)" "window_outcome C chk n (elapsed + 15) w1 v e w'"
  shows "window_outcome C chk (Suc n) elapsed w v e w'"
  using assms(2) unfolding window_outcome_def
proof (elim disjE conjE exE)
  assume "v = Confirmed" "e = elapsed + 15 + 15 * int n" "clean_polls C chk n w1 w'"
  with clean_polls.more[of chk C, OF assms(1)] show
    "v = Confirmed \<and> e = elapsed + 15 * int (Suc n) \<and> clean_polls C chk (Suc n) w w' \<or>
     v = Flapped \<and> (\<exists>k w2. k < Suc n \<and> clean_polls C chk k w w2 \<and>
        chk (cl_sleep C 15 w2) = (Inr True, w') \<and> e = elapsed + 15 * (int k + 1))" by simp
next
  fix k w2
  assume v: "v = Flapped" "k < n" and c: "clean_polls C chk k w1 w2" and
    h: "chk (cl_sleep C 15 w2) = (Inr True, w')" "e = elapsed + 15 + 15 * (int k + 1)"
  from clean_polls.more[of chk C, OF assms(1) c]
  have "Suc k < Suc n \<and> clean_polls C chk (Suc k) w w2 \<and> chk (cl_sleep C 15 w2) = (Inr True, w') \<and>
      e = elapsed + 15 * (int (Suc k) + 1)" using v h by simp
  with v show
    "v = Confirmed \<and> e = elapsed + 15 * int (Suc n) \<and> clean_polls C chk (Suc n) w w' \<or>
     v = Flapped \<and> (\<exists>k w2. k < Suc n \<and> clean_polls C chk k w w2 \<and>
        chk (cl_sleep C 15 w2) = (Inr True, w') \<and> e = elapsed + 15 * (int k + 1))" by blast
qed

lemma poll_window_outcome:
  assumes "poll_window C chk window elapsed w = (Inr (v, e), w')"
  shows "window_outcome C chk (polls_of (window - elapsed)) elapsed w v e w'"
  using assms
proof (induction C chk window elapsed w rule: poll_window.induct)
  case (1 C chk window elapsed w)
  show ?case
  proof (cases "elapsed < window")
    case False
    with 1(2) show ?thesis
      by (simp add: poll_window.simps[of C chk window elapsed] polls_of_done window_outcome_def)
  next
    case True
    obtain r w1 where p: "chk (cl_sleep C 15 w) = (r, w1)" by (cases "chk (cl_sleep C 15 w)")
    from 1(2) True p consider "r = Inr True" "v = Flapped" "e = elapsed + 15" "w' = w1"
      | "r = Inr False" "poll_window C chk window (elapsed + 15) w1 = (Inr (v, e), w')"
      by (auto simp: poll_window.simps[of C chk window elapsed] poll_interval_s_def
          split: sum.splits bool.splits)
    then show ?thesis
    proof cases
      case 1
      with p True show ?thesis
        by (auto simp: window_outcome_def polls_of_step intro!: exI[of _ "0::nat"])
    next
      case 2
      have "window_outcome C chk (polls_of (window - (elapsed + 15))) (elapsed + 15) w1 v e w'"
        using "1.IH"[OF True, of "Inr False" w1 False] p 2 by (simp add: poll_interval_s_def)
      with p 2 True show ?thesis by (simp add: polls_of_step window_outcome_more)
    qed
  qed
qed

section \<open>The newest pod\<close>

lemma str_less_irrefl [simp]: "\<not> str_less s s"
  by (induction s) auto

lemma str_less_trans: "str_less a b \<Longrightarrow> str_less b c \<Longrightarrow> str_less a c"
proof (induction a b arbitrary: c rule: str_less.induct)
  case (2 y ys)
  then show ?case by (cases c) auto
next
  case (3 x xs y ys)
  then show ?case by (cases c) (auto simp: Let_def)
qed simp

lemma str_less_total: "str_less a b \<or> a = b \<or> str_less b a"
proof (induction a b rule: str_less.induct)
  case (1 a)
  then show ?case by (cases a) auto
next
  case (3 x xs y ys)
  then show ?case by (auto simp: Let_def)
qed simp

lemma newest_pod_in: "newest_pod p qs \<in> insert p (set qs)"
  by (induction p qs rule: newest_pod.induct) (auto split: if_splits)

lemma newest_pod_is_newest:
  "q \<in> insert p (set qs) \<Longrightarrow> \<not> str_less (lp_created (newest_pod p qs)) (lp_created q)"
proof (induction p qs arbitrary: q rule: newest_pod.induct)
  case (2 p q' qs)
  let ?m = "if str_less (lp_created p) (lp_created q') then q' else p"
  have m: "\<not> str_less (lp_created (newest_pod ?m qs)) (lp_created ?m)" using "2.IH"[of ?m] by simp
  from "2.prems" consider "q \<in> set qs" | "q = ?m" | "q = p" "str_less (lp_created p) (lp_created q')"
    | "q = q'" "\<not> str_less (lp_created p) (lp_created q')"
    by (cases "str_less (lp_created p) (lp_created q')") auto
  then show ?case
  proof cases
    case 3
    with m str_less_trans[of "lp_created (newest_pod ?m qs)" "lp_created p" "lp_created q'"]
    show ?thesis by auto
  next
    case 4
    with m str_less_total[of "lp_created p" "lp_created q'"]
      str_less_trans[of "lp_created (newest_pod ?m qs)" "lp_created q'" "lp_created p"]
    show ?thesis by auto
  qed (use m "2.IH" in auto)
qed simp

section \<open>The probes\<close>

text \<open>What the next \<open>n\<close> probes read, when none of them is judged.\<close>

fun readings :: "'w cluster \<Rightarrow> string \<Rightarrow> bool \<Rightarrow> nat \<Rightarrow> ('w, rat option list) step" where
  "readings C ns first 0 w = (Inr [], w)"
| "readings C ns first (Suc n) w =
     then_step (catalogue_probe_p95_ms_live C ns)
       (\<lambda>p. map_step (Cons p) (readings C ns False n)) (if first then w else cl_sleep C 15 w)"

lemma probe_loop_confirmed:
  assumes "probe_loop C limit ns first n elapsed w = (Inr (Confirmed, e), w')"
  shows "\<exists>ps. readings C ns first n w = (Inr ps, w') \<and> length ps = n \<and> (\<forall>p \<in> set ps. \<not> at_least limit p) \<and>
    e = elapsed + 20 * int n + 15 * int (if first then n - 1 else n)"
  using assms
proof (induction n arbitrary: first elapsed w)
  case (Suc n)
  let ?w0 = "if first then w else cl_sleep C 15 w"
  obtain r w1 where p: "catalogue_probe_p95_ms_live C ns ?w0 = (r, w1)"
    by (cases "catalogue_probe_p95_ms_live C ns ?w0")
  with Suc.prems obtain q where r: "r = Inr q" and q: "\<not> at_least limit q"
    and rest: "probe_loop C limit ns False n ((if first then elapsed else elapsed + 15) + 20) w1 = (Inr (Confirmed, e), w')"
    by (cases first; cases r)
      (auto simp: under_provisioned_inter_probe_sleep_s_def under_provisioned_probe_duration_s_def
        Let_def split: if_splits)
  from Suc.IH[OF rest] obtain ps where ps: "readings C ns False n w1 = (Inr ps, w')" "length ps = n"
    "\<forall>p \<in> set ps. \<not> at_least limit p"
    "e = ((if first then elapsed else elapsed + 15) + 20) + 20 * int n + 15 * int n" by auto
  have "readings C ns first (Suc n) w = (Inr (q # ps), w')"
    using p r ps(1) by (simp add: then_step_def map_step_def ret_step_def)
  with ps q show ?case by (intro exI[of _ "q # ps"]) auto
qed simp

lemma replicas_loop_true:
  "replicas_loop C ns count t elapsed w = (Inr True, w') \<Longrightarrow>
     \<exists>w0 n. catalogue_available_replicas_live C ns w0 = (Inr n, w') \<and> int_ge n count = Inr True"
proof (induction C ns count t elapsed w rule: replicas_loop.induct)
  case (1 C ns count t elapsed w)
  from 1(2) show ?case
    unfolding replicas_loop.simps[of C ns count t elapsed w]
    by (auto split: if_splits prod.splits sum.splits bool.splits dest: 1(1)[OF _ sym refl])
qed

section \<open>The loops return\<close>

definition cluster_ok :: "'w cluster \<Rightarrow> bool" where
  "cluster_ok C \<longleftrightarrow>
     (\<forall>w s. cl_now C w + s \<le> cl_now C (cl_sleep C s w)) \<and>
     (\<forall>ns w. cl_now C w \<le> cl_now C (snd (cl_front_end C ns w))) \<and>
     (\<forall>q w. fst (cl_prom C q w) \<noteq> Inl Out_Of_Fuel)"

definition fuelled :: "('w, 'a) step \<Rightarrow> bool" where
  "fuelled m \<longleftrightarrow> (\<forall>w. fst (m w) \<noteq> Inl Out_Of_Fuel)"

lemma fuelled_then: "fuelled m \<Longrightarrow> (\<And>a. fuelled (f a)) \<Longrightarrow> fuelled (then_step m f)"
  unfolding fuelled_def then_step_def by (auto split: prod.splits sum.splits) (metis fst_conv)+

lemma fuelled_then_result:
  assumes "fuelled m" "\<And>a w w1. m w = (Inr a, w1) \<Longrightarrow> fuelled (f a)" shows "fuelled (then_step m f)"
  unfolding fuelled_def
proof
  fix w
  obtain r w1 where m: "m w = (r, w1)" by (cases "m w")
  moreover have "r \<noteq> Inl Out_Of_Fuel" using assms(1) m unfolding fuelled_def by (metis fst_conv)
  ultimately show "fst (then_step m f w) \<noteq> Inl Out_Of_Fuel"
    using assms(2) by (cases r) (auto simp: then_step_def fuelled_def)
qed

lemma fuelled_ret [simp]: "fuelled (ret_step a)"
  by (simp add: fuelled_def ret_step_def)

lemma fuelled_map: "fuelled m \<Longrightarrow> fuelled (map_step g m)"
  by (simp add: map_step_def fuelled_then)


lemma fuelled_prom: "cluster_ok C \<Longrightarrow> fuelled (cl_prom C q)"
  by (simp add: cluster_ok_def fuelled_def)

lemma fuelled_pod_name: "fuelled (pod_name_loop C target ns elapsed)"
  unfolding fuelled_def
proof
  fix w
  show "fst (pod_name_loop C target ns elapsed w) \<noteq> Inl Out_Of_Fuel"
  proof (induction C target ns elapsed w rule: pod_name_loop.induct)
    case (1 C target ns elapsed w)
    then show ?case
      unfolding pod_name_loop.simps[of C target ns elapsed w]
      by (auto split: prod.splits option.splits)
  qed
qed

lemma fuelled_window: "fuelled chk \<Longrightarrow> fuelled (poll_window C chk window elapsed)"
  unfolding fuelled_def[of "poll_window C chk window elapsed"]
proof
  fix w
  assume "fuelled chk"
  then show "fst (poll_window C chk window elapsed w) \<noteq> Inl Out_Of_Fuel"
  proof (induction C chk window elapsed w rule: poll_window.induct)
    case (1 C chk window elapsed w)
    obtain r w1 where p: "chk (cl_sleep C (of_int poll_interval_s) w) = (r, w1)"
      by (cases "chk (cl_sleep C (of_int poll_interval_s) w)")
    then have "r \<noteq> Inl Out_Of_Fuel" using 1(2) unfolding fuelled_def by (metis fst_conv)
    with 1(1)[OF _ p[symmetric]] 1(2) p show ?case
      unfolding poll_window.simps[of C chk window elapsed w]
      by (auto split: sum.splits bool.splits)
  qed
qed

lemma py_int_error: "py_int s = Inl e \<Longrightarrow> e = ValueError"
  by (auto simp: py_int_def Let_def split: prod.splits if_splits)

lemma int_ge_error: "int_ge n v = Inl e \<Longrightarrow> e = TypeError"
  by (cases v) auto

lemma fuelled_available: "fuelled (catalogue_available_replicas_live C ns)"
  by (auto simp: fuelled_def catalogue_available_replicas_live_def Let_def dest: py_int_error
      split: prod.splits)

lemma fuelled_replicas: "fuelled (replicas_loop C ns count t elapsed)"
  unfolding fuelled_def
proof
  fix w
  show "fst (replicas_loop C ns count t elapsed w) \<noteq> Inl Out_Of_Fuel"
  proof (induction C ns count t elapsed w rule: replicas_loop.induct)
    case (1 C ns count t elapsed w)
    obtain r w1 where p: "catalogue_available_replicas_live C ns w = (r, w1)"
      by (cases "catalogue_available_replicas_live C ns w")
    then have "r \<noteq> Inl Out_Of_Fuel" using fuelled_available unfolding fuelled_def by (metis fst_conv)
    with 1[OF _ p[symmetric]] p show ?case
      unfolding replicas_loop.simps[of C ns count t elapsed w]
      by (auto split: sum.splits bool.splits dest: int_ge_error)
  qed
qed

lemma parse_k6_error: "parse_k6_p95_ms s = Inl e \<Longrightarrow> e = ValueError"
  by (auto simp: parse_k6_p95_ms_def float_of_digits_def Let_def split: option.splits sum.splits if_splits)

lemma fuelled_probe: "fuelled (catalogue_probe_p95_ms_live C ns)"
  by (auto simp: fuelled_def catalogue_probe_p95_ms_live_def dest: parse_k6_error
      split: prod.splits k6_run.splits)

lemma fuelled_probe_loop: "fuelled (probe_loop C limit ns first n elapsed)"
  unfolding fuelled_def
proof (induction n arbitrary: first elapsed)
  case (Suc n)
  have "fst (catalogue_probe_p95_ms_live C ns w) \<noteq> Inl Out_Of_Fuel" for w
    using fuelled_probe[of C ns] by (simp add: fuelled_def)
  with Suc.IH show ?case
    by (auto simp: Let_def split: prod.splits sum.splits) (metis fst_conv)+
qed simp

lemma image_pull_loop_returns:
  assumes "cluster_ok C" "deadline - cl_now C w \<le> 2 * rat_of_nat fuel"
  shows "fst (image_pull_loop C ns deadline (Suc fuel) w) \<noteq> Inl Out_Of_Fuel"
  using assms(2)
proof (induction fuel arbitrary: w)
  case (Suc fuel)
  obtain b w1 where b: "front_end_image_pull_failing_live C ns w = (b, w1)"
    by (cases "front_end_image_pull_failing_live C ns w")
  then have "w1 = snd (cl_front_end C ns w)"
    by (auto simp: front_end_image_pull_failing_live_def split: prod.splits)
  then have "cl_now C w \<le> cl_now C w1" "cl_now C w1 + 2 \<le> cl_now C (cl_sleep C 2 w1)"
    using assms(1) unfolding cluster_ok_def by blast+
  with Suc.prems have "deadline - cl_now C (cl_sleep C 2 w1) \<le> 2 * rat_of_nat fuel" by simp
  from Suc.IH[OF this] b show ?case
    by (auto simp del: image_pull_loop.simps simp: image_pull_loop.simps(2)[of _ _ _ "Suc fuel"]
        split: bool.splits)
qed (auto split: prod.splits bool.splits)

lemma fuelled_image_pull:
  assumes "cluster_ok C" "31 \<le> fuel" shows "fuelled (wait_for_no_image_pull_failure C fuel ns 60)"
proof -
  obtain f where f: "fuel = Suc f" "30 \<le> f" using assms(2) by (cases fuel) auto
  then have "60 \<le> 2 * rat_of_nat f" using of_nat_mono[of 30 f, where 'a = rat] by simp
  with image_pull_loop_returns[OF assms(1)] f show ?thesis
    by (simp add: fuelled_def wait_for_no_image_pull_failure_def del: image_pull_loop.simps)
qed

lemma fuelled_check:
  assumes "cluster_ok C" "31 \<le> fuel" shows "fuelled (make_check C fuel c target ns)"
proof -
  have pod: "fuelled (current_pod_name_live_with_retry C target ns)"
    by (simp add: current_pod_name_live_with_retry_def fuelled_pod_name)
  have count: "fuelled (restart_count C p ns)" "fuelled (cfs_throttled_periods_exact C p ns k)" for p k
    by (simp_all add: restart_count_def cfs_throttled_periods_exact_def fuelled_map fuelled_prom[OF assms(1)])
  show ?thesis
    unfolding make_check_def
    by (auto intro!: fuelled_then fuelled_map pod count fuelled_image_pull[OF assms])
qed

lemma checks_fuelled:
  assumes "cluster_ok C"
  shows "fuelled (crash_loop_check C p b ns)" "fuelled (oom_check C p b ns)"
    "fuelled (disk_full_check C p target ns)" "fuelled (cpu_throttle_check C p k b ns)"
    "fuelled (bad_rollout_check C ns)"
proof -
  have count: "fuelled (restart_count C p ns)" "fuelled (cfs_throttled_periods_exact C p ns k)"
    "fuelled (crash_loop_backoff_now C p ns)"
    by (simp_all add: restart_count_def cfs_throttled_periods_exact_def crash_loop_backoff_now_def
        fuelled_map fuelled_prom[OF assms])
  show "fuelled (crash_loop_check C p b ns)" "fuelled (oom_check C p b ns)"
    "fuelled (cpu_throttle_check C p k b ns)"
    unfolding crash_loop_check_def oom_check_def cpu_throttle_check_def
    by (auto intro!: fuelled_then fuelled_map count)
  show "fuelled (disk_full_check C p target ns)" "fuelled (bad_rollout_check C ns)"
    by (auto simp: fuelled_def disk_full_check_def bad_rollout_check_def split: prod.splits option.splits)
qed

lemma make_check_cases:
  assumes "make_check C fuel c target ns w = (Inr chk, w1)"
  shows "(\<exists>p b. chk = crash_loop_check C p b ns) \<or> (\<exists>p b. chk = oom_check C p b ns) \<or>
    (\<exists>p. chk = disk_full_check C p target ns) \<or> (\<exists>p b. chk = cpu_throttle_check C p target b ns) \<or>
    chk = bad_rollout_check C ns"
  using assms unfolding make_check_def
  by (auto simp: then_step_Inr map_step_Inr split: if_splits)

section \<open>An example cluster\<close>

text \<open>The world is the time. \<^verbatim>\<open>queue-master\<close> has a pod on its way out and a newer one; every
  k6 run times out; three replicas of catalogue are available.\<close>

definition demo_cluster :: "rat cluster" where
  "demo_cluster = \<lparr>
     cl_running = \<lambda>_ _ t. (Some
       [\<lparr>lp_deleting = Some ''2026-08-30T10:00:30Z'', lp_created = ''2026-08-30T09:00:00Z'', lp_name = ''q-old''\<rparr>,
        \<lparr>lp_deleting = None, lp_created = ''2026-08-30T10:00:00Z'', lp_name = ''q-new''\<rparr>], t),
     cl_front_end = \<lambda>_ t. (Some [[None]], t), cl_available = \<lambda>_ t. (''3'', t),
     cl_prom = \<lambda>_ t. (Inr [], t), cl_k6 = \<lambda>_ t. (K6_Timeout, t + 80), cl_now = \<lambda>t. t,
     cl_sleep = \<lambda>s t. t + s\<rparr>"

lemma demo_current_pod: "current_pod_name_live demo_cluster target ns t = (Some ''q-new'', t)"
  by (simp add: current_pod_name_live_def demo_cluster_def current_pod_of_def is_alive_def)

lemma demo_disk_full:
  "make_check demo_cluster 31 ''disk-full'' ''queue-master'' ''sock-shop'' t =
     (Inr (disk_full_check demo_cluster ''q-new'' ''queue-master'' ''sock-shop''), t)"
  by (simp add: make_check_def map_step_def then_step_def ret_step_def current_pod_name_live_with_retry_def
      pod_name_loop.simps demo_current_pod)

lemma demo_check_clean:
  "disk_full_check demo_cluster ''q-new'' target ns t = (Inr False, t)"
  by (simp add: disk_full_check_def demo_current_pod)

lemma poll_window_clean:
  assumes "\<And>w. fst (chk w) = Inr False"
  shows "\<exists>e' w'. poll_window C chk window e w = (Inr (Confirmed, e'), w')"
  using assms
proof (induction C chk window e w rule: poll_window.induct)
  case (1 C chk window e w)
  obtain w1 where p: "chk (cl_sleep C (of_int poll_interval_s) w) = (Inr False, w1)"
    using 1(2) by (metis prod.collapse)
  with 1(1)[OF _ p[symmetric] refl _ 1(2)] show ?case
    by (cases "e < window") (simp_all add: poll_window.simps[of C chk window e])
qed

section \<open>Properties\<close>

text \<open>The pod a check is bound to is the newest one that is not being deleted.\<close>

theorem live_pod_is_newest:
  assumes "current_pod_of items = Some n"
  shows "\<exists>ps p. items = Some ps \<and> p \<in> set ps \<and> is_alive p \<and> lp_name p = n \<and>
    (\<forall>q \<in> set ps. is_alive q \<longrightarrow> \<not> str_less (lp_created p) (lp_created q))"
proof -
  obtain ps p qs where ps: "items = Some ps" "filter is_alive ps = p # qs" and n: "n = lp_name (newest_pod p qs)"
    using assms by (auto simp: current_pod_of_def split: option.splits list.splits)
  have alive: "insert p (set qs) = {q \<in> set ps. is_alive q}" using ps(2) by (metis list.simps(15) set_filter)
  show ?thesis
    using ps(1) n alive newest_pod_in[of p qs] newest_pod_is_newest[of _ p qs] by blast
qed

lemma live_pod_is_newest_witness:
  "\<exists>ps p. fst (cl_running demo_cluster ''queue-master'' ''sock-shop'' 0) = Some ps \<and> p \<in> set ps \<and> lp_name p = ''q-new''"
proof -
  have "current_pod_of (fst (cl_running demo_cluster ''queue-master'' ''sock-shop'' 0)) = Some ''q-new''"
    by (simp add: demo_cluster_def current_pod_of_def is_alive_def)
  from live_pod_is_newest[OF this] show ?thesis by blast
qed

text \<open>Replicas are confirmed only once the count the action asked for was seen available and
  none of the three probes read a slow p95.\<close>

theorem replicas_confirmed:
  assumes "verify_durability C win limit fuel ''under-provisioned-replicas'' target ns res w = (Inr v, w')"
    and "vd_verdict v = Confirmed"
  shows "\<exists>w0 n w1 ps. catalogue_available_replicas_live C ns w0 = (Inr n, w1) \<and>
    int_ge n (requested_replicas res) = Inr True \<and>
    readings C ns True 3 w1 = (Inr ps, w') \<and> length ps = 3 \<and> (\<forall>p \<in> set ps. \<not> at_least limit p) \<and>
    vd_elapsed_s v = trunc (cl_now C w1 - cl_now C w) + 90"
proof -
  obtain w1 e where
    r: "replicas_loop C ns (requested_replicas res) 220 0 w = (Inr True, w1)" and
    p: "probe_loop C limit ns True 3 (trunc (cl_now C w1 - cl_now C w)) w1 = (Inr (Confirmed, e), w')" and
    e: "vd_elapsed_s v = e"
    using assms
    by (auto simp: verify_durability_def durability_windows_def map_step_Inr verify_under_provisioned_def
        then_step_Inr wait_for_catalogue_replicas_ready_def under_provisioned_replica_wait_timeout_s_def
        under_provisioned_probe_count_def Let_def split: if_splits)
  from probe_loop_confirmed[OF p] e obtain ps where
    "readings C ns True 3 w1 = (Inr ps, w') \<and> length ps = 3 \<and> (\<forall>p \<in> set ps. \<not> at_least limit p) \<and>
     vd_elapsed_s v = trunc (cl_now C w1 - cl_now C w) + 90" by auto
  with replicas_loop_true[OF r] show ?thesis by blast
qed

text \<open>The example cluster: three replicas at the first read, then three runs that time out.\<close>

lemma demo_probe_loop:
  "\<exists>t' e'. probe_loop demo_cluster limit ns first n e t = (Inr (Confirmed, e'), t')"
  by (induction n arbitrary: first e t)
    (auto simp: catalogue_probe_p95_ms_live_def demo_cluster_def at_least_def Let_def)

lemma demo_replicas:
  "\<exists>v t'. verify_durability demo_cluster default_window 140 31 ''under-provisioned-replicas'' ''catalogue''
      ''sock-shop'' None 0 = (Inr v, t') \<and> vd_verdict v = Confirmed"
proof -
  have "int_ge 3 (PInt 3) = Inr True" by simp
  moreover have "catalogue_available_replicas_live demo_cluster ''sock-shop'' 0 = (Inr 3, 0)"
  proof -
    have "py_strip ''3'' = ''3''" "py_int ''3'' = Inr 3" by code_simp+
    then show ?thesis by (simp add: catalogue_available_replicas_live_def demo_cluster_def Let_def)
  qed
  ultimately have "replicas_loop demo_cluster ''sock-shop'' (PInt 3) 220 0 0 = (Inr True, 0)"
    by (simp add: replicas_loop.simps)
  then show ?thesis
    using demo_probe_loop[of 140 "''sock-shop''" True 3 0 0]
    by (auto simp: verify_durability_def durability_windows_def map_step_def then_step_def ret_step_def
        verify_under_provisioned_def wait_for_catalogue_replicas_ready_def requested_replicas_def
        under_provisioned_replica_wait_timeout_s_def under_provisioned_target_replicas_def dict_get_def
        under_provisioned_probe_count_def trunc_def Let_def)
qed

lemma replicas_confirmed_witness:
  "\<exists>ps t' t. readings demo_cluster ''sock-shop'' True 3 t = (Inr ps, t') \<and> length ps = 3"
proof -
  from demo_replicas obtain v t' where r: "verify_durability demo_cluster default_window 140 31
      ''under-provisioned-replicas'' ''catalogue'' ''sock-shop'' None 0 = (Inr v, t')"
    and v: "vd_verdict v = Confirmed" by blast
  from replicas_confirmed[OF r v] show ?thesis by blast
qed

text \<open>C39: for every class but under-provisioned-replicas a fix is confirmed exactly when every poll of the
  window was clean, there are as many polls as 15 second steps cover the window, and a flap is
  reported at the first poll that saw the fault. Replicas are confirmed only after the requested
  count was seen available and none of three probes read a slow p95; a probe that measured nothing
  counts as not slow.\<close>

theorem window_verdict:
  assumes "verify_durability C win limit fuel c target ns res w = (Inr v, w')"
  shows "(c \<noteq> ''under-provisioned-replicas'' \<longrightarrow> (\<exists>chk w1. make_check C fuel c target ns w = (Inr chk, w1) \<and>
    (vd_verdict v = Confirmed \<and> vd_elapsed_s v = 15 * int (polls_of (win c)) \<and>
       clean_polls C chk (polls_of (win c)) w1 w' \<or>
     vd_verdict v = Flapped \<and> (\<exists>k w2. k < polls_of (win c) \<and> clean_polls C chk k w1 w2 \<and>
       chk (cl_sleep C 15 w2) = (Inr True, w') \<and> vd_elapsed_s v = 15 * (int k + 1))))) \<and>
   (c = ''under-provisioned-replicas'' \<and> vd_verdict v = Confirmed \<longrightarrow>
     (\<exists>w0 n w1 ps. catalogue_available_replicas_live C ns w0 = (Inr n, w1) \<and>
        int_ge n (requested_replicas res) = Inr True \<and> readings C ns True 3 w1 = (Inr ps, w') \<and>
        length ps = 3 \<and> (\<forall>p \<in> set ps. \<not> at_least limit p)))"
proof (intro conjI impI)
  assume "c = ''under-provisioned-replicas'' \<and> vd_verdict v = Confirmed"
  then show "\<exists>w0 n w1 ps. catalogue_available_replicas_live C ns w0 = (Inr n, w1) \<and>
        int_ge n (requested_replicas res) = Inr True \<and> readings C ns True 3 w1 = (Inr ps, w') \<and>
        length ps = 3 \<and> (\<forall>p \<in> set ps. \<not> at_least limit p)"
    using replicas_confirmed[of C win limit fuel target ns res w v w'] assms by blast
next
  assume c: "c \<noteq> ''under-provisioned-replicas''"
  have win: "durability_windows win c = Some (win c)"
    using assms(1) by (auto simp: verify_durability_def durability_windows_def split: option.splits if_splits)
  then obtain chk w1 u e where m: "make_check C fuel c target ns w = (Inr chk, w1)"
    and p: "poll_window C chk (win c) 0 w1 = (Inr (u, e), w')"
    and v: "vd_verdict v = u" "vd_elapsed_s v = e"
    using assms c by (auto simp: verify_durability_def map_step_Inr then_step_Inr)
  from poll_window_outcome[OF p] m v show "\<exists>chk w1. make_check C fuel c target ns w = (Inr chk, w1) \<and>
    (vd_verdict v = Confirmed \<and> vd_elapsed_s v = 15 * int (polls_of (win c)) \<and>
       clean_polls C chk (polls_of (win c)) w1 w' \<or>
     vd_verdict v = Flapped \<and> (\<exists>k w2. k < polls_of (win c) \<and> clean_polls C chk k w1 w2 \<and>
       chk (cl_sleep C 15 w2) = (Inr True, w') \<and> vd_elapsed_s v = 15 * (int k + 1)))"
    by (auto simp: window_outcome_def)
qed

lemma window_verdict_witness:
  "\<exists>v t'. verify_durability demo_cluster default_window 140 31 ''disk-full'' ''queue-master'' ''sock-shop'' None 0
       = (Inr v, t') \<and> (vd_elapsed_s v = 120 \<or> vd_verdict v = Flapped)"
proof -
  let ?chk = "disk_full_check demo_cluster ''q-new'' ''queue-master'' ''sock-shop''"
  obtain e t' where "poll_window demo_cluster ?chk 120 0 0 = (Inr (Confirmed, e), t')"
    using poll_window_clean[of ?chk demo_cluster 120 0 0] demo_check_clean by auto
  then obtain v where r: "verify_durability demo_cluster default_window 140 31 ''disk-full'' ''queue-master''
      ''sock-shop'' None 0 = (Inr v, t')"
    by (simp add: verify_durability_def durability_windows_def default_window_def map_step_def then_step_def
        demo_disk_full ret_step_def)
  have "polls_of (default_window ''disk-full'') = 8" by (simp add: default_window_def polls_of_def)
  with window_verdict[OF r] r show ?thesis by auto
qed

text \<open>A probe that never measures anything counts as a pass: once the replicas are available,
  a cluster where every k6 run fails confirms the fix.\<close>

theorem unmeasured_fix_is_confirmed:
  assumes "\<forall>w. fst (catalogue_probe_p95_ms_live C ns w) = Inr None"
    and "catalogue_available_replicas_live C ns w = (Inr n, w1)"
    and "int_ge n (requested_replicas res) = Inr True"
  shows "\<exists>v w'. verify_durability C win limit fuel ''under-provisioned-replicas'' target ns res w
           = (Inr v, w') \<and> vd_verdict v = Confirmed"
proof -
  have "\<exists>w' e'. probe_loop C limit ns first k e w = (Inr (Confirmed, e'), w')" for first k e w
  proof (induction k arbitrary: first e w)
    case (Suc k)
    let ?w0 = "if first then w else cl_sleep C 15 w"
    obtain w2 where "catalogue_probe_p95_ms_live C ns ?w0 = (Inr None, w2)"
      using assms(1) by (metis prod.collapse)
    with Suc.IH show ?case
      by (cases first) (simp_all add: at_least_def under_provisioned_inter_probe_sleep_s_def Let_def)
  qed simp
  then obtain w' e' where "probe_loop C limit ns True 3 (trunc (cl_now C w1 - cl_now C w)) w1
      = (Inr (Confirmed, e'), w')" by blast
  moreover have "replicas_loop C ns (requested_replicas res) 220 0 w = (Inr True, w1)"
    using assms(2,3) by (simp add: replicas_loop.simps)
  ultimately show ?thesis
    by (simp add: verify_durability_def durability_windows_def map_step_def then_step_def ret_step_def
        verify_under_provisioned_def wait_for_catalogue_replicas_ready_def
        under_provisioned_replica_wait_timeout_s_def under_provisioned_probe_count_def Let_def)
qed

lemma unmeasured_fix_is_confirmed_witness:
  "\<exists>v t'. verify_durability demo_cluster default_window 140 31 ''under-provisioned-replicas'' ''catalogue''
      ''sock-shop'' (Some [(''replicas'', PInt 2)]) 5 = (Inr v, t') \<and> vd_verdict v = Confirmed"
proof (rule unmeasured_fix_is_confirmed)
  show "\<forall>w. fst (catalogue_probe_p95_ms_live demo_cluster ''sock-shop'' w) = Inr None"
    by (simp add: catalogue_probe_p95_ms_live_def demo_cluster_def)
  have "py_strip ''3'' = ''3''" "py_int ''3'' = Inr 3" by code_simp+
  then show "catalogue_available_replicas_live demo_cluster ''sock-shop'' 5 = (Inr 3, 5)"
    by (simp add: catalogue_available_replicas_live_def demo_cluster_def Let_def)
  show "int_ge 3 (requested_replicas (Some [(''replicas'', PInt 2)])) = Inr True"
    by (simp add: requested_replicas_def dict_get_def Let_def)
qed

text \<open>The verifier returns: its retries and polls are bounded, and 31 reads are enough for the
  60 second wait before the bad-rollout checks, whatever the cluster answers.\<close>

theorem verify_durability_returns:
  assumes "cluster_ok C" "31 \<le> fuel"
  shows "fst (verify_durability C win limit fuel c target ns res w) \<noteq> Inl Out_Of_Fuel"
proof -
  have window: "fuelled (poll_window C chk n e)" if "make_check C fuel c target ns w = (Inr chk, w1)" for chk n e w w1
    using make_check_cases[OF that] checks_fuelled[OF assms(1)] by (auto intro: fuelled_window)
  have generic: "fuelled (then_step (make_check C fuel c target ns) (\<lambda>chk. poll_window C chk n 0))" for n
    by (rule fuelled_then_result[OF fuelled_check[OF assms]]) (rule window)
  have "fuelled (verify_under_provisioned C limit ns count)" for count
    unfolding fuelled_def verify_under_provisioned_def then_step_def
    using fuelled_replicas[of C ns count 220 0] fuelled_probe_loop[of C limit ns True]
    by (auto simp: fuelled_def wait_for_catalogue_replicas_ready_def Let_def
        under_provisioned_replica_wait_timeout_s_def split: prod.splits sum.splits) (metis fst_conv)
  with generic have "fuelled (verify_durability C win limit fuel c target ns res)"
    by (auto simp: verify_durability_def intro!: fuelled_map split: option.splits)
       (simp add: fuelled_def)
  then show ?thesis by (simp add: fuelled_def)
qed

lemma verify_durability_returns_witness:
  "fst (verify_durability demo_cluster default_window 140 31 ''bad-rollout'' ''front-end'' ''sock-shop'' None 0)
     \<noteq> Inl Out_Of_Fuel"
  by (rule verify_durability_returns) (auto simp: cluster_ok_def demo_cluster_def)

end
