(* ===== verification/Trust_Gate.thy ===== *)
theory Trust_Gate
  imports Constraint_Checks LLM_Trust
begin

text \<open>
  \<^verbatim>\<open>p2_readonly_loop/trust_gate.py\<close>: which outcomes may count towards Dimensions B and C.
  The reasons are a datatype, one constructor per f-string.
\<close>

datatype tier_reason =
    Diagnosis_Tier_Rejected "string option"
  | Diagnosis_Tier_Primary
  | Action_Tier_Rejected "string option"
  | Action_Tier_Primary

definition eligible_for_trust_ladder :: "string option \<Rightarrow> bool \<times> tier_reason" where
  "eligible_for_trust_ladder tier =
     (if tier \<noteq> Some ''primary'' then (False, Diagnosis_Tier_Rejected tier)
      else (True, Diagnosis_Tier_Primary))"

definition eligible_action_for_streak :: "string option \<Rightarrow> bool \<times> tier_reason" where
  "eligible_action_for_streak tier =
     (if tier \<noteq> Some ''primary'' then (False, Action_Tier_Rejected tier)
      else (True, Action_Tier_Primary))"

datatype action_reason =
    Action_Tool_Mismatch string string
  | Tool_Only_Match string
  | Constraint_Failed string safe_reason
  | Constraint_Passed string safe_reason

definition action_is_correct ::
    "kube_cpu \<Rightarrow> string \<Rightarrow> string \<Rightarrow> pydict \<Rightarrow> string \<Rightarrow> tool_output option \<Rightarrow> bool \<times> action_reason" where
  "action_is_correct kube_cpu fault tool params truth_tool out =
     (if tool \<noteq> truth_tool then (False, Action_Tool_Mismatch tool truth_tool)
      else if tool \<notin> set magnitude_sensitive_actions then (True, Tool_Only_Match tool)
      else case check_safe kube_cpu tool params fault out of
             (False, why) \<Rightarrow> (False, Constraint_Failed tool why)
           | (True, why) \<Rightarrow> (True, Constraint_Passed tool why))"

lemma action_is_correct_iff:
  "fst (action_is_correct kube_cpu fault tool params truth_tool out) \<longleftrightarrow>
     tool = truth_tool \<and> fst (check_safe kube_cpu tool params fault out)"
  by (auto simp: action_is_correct_def check_safe_def magnitude_sensitive_actions_def
      split: prod.splits bool.splits)

end
