(* ===== verification/Scorer.thy ===== *)
theory Scorer
  imports Diagnose_Endpoint Verifier Trust_Gate
begin

text \<open>
  \<^verbatim>\<open>p3_trust_action/p3_scorer.py\<close>: the only writer of the three trust ladders. It picks an
  episode, calls \<^verbatim>\<open>/diagnose\<close> and, when it is worth it, \<^verbatim>\<open>/act\<close>, judges the outcome, stores the
  score and then moves the ladders. The two HTTP calls are fields of the environment; an
  exception ends the run with the state it has reached (every write commits).
\<close>

section \<open>Picking the episode\<close>

definition max_episode_age_s :: int where "max_episode_age_s = 10 * 60"

text \<open>\<^verbatim>\<open>ORDER BY t0 DESC\<close>: rows without a \<open>t0\<close> come last. Of equal rows SQLite may take any; the
  first is taken here. Times are in seconds.\<close>

definition later :: "episode_row \<Rightarrow> episode_row \<Rightarrow> bool" where
  "later a b = (case (e_t0 a, e_t0 b) of (Some x, Some y) \<Rightarrow> y < x | (Some _, None) \<Rightarrow> True | _ \<Rightarrow> False)"

fun latest :: "string \<times> episode_row \<Rightarrow> (string \<times> episode_row) list \<Rightarrow> string \<times> episode_row" where
  "latest e [] = e"
| "latest e (x # xs) = latest (if later (snd x) (snd e) then x else e) xs"

definition is_scored :: "db \<Rightarrow> string \<Rightarrow> bool" where
  "is_scored d ep \<longleftrightarrow> map_of (scores d) ep \<noteq> None"

definition get_unscored_episode :: "int \<Rightarrow> db \<Rightarrow> (string \<times> episode_row) option res" where
  "get_unscored_episode now d =
     (case filter (\<lambda>e. \<not> is_scored d (fst e)) (episodes d) of
        [] \<Rightarrow> Inr None
      | e # es \<Rightarrow>
          (let (ep, row) = latest e es in
           case e_t0 row of
             None \<Rightarrow> Inl TypeError
           | Some t0 \<Rightarrow> if max_episode_age_s < now - t0 then Inr None else Inr (Some (ep, row))))"

definition get_episode_by_id :: "db \<Rightarrow> string \<Rightarrow> (string \<times> episode_row) option" where
  "get_episode_by_id d ep =
     (case map_of (episodes d) ep of
        None \<Rightarrow> None
      | Some row \<Rightarrow> if is_scored d ep then None else Some (ep, row))"

definition pick_episode :: "int \<Rightarrow> string option \<Rightarrow> db \<Rightarrow> (string \<times> episode_row) option res" where
  "pick_episode now arg d =
     (case arg of
        Some ep \<Rightarrow> if ep = [] then get_unscored_episode now d else Inr (get_episode_by_id d ep)
      | None \<Rightarrow> get_unscored_episode now d)"

section \<open>Judging\<close>

definition diagnosis_matches :: "string \<Rightarrow> string \<Rightarrow> bool" where
  "diagnosis_matches predicted actual =
     (let a = py_lower (py_strip actual); p = py_lower (py_strip predicted)
      in if a = ''none'' then p = ''no anomaly detected'' \<or> p = ''none'' else p = a)"

definition same_diagnosis :: "string \<Rightarrow> string \<Rightarrow> bool" where
  "same_diagnosis a b \<longleftrightarrow>
     a = b \<or> {a, b} \<subseteq> {''none'', ''no anomaly detected''}"

record 'w scorer_env =
  se_diagnose :: "diagnose_request \<Rightarrow> ('w sys, diagnose_response) step"
  se_act :: "act_request \<Rightarrow> ('w sys, act_response) step"
  se_cluster :: "'w cluster"
  se_windows :: "string \<Rightarrow> int"
  se_probe_ms :: rat
  se_fuel :: nat
  se_cpu :: "'w \<Rightarrow> kube_cpu"
  se_clock :: "'w \<Rightarrow> int"
  se_spawn :: "'w \<Rightarrow> 'w"
  se_reset :: "string \<Rightarrow> ('w, unit) step"

definition llm_diagnosis_of :: "llm_run \<Rightarrow> string option" where
  "llm_diagnosis_of run =
     (case run of Llm_Diagnosed l _ _ _ \<Rightarrow> Some (dg_diagnosis l) | Llm_Not_Diagnosed _ \<Rightarrow> None)"

definition has_fix :: "string \<Rightarrow> bool" where
  "has_fix c \<longleftrightarrow> deterministic_action_map c \<noteq> None"

text \<open>Is \<^verbatim>\<open>/act\<close> called: an eligible class, an LLM diagnosis with a fix, or a diagnosis without
  one for a fault that has one.\<close>

definition worth_calling_act :: "diagnose_response \<Rightarrow> string \<Rightarrow> bool" where
  "worth_calling_act r actual \<longleftrightarrow>
     dn_eligible r \<or>
     (case llm_diagnosis_of (dn_llm r) of None \<Rightarrow> False | Some c \<Rightarrow> has_fix c) \<or>
     (\<not> has_fix (dg_diagnosis (dn_result r)) \<and> has_fix actual)"

definition mode_text :: "b_mode \<Rightarrow> string" where
  "mode_text m = (case m of Stub \<Rightarrow> ''stub'' | Llm \<Rightarrow> ''llm'')"

definition act_request_of :: "string \<Rightarrow> episode_row \<Rightarrow> diagnose_response \<Rightarrow> act_request" where
  "act_request_of ep row r =
     \<lparr>ar_target = e_target row, ar_namespace = e_namespace row,
      ar_predicted = dg_diagnosis (dn_result r), ar_mode = mode_text (dn_mode_used r),
      ar_llm_provider = (case dn_llm r of Llm_Diagnosed _ p _ _ \<Rightarrow> Some p | Llm_Not_Diagnosed _ \<Rightarrow> None),
      ar_llm_model = (case dn_llm r of Llm_Diagnosed _ _ m _ \<Rightarrow> Some m | Llm_Not_Diagnosed _ \<Rightarrow> None),
      ar_llm_diagnosis = llm_diagnosis_of (dn_llm r),
      ar_llm_confidence = (case dn_llm r of Llm_Diagnosed l _ _ _ \<Rightarrow> dg_confidence l | Llm_Not_Diagnosed _ \<Rightarrow> None),
      ar_llm_reasoning = (case dn_llm r of Llm_Diagnosed l _ _ _ \<Rightarrow> dg_reasoning l | Llm_Not_Diagnosed _ \<Rightarrow> None),
      ar_tool_output = Some (dn_tool_output r), ar_episode = Some ep, ar_actual = Some (e_class row)\<rparr>"

definition diagnose_request_of :: "string option \<Rightarrow> episode_row \<Rightarrow> diagnose_request" where
  "diagnose_request_of snap row =
     \<lparr>dr_target = e_target row, dr_namespace = e_namespace row, dr_snapshot = snap,
      dr_baseline = e_baseline row, dr_probe = e_probe row\<rparr>"

text \<open>\<^verbatim>\<open>action_result["applied"] if action_result else None\<close>\<close>

definition applied_of :: "pydict option \<Rightarrow> pyval option res" where
  "applied_of result =
     (case result of None \<Rightarrow> Inr None
      | Some d \<Rightarrow>
          if d = [] then Inr None
          else (case map_of d ''applied'' of None \<Rightarrow> Inl (KeyError ''applied'') | Some v \<Rightarrow> Inr (Some v)))"

definition was_applied :: "pyval option \<Rightarrow> bool" where
  "was_applied v = (case v of None \<Rightarrow> False | Some x \<Rightarrow> truthy x)"

section \<open>Steps on the whole state\<close>

definition on_world :: "('w, 'a) step \<Rightarrow> ('w sys, 'a) step" where
  "on_world m s = (case m (s_world s) of (r, w) \<Rightarrow> (r, s\<lparr>s_world := w\<rparr>))"

definition on_db :: "'w scorer_env \<Rightarrow> (int \<Rightarrow> db \<Rightarrow> 'a res \<times> db) \<Rightarrow> ('w sys, 'a) step" where
  "on_db E f s = (case f (se_clock E (s_world s)) (s_db s) of (r, d) \<Rightarrow> (r, s\<lparr>s_db := d\<rparr>))"

record judgement =
  jd_trust :: "bool option"
  jd_verdict :: "verdict option"
  jd_elapsed :: "int option"
  jd_breaker :: "breaker_result option"

definition fail_breaker :: "string \<Rightarrow> string \<Rightarrow> int \<Rightarrow> db \<Rightarrow> breaker_result res \<times> db" where
  "fail_breaker why actual now d = (case record_failure now d why (Some actual) of (b, d') \<Rightarrow> (Inr b, d'))"

definition judge ::
    "'w scorer_env \<Rightarrow> episode_row \<Rightarrow> bool \<Rightarrow> act_response \<Rightarrow> pyval option \<Rightarrow> ('w sys, judgement) step" where
  "judge E row diagnosed a applied =
     (let actual = e_class row in
      if rs_taken a = None
      then ret_step \<lparr>jd_trust = (if promotion_streak actual \<noteq> None then Some diagnosed else None),
                     jd_verdict = None, jd_elapsed = None, jd_breaker = None\<rparr>
      else if \<not> diagnosed \<or> \<not> was_applied applied
      then map_step (\<lambda>b. \<lparr>jd_trust = Some False, jd_verdict = None, jd_elapsed = None, jd_breaker = Some b\<rparr>)
             (on_db E (fail_breaker ''action failed or misdiagnosed'' actual))
      else then_step (on_world (verify_durability (se_cluster E) (se_windows E) (se_probe_ms E) (se_fuel E)
                                  actual (e_target row) (e_namespace row) (rs_result a)))
             (\<lambda>v. let j = \<lparr>jd_trust = Some (vd_verdict v = Confirmed), jd_verdict = Some (vd_verdict v),
                           jd_elapsed = Some (vd_elapsed_s v), jd_breaker = None\<rparr>
                  in if vd_verdict v = Confirmed then ret_step j
                     else map_step (\<lambda>b. j\<lparr>jd_breaker := Some b\<rparr>) (on_db E (fail_breaker ''fix flapped'' actual))))"

section \<open>Storing the score\<close>

definition score_of :: "episode_row \<Rightarrow> diagnose_response \<Rightarrow> act_response \<Rightarrow> pyval option \<Rightarrow> judgement \<Rightarrow> score_row" where
  "score_of row r a applied j =
     \<lparr>sc_predicted = dg_diagnosis (dn_result r), sc_actual = e_class row,
      sc_correct = diagnosis_matches (dg_diagnosis (dn_result r)) (e_class row),
      sc_confidence = dg_confidence (dn_result r), sc_action = rs_taken a,
      sc_applied = map_option truthy applied, sc_verdict = jd_verdict j, sc_trust = jd_trust j\<rparr>"

definition snapshot_of :: "episode_row \<Rightarrow> diagnose_response \<Rightarrow> act_response \<Rightarrow> judgement \<Rightarrow> snapshot_row" where
  "snapshot_of row r a j =
     \<lparr>sn_tool_output = Some (dn_tool_output r), sn_reasoning = dg_reasoning (dn_result r),
      sn_confidence = dg_confidence (dn_result r), sn_action = rs_taken a, sn_result = rs_result a,
      sn_verdict = jd_verdict j, sn_elapsed = jd_elapsed j, sn_gate = rs_gate a,
      sn_provider = (case dn_llm r of Llm_Diagnosed _ p _ _ \<Rightarrow> Some p | Llm_Not_Diagnosed _ \<Rightarrow> None),
      sn_model = (case dn_llm r of Llm_Diagnosed _ _ m _ \<Rightarrow> Some m | Llm_Not_Diagnosed _ \<Rightarrow> None),
      sn_tier = (case dn_llm r of Llm_Diagnosed _ _ _ t \<Rightarrow> Some t | Llm_Not_Diagnosed _ \<Rightarrow> None),
      sn_baseline = e_baseline row\<rparr>"

text \<open>Two inserts and one commit: both rows or none.\<close>

definition insert_score :: "string \<Rightarrow> score_row \<Rightarrow> snapshot_row \<Rightarrow> db \<Rightarrow> unit res \<times> db" where
  "insert_score ep sc sn d =
     (if is_scored d ep \<or> map_of (episode_snapshots d) ep \<noteq> None then (Inl IntegrityError, d)
      else (Inr (), d\<lparr>scores := scores d @ [(ep, sc)],
                      episode_snapshots := episode_snapshots d @ [(ep, sn)]\<rparr>))"

section \<open>The ladders\<close>

definition update_trust_a :: "string \<Rightarrow> string \<Rightarrow> bool option \<Rightarrow> int \<Rightarrow> db \<Rightarrow> unit res \<times> db" where
  "update_trust_a ep actual trust now d =
     (case trust of None \<Rightarrow> (Inr (), d)
      | Some ok \<Rightarrow>
          (case record_outcome now d actual ok (Some ep) of
             Inl e \<Rightarrow> (Inl e, d) | Inr (_, d') \<Rightarrow> (Inr (), d')))"

definition note_misdispatch ::
    "string \<Rightarrow> string \<Rightarrow> string \<Rightarrow> bool \<Rightarrow> int \<Rightarrow> db \<Rightarrow> unit res \<times> db" where
  "note_misdispatch ep predicted actual taken now d =
     (if taken \<and> predicted \<noteq> actual \<and> promotion_streak predicted \<noteq> None
      then (Inr (), snd (record_misdispatch now d ep predicted actual)) else (Inr (), d))"

text \<open>\<^verbatim>\<open>record_llm_trust\<close>, in its three parts.\<close>

definition llm_log_of :: "string \<Rightarrow> string \<Rightarrow> diagnose_response \<Rightarrow> llm_log_row" where
  "llm_log_of ep actual r =
     (let stub = dg_diagnosis (dn_stub r); llm = llm_diagnosis_of (dn_llm r);
          said = (case llm of None \<Rightarrow> None | Some c \<Rightarrow> if c = [] then None else Some c)
      in \<lparr>l_episode = ep, l_actual = actual, l_stub = Some stub,
          l_stub_correct = (if stub \<noteq> [] then Some (diagnosis_matches stub actual) else None),
          l_llm = llm, l_matches = map_option (\<lambda>c. c = actual) said,
          l_matches_stub = (if stub \<noteq> [] then map_option (\<lambda>c. same_diagnosis c stub) said else None),
          l_tier = (case dn_llm r of Llm_Diagnosed _ _ _ t \<Rightarrow> Some t | Llm_Not_Diagnosed _ \<Rightarrow> None)\<rparr>)"

definition update_trust_b :: "string \<Rightarrow> string \<Rightarrow> llm_run \<Rightarrow> int \<Rightarrow> db \<Rightarrow> db" where
  "update_trust_b ep actual run now d =
     (case run of Llm_Not_Diagnosed _ \<Rightarrow> d
      | Llm_Diagnosed l _ _ tier \<Rightarrow>
          if fst (eligible_for_trust_ladder (Some tier))
          then snd (record_diagnoser_outcome now d actual (dg_diagnosis l = actual) (Some ep)) else d)"

text \<open>\<^verbatim>\<open>check_safe\<close> reads the parameters with \<^verbatim>\<open>.get\<close>: None there raises, for the three actions
  whose magnitude it judges.\<close>

definition update_trust_c ::
    "kube_cpu \<Rightarrow> string \<Rightarrow> episode_row \<Rightarrow> tool_output \<Rightarrow> proposal option \<Rightarrow> int \<Rightarrow> db \<Rightarrow> unit res \<times> db" where
  "update_trust_c kube_cpu ep row out prp now d =
     (case prp of None \<Rightarrow> (Inr (), d)
      | Some p \<Rightarrow>
          (case (pr_tool p, deterministic_action_map (e_class row)) of
             (Some tool, Some (truth, _)) \<Rightarrow>
               (let d1 = log_proposal ep (e_target row) (e_namespace row) p d in
                if pr_params p = None \<and> tool = truth \<and> tool \<in> set magnitude_sensitive_actions
                then (Inl AttributeError, d1)
                else
                  let params = (case pr_params p of None \<Rightarrow> [] | Some ps \<Rightarrow> ps);
                      ok = fst (action_is_correct kube_cpu (e_class row) tool params truth (Some out))
                  in (Inr (), if fst (eligible_action_for_streak (pr_tier p))
                              then snd (record_action_outcome now d1 (e_class row) ok (Some ep)) else d1))
           | _ \<Rightarrow> (Inr (), d)))"

definition record_llm_trust ::
    "kube_cpu \<Rightarrow> string \<Rightarrow> episode_row \<Rightarrow> diagnose_response \<Rightarrow> proposal option \<Rightarrow> int \<Rightarrow> db \<Rightarrow> unit res \<times> db" where
  "record_llm_trust kube_cpu ep row r prp now d =
     (let d1 = d\<lparr>llm_diagnosis_log := llm_diagnosis_log d @ [llm_log_of ep (e_class row) r]\<rparr>;
          d2 = update_trust_b ep (e_class row) (dn_llm r) now d1
      in update_trust_c kube_cpu ep row (dn_tool_output r) prp now d2)"

section \<open>The run\<close>

definition reset_baselines :: "'w scorer_env \<Rightarrow> string \<Rightarrow> ('w sys, unit) step" where
  "reset_baselines E actual =
     (if actual = ''oom'' \<or> actual = ''under-provisioned-replicas''
      then then_step (on_world (se_reset E ''under-provisioned-replicas'')) (\<lambda>_. on_world (se_reset E ''oom''))
      else ret_step ())"

text \<open>After the score is stored.\<close>

definition settle ::
    "'w scorer_env \<Rightarrow> string \<Rightarrow> episode_row \<Rightarrow> diagnose_response \<Rightarrow> act_response \<Rightarrow> judgement \<Rightarrow> ('w sys, unit) step" where
  "settle E ep row r a j =
     then_step (on_db E (update_trust_a ep (e_class row) (jd_trust j))) (\<lambda>_.
     then_step (on_db E (note_misdispatch ep (dg_diagnosis (dn_result r)) (e_class row) (rs_taken a \<noteq> None))) (\<lambda>_.
     then_step (\<lambda>s. on_db E (record_llm_trust (se_cpu E (s_world s)) ep row r (rs_proposal a)) s) (\<lambda>_.
       reset_baselines E (e_class row))))"

definition call_act :: "'w scorer_env \<Rightarrow> string \<Rightarrow> episode_row \<Rightarrow> diagnose_response \<Rightarrow> ('w sys, act_response) step" where
  "call_act E ep row r =
     (if worth_calling_act r (e_class row) then se_act E (act_request_of ep row r) else ret_step (no_action None))"

definition score_episode :: "'w scorer_env \<Rightarrow> string option \<Rightarrow> string \<Rightarrow> episode_row \<Rightarrow> ('w sys, unit) step" where
  "score_episode E snap ep row =
     then_step (se_diagnose E (diagnose_request_of snap row)) (\<lambda>r.
     then_step (call_act E ep row r) (\<lambda>a.
     then_step (\<lambda>s. (applied_of (rs_result a), s)) (\<lambda>applied.
     then_step (judge E row (diagnosis_matches (dg_diagnosis (dn_result r)) (e_class row)) a applied) (\<lambda>j.
     then_step (on_db E (\<lambda>_. insert_score ep (score_of row r a applied j) (snapshot_of row r a j))) (\<lambda>_.
       settle E ep row r a j)))))"

text \<open>\<^verbatim>\<open>main\<close>: with an episode id, or the latest unscored one. A crash-loop episode first spawns
  the detached process that flips the carts selector back.\<close>

definition run_scorer :: "'w scorer_env \<Rightarrow> string option \<Rightarrow> string option \<Rightarrow> ('w sys, string option) step" where
  "run_scorer E arg snap s =
     (case pick_episode (se_clock E (s_world s)) arg (s_db s) of
        Inl e \<Rightarrow> (Inl e, s)
      | Inr None \<Rightarrow> (Inr None, s)
      | Inr (Some (ep, row)) \<Rightarrow>
          map_step (\<lambda>_. Some ep) (score_episode E snap ep row)
            (if e_class row = ''crash-loop'' then s\<lparr>s_world := se_spawn E (s_world s)\<rparr> else s))"

section \<open>Marks: what an episode leaves on the ladders\<close>

definition marks_of :: "string \<Rightarrow> 's hist_row list \<Rightarrow> nat" where
  "marks_of ep h = length (filter (\<lambda>r. h_episode r = Some ep) h)"

definition misdispatch_marks :: "string \<Rightarrow> db \<Rightarrow> nat" where
  "misdispatch_marks ep d = length (filter (\<lambda>r. m_episode r = ep) (misdispatch_log d))"

lemma marks_of_simps [simp]:
  "marks_of ep [] = 0" "marks_of ep (h @ h') = marks_of ep h + marks_of ep h'"
  "marks_of ep [r] = (if h_episode r = Some ep then 1 else 0)"
  by (simp_all add: marks_of_def)

text \<open>A row without an episode that only takes trust away: it is no correct outcome and its streak
  is 0 afterwards.\<close>

definition takes_away :: "'s hist_row \<Rightarrow> bool" where
  "takes_away r \<longleftrightarrow> \<not> h_correct r \<and> h_streak_after r = 0"

definition unlabelled_resets :: "'s hist_row list \<Rightarrow> bool" where
  "unlabelled_resets h \<longleftrightarrow> (\<forall>r\<in>set h. h_episode r = None \<longrightarrow> takes_away r)"

lemma unlabelled_resets_simps [simp]:
  "unlabelled_resets []" "unlabelled_resets (h @ h') \<longleftrightarrow> unlabelled_resets h \<and> unlabelled_resets h'"
  "unlabelled_resets [r] \<longleftrightarrow> (h_episode r = None \<longrightarrow> takes_away r)"
  by (auto simp: unlabelled_resets_def)

text \<open>\<open>d'\<close> has at most \<open>i\<close>, \<open>j\<close>, \<open>k\<close>, \<open>l\<close> more marks of \<open>ep\<close>, no more of another
  episode, no unlabelled row that gives trust, and the same scores.\<close>

definition bump :: "string \<Rightarrow> nat \<Rightarrow> nat \<Rightarrow> nat \<Rightarrow> nat \<Rightarrow> db \<Rightarrow> db \<Rightarrow> bool" where
  "bump ep i j k l d d' \<longleftrightarrow> scores d' = scores d \<and>
     (unlabelled_resets (trust_history d) \<longrightarrow> unlabelled_resets (trust_history d')) \<and>
     (unlabelled_resets (diagnoser_history d) \<longrightarrow> unlabelled_resets (diagnoser_history d')) \<and>
     (unlabelled_resets (action_history d) \<longrightarrow> unlabelled_resets (action_history d')) \<and>
     (\<forall>x. marks_of x (trust_history d') \<le> marks_of x (trust_history d) + (if x = ep then i else 0) \<and>
          marks_of x (diagnoser_history d') \<le> marks_of x (diagnoser_history d) + (if x = ep then j else 0) \<and>
          marks_of x (action_history d') \<le> marks_of x (action_history d) + (if x = ep then k else 0) \<and>
          misdispatch_marks x d' \<le> misdispatch_marks x d + (if x = ep then l else 0))"

lemma bump_refl [simp]: "bump ep i j k l d d"
  by (simp add: bump_def)

lemma bump_trans:
  assumes "bump ep i j k l d d1" "bump ep i' j' k' l' d1 d2"
  shows "bump ep (i + i') (j + j') (k + k') (l + l') d d2"
  unfolding bump_def
proof (intro conjI allI)
  fix x
  from assms have
    "marks_of x (trust_history d1) \<le> marks_of x (trust_history d) + (if x = ep then i else 0)"
    "marks_of x (trust_history d2) \<le> marks_of x (trust_history d1) + (if x = ep then i' else 0)"
    "marks_of x (diagnoser_history d1) \<le> marks_of x (diagnoser_history d) + (if x = ep then j else 0)"
    "marks_of x (diagnoser_history d2) \<le> marks_of x (diagnoser_history d1) + (if x = ep then j' else 0)"
    "marks_of x (action_history d1) \<le> marks_of x (action_history d) + (if x = ep then k else 0)"
    "marks_of x (action_history d2) \<le> marks_of x (action_history d1) + (if x = ep then k' else 0)"
    "misdispatch_marks x d1 \<le> misdispatch_marks x d + (if x = ep then l else 0)"
    "misdispatch_marks x d2 \<le> misdispatch_marks x d1 + (if x = ep then l' else 0)"
    unfolding bump_def by blast+
  then show "marks_of x (trust_history d2) \<le> marks_of x (trust_history d) + (if x = ep then i + i' else 0)"
    "marks_of x (diagnoser_history d2) \<le> marks_of x (diagnoser_history d) + (if x = ep then j + j' else 0)"
    "marks_of x (action_history d2) \<le> marks_of x (action_history d) + (if x = ep then k + k' else 0)"
    "misdispatch_marks x d2 \<le> misdispatch_marks x d + (if x = ep then l + l' else 0)"
    by (simp_all split: if_splits)
qed (use assms in \<open>auto simp: bump_def\<close>)

lemma gate_log_bump: "gate_log_only d d' \<Longrightarrow> bump ep 0 0 0 0 d d'"
  by (auto simp: gate_log_only_def bump_def misdispatch_marks_def)

text \<open>The breaker writes history rows, none with an episode.\<close>

lemma demote_fold_bump: "bump ep 0 0 0 0 (fst acc) (fst (fold (demote_class now) cs acc))"
proof (induction cs arbitrary: acc)
  case (Cons c cs)
  have "bump ep 0 0 0 0 (fst acc) (fst (demote_class now c acc))"
    by (auto simp: demote_class_def bump_def misdispatch_marks_def takes_away_def Let_def split: prod.splits)
  from bump_trans[OF this Cons.IH] show ?case by simp
qed simp

lemma reset_to_safe_bump: "bump ep 0 0 0 0 d (reset_to_safe_defaults now d c None)"
  by (auto simp: reset_to_safe_defaults_def log_diagnoser_def log_action_def upsert_diagnoser_mode_def
      upsert_action_trust_def bump_def misdispatch_marks_def takes_away_def Let_def)

lemma set_hold_bump: "bump ep 0 0 0 0 d (set_safety_hold now d c b why)"
  by (simp add: bump_def misdispatch_marks_def set_safety_hold_def Let_def)

lemma foldl_bump:
  assumes "\<And>d c. bump ep 0 0 0 0 d (f d c)" shows "bump ep 0 0 0 0 d (foldl f d cs)"
proof (induction cs arbitrary: d)
  case (Cons c cs)
  from bump_trans[OF assms Cons.IH] show ?case by simp
qed simp

lemma clear_holds_bump: "bump ep 0 0 0 0 d (clear_all_safety_holds now why d)"
  unfolding clear_all_safety_holds_def by (rule foldl_bump) (rule set_hold_bump)

lemma reset_classes_bump: "bump ep 0 0 0 0 d (reset_classes now cs d)"
  unfolding reset_classes_def by (rule foldl_bump) (rule reset_to_safe_bump)

lemma tripped_bump: "bump ep 0 0 0 0 d (tripped_db now d)"
  using bump_trans[OF demote_fold_bump[of ep "(d, [])" now "all_fault_classes d"]
      bump_trans[OF reset_classes_bump clear_holds_bump]]
  by (simp add: tripped_db_def)

lemma record_failure_bump: "bump ep 0 0 0 0 d (snd (record_failure now d why c))"
proof -
  have "bump ep 0 0 0 0 d (d\<lparr>failure_log := fl\<rparr>)" for fl
    by (simp add: bump_def misdispatch_marks_def)
  from bump_trans[OF this tripped_bump] this show ?thesis
    by (auto simp: record_failure_def step_eqs)
qed

text \<open>The writes after the score.\<close>

lemma update_a_bump: "update_trust_a ep c trust now d = (r, d') \<Longrightarrow> bump ep 1 0 0 0 d d'"
  by (auto simp: update_trust_a_def record_outcome_def upsert_trust_state_def bump_def misdispatch_marks_def
      Let_def split: option.splits sum.splits prod.splits)

lemma note_misdispatch_bump: "note_misdispatch ep p c taken now d = (r, d') \<Longrightarrow> bump ep 0 0 0 1 d d'"
  by (auto simp: note_misdispatch_def record_misdispatch_def set_safety_hold_def bump_def misdispatch_marks_def
      Let_def split: if_splits)

lemma update_b_bump: "bump ep 0 1 0 0 d (update_trust_b ep c run now d)"
  by (auto simp: update_trust_b_def record_diagnoser_outcome_def log_diagnoser_def upsert_diagnoser_mode_def
      bump_def misdispatch_marks_def Let_def split: llm_run.splits prod.splits)

lemma update_c_bump: "update_trust_c kc ep row out prp now d = (r, d') \<Longrightarrow> bump ep 0 0 1 0 d d'"
  by (auto simp: update_trust_c_def log_proposal_def record_action_outcome_def log_action_def
      upsert_action_trust_def bump_def misdispatch_marks_def Let_def split: option.splits prod.splits if_splits)

lemma record_llm_trust_bump:
  assumes "record_llm_trust kc ep row r prp now d = (x, d')" shows "bump ep 0 1 1 0 d d'"
proof -
  let ?d1 = "d\<lparr>llm_diagnosis_log := llm_diagnosis_log d @ [llm_log_of ep (e_class row) r]\<rparr>"
  have "bump ep 0 0 0 0 d ?d1" by (simp add: bump_def misdispatch_marks_def)
  from bump_trans[OF bump_trans[OF this update_b_bump] update_c_bump] assms
  show ?thesis by (simp add: record_llm_trust_def Let_def)
qed

section \<open>Bumps of steps\<close>

definition bumps :: "string \<Rightarrow> nat \<Rightarrow> nat \<Rightarrow> nat \<Rightarrow> nat \<Rightarrow> ('w sys, 'a) step \<Rightarrow> bool" where
  "bumps ep i j k l m \<longleftrightarrow> (\<forall>s. bump ep i j k l (s_db s) (s_db (snd (m s))))"

lemma bumps_then:
  assumes "bumps ep i j k l m" "\<And>a. bumps ep i' j' k' l' (f a)"
  shows "bumps ep (i + i') (j + j') (k + k') (l + l') (then_step m f)"
  unfolding bumps_def
proof
  fix s
  obtain r s1 where m: "m s = (r, s1)" by (cases "m s")
  then have b: "bump ep i j k l (s_db s) (s_db s1)" using assms(1) unfolding bumps_def by (metis snd_conv)
  show "bump ep (i + i') (j + j') (k + k') (l + l') (s_db s) (s_db (snd (then_step m f s)))"
  proof (cases r)
    case (Inl e)
    with m bump_trans[OF b bump_refl] show ?thesis by (simp add: then_step_def)
  next
    case (Inr a)
    have "bump ep i' j' k' l' (s_db s1) (s_db (snd (f a s1)))" using assms(2) unfolding bumps_def by blast
    with m Inr bump_trans[OF b] show ?thesis by (simp add: then_step_def)
  qed
qed

lemma bumpsD: "bumps ep i j k l m \<Longrightarrow> m s = (r, s') \<Longrightarrow> bump ep i j k l (s_db s) (s_db s')"
  unfolding bumps_def by (metis snd_conv)

lemma bumps_then0:
  "bumps ep 0 0 0 0 m \<Longrightarrow> (\<And>a. bumps ep 0 0 0 0 (f a)) \<Longrightarrow> bumps ep 0 0 0 0 (then_step m f)"
  using bumps_then[of ep 0 0 0 0 m 0 0 0 0 f] by simp

lemma bumps_ret [simp]: "bumps ep i j k l (ret_step a)"
  by (simp add: bumps_def ret_step_def)

lemma bumps_map: "bumps ep i j k l m \<Longrightarrow> bumps ep i j k l (map_step g m)"
  using bumps_then[of ep i j k l m 0 0 0 0 "\<lambda>a. ret_step (g a)"] by (simp add: map_step_def)

lemma bumps_on_world [simp]: "bumps ep 0 0 0 0 (on_world m)"
  by (simp add: bumps_def on_world_def split: prod.split)

lemma bumps_on_db:
  "(\<And>now d r d'. f now d = (r, d') \<Longrightarrow> bump ep i j k l d d') \<Longrightarrow> bumps ep i j k l (on_db E f)"
  by (auto simp: bumps_def on_db_def split: prod.split)

lemma fail_breaker_bumps [simp]: "bumps ep 0 0 0 0 (on_db E (fail_breaker why c))"
proof (rule bumps_on_db)
  fix now d r d'
  assume "fail_breaker why c now d = (r, d')"
  then have "d' = snd (record_failure now d why (Some c))"
    by (auto simp: fail_breaker_def split: prod.splits)
  then show "bump ep 0 0 0 0 d d'" by (simp add: record_failure_bump)
qed

lemma judge_bumps: "bumps ep 0 0 0 0 (judge E row ok a applied)"
  unfolding judge_def Let_def by (auto intro!: bumps_map bumps_then0)

lemma settle_bumps: "bumps ep 1 1 1 1 (settle E ep row r a j)"
proof -
  have reset: "bumps ep 0 0 0 0 (reset_baselines E c)" for c
    by (auto simp: reset_baselines_def intro!: bumps_then0)
  have llm: "bumps ep 0 1 1 0 (\<lambda>s. on_db E (record_llm_trust (se_cpu E (s_world s)) ep row r (rs_proposal a)) s)"
    unfolding bumps_def on_db_def by (auto split: prod.split intro: record_llm_trust_bump[simplified])
  have mis: "bumps ep 0 0 0 1 (on_db E (note_misdispatch ep p c t))" for p c t
    by (rule bumps_on_db) (rule note_misdispatch_bump)
  have up: "bumps ep 1 0 0 0 (on_db E (update_trust_a ep c t))" for c t
    by (rule bumps_on_db) (rule update_a_bump)
  from bumps_then[OF up bumps_then[OF mis bumps_then[OF llm reset]]]
  show ?thesis by (simp add: settle_def)
qed

section \<open>Counted once\<close>

text \<open>No episode has more than one mark on any ladder or in the misdispatch log, and one without
  a score has none.\<close>

definition counts_once :: "db \<Rightarrow> bool" where
  "counts_once d \<longleftrightarrow> unlabelled_resets (trust_history d) \<and> unlabelled_resets (diagnoser_history d) \<and>
     unlabelled_resets (action_history d) \<and> (\<forall>x. let n = (if is_scored d x then 1 else 0) in
     marks_of x (trust_history d) \<le> n \<and> marks_of x (diagnoser_history d) \<le> n \<and>
     marks_of x (action_history d) \<le> n \<and> misdispatch_marks x d \<le> n)"

lemma counts_onceD:
  assumes "counts_once d"
  shows "marks_of x (trust_history d) \<le> (if is_scored d x then 1 else 0)"
    "marks_of x (diagnoser_history d) \<le> (if is_scored d x then 1 else 0)"
    "marks_of x (action_history d) \<le> (if is_scored d x then 1 else 0)"
    "misdispatch_marks x d \<le> (if is_scored d x then 1 else 0)"
  using assms unfolding counts_once_def Let_def by blast+

lemma counts_once_bump0:
  assumes "counts_once d" "bump ep 0 0 0 0 d d'" shows "counts_once d'"
proof -
  have "is_scored d' x = is_scored d x" for x using assms(2) by (simp add: is_scored_def bump_def)
  note same = this
  have "unlabelled_resets (trust_history d')" "unlabelled_resets (diagnoser_history d')" "unlabelled_resets (action_history d')"
    using assms by (simp_all add: counts_once_def bump_def)
  then show ?thesis unfolding counts_once_def Let_def same
  proof (intro conjI allI)
    fix x
    note old = counts_onceD[OF assms(1), of x]
    from assms(2) have "marks_of x (trust_history d') \<le> marks_of x (trust_history d)"
      "marks_of x (diagnoser_history d') \<le> marks_of x (diagnoser_history d)"
      "marks_of x (action_history d') \<le> marks_of x (action_history d)"
      "misdispatch_marks x d' \<le> misdispatch_marks x d"
      unfolding bump_def by simp_all
    with old show "marks_of x (trust_history d') \<le> (if is_scored d x then 1 else 0)"
      "marks_of x (diagnoser_history d') \<le> (if is_scored d x then 1 else 0)"
      "marks_of x (action_history d') \<le> (if is_scored d x then 1 else 0)"
      "misdispatch_marks x d' \<le> (if is_scored d x then 1 else 0)" by (meson le_trans)+
  qed
qed

lemma counts_once_scored:
  assumes "counts_once d" "\<not> is_scored d ep"
    and "bump ep 1 1 1 1 (d\<lparr>scores := scores d @ [(ep, sc)], episode_snapshots := sn\<rparr>) d'"
  shows "counts_once d'"
proof -
  have sc: "is_scored d' x \<longleftrightarrow> is_scored d x \<or> x = ep" for x
    using assms(3) by (auto simp: is_scored_def bump_def map_add_def split: option.splits)
  have "unlabelled_resets (trust_history d')" "unlabelled_resets (diagnoser_history d')" "unlabelled_resets (action_history d')"
    using assms(1,3) by (simp_all add: counts_once_def bump_def)
  then show ?thesis unfolding counts_once_def Let_def
  proof (intro conjI allI)
    fix x
    note old = counts_onceD[OF assms(1), of x]
    from assms(3) have new: "marks_of x (trust_history d') \<le> marks_of x (trust_history d) + (if x = ep then 1 else 0)"
      "marks_of x (diagnoser_history d') \<le> marks_of x (diagnoser_history d) + (if x = ep then 1 else 0)"
      "marks_of x (action_history d') \<le> marks_of x (action_history d) + (if x = ep then 1 else 0)"
      "misdispatch_marks x d' \<le> misdispatch_marks x d + (if x = ep then 1 else 0)"
      unfolding bump_def by (simp_all add: misdispatch_marks_def)
    show "marks_of x (trust_history d') \<le> (if is_scored d' x then 1 else 0)"
      "marks_of x (diagnoser_history d') \<le> (if is_scored d' x then 1 else 0)"
      "marks_of x (action_history d') \<le> (if is_scored d' x then 1 else 0)"
      "misdispatch_marks x d' \<le> (if is_scored d' x then 1 else 0)"
      using old new assms(2) by (cases "x = ep"; simp add: sc)+
  qed
qed

text \<open>Any sequence of runs, by id or not, and whatever happens around them to the cluster and to
  the table of episodes.\<close>

inductive scorer_runs :: "'w scorer_env \<Rightarrow> 'w sys \<Rightarrow> 'w sys \<Rightarrow> bool" for E :: "'w scorer_env" where
  start: "scorer_runs E s s"
| run: "scorer_runs E s s' \<Longrightarrow> run_scorer E arg snap s' = (x, s'') \<Longrightarrow> scorer_runs E s s''"
| around: "scorer_runs E s s'
    \<Longrightarrow> scorer_runs E s (s'\<lparr>s_world := w, s_db := (s_db s')\<lparr>episodes := es\<rparr>\<rparr>)"

section \<open>The services the scorer calls\<close>

text \<open>What the scorer needs of the two endpoints: \<^verbatim>\<open>/diagnose\<close> writes none of the tables here
  and \<^verbatim>\<open>/act\<close> only its gate log.\<close>

locale trust_services =
  fixes E :: "'w scorer_env"
  assumes diagnose_reads: "s_db (snd (se_diagnose E req s)) = s_db s"
    and act_logs: "gate_log_only (s_db s) (s_db (snd (se_act E areq s)))"
begin

lemma diagnose_bumps: "bumps ep 0 0 0 0 (se_diagnose E req)"
  by (simp add: bumps_def diagnose_reads)

lemma call_act_bumps: "bumps ep 0 0 0 0 (call_act E ep' row r)"
  unfolding call_act_def bumps_def using gate_log_bump[OF act_logs] by (auto simp: ret_step_def)

lemma score_episode_marks:
  assumes "score_episode E snap ep row s = (x, s')"
  shows "bump ep 0 0 0 0 (s_db s) (s_db s') \<or>
    (\<exists>d1 sc sn. bump ep 0 0 0 0 (s_db s) d1 \<and> \<not> is_scored d1 ep \<and>
       bump ep 1 1 1 1 (d1\<lparr>scores := scores d1 @ [(ep, sc)], episode_snapshots := sn\<rparr>) (s_db s'))"
proof -
  let ?ok = "\<lambda>r. diagnosis_matches (dg_diagnosis (dn_result r)) (e_class row)"
  define pre where "pre = then_step (se_diagnose E (diagnose_request_of snap row)) (\<lambda>r.
    then_step (call_act E ep row r) (\<lambda>a.
    then_step (\<lambda>s. (applied_of (rs_result a), s)) (\<lambda>applied.
    then_step (judge E row (?ok r) a applied) (\<lambda>j. ret_step (r, a, applied, j)))))"
  define post where "post = (\<lambda>(r, a, applied, j).
    then_step (on_db E (\<lambda>_. insert_score ep (score_of row r a applied j) (snapshot_of row r a j))) (\<lambda>_.
      settle E ep row r a j))"
  have split: "score_episode E snap ep row s = then_step pre post s"
    unfolding score_episode_def pre_def post_def
    by (simp add: then_step_def ret_step_def split: prod.split sum.split)
  have app: "bumps ep 0 0 0 0 (\<lambda>s. (applied_of x, s :: 'w sys))" for x
    by (simp add: bumps_def)
  have "bumps ep 0 0 0 0 pre"
    unfolding pre_def by (intro bumps_then0 diagnose_bumps call_act_bumps app judge_bumps bumps_ret)
  moreover obtain y s1 where p: "pre s = (y, s1)" by (cases "pre s")
  ultimately have b: "bump ep 0 0 0 0 (s_db s) (s_db s1)" unfolding bumps_def by (metis snd_conv)
  show ?thesis
  proof (cases y)
    case (Inl e)
    with assms split p b show ?thesis by (simp add: then_step_def)
  next
    case (Inr q)
    obtain r a applied j where q: "q = (r, a, applied, j)" by (cases q) auto
    let ?sc = "score_of row r a applied j" and ?sn = "snapshot_of row r a j"
    have run: "post q s1 = (x, s')" using assms split p Inr by (simp add: then_step_def)
    show ?thesis
    proof (cases "is_scored (s_db s1) ep \<or> map_of (episode_snapshots (s_db s1)) ep \<noteq> None")
      case True
      with run b show ?thesis
        by (simp add: post_def q then_step_def on_db_def insert_score_def)
    next
      case False
      let ?d = "(s_db s1)\<lparr>scores := scores (s_db s1) @ [(ep, ?sc)],
                          episode_snapshots := episode_snapshots (s_db s1) @ [(ep, ?sn)]\<rparr>"
      from False run have "settle E ep row r a j (s1\<lparr>s_db := ?d\<rparr>) = (x, s')"
        by (simp add: post_def q then_step_def on_db_def insert_score_def)
      from bumpsD[OF settle_bumps this] have "bump ep 1 1 1 1 ?d (s_db s')" by simp
      with b False show ?thesis by blast
    qed
  qed
qed

lemma score_episode_once:
  assumes "counts_once (s_db s)" "score_episode E snap ep row s = (x, s')"
  shows "counts_once (s_db s')"
  using score_episode_marks[OF assms(2)]
proof (elim disjE exE conjE)
  assume "bump ep 0 0 0 0 (s_db s) (s_db s')"
  then show ?thesis by (rule counts_once_bump0[OF assms(1)])
next
  fix d1 sc sn
  assume b: "bump ep 0 0 0 0 (s_db s) d1" and new: "\<not> is_scored d1 ep"
    and after: "bump ep 1 1 1 1 (d1\<lparr>scores := scores d1 @ [(ep, sc)], episode_snapshots := sn\<rparr>) (s_db s')"
  show ?thesis by (rule counts_once_scored[OF counts_once_bump0[OF assms(1) b] new after])
qed

lemma run_scorer_once:
  assumes "counts_once (s_db s)" "run_scorer E arg snap s = (x, s')" shows "counts_once (s_db s')"
  using assms unfolding run_scorer_def map_step_def then_step_def ret_step_def
  by (auto split: sum.splits option.splits prod.splits if_splits
      intro: assms(1) score_episode_once[OF assms(1)] score_episode_once[of "s\<lparr>s_world := _\<rparr>", simplified, OF assms(1)])

lemma scorer_runs_once: "scorer_runs E s s' \<Longrightarrow> counts_once (s_db s) \<Longrightarrow> counts_once (s_db s')"
proof (induction rule: scorer_runs.induct)
  case (run s s' arg snap x s'')
  then show ?case using run_scorer_once by blast
next
  case (around s s' w es)
  then show ?case by (simp add: counts_once_def is_scored_def misdispatch_marks_def)
qed

end

section \<open>The endpoints of this repository\<close>

text \<open>\<^verbatim>\<open>raise_for_status\<close>: whatever the endpoint raised, the scorer sees a failed request.\<close>

definition http_call :: "('w, 'a) step \<Rightarrow> ('w, 'a) step" where
  "http_call m w = (case m w of (Inl _, w1) \<Rightarrow> (Inl HTTPError, w1) | (Inr a, w1) \<Rightarrow> (Inr a, w1))"

definition with_endpoints ::
    "'w sources \<Rightarrow> thresholds \<Rightarrow> bool \<Rightarrow> (diagnose_request \<Rightarrow> ('w, llm_run) step) \<Rightarrow> 'w env \<Rightarrow> 'w scorer_env \<Rightarrow> 'w scorer_env" where
  "with_endpoints S th stub_only react A E = E\<lparr>
     se_diagnose := \<lambda>req. http_call (\<lambda>s. on_world (diagnose S th stub_only (react req) req (s_db s)) s),
     se_act := \<lambda>req. http_call (\<lambda>s. act A (se_clock E (s_world s)) req s)\<rparr>"

interpretation endpoints: trust_services "with_endpoints S th stub_only react A E"
  for S :: "'w sources" and th stub_only react A and E :: "'w scorer_env"
proof unfold_locales
  fix req and s :: "'w sys"
  show "s_db (snd (se_diagnose (with_endpoints S th stub_only react A E) req s)) = s_db s"
    by (simp add: with_endpoints_def http_call_def on_world_def split: prod.split sum.split)
next
  fix areq and s :: "'w sys"
  show "gate_log_only (s_db s) (s_db (snd (se_act (with_endpoints S th stub_only react A E) areq s)))"
    using act_db[of A "se_clock E (s_world s)" areq s]
    by (auto simp: with_endpoints_def http_call_def split: prod.split sum.split)
qed

section \<open>The shape of a finished run\<close>

lemma score_episode_Inr:
  assumes "score_episode E snap ep row s = (Inr (), s')"
  obtains r a applied j s1 s2 s3 where
    "se_diagnose E (diagnose_request_of snap row) s = (Inr r, s1)"
    "call_act E ep row r s1 = (Inr a, s2)"
    "applied_of (rs_result a) = Inr applied"
    "judge E row (diagnosis_matches (dg_diagnosis (dn_result r)) (e_class row)) a applied s2 = (Inr j, s3)"
    "\<not> is_scored (s_db s3) ep" "map_of (episode_snapshots (s_db s3)) ep = None"
    "settle E ep row r a j (s3\<lparr>s_db := (s_db s3)\<lparr>
       scores := scores (s_db s3) @ [(ep, score_of row r a applied j)],
       episode_snapshots := episode_snapshots (s_db s3) @ [(ep, snapshot_of row r a j)]\<rparr>\<rparr>) = (Inr (), s')"
proof -
  from assms obtain r a applied j s1 s2 s3 u s4 where
    r: "se_diagnose E (diagnose_request_of snap row) s = (Inr r, s1)"
    and a: "call_act E ep row r s1 = (Inr a, s2)"
    and ap: "applied_of (rs_result a) = Inr applied"
    and j: "judge E row (diagnosis_matches (dg_diagnosis (dn_result r)) (e_class row)) a applied s2 = (Inr j, s3)"
    and ins: "on_db E (\<lambda>_. insert_score ep (score_of row r a applied j) (snapshot_of row r a j)) s3 = (Inr u, s4)"
    and st: "settle E ep row r a j s4 = (Inr (), s')"
    unfolding score_episode_def then_step_Inr by auto
  from ins have ins': "\<not> is_scored (s_db s3) ep" "map_of (episode_snapshots (s_db s3)) ep = None"
    "s4 = s3\<lparr>s_db := (s_db s3)\<lparr>scores := scores (s_db s3) @ [(ep, score_of row r a applied j)],
       episode_snapshots := episode_snapshots (s_db s3) @ [(ep, snapshot_of row r a j)]\<rparr>\<rparr>"
    by (auto simp: on_db_def insert_score_def split: if_splits)
  show ?thesis by (rule that[OF r a ap j ins'(1,2) st[unfolded ins'(3)]])
qed

lemma settled_scores:
  assumes "settle E ep row r a j s = (x, s')" shows "scores (s_db s') = scores (s_db s)"
  using bumpsD[OF settle_bumps assms] by (simp add: bump_def)

text \<open>What the judgement says, in terms of the row it is stored in.\<close>

lemma judge_trust:
  assumes "judge E row ok a applied s = (Inr j, s')"
  shows "jd_trust j = (if rs_taken a = None then (if promotion_streak (e_class row) \<noteq> None then Some ok else None)
           else Some (ok \<and> was_applied applied \<and> jd_verdict j = Some Confirmed))"
  using assms unfolding judge_def Let_def
  by (auto simp: map_step_Inr then_step_Inr split: if_splits)

lemma judge_credit:
  assumes "judge E row ok a applied s = (Inr j, s')" "jd_trust j \<noteq> Some False"
  shows "s_db s' = s_db s"
  using assms unfolding judge_def Let_def
  by (auto simp: map_step_Inr then_step_Inr on_world_def split: if_splits prod.splits)

text \<open>After the score only the write of Dimension A moves Dimension A.\<close>

lemma note_misdispatch_trust:
  "note_misdispatch ep p c taken now d = (r, d') \<Longrightarrow> get_trust_state d' x = get_trust_state d x"
  by (auto simp: note_misdispatch_def frame split: if_splits)

lemma record_llm_trust_trust:
  "record_llm_trust kc ep row r prp now d = (x, d') \<Longrightarrow> get_trust_state d' c = get_trust_state d c"
  by (auto simp: record_llm_trust_def update_trust_b_def update_trust_c_def log_proposal_def Let_def frame
      get_trust_state_def split: llm_run.splits option.splits prod.splits if_splits)

lemma settle_trust:
  assumes "settle E ep row r a j s = (Inr (), s')"
  shows "\<exists>now d. update_trust_a ep (e_class row) (jd_trust j) now (s_db s) = (Inr (), d) \<and>
           get_trust_state (s_db s') c = get_trust_state d c"
proof -
  from assms obtain s1 s2 s3 where
    a: "on_db E (update_trust_a ep (e_class row) (jd_trust j)) s = (Inr (), s1)" and
    m: "on_db E (note_misdispatch ep (dg_diagnosis (dn_result r)) (e_class row) (rs_taken a \<noteq> None)) s1 = (Inr (), s2)" and
    l: "on_db E (record_llm_trust (se_cpu E (s_world s2)) ep row r (rs_proposal a)) s2 = (Inr (), s3)" and
    b: "reset_baselines E (e_class row) s3 = (Inr (), s')"
    unfolding settle_def then_step_Inr by auto
  have "s_db s' = s_db s3"
    using b by (auto simp: reset_baselines_def then_step_Inr on_world_def split: if_splits prod.splits)
  moreover have "get_trust_state (s_db s3) c = get_trust_state (s_db s2) c"
    using l by (auto simp: on_db_def split: prod.splits dest: record_llm_trust_trust)
  moreover have "get_trust_state (s_db s2) c = get_trust_state (s_db s1) c"
    using m by (auto simp: on_db_def split: prod.splits dest: note_misdispatch_trust)
  moreover have "update_trust_a ep (e_class row) (jd_trust j) (se_clock E (s_world s)) (s_db s) = (Inr (), s_db s1)"
    using a by (auto simp: on_db_def split: prod.splits)
  ultimately show ?thesis by metis
qed

lemma update_a_state:
  assumes "update_trust_a ep c trust now d = (Inr (), d')"
  shows "get_trust_state d' c = (case trust of None \<Rightarrow> get_trust_state d c
    | Some b \<Rightarrow> a_transition 5 (fst (get_trust_state d c)) (snd (get_trust_state d c)) b)"
proof (cases trust)
  case (Some b)
  with assms obtain x where x: "record_outcome now d c b (Some ep) = Inr (x, d')"
    by (auto simp: update_trust_a_def split: sum.splits prod.splits)
  from record_outcome_state[OF x, of c] Some show ?thesis by (auto dest: promotion_streak_Some)
qed (use assms in \<open>simp add: update_trust_a_def\<close>)

lemma get_trust_state_of_scores [simp]:
  "get_trust_state (scores_update f d) c = get_trust_state d c"
  "get_trust_state (episode_snapshots_update g d) c = get_trust_state d c"
  by (simp_all add: get_trust_state_def)

section \<open>An example run\<close>

text \<open>Prometheus knows nothing, the LLM is off; a bad rollout of \<^verbatim>\<open>payment\<close> is scored.\<close>

definition quiet_sources :: "'w sources" where
  "quiet_sources = \<lparr>src_prom = \<lambda>_ _ w. (Inr [], w), src_k6 = \<lambda>_ w. (K6_Timeout, w),
     src_detector = \<lambda>_ w. (Detector_Unreachable, w)\<rparr>"

definition quiet_output :: tool_output where
  "quiet_output = \<lparr>oom_pods = [], evicted_pods = [], crashlooping_pods = [], connect_failures = None,
     max_http_ms = None, p95_latency_ms = None, combined_throughput_bps = None,
     payment_stuck_not_ready = False, session_db_replicas_hit_zero = False, peak_memory_mib = None,
     peak_threads_connected = None, cpu_throttle_periods_increase = None, front_end_image_pull_failing = False,
     current_replicas = None, heap_rise_kb = None, catalogue_probe_p95_ms = None, dl_detector_result = None\<rparr>"

definition quiet_scorer :: "demo_world scorer_env" where
  "quiet_scorer = \<lparr>se_diagnose = \<lambda>_ s. (Inl HTTPError, s), se_act = \<lambda>_ s. (Inl HTTPError, s),
     se_cluster = \<lparr>cl_running = \<lambda>_ _ w. (None, w), cl_front_end = \<lambda>_ w. (None, w), cl_available = \<lambda>_ w. ([], w),
       cl_prom = \<lambda>_ w. (Inr [], w), cl_k6 = \<lambda>_ w. (K6_Timeout, w), cl_now = \<lambda>w. 0, cl_sleep = \<lambda>_ w. w\<rparr>,
     se_windows = default_window, se_probe_ms = 140, se_fuel = 31, se_cpu = \<lambda>_ _ _. ''300m'',
     se_clock = \<lambda>_. 100, se_spawn = \<lambda>w. w, se_reset = \<lambda>_ w. (Inr (), w)\<rparr>"

definition demo_scorer :: "demo_world scorer_env" where
  "demo_scorer = with_endpoints quiet_sources default_thresholds True (\<lambda>_. ret_step (Llm_Not_Diagnosed [])) demo_env quiet_scorer"

definition demo_episode :: "string \<Rightarrow> episode_row" where
  "demo_episode c = \<lparr>e_class = c, e_target = ''payment'', e_namespace = ''sock-shop'', e_t0 = Some 50,
     e_baseline = None, e_probe = None\<rparr>"

definition demo_before :: "demo_world sys" where
  "demo_before = \<lparr>s_db = empty_db\<lparr>episodes := [(''e1'', demo_episode ''bad-rollout'')],
     trust_state := [(''bad-rollout'', Report_Only, 3)]\<rparr>, s_progress = [], s_world = (0, 1, 0)\<rparr>"

lemma quiet_query:
  "query_prometheus quiet_sources ''payment'' ns None None None w = (Inr quiet_output, w)"
  by (simp add: query_prometheus_def then_step_def map_step_def ret_step_def p95_signal_def
      throughput_signal_def not_ready_signal_def image_pull_signal_def zero_replicas_signal_def
      peak_memory_signal_def heap_signal_def threads_signal_def throttle_signal_def when_target_def
      choose_oom_pods_def choose_evicted_pods_def pods_of_def quiet_sources_def quiet_output_def head_value_def)

lemma quiet_diagnosis: "dg_diagnosis (stub_diagnose th quiet_output) = ''no anomaly detected''"
  by (simp add: stub_diagnose_list stub_rules_def quiet_output_def probe_says_cut_def probe_says_slow_def
      at_least_def below_def)

lemma quiet_pipeline:
  "stub_pipeline quiet_sources th ''payment'' ns None None None w = (Inr (quiet_output, stub_diagnose th quiet_output), w)"
  by (simp add: stub_pipeline_def then_step_def quiet_query probe_fallback_def detector_fallback_def
      dl_detector_services_def ret_step_def)

lemma demo_diagnosed:
  "se_diagnose demo_scorer (diagnose_request_of None (demo_episode c)) s =
     (Inr (diagnose_answer (s_db s) quiet_output (stub_diagnose default_thresholds quiet_output)
             (Llm_Not_Diagnosed ''llm_unavailable'')), s)"
  by (simp add: map_step_def then_step_def ret_step_def demo_scorer_def with_endpoints_def http_call_def on_world_def diagnose_def then_step_def
      diagnose_request_of_def demo_episode_def quiet_pipeline)

lemma demo_acted:
  assumes "\<not> may_act (s_db s) ''bad-rollout''" "llm_diagnosis_of (dn_llm r) = None"
    "dg_diagnosis (dn_result r) = ''no anomaly detected''" "dn_eligible r = False"
  shows "call_act demo_scorer ep (demo_episode ''bad-rollout'') r s = (Inr (no_action None), s)"
  using assms
  by (simp add: call_act_def demo_scorer_def with_endpoints_def http_call_def act_def act_proposal_def
      act_request_of_def act_safety_net_def demo_episode_def production_action_map_def production_tool_def
      ret_step_def)

lemma settle_without_action:
  assumes "promotion_streak (e_class row) \<noteq> None" "e_class row \<notin> {''oom'', ''under-provisioned-replicas''}"
    "dn_llm r = Llm_Not_Diagnosed why"
  shows "\<exists>s'. settle E ep row r (no_action None) j s = (Inr (), s')"
proof -
  have "\<exists>d'. update_trust_a ep (e_class row) t now d = (Inr (), d')" for t now d
  proof (cases t)
    case (Some b)
    obtain x d' where "record_outcome now d (e_class row) b (Some ep) = Inr (x, d')"
      using record_outcome_total[OF assms(1)] by blast
    with Some show ?thesis by (simp add: update_trust_a_def)
  qed (simp add: update_trust_a_def)
  then obtain d' where "update_trust_a ep (e_class row) (jd_trust j) (se_clock E (s_world s)) (s_db s) = (Inr (), d')"
    by blast
  then obtain s1 where a: "on_db E (update_trust_a ep (e_class row) (jd_trust j)) s = (Inr (), s1)"
    by (simp add: on_db_def)
  have m: "on_db E (note_misdispatch ep p c False) s1 = (Inr (), s1)" for p c
    by (simp add: on_db_def note_misdispatch_def)
  have "\<exists>s2. on_db E (record_llm_trust k ep row r None) s1 = (Inr (), s2)" for k
    using assms(3) by (simp add: on_db_def record_llm_trust_def update_trust_c_def Let_def)
  then obtain s2 where l: "on_db E (record_llm_trust (se_cpu E (s_world s1)) ep row r None) s1 = (Inr (), s2)" by blast
  show ?thesis
    using a m l assms(2) by (simp add: settle_def then_step_def no_action_def reset_baselines_def ret_step_def)
qed

lemma demo_score:
  "\<exists>s'. score_episode demo_scorer None ''e1'' (demo_episode ''bad-rollout'') demo_before = (Inr (), s')"
proof -
  let ?row = "demo_episode ''bad-rollout''"
  let ?r = "diagnose_answer (s_db demo_before) quiet_output (stub_diagnose default_thresholds quiet_output)
      (Llm_Not_Diagnosed ''llm_unavailable'')"
  have r: "llm_diagnosis_of (dn_llm ?r) = None" "dg_diagnosis (dn_result ?r) = ''no anomaly detected''"
    "dn_eligible ?r = False" "dn_llm ?r = Llm_Not_Diagnosed ''llm_unavailable''"
    by (simp_all add: diagnose_answer_def choose_diagnosis_def llm_diagnosis_of_def quiet_diagnosis
        production_action_map_def production_tool_def)
  have no: "\<not> may_act (s_db demo_before) ''bad-rollout''"
    by (simp add: may_act_def demo_before_def get_trust_state_def row_or_def)
  have new: "\<not> is_scored (s_db demo_before) ''e1''" "map_of (episode_snapshots (s_db demo_before)) ''e1'' = None"
    by (simp_all add: demo_before_def empty_db_def is_scored_def)
  obtain j where j: "judge demo_scorer ?row b (no_action None) None s = (Inr (j b), s)" for b s
    by (simp add: judge_def ret_step_def)
  have c: "promotion_streak (e_class ?row) \<noteq> None" "e_class ?row \<notin> {''oom'', ''under-provisioned-replicas''}"
    by (simp_all add: demo_episode_def promotion_streak_def)
  have "\<exists>s'. settle demo_scorer ''e1'' ?row ?r (no_action None) k s = (Inr (), s')" for k s
    by (rule settle_without_action[OF c r(4)])
  then show ?thesis
    unfolding score_episode_def
    by (simp add: then_step_def demo_diagnosed demo_acted[OF no r(1,2,3)] applied_of_def j on_db_def
        insert_score_def new)
qed

lemma demo_picked: "map_of (episodes (s_db demo_before)) ''e1'' = Some (demo_episode ''bad-rollout'')"
  "is_scored (s_db demo_before) ''e1'' = False" "e_class (demo_episode ''bad-rollout'') \<noteq> ''crash-loop''"
  by (simp_all add: demo_before_def empty_db_def is_scored_def demo_episode_def)

lemma scored_when_finished:
  assumes "score_episode E snap ep row s = (Inr (), s')" shows "is_scored (s_db s') ep"
  using assms
proof (rule score_episode_Inr)
  fix r a applied j s1 s2 s3
  assume "settle E ep row r a j (s3\<lparr>s_db := (s_db s3)\<lparr>
       scores := scores (s_db s3) @ [(ep, score_of row r a applied j)],
       episode_snapshots := episode_snapshots (s_db s3) @ [(ep, snapshot_of row r a j)]\<rparr>\<rparr>) = (Inr (), s')"
  from settled_scores[OF this] show ?thesis by (simp add: is_scored_def map_add_def split: option.split)
qed

section \<open>Properties\<close>

text \<open>C4: in any sequence of scorer runs, repeated, aborted or with anything happening around them, an
  episode enters each of the three trust histories and the misdispatch log at most once, and only
  once it has its score. The only rows without an episode are those of a tripped breaker, and
  these give no trust: none is a correct outcome and each leaves the streak at 0.\<close>

theorem episodes_count_once:
  assumes "scorer_runs (with_endpoints S th stub_only react A E) s s'" "counts_once (s_db s)"
  shows "(\<forall>ep. marks_of ep (trust_history (s_db s')) \<le> 1 \<and> marks_of ep (diagnoser_history (s_db s')) \<le> 1 \<and>
      marks_of ep (action_history (s_db s')) \<le> 1 \<and> misdispatch_marks ep (s_db s') \<le> 1 \<and>
      (\<not> is_scored (s_db s') ep \<longrightarrow> marks_of ep (trust_history (s_db s')) = 0 \<and>
         marks_of ep (diagnoser_history (s_db s')) = 0 \<and> marks_of ep (action_history (s_db s')) = 0 \<and>
         misdispatch_marks ep (s_db s') = 0)) \<and>
    (\<forall>r\<in>set (trust_history (s_db s')). h_episode r = None \<longrightarrow> \<not> h_correct r \<and> h_streak_after r = 0) \<and>
    (\<forall>r\<in>set (diagnoser_history (s_db s')). h_episode r = None \<longrightarrow> \<not> h_correct r \<and> h_streak_after r = 0) \<and>
    (\<forall>r\<in>set (action_history (s_db s')). h_episode r = None \<longrightarrow> \<not> h_correct r \<and> h_streak_after r = 0)"
proof (intro conjI)
  note once = endpoints.scorer_runs_once[OF assms]
  show "\<forall>ep. marks_of ep (trust_history (s_db s')) \<le> 1 \<and> marks_of ep (diagnoser_history (s_db s')) \<le> 1 \<and>
      marks_of ep (action_history (s_db s')) \<le> 1 \<and> misdispatch_marks ep (s_db s') \<le> 1 \<and>
      (\<not> is_scored (s_db s') ep \<longrightarrow> marks_of ep (trust_history (s_db s')) = 0 \<and>
         marks_of ep (diagnoser_history (s_db s')) = 0 \<and> marks_of ep (action_history (s_db s')) = 0 \<and>
         misdispatch_marks ep (s_db s') = 0)"
  proof
    fix ep
    show "marks_of ep (trust_history (s_db s')) \<le> 1 \<and> marks_of ep (diagnoser_history (s_db s')) \<le> 1 \<and>
      marks_of ep (action_history (s_db s')) \<le> 1 \<and> misdispatch_marks ep (s_db s') \<le> 1 \<and>
      (\<not> is_scored (s_db s') ep \<longrightarrow> marks_of ep (trust_history (s_db s')) = 0 \<and>
         marks_of ep (diagnoser_history (s_db s')) = 0 \<and> marks_of ep (action_history (s_db s')) = 0 \<and>
         misdispatch_marks ep (s_db s') = 0)"
      using counts_onceD[OF once, of ep] by (cases "is_scored (s_db s') ep") simp_all
  qed
qed (use endpoints.scorer_runs_once[OF assms] in \<open>simp_all add: counts_once_def unlabelled_resets_def takes_away_def\<close>)

lemma episodes_count_once_witness:
  "\<exists>s'. scorer_runs demo_scorer demo_before s' \<and> is_scored (s_db s') ''e1'' \<and>
     marks_of ''e1'' (trust_history (s_db s')) \<le> 1"
proof -
  obtain s' where sc: "score_episode demo_scorer None ''e1'' (demo_episode ''bad-rollout'') demo_before = (Inr (), s')"
    using demo_score by blast
  have "run_scorer demo_scorer (Some ''e1'') None demo_before = (Inr (Some ''e1''), s')"
    using sc by (simp add: run_scorer_def pick_episode_def get_episode_by_id_def map_step_def then_step_def
        ret_step_def demo_picked)
  from scorer_runs.run[OF scorer_runs.start this] have run: "scorer_runs demo_scorer demo_before s'" .
  have "counts_once (s_db demo_before)"
    by (simp add: counts_once_def demo_before_def empty_db_def misdispatch_marks_def)
  from episodes_count_once[OF run[unfolded demo_scorer_def] this] run scored_when_finished[OF sc] show ?thesis by blast
qed

text \<open>The score a finished run stores: the diagnosis is judged up to case and spelling of
  none, and trust counts as the code says, the diagnosis alone when no action was taken, and
  diagnosis, application and durability together when one was.\<close>

theorem stored_score:
  assumes "score_episode E snap ep row s = (Inr (), s')"
  shows "\<exists>sc. map_of (scores (s_db s')) ep = Some sc \<and> sc_actual sc = e_class row \<and>
    sc_correct sc = diagnosis_matches (sc_predicted sc) (e_class row) \<and>
    sc_trust sc =
      (if sc_action sc = None
       then (if promotion_streak (e_class row) \<noteq> None then Some (sc_correct sc) else None)
       else Some (sc_correct sc \<and> sc_applied sc = Some True \<and> sc_verdict sc = Some Confirmed))"
  using assms
proof (rule score_episode_Inr)
  fix r a applied j s1 s2 s3
  assume j: "judge E row (diagnosis_matches (dg_diagnosis (dn_result r)) (e_class row)) a applied s2 = (Inr j, s3)"
    and new: "\<not> is_scored (s_db s3) ep"
    and st: "settle E ep row r a j (s3\<lparr>s_db := (s_db s3)\<lparr>
       scores := scores (s_db s3) @ [(ep, score_of row r a applied j)],
       episode_snapshots := episode_snapshots (s_db s3) @ [(ep, snapshot_of row r a j)]\<rparr>\<rparr>) = (Inr (), s')"
  have "map_of (scores (s_db s')) ep = Some (score_of row r a applied j)"
    using settled_scores[OF st] new by (simp add: is_scored_def map_add_def)
  moreover have "map_option truthy applied = Some True \<longleftrightarrow> was_applied applied"
    by (cases applied) (simp_all add: was_applied_def)
  ultimately show ?thesis using judge_trust[OF j] by (auto simp: score_of_def)
qed

lemma stored_score_witness:
  "\<exists>s' sc. score_episode demo_scorer None ''e1'' (demo_episode ''bad-rollout'') demo_before = (Inr (), s') \<and>
     map_of (scores (s_db s')) ''e1'' = Some sc \<and> sc_actual sc = ''bad-rollout''"
proof -
  obtain s' where sc: "score_episode demo_scorer None ''e1'' (demo_episode ''bad-rollout'') demo_before = (Inr (), s')"
    using demo_score by blast
  from stored_score[OF sc] sc show ?thesis by (auto simp: demo_episode_def)
qed

text \<open>C9: where a finished run leaves Dimension A of the real class: one step up the ladder if the
  score credits it, never in Can-Act and with no streak if the score debits it (the breaker
  included), untouched if the class is not on the ladder and no action was taken.\<close>

theorem score_moves_dimension_a:
  assumes "score_episode (with_endpoints S th stub_only react A E) snap ep row s = (Inr (), s')"
  shows "\<exists>sc. map_of (scores (s_db s')) ep = Some sc \<and>
    (let old = get_trust_state (s_db s) (e_class row); new = get_trust_state (s_db s') (e_class row) in
     case sc_trust sc of
       Some True \<Rightarrow> new = (if 5 \<le> snd old + 1 then Can_Act else fst old, snd old + 1)
     | Some False \<Rightarrow> fst new \<noteq> Can_Act \<and> snd new = 0
     | None \<Rightarrow> new = old)"
  using assms
proof (rule score_episode_Inr)
  let ?E = "with_endpoints S th stub_only react A E" and ?c = "e_class row"
  fix r a applied j s1 s2 s3
  assume r: "se_diagnose ?E (diagnose_request_of snap row) s = (Inr r, s1)"
    and a: "call_act ?E ep row r s1 = (Inr a, s2)"
    and j: "judge ?E row (diagnosis_matches (dg_diagnosis (dn_result r)) ?c) a applied s2 = (Inr j, s3)"
    and new: "\<not> is_scored (s_db s3) ep"
    and st: "settle ?E ep row r a j (s3\<lparr>s_db := (s_db s3)\<lparr>
       scores := scores (s_db s3) @ [(ep, score_of row r a applied j)],
       episode_snapshots := episode_snapshots (s_db s3) @ [(ep, snapshot_of row r a j)]\<rparr>\<rparr>) = (Inr (), s')"
  have row: "map_of (scores (s_db s')) ep = Some (score_of row r a applied j)"
    using settled_scores[OF st] new by (simp add: is_scored_def map_add_def)
  have "s_db s1 = s_db s" using endpoints.diagnose_reads[of S th stub_only react A E "diagnose_request_of snap row" s] r
    by simp
  moreover have "gate_log_only (s_db s1) (s_db s2)"
    using a endpoints.act_logs[of s1 S th stub_only react A E] by (auto simp: call_act_def split: if_splits)
      (metis snd_conv)
  ultimately have old: "get_trust_state (s_db s2) ?c = get_trust_state (s_db s) ?c"
    by (auto simp: gate_log_only_def get_trust_state_def)
  obtain now d where u: "update_trust_a ep ?c (jd_trust j) now ((s_db s3)\<lparr>
       scores := scores (s_db s3) @ [(ep, score_of row r a applied j)],
       episode_snapshots := episode_snapshots (s_db s3) @ [(ep, snapshot_of row r a j)]\<rparr>) = (Inr (), d)"
    and d: "get_trust_state (s_db s') ?c = get_trust_state d ?c"
    using settle_trust[OF st, of ?c] by auto
  let ?st = "get_trust_state (s_db s3) ?c"
  have new_state: "get_trust_state (s_db s') ?c =
      (case jd_trust j of None \<Rightarrow> ?st | Some b \<Rightarrow> a_transition 5 (fst ?st) (snd ?st) b)"
    using update_a_state[OF u] d by (simp split: option.split)
  have "?st = get_trust_state (s_db s) ?c" if "jd_trust j \<noteq> Some False"
    using judge_credit[OF j that] old by simp
  with new_state have "case jd_trust j of
      Some True \<Rightarrow> get_trust_state (s_db s') ?c = (if 5 \<le> snd (get_trust_state (s_db s) ?c) + 1 then Can_Act
          else fst (get_trust_state (s_db s) ?c), snd (get_trust_state (s_db s) ?c) + 1)
    | Some False \<Rightarrow> fst (get_trust_state (s_db s') ?c) \<noteq> Can_Act \<and> snd (get_trust_state (s_db s') ?c) = 0
    | None \<Rightarrow> get_trust_state (s_db s') ?c = get_trust_state (s_db s) ?c"
    by (cases "jd_trust j") (simp_all add: a_transition_def split: bool.split)
  with row show ?thesis by (intro exI[of _ "score_of row r a applied j"]) (simp add: score_of_def Let_def)
qed

lemma score_moves_dimension_a_witness:
  "\<exists>s' sc. score_episode demo_scorer None ''e1'' (demo_episode ''bad-rollout'') demo_before = (Inr (), s') \<and>
     map_of (scores (s_db s')) ''e1'' = Some sc \<and>
     (sc_trust sc = Some False \<longrightarrow> snd (get_trust_state (s_db s') ''bad-rollout'') = 0)"
proof -
  obtain s' where sc: "score_episode demo_scorer None ''e1'' (demo_episode ''bad-rollout'') demo_before = (Inr (), s')"
    using demo_score by blast
  from score_moves_dimension_a[OF sc[unfolded demo_scorer_def]] sc show ?thesis
    by (auto simp: demo_episode_def Let_def)
qed

section \<open>A misdiagnosis of a class without a ladder\<close>

lemma tripped_logs:
  "episode_snapshots (tripped_db now d) = episode_snapshots d"
  "llm_diagnosis_log (tripped_db now d) = llm_diagnosis_log d"
proof -
  have dem: "episode_snapshots (fst (fold (demote_class now) cs acc)) = episode_snapshots (fst acc) \<and>
      llm_diagnosis_log (fst (fold (demote_class now) cs acc)) = llm_diagnosis_log (fst acc)" for cs acc
    by (induction cs arbitrary: acc) (auto simp: demote_class_def Let_def split: prod.splits)
  have res: "episode_snapshots (foldl (\<lambda>d' c. reset_to_safe_defaults now d' c None) d cs) = episode_snapshots d \<and>
      llm_diagnosis_log (foldl (\<lambda>d' c. reset_to_safe_defaults now d' c None) d cs) = llm_diagnosis_log d" for cs d
    by (induction cs arbitrary: d)
      (auto simp: reset_to_safe_defaults_def log_diagnoser_def log_action_def upsert_diagnoser_mode_def
        upsert_action_trust_def Let_def)
  have clr: "episode_snapshots (foldl (\<lambda>d' c. set_safety_hold now d' c False why) d cs) = episode_snapshots d \<and>
      llm_diagnosis_log (foldl (\<lambda>d' c. set_safety_hold now d' c False why) d cs) = llm_diagnosis_log d" for why cs d
    by (induction cs arbitrary: d) (auto simp: set_safety_hold_def Let_def)
  show "episode_snapshots (tripped_db now d) = episode_snapshots d"
    "llm_diagnosis_log (tripped_db now d) = llm_diagnosis_log d"
    by (simp_all add: tripped_db_def clear_all_safety_holds_def reset_classes_def dem res clr)
qed

lemma record_failure_logs:
  "scores (snd (record_failure now d why c)) = scores d"
  "episode_snapshots (snd (record_failure now d why c)) = episode_snapshots d"
  "llm_diagnosis_log (snd (record_failure now d why c)) = llm_diagnosis_log d"
  "misdispatch_log (snd (record_failure now d why c)) = misdispatch_log d"
  "length (failure_log (snd (record_failure now d why c))) = Suc (length (failure_log d))"
  by (simp_all add: record_failure_def step_eqs tripped_logs tripped_frame)

text \<open>An action taken for a wrong diagnosis of a fault without a ladder (no fault at all, or a
  report-only class) aborts the run with ValueError after the score and the failure are
  stored: the misdispatch is never counted towards a safety hold, and the LLM's diagnosis is
  never logged or judged.\<close>

theorem unlisted_misdispatch_aborts:
  assumes "se_diagnose E (diagnose_request_of snap row) s = (Inr r, s1)"
    and "call_act E ep row r s1 = (Inr a, s2)" "rs_taken a \<noteq> None"
    and "applied_of (rs_result a) = Inr applied"
    and "\<not> diagnosis_matches (dg_diagnosis (dn_result r)) (e_class row)"
    and "promotion_streak (e_class row) = None"
    and "\<not> is_scored (s_db s2) ep" "map_of (episode_snapshots (s_db s2)) ep = None"
  shows "\<exists>s'. score_episode E snap ep row s = (Inl ValueError, s') \<and> is_scored (s_db s') ep \<and>
    length (failure_log (s_db s')) = Suc (length (failure_log (s_db s2))) \<and>
    misdispatch_log (s_db s') = misdispatch_log (s_db s2) \<and>
    llm_diagnosis_log (s_db s') = llm_diagnosis_log (s_db s2)"
proof -
  let ?now = "se_clock E (s_world s2)"
  let ?f = "record_failure ?now (s_db s2) ''action failed or misdiagnosed'' (Some (e_class row))"
  obtain b d3 where f: "?f = (b, d3)" by (cases ?f)
  have d3: "scores d3 = scores (s_db s2)" "episode_snapshots d3 = episode_snapshots (s_db s2)"
    "llm_diagnosis_log d3 = llm_diagnosis_log (s_db s2)" "misdispatch_log d3 = misdispatch_log (s_db s2)"
    "length (failure_log d3) = Suc (length (failure_log (s_db s2)))"
    using record_failure_logs[of ?now "s_db s2" "''action failed or misdiagnosed''" "Some (e_class row)"] f by simp_all
  define j where "j = \<lparr>jd_trust = Some False, jd_verdict = None, jd_elapsed = None, jd_breaker = Some b\<rparr>"
  have judged: "judge E row False a applied s2 = (Inr j, s2\<lparr>s_db := d3\<rparr>)"
    using assms(3) f
    by (simp add: judge_def map_step_def then_step_def ret_step_def on_db_def fail_breaker_def j_def Let_def)
  have update: "update_trust_a ep (e_class row) (jd_trust j) now d = (Inl ValueError, d)" for now d
    by (simp add: update_trust_a_def j_def record_outcome_unknown[OF assms(6)])
  have free: "\<not> is_scored d3 ep" "map_of (episode_snapshots d3) ep = None"
    using assms(7,8) d3 by (simp_all add: is_scored_def)
  show ?thesis
    unfolding score_episode_def using assms(5)
    by (simp add: then_step_def assms(1,2,4) judged on_db_def insert_score_def free settle_def update)
       (simp add: is_scored_def map_add_def d3 split: option.split)
qed

lemma unlisted_misdispatch_aborts_witness:
  "\<exists>s'. score_episode (demo_scorer\<lparr>se_act := \<lambda>_ s. (Inr \<lparr>rs_taken = Some ''restart_deployment'',
        rs_result = Some [(''applied'', PBool True)], rs_source = None, rs_proposal = None, rs_gate = None\<rparr>, s),
      se_diagnose := \<lambda>_ s. (Inr (diagnose_answer (s_db demo_before) quiet_output
        (verdict_of ''crash-loop'' 1 []) (Llm_Diagnosed (verdict_of ''crash-loop'' 1 []) [] [] [])), s)\<rparr>)
      None ''e1'' (demo_episode ''none'') demo_before = (Inl ValueError, s') \<and> is_scored (s_db s') ''e1''"
proof -
  let ?a = "\<lparr>rs_taken = Some ''restart_deployment'', rs_result = Some [(''applied'', PBool True)],
      rs_source = None, rs_proposal = None, rs_gate = None\<rparr> :: act_response"
  let ?r = "diagnose_answer (s_db demo_before) quiet_output (verdict_of ''crash-loop'' 1 [])
      (Llm_Diagnosed (verdict_of ''crash-loop'' 1 []) [] [] [])"
  let ?E = "demo_scorer\<lparr>se_act := \<lambda>_ s. (Inr ?a, s), se_diagnose := \<lambda>_ s. (Inr ?r, s)\<rparr>"
  have llm: "llm_diagnosis_of (dn_llm ?r) = Some ''crash-loop''" "dg_diagnosis (dn_result ?r) = ''crash-loop''"
    by (simp_all add: llm_diagnosis_of_def diagnose_answer_def choose_diagnosis_def diagnoser_for_def
        normalize_predicted_class_def get_diagnoser_mode_def demo_before_def empty_db_def row_or_def Let_def)
  have "has_fix ''crash-loop''" by (simp add: has_fix_def action_maps_agree production_action_map_def production_tool_def)
  then have act: "call_act ?E ''e1'' (demo_episode ''none'') ?r demo_before = (Inr ?a, demo_before)"
    using llm by (simp add: call_act_def worth_calling_act_def)
  have "py_lower (py_strip ''crash-loop'') = ''crash-loop''" "py_lower (py_strip ''none'') = ''none''" by code_simp+
  then have wrong: "\<not> diagnosis_matches (dg_diagnosis (dn_result ?r)) (e_class (demo_episode ''none''))"
    using llm by (simp add: diagnosis_matches_def demo_episode_def)
  have "se_diagnose ?E (diagnose_request_of None (demo_episode ''none'')) demo_before = (Inr ?r, demo_before)" by simp
  from unlisted_misdispatch_aborts[OF this act _ _ wrong] show ?thesis
    by (auto simp: applied_of_def demo_episode_def promotion_streak_def demo_before_def empty_db_def is_scored_def)
qed

end
