(* ===== verification/Comparison_Budget.thy ===== *)
theory Comparison_Budget
  imports Fault_Taxonomy
begin

text \<open>
  \<^verbatim>\<open>p3_agent.py\<close>, \<^verbatim>\<open>_openrouter_should_fire\<close>: the rationing of OpenRouter's daily free
  calls over the fault classes. Today's logged calls per class, a dictionary from a GROUP
  BY, are an association list with positive counts.
\<close>

definition openrouter_daily_cap :: nat where
  "openrouter_daily_cap = 50"

definition count_of :: "(string \<times> nat) list \<Rightarrow> string \<Rightarrow> nat" where
  "count_of counts c = (case map_of counts c of None \<Rightarrow> 0 | Some n \<Rightarrow> n)"

definition uncovered :: "(string \<times> nat) list \<Rightarrow> string list" where
  "uncovered counts = filter (\<lambda>c. count_of counts c = 0) fault_classes"

definition used_today :: "(string \<times> nat) list \<Rightarrow> nat" where
  "used_today counts = sum_list (List.map snd counts)"

text \<open>\<^verbatim>\<open>math.ceil(OPENROUTER_DAILY_CAP / len(FAULT_CLASSES))\<close>\<close>

definition target_per_class :: nat where
  "target_per_class =
     nat (ceiling (rat_of_nat openrouter_daily_cap / rat_of_nat (length fault_classes)))"

text \<open>\<open>None\<close>: the episode has no row yet.\<close>

definition openrouter_should_fire :: "string option \<Rightarrow> (string \<times> nat) list \<Rightarrow> bool" where
  "openrouter_should_fire episode_class counts =
     (case episode_class of
        None \<Rightarrow> True
      | Some actual \<Rightarrow>
          (let remaining = int openrouter_daily_cap - int (used_today counts)
           in if remaining \<le> 0 then False
              else if actual \<in> set (uncovered counts) then True
              else if remaining - int (length (uncovered counts)) \<le> 0 then False
              else count_of counts actual < target_per_class))"

section \<open>A day of calls\<close>

text \<open>The counts a day can reach: a call the gate let through is logged, or is not (it failed);
  the classes of episodes are those of the roster.\<close>

inductive day :: "(string \<times> nat) list \<Rightarrow> bool" where
  morning: "day []"
| call: "day counts \<Longrightarrow> c \<in> set fault_classes \<Longrightarrow> openrouter_should_fire (Some c) counts
      \<Longrightarrow> day (AList.update c (Suc (count_of counts c)) counts)"

inductive_cases day_NilE: "day []"

lemma target_per_class_4 [simp]: "target_per_class = 4"
proof -
  have "\<lceil>50 / 13 :: rat\<rceil> = 4" by (rule ceiling_unique) simp_all
  then show ?thesis by (simp add: target_per_class_def openrouter_daily_cap_def fault_classes_def)
qed

lemma distinct_fault_classes [simp]: "distinct fault_classes"
  by (simp add: fault_classes_def)

lemma count_of_update [simp]:
  "count_of (AList.update c n counts) c' = (if c' = c then n else count_of counts c')"
  by (simp add: count_of_def update_conv')

lemma used_today_update:
  "distinct (List.map fst counts) \<Longrightarrow>
     used_today (AList.update c (Suc (count_of counts c)) counts) = Suc (used_today counts)"
  unfolding used_today_def count_of_def
  by (induction counts) (auto split: option.splits)

lemma length_uncovered: "length (uncovered counts) = card {c \<in> set fault_classes. count_of counts c = 0}"
  unfolding uncovered_def using distinct_length_filter[OF distinct_fault_classes]
  by (simp add: Int_def conj_commute)

lemma uncovered_update:
  assumes "c \<in> set fault_classes"
  shows "length (uncovered (AList.update c (Suc n) counts)) =
    length (uncovered counts) - (if count_of counts c = 0 then 1 else 0)"
proof -
  have "{x \<in> set fault_classes. count_of (AList.update c (Suc n) counts) x = 0} =
      {x \<in> set fault_classes. count_of counts x = 0} - {c}" by auto
  with assms show ?thesis by (simp add: length_uncovered)
qed

definition rationed :: "(string \<times> nat) list \<Rightarrow> bool" where
  "rationed counts \<longleftrightarrow> distinct (List.map fst counts) \<and>
     used_today counts + length (uncovered counts) \<le> openrouter_daily_cap \<and>
     (\<forall>c. count_of counts c \<le> 4)"

lemma day_rationed: "day counts \<Longrightarrow> rationed counts"
proof (induction rule: day.induct)
  case morning
  show ?case by (simp add: rationed_def used_today_def uncovered_def count_of_def fault_classes_def
        openrouter_daily_cap_def)
next
  case (call counts c)
  let ?counts = "AList.update c (Suc (count_of counts c)) counts"
  have used: "used_today ?counts = Suc (used_today counts)"
    using call.IH by (simp add: rationed_def used_today_update)
  have un: "length (uncovered ?counts) = length (uncovered counts) - (if count_of counts c = 0 then 1 else 0)"
    by (rule uncovered_update[OF call.hyps(2)])
  have member: "c \<in> set (uncovered counts) \<longleftrightarrow> count_of counts c = 0"
    using call.hyps(2) by (simp add: uncovered_def)
  show ?case
  proof (cases "count_of counts c = 0")
    case True
    then obtain k where "length (uncovered counts) = Suc k"
      using member by (cases "uncovered counts") auto
    with True call.IH used un show ?thesis by (auto simp: rationed_def distinct_update)
  next
    case False
    with call.hyps(3) member
    have "int (used_today counts) + int (length (uncovered counts)) < int openrouter_daily_cap"
      "count_of counts c < 4"
      by (auto simp: openrouter_should_fire_def Let_def split: if_splits)
    with False call.IH used un show ?thesis by (auto simp: rationed_def distinct_update)
  qed
qed

section \<open>Properties\<close>

text \<open>On any day, in any order of episodes, no more than 50 calls are logged and no more than
  4 for a class, and a class without a call yet is still let through.\<close>

theorem budget_is_shared:
  assumes "day counts"
  shows "used_today counts \<le> 50 \<and> (\<forall>c. count_of counts c \<le> 4) \<and>
     (\<forall>c \<in> set fault_classes. count_of counts c = 0 \<longrightarrow> openrouter_should_fire (Some c) counts)"
proof -
  have r: "rationed counts" by (rule day_rationed[OF assms])
  have "openrouter_should_fire (Some c) counts" if "c \<in> set fault_classes" "count_of counts c = 0" for c
  proof -
    have "c \<in> set (uncovered counts)" using that by (simp add: uncovered_def)
    moreover from this obtain k where "length (uncovered counts) = Suc k"
      by (cases "uncovered counts") auto
    ultimately show ?thesis using r by (auto simp: openrouter_should_fire_def rationed_def)
  qed
  with r show ?thesis by (auto simp: rationed_def openrouter_daily_cap_def)
qed

lemma budget_is_shared_witness: "openrouter_should_fire (Some ''none'') [(''oom'', 1)]"
proof -
  have "openrouter_should_fire (Some ''oom'') []"
    by (simp add: openrouter_should_fire_def uncovered_def used_today_def count_of_def fault_classes_def
        openrouter_daily_cap_def)
  from day.call[OF day.morning _ this] have "day [(''oom'', 1)]"
    by (simp add: fault_classes_def count_of_def)
  from budget_is_shared[OF this] show ?thesis by (simp add: fault_classes_def count_of_def)
qed

end
