(* ===== verification/Trust_Tools.thy ===== *)
theory Trust_Tools
  imports LLM_Trust Misdispatch_Guard Carts_Rotation
begin

text \<open>
  The operator's scripts that touch the trust tables: \<^verbatim>\<open>snapshot_restore_trust_state.py\<close>,
  \<^verbatim>\<open>set_llm_trust_state.py\<close>, \<^verbatim>\<open>phase_d_promote_all.py\<close>, \<^verbatim>\<open>restore_promotion.py\<close>,
  \<^verbatim>\<open>reset_test_state.py\<close>, \<^verbatim>\<open>clear_safety_hold.py\<close>, and the detached poll
  \<^verbatim>\<open>restore_carts_active.py\<close>. A snapshot file holds the JSON value that was written to it.
\<close>

section \<open>Snapshot and restore\<close>

definition a_text :: "a_state \<Rightarrow> string" where
  "a_text s = (case s of Report_Only \<Rightarrow> ''report_only'' | Can_Act \<Rightarrow> ''can_act'' | Demoted \<Rightarrow> ''demoted'')"

definition b_text :: "b_mode \<Rightarrow> string" where
  "b_text m = (case m of Stub \<Rightarrow> ''stub'' | Llm \<Rightarrow> ''llm'')"

definition c_text :: "c_state \<Rightarrow> string" where
  "c_text s = (case s of Deterministic_Fallback \<Rightarrow> ''deterministic_fallback'' | Llm_Can_Act \<Rightarrow> ''llm_can_act'')"

definition trust_entry :: "string \<Rightarrow> string \<Rightarrow> string \<Rightarrow> int \<Rightarrow> pyval" where
  "trust_entry c key s streak = PDict [(''fault_class'', PStr c), (key, PStr s), (''streak'', PInt streak)]"

definition snapshot :: "string \<Rightarrow> string \<Rightarrow> db \<Rightarrow> pyval" where
  "snapshot taken_at c d =
     (let (a, na) = get_trust_state d c; (b, nb) = get_diagnoser_mode d c; (s, ns) = get_action_trust d c
      in PDict [(''fault_class'', PStr c), (''taken_at'', PStr taken_at),
                (''dimension_a'', trust_entry c ''state'' (a_text a) na),
                (''dimension_b'', trust_entry c ''mode'' (b_text b) nb),
                (''dimension_c'', trust_entry c ''state'' (c_text s) ns)])"

text \<open>A write that may raise, as a step on the database: each one commits.\<close>

definition commit :: "(db \<Rightarrow> db res) \<Rightarrow> (db, unit) step" where
  "commit f d = (case f d of Inl e \<Rightarrow> (Inl e, d) | Inr d' \<Rightarrow> (Inr (), d'))"

text \<open>The two fields a restored dimension is set from. A state that is no text or a streak that
  is no number cannot come from a snapshot: they raise.\<close>

fun as_int :: "pyval \<Rightarrow> int res" where
  "as_int (PInt n) = Inr n"
| "as_int _ = Inl TypeError"

fun as_str :: "pyval \<Rightarrow> string res" where
  "as_str (PStr s) = Inr s"
| "as_str _ = Inl TypeError"

definition entry_fields :: "pyval \<Rightarrow> string \<Rightarrow> (string \<times> int) res" where
  "entry_fields v key =
     try_res (try_res (py_item v key) as_str) (\<lambda>s.
     try_res (try_res (py_item v ''streak'') as_int) (\<lambda>n. Inr (s, n)))"

definition restore :: "pyval \<Rightarrow> (db, unit) step" where
  "restore data d =
     (case try_res (py_item data ''fault_class'') as_str of
        Inl e \<Rightarrow> (Inl e, d)
      | Inr c \<Rightarrow>
     (case (py_item data ''dimension_a'', py_item data ''dimension_b'', py_item data ''dimension_c'') of
        (Inr a, Inr b, Inr s) \<Rightarrow>
          then_step (commit (\<lambda>d. try_res (entry_fields a ''state'') (\<lambda>(x, n). manual_set_state d c x n))) (\<lambda>_.
          then_step (commit (\<lambda>d. try_res (entry_fields b ''mode'') (\<lambda>(x, n). manual_set_diagnoser_mode d c x n))) (\<lambda>_.
          commit (\<lambda>d. try_res (entry_fields s ''state'') (\<lambda>(x, n). manual_set_action_trust d c x n)))) d
      | (Inl e, _, _) \<Rightarrow> (Inl e, d)
      | (_, Inl e, _) \<Rightarrow> (Inl e, d)
      | (_, _, Inl e) \<Rightarrow> (Inl e, d)))"

section \<open>The other scripts\<close>

definition set_diagnoser_mode_tool :: "int \<Rightarrow> string \<Rightarrow> string \<Rightarrow> int \<Rightarrow> (db, unit) step" where
  "set_diagnoser_mode_tool now c mode streak =
     commit (\<lambda>d. try_res (manual_set_diagnoser_mode d c mode streak) (\<lambda>d'.
       case parse_b_mode mode of
         None \<Rightarrow> Inl ValueError
       | Some m \<Rightarrow> Inr (log_diagnoser now None c True (get_diagnoser_mode d c) (m, streak) d')))"

definition set_action_trust_tool :: "int \<Rightarrow> string \<Rightarrow> string \<Rightarrow> int \<Rightarrow> (db, unit) step" where
  "set_action_trust_tool now c state streak =
     commit (\<lambda>d. try_res (manual_set_action_trust d c state streak) (\<lambda>d'.
       case parse_c_state state of
         None \<Rightarrow> Inl ValueError
       | Some s \<Rightarrow> Inr (log_action now None c True (get_action_trust d c) (s, streak) d')))"

definition real_classes :: "string list" where
  "real_classes = [''crash-loop'', ''oom'', ''disk-full'', ''cpu-throttling'',
     ''under-provisioned-replicas'', ''bad-rollout'']"

definition promote_all :: "db \<Rightarrow> db" where
  "promote_all d = foldl (\<lambda>d c. upsert_trust_state d c Can_Act 5) d real_classes"

text \<open>A class without a promotion streak is skipped.\<close>

definition restore_promotion :: "string list \<Rightarrow> db \<Rightarrow> db" where
  "restore_promotion classes d =
     foldl (\<lambda>d c. case promotion_streak c of
              None \<Rightarrow> d | Some n \<Rightarrow> upsert_trust_state d c Can_Act n)
       d (if classes = [] then [''crash-loop''] else classes)"

definition reset_test_state :: "db \<Rightarrow> db" where
  "reset_test_state d =
     d\<lparr>trust_state := AList.delete ''crash-loop'' (trust_state d),
       trust_history := filter (\<lambda>h. h_class h \<noteq> ''crash-loop'') (trust_history d)\<rparr>"

definition clear_hold_tool :: "int \<Rightarrow> string \<Rightarrow> string \<Rightarrow> db \<Rightarrow> db" where
  "clear_hold_tool now c reason d =
     (if \<not> active (get_safety_hold d c) then d else clear_safety_hold now d c (Hold_Text reason))"

text \<open>The poll for the carts pod: one flip at once, then one every ten seconds until 660 seconds
  have passed. \<open>sleep\<close> waits the given seconds; the fuel bounds the polls.\<close>

definition restore_poll_interval_s :: rat where "restore_poll_interval_s = 10"
definition restore_ceiling_s :: rat where "restore_ceiling_s = 660"

fun poll_flip ::
    "('w \<Rightarrow> bool \<times> 'w) \<Rightarrow> ('w \<Rightarrow> rat) \<Rightarrow> (rat \<Rightarrow> 'w \<Rightarrow> 'w) \<Rightarrow> rat \<Rightarrow> nat \<Rightarrow> bool \<Rightarrow> 'w \<Rightarrow> bool res \<times> 'w" where
  "poll_flip flip clock sleep deadline 0 restored w = (Inl Out_Of_Fuel, w)"
| "poll_flip flip clock sleep deadline (Suc n) restored w =
     (if restored \<or> deadline \<le> clock w then (Inr restored, w)
      else case flip (sleep restore_poll_interval_s w) of (r, w1) \<Rightarrow> poll_flip flip clock sleep deadline n r w1)"

definition restore_carts_active ::
    "'w kube \<Rightarrow> 'w rotation_api \<Rightarrow> ('w \<Rightarrow> rat) \<Rightarrow> (rat \<Rightarrow> 'w \<Rightarrow> 'w) \<Rightarrow> nat \<Rightarrow> 'w \<Rightarrow> bool res \<times> 'w" where
  "restore_carts_active K R clock sleep fuel w =
     (case flip_to_carts K R w of (restored, w1) \<Rightarrow>
        poll_flip (flip_to_carts K R) clock sleep (clock w + restore_ceiling_s) fuel restored w1)"

section \<open>What they keep\<close>

lemma text_parse [simp]:
  "parse_a_state (a_text s) = Some s" "parse_b_mode (b_text m) = Some m" "parse_c_state (c_text x) = Some x"
  by (auto simp: a_text_def parse_a_state_def b_text_def parse_b_mode_def c_text_def parse_c_state_def
      split: a_state.split b_mode.split c_state.split)

lemma entry_fields_entry [simp]:
  "key \<noteq> ''fault_class'' \<Longrightarrow> key \<noteq> ''streak'' \<Longrightarrow> entry_fields (trust_entry c key s n) key = Inr (s, n)"
  by (simp add: entry_fields_def trust_entry_def)

lemma restore_snapshot:
  "restore (snapshot ts c d0) d =
     (Inr (), upsert_action_trust
        (upsert_diagnoser_mode
          (upsert_trust_state d c (fst (get_trust_state d0 c)) (snd (get_trust_state d0 c)))
          c (fst (get_diagnoser_mode d0 c)) (snd (get_diagnoser_mode d0 c)))
        c (fst (get_action_trust d0 c)) (snd (get_action_trust d0 c)))"
  by (simp add: restore_def snapshot_def then_step_def commit_def manual_set_state_def
      manual_set_diagnoser_mode_def manual_set_action_trust_def case_prod_unfold Let_def)

lemma poll_flip_returns:
  assumes "\<And>s w. clock w + s \<le> clock (sleep s w)" "\<And>w. clock w \<le> clock (snd (flip w))"
    and "deadline - clock w \<le> 10 * of_nat n"
  shows "\<exists>r w'. poll_flip flip clock sleep deadline (Suc n) restored w = (Inr r, w')"
  using assms(3)
proof (induction n arbitrary: restored w)
  case (Suc n)
  obtain r w1 where f: "flip (sleep restore_poll_interval_s w) = (r, w1)" by fastforce
  have "clock w + 10 \<le> clock w1"
    using assms(1)[of w 10] assms(2)[of "sleep 10 w"] f by (simp add: restore_poll_interval_s_def)
  then have "deadline - clock w1 \<le> 10 * of_nat n" using Suc.prems by simp
  from Suc.IH[OF this, of r] f show ?case by simp
qed simp

lemma poll_flip_true:
  assumes "poll_flip flip clock sleep deadline n restored w = (Inr True, w')"
  shows "restored \<and> w' = w \<or> (\<exists>v. flip v = (True, w'))"
  using assms by (induction n arbitrary: restored w) (fastforce split: if_splits prod.splits)+

section \<open>Properties\<close>

text \<open>C38: restoring a snapshot brings back the three dimensions of its class exactly as they were
  when it was taken, whatever happened since; the other classes, the histories and the
  safety holds stay as they are.\<close>

theorem snapshot_roundtrip:
  "\<exists>d'. restore (snapshot ts c d0) d = (Inr (), d') \<and>
     get_trust_state d' c = get_trust_state d0 c \<and>
     get_diagnoser_mode d' c = get_diagnoser_mode d0 c \<and>
     get_action_trust d' c = get_action_trust d0 c \<and>
     (\<forall>c'. c' \<noteq> c \<longrightarrow> get_trust_state d' c' = get_trust_state d c' \<and>
        get_diagnoser_mode d' c' = get_diagnoser_mode d c' \<and>
        get_action_trust d' c' = get_action_trust d c') \<and>
     trust_history d' = trust_history d \<and> safety_hold d' = safety_hold d"
  by (simp add: restore_snapshot get_trust_state_def get_diagnoser_mode_def get_action_trust_def
      upsert_trust_state_def upsert_diagnoser_mode_def upsert_action_trust_def)

lemma snapshot_roundtrip_witness:
  "\<exists>d'. restore (snapshot [] ''oom'' empty_db) (promote_all empty_db) = (Inr (), d') \<and>
     get_trust_state d' ''oom'' = (Report_Only, 0) \<and> get_trust_state d' ''disk-full'' = (Can_Act, 5)"
  using snapshot_roundtrip[of "[]" "''oom''" empty_db "promote_all empty_db"]
  by (force simp: get_trust_state_def promote_all_def real_classes_def upsert_trust_state_def empty_db_def
      row_or_def)

text \<open>The detached poll for the carts pod ends: if sleeping and the client's calls advance the
  clock, 67 polls outlast its 660 seconds; and it reports success only right after a flip
  that succeeded.\<close>

theorem restore_poll_returns:
  assumes "\<And>s w. clock w + s \<le> clock (sleep s w)" "\<And>w. clock w \<le> clock (snd (flip_to_carts K R w))"
  shows "(\<exists>r w'. restore_carts_active K R clock sleep 67 w = (Inr r, w')) \<and>
    (\<forall>w'. restore_carts_active K R clock sleep 67 w = (Inr True, w') \<longrightarrow>
       (\<exists>v. flip_to_carts K R v = (True, w')))"
proof
  obtain r0 w1 where f: "flip_to_carts K R w = (r0, w1)" by fastforce
  have "clock w \<le> clock w1" using assms(2)[of w] f by simp
  then have "clock w + restore_ceiling_s - clock w1 \<le> 10 * of_nat 66" by (simp add: restore_ceiling_s_def)
  from poll_flip_returns[OF assms this, of r0]
  show "\<exists>r w'. restore_carts_active K R clock sleep 67 w = (Inr r, w')"
    by (simp add: restore_carts_active_def f del: poll_flip.simps)
  show "\<forall>w'. restore_carts_active K R clock sleep 67 w = (Inr True, w') \<longrightarrow>
      (\<exists>v. flip_to_carts K R v = (True, w'))"
  proof (intro allI impI)
    fix w'
    assume "restore_carts_active K R clock sleep 67 w = (Inr True, w')"
    then have "poll_flip (flip_to_carts K R) clock sleep (clock w + restore_ceiling_s) 67 r0 w1 = (Inr True, w')"
      by (simp add: restore_carts_active_def f del: poll_flip.simps)
    from poll_flip_true[OF this] f show "\<exists>v. flip_to_carts K R v = (True, w')" by (cases r0) auto
  qed
qed

lemma restore_poll_returns_witness:
  "\<exists>r w'. restore_carts_active demo_kube \<lparr>ra_selector = \<lambda>w. (Reply (Some ''carts''), w),
      ra_pods = \<lambda>_ w. (Reply [], w), ra_patch = \<lambda>_ w. (Reply (), w)\<rparr> fst (\<lambda>s (t, v). (t + s, v)) 67 (0, 1, 0)
    = (Inr r, w')"
proof -
  have "fst w \<le> fst (snd (flip_to_carts demo_kube \<lparr>ra_selector = \<lambda>w. (Reply (Some ''carts''), w),
      ra_pods = \<lambda>_ w. (Reply [], w), ra_patch = \<lambda>_ w. (Reply (), w)\<rparr> w))" for w
    by (simp add: flip_to_carts_def flip_to_def get_active_label_def carts_label_def split: sum.split)
  from restore_poll_returns[of fst "\<lambda>s (t, v). (t + s, v)", OF _ this] show ?thesis by auto
qed

end
