(* ===== verification/Accounts.thy ===== *)
theory Accounts
  imports Budget_Meter "HOL-Library.Countable"
begin

text \<open>
  \<^verbatim>\<open>p3_trust_action/accounts.py\<close>, \<^verbatim>\<open>auth.py\<close> and the endpoints of \<^verbatim>\<open>operator_api.py\<close> that rest on
  them: the accounts, the log of login attempts, the lockout, the session tokens and the role
  check of every endpoint. bcrypt, pyotp and PyJWT are functions of the record \<open>crypto\<close>. A
  time is in microseconds; SQLite's \<^verbatim>\<open>datetime('now')\<close> is its whole seconds. The hours a
  session lasts are kept as microseconds, without the detour over a float of hours.
\<close>

section \<open>Tables\<close>

record account_row =
  ac_hash :: string
  ac_role :: string
  ac_totp :: "string option"
  ac_active :: bool
  ac_expires :: "int option"
  ac_created :: int

record login_attempt =
  la_user :: string
  la_ok :: bool
  la_ip :: string
  la_at :: int

record audit_row =
  au_role :: string
  au_endpoint :: string
  au_detail :: string
  au_ip :: "string option"

record auth_db =
  ad_accounts :: "(string \<times> account_row) list"
  ad_attempts :: "login_attempt list"
  ad_audit :: "audit_row list"

definition empty_auth :: auth_db where
  "empty_auth = \<lparr>ad_accounts = [], ad_attempts = [], ad_audit = []\<rparr>"

record token_payload =
  tp_role :: string
  tp_username :: "string option"
  tp_exp :: int
  tp_iat :: int

text \<open>Hashing salts, so it takes the randomness it draws. Decoding takes the time and the secret
  it is done with; a token carries whole seconds.\<close>

record crypto =
  cy_hash :: "int \<Rightarrow> string \<Rightarrow> string"
  cy_check :: "string \<Rightarrow> string \<Rightarrow> bool"
  cy_totp :: "string \<Rightarrow> int \<Rightarrow> string \<Rightarrow> bool"
  cy_encode :: "token_payload \<Rightarrow> string"
  cy_decode :: "string \<Rightarrow> int \<Rightarrow> token_payload option"

definition roles :: "string list" where
  "roles = [''admin'', ''demo-trigger'', ''viewer'']"

definition max_failed_attempts :: nat where
  "max_failed_attempts = 5"

definition lockout_window_s :: int where
  "lockout_window_s = 15 * 60"

definition hour_us :: int where
  "hour_us = 3600 * 1000000"

definition seconds :: "int \<Rightarrow> int" where
  "seconds now = now div 1000000"

section \<open>Accounts\<close>

definition get_account :: "auth_db \<Rightarrow> string \<Rightarrow> account_row option" where
  "get_account d u = map_of (ad_accounts d) u"

definition create_account ::
    "crypto \<Rightarrow> int \<Rightarrow> int \<Rightarrow> string \<Rightarrow> string \<Rightarrow> string \<Rightarrow> int option \<Rightarrow> string option
       \<Rightarrow> auth_db \<Rightarrow> unit res \<times> auth_db" where
  "create_account C salt now user password role expires_hours totp d =
     (if role \<notin> set roles then (Inl ValueError, d)
      else if role = ''admin'' \<and> (totp = None \<or> totp = Some []) then (Inl ValueError, d)
      else if get_account d user \<noteq> None then (Inl IntegrityError, d)
      else (Inr (), d\<lparr>ad_accounts := ad_accounts d @
             [(user, \<lparr>ac_hash = cy_hash C salt password, ac_role = role, ac_totp = totp, ac_active = True,
                      ac_expires = map_option (\<lambda>h. now + h * hour_us) expires_hours,
                      ac_created = seconds now\<rparr>)]\<rparr>))"

text \<open>The listing never has the hash or the secret.\<close>

record account_info =
  ai_user :: string
  ai_role :: string
  ai_active :: bool
  ai_expires :: "int option"
  ai_created :: int

definition list_accounts :: "auth_db \<Rightarrow> account_info list" where
  "list_accounts d =
     List.map (\<lambda>(u, a). \<lparr>ai_user = u, ai_role = ac_role a, ai_active = ac_active a,
                          ai_expires = ac_expires a, ai_created = ac_created a\<rparr>)
       (sort_key (\<lambda>(u, a). ac_created a) (ad_accounts d))"

definition delete_account :: "string \<Rightarrow> auth_db \<Rightarrow> auth_db" where
  "delete_account user d = d\<lparr>ad_accounts := AList.delete user (ad_accounts d)\<rparr>"

definition map_account :: "(account_row \<Rightarrow> account_row) \<Rightarrow> string \<Rightarrow> auth_db \<Rightarrow> auth_db" where
  "map_account f user d =
     d\<lparr>ad_accounts := List.map (\<lambda>(u, a). (u, if u = user then f a else a)) (ad_accounts d)\<rparr>"

definition set_active :: "string \<Rightarrow> bool \<Rightarrow> auth_db \<Rightarrow> auth_db" where
  "set_active user act = map_account (\<lambda>a. a\<lparr>ac_active := act\<rparr>) user"

definition change_password :: "crypto \<Rightarrow> int \<Rightarrow> string \<Rightarrow> string \<Rightarrow> auth_db \<Rightarrow> auth_db" where
  "change_password C salt user password = map_account (\<lambda>a. a\<lparr>ac_hash := cy_hash C salt password\<rparr>) user"

definition recent_failures :: "auth_db \<Rightarrow> int \<Rightarrow> string \<Rightarrow> login_attempt list" where
  "recent_failures d now user =
     filter (\<lambda>l. la_user l = user \<and> \<not> la_ok l \<and> seconds now - lockout_window_s < la_at l) (ad_attempts d)"

definition is_locked_out :: "auth_db \<Rightarrow> int \<Rightarrow> string \<Rightarrow> bool" where
  "is_locked_out d now user \<longleftrightarrow> max_failed_attempts \<le> length (recent_failures d now user)"

definition record_attempt :: "string \<Rightarrow> bool \<Rightarrow> string \<Rightarrow> int \<Rightarrow> auth_db \<Rightarrow> auth_db" where
  "record_attempt user ok ip now d =
     d\<lparr>ad_attempts := ad_attempts d @ [\<lparr>la_user = user, la_ok = ok, la_ip = ip, la_at = seconds now\<rparr>]\<rparr>"

definition is_expired :: "account_row \<Rightarrow> int \<Rightarrow> bool" where
  "is_expired a now = (case ac_expires a of None \<Rightarrow> False | Some t \<Rightarrow> t < now)"

text \<open>\<^verbatim>\<open>hours_until_expiry\<close>, as a duration.\<close>

definition time_until_expiry :: "account_row \<Rightarrow> int \<Rightarrow> int option" where
  "time_until_expiry a now = map_option (\<lambda>t. max (t - now) 0) (ac_expires a)"

datatype login_result = Login_Ok account_row | Login_Denied string

definition verify_login ::
    "crypto \<Rightarrow> int \<Rightarrow> string \<Rightarrow> string \<Rightarrow> string \<Rightarrow> auth_db \<Rightarrow> login_result \<times> auth_db" where
  "verify_login C now user password ip d =
     (if is_locked_out d now user then (Login_Denied ''locked_out'', d)
      else case get_account d user of
        None \<Rightarrow> (Login_Denied ''invalid_credentials'', record_attempt user False ip now d)
      | Some a \<Rightarrow>
          if \<not> ac_active a then (Login_Denied ''account_inactive'', record_attempt user False ip now d)
          else if is_expired a now then (Login_Denied ''account_expired'', record_attempt user False ip now d)
          else if \<not> cy_check C password (ac_hash a)
          then (Login_Denied ''invalid_credentials'', record_attempt user False ip now d)
          else (Login_Ok a, record_attempt user True ip now d))"

section \<open>Tokens and the role check\<close>

definition create_token :: "crypto \<Rightarrow> int \<Rightarrow> string \<Rightarrow> int \<Rightarrow> string option \<Rightarrow> string res" where
  "create_token C now role duration user =
     (if role \<notin> set roles then Inl ValueError
      else Inr (cy_encode C \<lparr>tp_role = role, tp_username = user, tp_exp = seconds (now + duration),
                             tp_iat = seconds now\<rparr>))"

text \<open>An endpoint's answer: the HTTP status of the exception it raises, or a value. A server
  error is 500.\<close>

type_synonym 'a http = "nat + 'a"

definition require_role :: "crypto \<Rightarrow> string list \<Rightarrow> string option \<Rightarrow> int \<Rightarrow> token_payload http" where
  "require_role C allowed header now =
     (case header of
        None \<Rightarrow> Inl 401
      | Some h \<Rightarrow>
          if \<not> is_prefix ''Bearer '' h then Inl 401
          else case cy_decode C (drop 7 h) now of
            None \<Rightarrow> Inl 401
          | Some p \<Rightarrow> if tp_role p \<notin> set allowed then Inl 403 else Inr p)"

section \<open>The endpoints\<close>

definition audit :: "string \<Rightarrow> string \<Rightarrow> string \<Rightarrow> string option \<Rightarrow> auth_db \<Rightarrow> auth_db" where
  "audit role endpoint detail ip d =
     d\<lparr>ad_audit := ad_audit d @
        [\<lparr>au_role = role, au_endpoint = endpoint, au_detail = detail, au_ip = ip\<rparr>]\<rparr>"

definition default_session :: int where
  "default_session = 24 * hour_us"

definition missing :: "string option \<Rightarrow> bool" where
  "missing s \<longleftrightarrow> s = None \<or> s = Some []"

record session =
  sn_token :: string
  sn_role :: string
  sn_user :: string

definition totp_ok :: "crypto \<Rightarrow> int \<Rightarrow> account_row \<Rightarrow> string option \<Rightarrow> bool" where
  "totp_ok C now a code \<longleftrightarrow>
     \<not> missing code \<and> (case ac_totp a of None \<Rightarrow> False | Some s \<Rightarrow> cy_totp C s now (the code))"

definition session_length :: "account_row \<Rightarrow> int \<Rightarrow> int" where
  "session_length a now =
     (case time_until_expiry a now of None \<Rightarrow> default_session | Some t \<Rightarrow> min default_session t)"

definition login ::
    "crypto \<Rightarrow> int \<Rightarrow> string \<Rightarrow> string option \<Rightarrow> string option \<Rightarrow> string option
       \<Rightarrow> auth_db \<Rightarrow> session http \<times> auth_db" where
  "login C now ip user password code d =
     (if missing user \<or> missing password then (Inl 400, d)
      else case verify_login C now (the user) (the password) ip d of
        (Login_Denied why, d1) \<Rightarrow>
          (Inl (if why = ''locked_out'' then 429 else 401),
           audit ''unauthenticated'' ''/login'' (''failed: '' @ why) (Some ip) d1)
      | (Login_Ok a, d1) \<Rightarrow>
          if ac_role a = ''admin'' \<and> \<not> totp_ok C now a code
          then (Inl 401, audit ''unauthenticated'' ''/login'' ''failed: bad or missing TOTP code'' (Some ip) d1)
          else case create_token C now (ac_role a) (session_length a now) user of
            Inl _ \<Rightarrow> (Inl 500, d1)
          | Inr t \<Rightarrow> (Inr \<lparr>sn_token = t, sn_role = ac_role a, sn_user = the user\<rparr>,
                       audit (ac_role a) ''/login'' ''success'' (Some ip) d1))"

text \<open>The account endpoints, after \<^verbatim>\<open>require_role("admin")\<close> gave the caller's payload. \<open>salt\<close> and
  \<open>secret\<close> are what bcrypt and pyotp draw.\<close>

definition create_account_endpoint ::
    "crypto \<Rightarrow> int \<Rightarrow> string \<Rightarrow> int \<Rightarrow> string \<Rightarrow> token_payload \<Rightarrow> string option \<Rightarrow> string option
       \<Rightarrow> string option \<Rightarrow> int option \<Rightarrow> auth_db \<Rightarrow> string option http \<times> auth_db" where
  "create_account_endpoint C salt secret now ip caller user password role expires_hours d =
     (let r = (case role of None \<Rightarrow> ''demo-trigger'' | Some r \<Rightarrow> r) in
      if missing user \<or> missing password then (Inl 400, d)
      else if r \<notin> set roles then (Inl 400, d)
      else if get_account d (the user) \<noteq> None then (Inl 409, d)
      else
        let totp = (if r = ''admin'' then Some secret else None) in
        case create_account C salt now (the user) (the password) r expires_hours totp d of
          (Inl _, d1) \<Rightarrow> (Inl 500, d1)
        | (Inr _, d1) \<Rightarrow>
            (Inr totp, audit (tp_role caller) ''/accounts'' (''created '' @ the user @ '' ('' @ r @ '')'') (Some ip) d1))"

definition delete_account_endpoint :: "string \<Rightarrow> token_payload \<Rightarrow> string \<Rightarrow> auth_db \<Rightarrow> auth_db" where
  "delete_account_endpoint user caller ip d =
     audit (tp_role caller) ''/accounts/delete'' user (Some ip) (delete_account user d)"

definition revoke_account_endpoint :: "string \<Rightarrow> token_payload \<Rightarrow> string \<Rightarrow> auth_db \<Rightarrow> auth_db" where
  "revoke_account_endpoint user caller ip d =
     audit (tp_role caller) ''/accounts/revoke'' user (Some ip) (set_active user False d)"

definition reactivate_account_endpoint :: "string \<Rightarrow> token_payload \<Rightarrow> string \<Rightarrow> auth_db \<Rightarrow> auth_db" where
  "reactivate_account_endpoint user caller ip d =
     audit (tp_role caller) ''/accounts/reactivate'' user (Some ip) (set_active user True d)"

definition change_password_endpoint ::
    "crypto \<Rightarrow> int \<Rightarrow> string \<Rightarrow> token_payload \<Rightarrow> string option \<Rightarrow> string \<Rightarrow> auth_db \<Rightarrow> unit http \<times> auth_db" where
  "change_password_endpoint C salt user caller password ip d =
     (if Some user = tp_username caller then (Inl 403, d)
      else if missing password then (Inl 400, d)
      else if get_account d user = None then (Inl 404, d)
      else (Inr (), audit (tp_role caller) ''/accounts/password'' user (Some ip)
                      (change_password C salt user (the password) d)))"

section \<open>Logins\<close>

lemma account_frame [frame]:
  "ad_attempts (audit r e x ip' d) = ad_attempts d" "ad_accounts (audit r e x ip' d) = ad_accounts d"
  "ad_accounts (record_attempt u ok ip now d) = ad_accounts d"
  by (simp_all add: audit_def record_attempt_def)

lemma verify_login_ok:
  assumes "verify_login C now u pw ip d = (Login_Ok a, d')"
  shows "get_account d u = Some a" "ac_active a" "\<not> is_expired a now" "cy_check C pw (ac_hash a)"
    "\<not> is_locked_out d now u" "d' = record_attempt u True ip now d"
  using assms by (auto simp: verify_login_def split: if_splits option.splits)

lemma login_cases:
  assumes "login C now ip user pw code d = (Inr s, d')"
  obtains u p a where "user = Some u" "pw = Some p" "verify_login C now u p ip d = (Login_Ok a, snd (verify_login C now u p ip d))"
    "ac_role a = ''admin'' \<Longrightarrow> totp_ok C now a code" "ac_role a \<in> set roles"
    "s = \<lparr>sn_token = cy_encode C \<lparr>tp_role = ac_role a, tp_username = Some u,
            tp_exp = seconds (now + session_length a now), tp_iat = seconds now\<rparr>,
          sn_role = ac_role a, sn_user = u\<rparr>"
  using assms
  by (auto simp: login_def missing_def create_token_def split: if_splits prod.splits login_result.splits sum.splits)

lemma session_bounds:
  "session_length a now \<le> default_session"
  "\<not> is_expired a now \<Longrightarrow> ac_expires a = Some t \<Longrightarrow> now + session_length a now \<le> t"
  by (auto simp: session_length_def time_until_expiry_def is_expired_def default_session_def hour_us_def
      split: option.split)

lemma seconds_mono: "a \<le> b \<Longrightarrow> seconds a \<le> seconds b"
  by (simp add: seconds_def zdiv_mono1)

text \<open>Failures leave the window as time goes on, and only a refused login adds one.\<close>

lemma failures_shrink:
  assumes "now \<le> t"
  shows "length (recent_failures d t u) \<le> length (recent_failures d now u)"
proof -
  have "recent_failures d t u = filter (\<lambda>l. seconds t - lockout_window_s < la_at l) (recent_failures d now u)"
    using seconds_mono[OF assms] unfolding recent_failures_def filter_filter
    by (intro filter_cong refl) auto
  then show ?thesis by (simp add: length_filter_le)
qed

lemma failures_record:
  "recent_failures (record_attempt u ok ip now d) now u' =
     recent_failures d now u' @
       (if u' = u \<and> \<not> ok then [\<lparr>la_user = u, la_ok = ok, la_ip = ip, la_at = seconds now\<rparr>] else [])"
  by (simp add: recent_failures_def record_attempt_def lockout_window_s_def)

lemma failures_cong: "ad_attempts d = ad_attempts d' \<Longrightarrow> recent_failures d now u = recent_failures d' now u"
  by (simp add: recent_failures_def)

lemma login_attempts:
  "ad_attempts (snd (login C now ip user pw code d)) =
     (if missing user \<or> missing pw then ad_attempts d
      else ad_attempts (snd (verify_login C now (the user) (the pw) ip d)))"
  by (auto simp: login_def frame split: prod.split login_result.split sum.split)

text \<open>\<^verbatim>\<open>verify_login\<close> in its three parts: the count of the failures, the judgement of the
  credentials, and the row it writes. Other logins run between them.\<close>

definition judge_login :: "crypto \<Rightarrow> int \<Rightarrow> string \<Rightarrow> string \<Rightarrow> auth_db \<Rightarrow> login_result" where
  "judge_login C now user password d =
     (case get_account d user of
        None \<Rightarrow> Login_Denied ''invalid_credentials''
      | Some a \<Rightarrow>
          if \<not> ac_active a then Login_Denied ''account_inactive''
          else if is_expired a now then Login_Denied ''account_expired''
          else if \<not> cy_check C password (ac_hash a) then Login_Denied ''invalid_credentials''
          else Login_Ok a)"

fun was_ok :: "login_result \<Rightarrow> bool" where
  "was_ok (Login_Ok a) = True"
| "was_ok (Login_Denied why) = False"

lemma verify_login_parts:
  "verify_login C now user password ip d =
     (if is_locked_out d now user then (Login_Denied ''locked_out'', d)
      else let r = judge_login C now user password d in (r, record_attempt user (was_ok r) ip now d))"
  by (simp add: verify_login_def judge_login_def split: option.split)

text \<open>Logins by anyone, of anyone, as time goes on, at most \<open>lanes\<close> of them past the count at a time:
  the endpoint is a plain function, which the server runs in a pool of threads.\<close>

datatype login_wait = Looked string string string | Judged string bool string

fun login_user :: "login_wait \<Rightarrow> string" where
  "login_user (Looked u pw ip) = u"
| "login_user (Judged u ok ip) = u"

type_synonym logins = "int \<times> login_wait list \<times> auth_db"

inductive login_step :: "crypto \<Rightarrow> nat \<Rightarrow> logins \<Rightarrow> logins \<Rightarrow> bool" for C lanes where
  looked: "now \<le> t \<Longrightarrow> \<not> is_locked_out d t u \<Longrightarrow> length w < lanes \<Longrightarrow>
    login_step C lanes (now, w, d) (t, Looked u pw ip # w, d)"
| judged: "now \<le> t \<Longrightarrow> Looked u pw ip \<in> set w \<Longrightarrow>
    login_step C lanes (now, w, d)
      (t, Judged u (was_ok (judge_login C t u pw d)) ip # remove1 (Looked u pw ip) w, d)"
| noted: "now \<le> t \<Longrightarrow> Judged u ok ip \<in> set w \<Longrightarrow>
    login_step C lanes (now, w, d) (t, remove1 (Judged u ok ip) w, record_attempt u ok ip t d)"
| elsewhere: "now \<le> t \<Longrightarrow> ad_attempts d' = ad_attempts d \<Longrightarrow> login_step C lanes (now, w, d) (t, w, d')"

fun failures :: "logins \<Rightarrow> string \<Rightarrow> nat" where
  "failures (now, w, d) u = length (recent_failures d now u)"

fun underway :: "logins \<Rightarrow> string \<Rightarrow> nat" where
  "underway (now, w, d) u = length (filter (\<lambda>x. login_user x = u) w)"

fun in_lanes :: "nat \<Rightarrow> logins \<Rightarrow> bool" where
  "in_lanes lanes (now, w, d) \<longleftrightarrow> length w \<le> lanes"

lemma login_lanes: "in_lanes lanes s \<Longrightarrow> login_step C lanes s s' \<Longrightarrow> in_lanes lanes s'"
  by (erule login_step.cases) (auto simp: length_remove1 dest: length_pos_if_in_set)

text \<open>A login that leaves the pool takes its failure with it; one that enters found fewer than five.\<close>

lemma login_race:
  assumes "in_lanes lanes s" "login_step C lanes s s'"
  shows "failures s' u + underway s' u \<le> failures s u + underway s u \<or>
    failures s' u < max_failed_attempts \<and> underway s' u \<le> lanes"
  using assms(2)
proof cases
  case (looked now t d v w pw ip)
  note shrink = failures_shrink[OF looked(3), of d u]
  show ?thesis
  proof (cases "v = u")
    case True
    have "length (filter (\<lambda>x. login_user x = u) w) < lanes"
      using looked(5) by (rule le_less_trans[OF length_filter_le])
    then show ?thesis using looked True by (simp add: is_locked_out_def)
  qed (use looked shrink in auto)
next
  case (judged now t v pw ip w d)
  then show ?thesis
    using failures_shrink[OF judged(3), of d u] count_remove1[OF judged(4), of "\<lambda>x. login_user x = u"] by auto
next
  case (noted now t v ok ip w d)
  then show ?thesis
    using failures_shrink[OF noted(3), of d u] count_remove1[OF noted(4), of "\<lambda>x. login_user x = u"]
    by (auto simp: failures_record)
next
  case (elsewhere now t d' d w)
  then show ?thesis
    using failures_shrink[OF elsewhere(3), of d u] failures_cong[OF elsewhere(4), of t u] by simp
qed

interpretation lockout: raced_meter "in_lanes lanes" "login_step C lanes" failures underway
    "\<lambda>_. max_failed_attempts" lanes for C lanes
  by (unfold_locales; (rule login_lanes; assumption)?; rule login_race; assumption)

text \<open>A login with nobody between its parts is a run.\<close>

lemma login_is_a_run:
  assumes "now \<le> t" "length w < lanes"
  shows "(login_step C lanes)\<^sup>*\<^sup>* (now, w, d) (t, w, snd (login C t ip user pw code d))"
proof (cases "missing user \<or> missing pw \<or> is_locked_out d t (the user)")
  case True
  then have "ad_attempts (snd (login C t ip user pw code d)) = ad_attempts d"
    by (auto simp: login_attempts verify_login_def)
  from login_step.elsewhere[OF assms(1) this] show ?thesis by (rule r_into_rtranclp)
next
  case False
  define u p where "u = the user" and "p = the pw"
  define ok where "ok = was_ok (judge_login C t u p d)"
  let ?e = "snd (login C t ip user pw code d)"
  have "login_step C lanes (now, w, d) (t, Looked u p ip # w, d)"
    using login_step.looked[OF assms(1) _ assms(2)] False by (simp add: u_def)
  moreover have "login_step C lanes (t, Looked u p ip # w, d) (t, Judged u ok ip # w, d)"
    using login_step.judged[of t t u p ip "Looked u p ip # w" C lanes d] by (simp add: ok_def)
  moreover have "login_step C lanes (t, Judged u ok ip # w, d) (t, w, record_attempt u ok ip t d)"
    using login_step.noted[of t t u ok ip "Judged u ok ip # w" C lanes d] by simp
  moreover have "ad_attempts ?e = ad_attempts (record_attempt u ok ip t d)"
    using False by (simp add: login_attempts verify_login_parts u_def p_def ok_def Let_def)
  then have "login_step C lanes (t, w, record_attempt u ok ip t d) (t, w, ?e)"
    by (intro login_step.elsewhere) simp_all
  ultimately show ?thesis by (meson converse_rtranclp_into_rtranclp rtranclp.rtrancl_refl)
qed

section \<open>The accounts an endpoint can leave\<close>

text \<open>One row a user, a known role, and a secret for every admin.\<close>

definition accounts_ok :: "auth_db \<Rightarrow> bool" where
  "accounts_ok d \<longleftrightarrow> distinct (List.map fst (ad_accounts d)) \<and>
     (\<forall>(u, a) \<in> set (ad_accounts d). ac_role a \<in> set roles \<and>
        (ac_role a = ''admin'' \<longrightarrow> \<not> missing (ac_totp a)))"

lemma accounts_ok_cong: "ad_accounts d = ad_accounts d' \<Longrightarrow> accounts_ok d = accounts_ok d'"
  by (simp add: accounts_ok_def)

lemma accounts_ok_map:
  assumes "accounts_ok d" "\<And>a. ac_role (f a) = ac_role a \<and> ac_totp (f a) = ac_totp a"
  shows "accounts_ok (map_account f u d)"
proof -
  have "List.map fst (ad_accounts (map_account f u d)) = List.map fst (ad_accounts d)"
    by (simp add: map_account_def comp_def case_prod_unfold)
  moreover have "ac_role b \<in> set roles \<and> (ac_role b = ''admin'' \<longrightarrow> \<not> missing (ac_totp b))"
    if "(v, b) \<in> set (ad_accounts (map_account f u d))" for v b
  proof -
    obtain a where "(v, a) \<in> set (ad_accounts d)" "b = (if v = u then f a else a)"
      using \<open>(v, b) \<in> _\<close> by (auto simp: map_account_def)
    with assms show ?thesis by (auto simp: accounts_ok_def)
  qed
  ultimately show ?thesis using assms(1) by (auto simp: accounts_ok_def)
qed

lemma accounts_ok_delete: "accounts_ok d \<Longrightarrow> accounts_ok (delete_account u d)"
  by (auto simp: accounts_ok_def delete_account_def AList.delete_eq distinct_map_filter)

lemma accounts_ok_create:
  assumes "accounts_ok d" "create_account C salt now u pw r h totp d = (x, d')"
  shows "accounts_ok d'"
  using assms
  by (auto simp: create_account_def accounts_ok_def get_account_def missing_def map_of_eq_None_iff
      split: if_splits)

inductive auth_step :: "crypto \<Rightarrow> auth_db \<Rightarrow> auth_db \<Rightarrow> bool" for C where
  logged_in: "auth_step C d (snd (login C now ip user pw code d))"
| created: "auth_step C d (snd (create_account_endpoint C salt secret now ip caller user pw role h d))"
| deleted: "auth_step C d (delete_account_endpoint user' caller ip d)"
| revoked: "auth_step C d (revoke_account_endpoint user' caller ip d)"
| reactivated: "auth_step C d (reactivate_account_endpoint user' caller ip d)"
| changed: "auth_step C d (snd (change_password_endpoint C salt user' caller pw ip d))"

inductive_cases auth_stepE: "auth_step C d d'"

lemma login_accounts: "ad_accounts (snd (login C now ip user pw code d)) = ad_accounts d"
  by (auto simp: login_def verify_login_def frame split: prod.split login_result.split sum.split option.split)

lemma auth_step_ok:
  assumes "auth_step C d d'" "accounts_ok d"
  shows "accounts_ok d'"
  using assms(1)
proof cases
  case (logged_in now ip user pw code)
  then show ?thesis using assms(2) accounts_ok_cong[OF login_accounts] by simp
next
  case (created salt secret now ip caller user pw role h)
  have "accounts_ok d'" if "create_account C salt now u p r h totp d = (x, d1)" "d' = audit a b c (Some ip) d1"
    for u p r totp x d1 a b c
    using accounts_ok_create[OF assms(2) that(1)] accounts_ok_cong[of d' d1] that(2) by (simp add: frame)
  then show ?thesis
    using created assms(2) accounts_ok_create[OF assms(2)]
    by (auto simp: create_account_endpoint_def Let_def split: prod.splits sum.splits)
next
  case (deleted user caller ip)
  then show ?thesis
    using accounts_ok_delete[OF assms(2)] accounts_ok_cong[of d' "delete_account user d"]
    by (simp add: delete_account_endpoint_def frame)
next
  case (revoked user caller ip)
  then show ?thesis
    using accounts_ok_map[OF assms(2)] accounts_ok_cong[of d' "set_active user False d"]
    by (simp add: revoke_account_endpoint_def frame set_active_def)
next
  case (reactivated user caller ip)
  then show ?thesis
    using accounts_ok_map[OF assms(2)] accounts_ok_cong[of d' "set_active user True d"]
    by (simp add: reactivate_account_endpoint_def frame set_active_def)
next
  case (changed salt user caller pw ip)
  have "accounts_ok (change_password C salt user p d)" for p
    using accounts_ok_map[OF assms(2)] by (simp add: change_password_def)
  then show ?thesis
    using changed assms(2) accounts_ok_cong[of d' "change_password C salt user (the pw) d"]
    by (auto simp: change_password_endpoint_def frame split: if_splits)
qed

section \<open>Properties\<close>

text \<open>Cryptography for the examples: a hash is its password, a code its secret, and a token its
  payload's role and user with the end of the session.\<close>

definition demo_crypto :: crypto where
  "demo_crypto = \<lparr>cy_hash = \<lambda>salt p. p, cy_check = (=), cy_totp = \<lambda>s t c. s = c,
     cy_encode = \<lambda>p. replicate (nat (tp_exp p)) CHR ''t'',
     cy_decode = \<lambda>t now. if seconds now < int (length t)
       then Some \<lparr>tp_role = ''admin'', tp_username = Some ''root'', tp_exp = int (length t), tp_iat = 0\<rparr>
       else None\<rparr>"

definition demo_auth :: auth_db where
  "demo_auth = snd (create_account demo_crypto 0 0 ''root'' ''pw'' ''admin'' None (Some ''123456'') empty_auth)"

lemma demo_auth_root:
  "get_account demo_auth ''root'' = Some \<lparr>ac_hash = ''pw'', ac_role = ''admin'', ac_totp = Some ''123456'',
     ac_active = True, ac_expires = None, ac_created = 0\<rparr>" "ad_attempts demo_auth = []"
  by (simp_all add: demo_auth_def create_account_def empty_auth_def get_account_def roles_def demo_crypto_def
      seconds_def)

lemma demo_login:
  "login demo_crypto 0 ip (Some ''root'') (Some ''pw'') (Some ''123456'') demo_auth =
     (Inr \<lparr>sn_token = replicate 86400 CHR ''t'', sn_role = ''admin'', sn_user = ''root''\<rparr>,
      audit ''admin'' ''/login'' ''success'' (Some ip) (record_attempt ''root'' True ip 0 demo_auth))"
  by (simp add: login_def missing_def verify_login_def is_locked_out_def recent_failures_def demo_auth_root
      max_failed_attempts_def is_expired_def demo_crypto_def totp_ok_def create_token_def roles_def
      session_length_def time_until_expiry_def default_session_def hour_us_def seconds_def)

text \<open>C29: a session is given only for an account that exists, is active and has not expired, with
  its password, below the lockout and, for an admin, with a valid code; it carries the
  account's role and outlives neither a day nor the account.\<close>

theorem login_is_sound:
  assumes "login C now ip user pw code d = (Inr s, d')"
  shows "\<exists>u p a e. user = Some u \<and> pw = Some p \<and> get_account d u = Some a \<and> ac_active a \<and>
     \<not> is_expired a now \<and> cy_check C p (ac_hash a) \<and>
     length (recent_failures d now u) < max_failed_attempts \<and>
     (ac_role a = ''admin'' \<longrightarrow> (\<exists>key c. ac_totp a = Some key \<and> code = Some c \<and> cy_totp C key now c)) \<and>
     sn_token s = cy_encode C \<lparr>tp_role = ac_role a, tp_username = Some u, tp_exp = e, tp_iat = seconds now\<rparr> \<and>
     e \<le> seconds (now + default_session) \<and> (\<forall>t. ac_expires a = Some t \<longrightarrow> e \<le> seconds t)"
proof -
  obtain u p a where l: "user = Some u" "pw = Some p"
      "verify_login C now u p ip d = (Login_Ok a, snd (verify_login C now u p ip d))"
    and code: "ac_role a = ''admin'' \<Longrightarrow> totp_ok C now a code"
    and s: "s = \<lparr>sn_token = cy_encode C \<lparr>tp_role = ac_role a, tp_username = Some u,
            tp_exp = seconds (now + session_length a now), tp_iat = seconds now\<rparr>,
          sn_role = ac_role a, sn_user = u\<rparr>"
    using login_cases[OF assms] by metis
  note v = verify_login_ok[OF l(3)]
  have "seconds (now + session_length a now) \<le> seconds (now + default_session)"
    using session_bounds(1)[of a now] by (intro seconds_mono) simp
  moreover have "\<forall>t. ac_expires a = Some t \<longrightarrow> seconds (now + session_length a now) \<le> seconds t"
    using session_bounds(2)[OF v(3)] by (auto intro: seconds_mono)
  moreover have "ac_role a = ''admin'' \<longrightarrow> (\<exists>key c. ac_totp a = Some key \<and> code = Some c \<and> cy_totp C key now c)"
    using code by (auto simp: totp_ok_def missing_def split: option.splits)
  ultimately show ?thesis
    using l v s by (auto simp: is_locked_out_def)
qed

lemma login_is_sound_witness: "\<exists>a. get_account demo_auth ''root'' = Some a \<and> ac_active a"
  using login_is_sound[OF demo_login] by auto

text \<open>C30: however many logins are tried, of whichever accounts and from wherever, and however the
  threads that serve them interleave, no account has more than four failures plus one for every
  thread recorded in the last fifteen minutes. With one thread these are the five of the limit;
  the count and the row are separate statements, so each further thread can add one.\<close>

theorem failures_bounded:
  assumes "(login_step C lanes)\<^sup>*\<^sup>* (now, [], d) (t, w, d')" "0 < lanes"
    and "\<And>u. length (recent_failures d now u) \<le> max_failed_attempts"
  shows "length (recent_failures d' t u) \<le> 4 + lanes"
  using lockout.bounded[OF assms(1), of u] assms(2) assms(3)[of u] by (simp add: max_failed_attempts_def)

text \<open>Two logins at the limit: both look while four failures are recorded, and both add one.\<close>

definition four_failures :: auth_db where
  "four_failures = demo_auth\<lparr>ad_attempts := replicate 4 \<lparr>la_user = ''root'', la_ok = False, la_ip = [], la_at = 0\<rparr>\<rparr>"

lemma failures_bounded_witness:
  "\<exists>d'. (login_step demo_crypto 2)\<^sup>*\<^sup>* (0, [], four_failures) (0, [], d') \<and>
     length (recent_failures d' 0 ''root'') = 6 \<and> (\<forall>u. length (recent_failures d' 0 u) \<le> 4 + 2)"
proof -
  let ?no = "''no''" and ?r = "''root''"
  let ?L = "Looked ?r ?no []" and ?J = "Judged ?r False []"
  let ?d1 = "record_attempt ?r False [] 0 four_failures"
  let ?d2 = "record_attempt ?r False [] 0 ?d1"
  have four: "length (recent_failures four_failures 0 u) = (if u = ?r then 4 else 0)" for u
    by (simp add: four_failures_def recent_failures_def seconds_def lockout_window_s_def eval_nat_numeral)
  then have free: "\<not> is_locked_out four_failures 0 ?r"
    by (simp add: is_locked_out_def max_failed_attempts_def)
  have "get_account four_failures = get_account demo_auth" by (rule ext) (simp add: four_failures_def get_account_def)
  then have judge: "judge_login demo_crypto 0 ?r ?no four_failures = Login_Denied ''invalid_credentials''"
    by (simp add: judge_login_def demo_auth_root is_expired_def demo_crypto_def)
  have "login_step demo_crypto 2 (0, [], four_failures) (0, [?L], four_failures)"
    "login_step demo_crypto 2 (0, [?L], four_failures) (0, [?L, ?L], four_failures)"
    using free by (intro login_step.looked; simp)+
  moreover have "login_step demo_crypto 2 (0, [?L, ?L], four_failures) (0, [?J, ?L], four_failures)"
    "login_step demo_crypto 2 (0, [?J, ?L], four_failures) (0, [?J, ?J], four_failures)"
    using login_step.judged[of 0 0 ?r ?no "[]" "[?L, ?L]" demo_crypto 2 four_failures]
      login_step.judged[of 0 0 ?r ?no "[]" "[?J, ?L]" demo_crypto 2 four_failures] judge by simp_all
  moreover have "login_step demo_crypto 2 (0, [?J, ?J], four_failures) (0, [?J], ?d1)"
    "login_step demo_crypto 2 (0, [?J], ?d1) (0, [], ?d2)"
    using login_step.noted[of 0 0 ?r False "[]" "[?J, ?J]" demo_crypto 2 four_failures]
      login_step.noted[of 0 0 ?r False "[]" "[?J]" demo_crypto 2 ?d1] by simp_all
  ultimately have run: "(login_step demo_crypto 2)\<^sup>*\<^sup>* (0, [], four_failures) (0, [], ?d2)"
    by (meson converse_rtranclp_into_rtranclp rtranclp.rtrancl_refl)
  have "length (recent_failures ?d2 0 ?r) = 6" using four[of ?r] by (simp add: failures_record)
  moreover have "length (recent_failures ?d2 0 u) \<le> 4 + 2" for u
    by (rule failures_bounded[OF run]) (simp_all add: four max_failed_attempts_def)
  ultimately show ?thesis using run by blast
qed

text \<open>The lockout does not count codes: with the password of an admin account, any number of
  wrong codes is refused one by one and the right one is still accepted after them.\<close>

theorem codes_are_not_limited:
  assumes "get_account d u = Some a" "ac_active a" "\<not> is_expired a now" "cy_check C p (ac_hash a)"
    and "ac_role a = ''admin''" "p \<noteq> []" "u \<noteq> []"
    and "length (recent_failures d now u) < max_failed_attempts"
    and "totp_ok C now a (Some right)"
  shows "\<exists>s. fst (login C now ip (Some u) (Some p) (Some right)
    (foldl (\<lambda>d code. snd (login C now ip (Some u) (Some p) (Some code) d)) d wrong)) = Inr s"
  using assms(1,8)
proof (induction wrong arbitrary: d)
  case Nil
  have v: "verify_login C now u p ip d = (Login_Ok a, record_attempt u True ip now d)"
    using Nil assms(2-4) by (simp add: verify_login_def is_locked_out_def)
  show ?case
    using assms(5-9) v by (simp add: login_def missing_def create_token_def roles_def)
next
  case (Cons code wrong)
  let ?d = "snd (login C now ip (Some u) (Some p) (Some code) d)"
  have v: "verify_login C now u p ip d = (Login_Ok a, record_attempt u True ip now d)"
    using Cons.prems assms(2-4) by (simp add: verify_login_def is_locked_out_def)
  have "ad_attempts ?d = ad_attempts (record_attempt u True ip now d)"
    using assms(6,7) v by (simp add: login_attempts missing_def)
  then have "recent_failures ?d now u = recent_failures d now u"
    using failures_cong[of ?d "record_attempt u True ip now d" now u] by (simp add: failures_record)
  moreover have "get_account ?d u = Some a"
    using Cons.prems(1) login_accounts[of C now ip "Some u" "Some p" "Some code" d]
    by (simp add: get_account_def)
  ultimately show ?case using Cons.IH[of ?d] Cons.prems(2) by simp
qed

lemma codes_are_not_limited_witness:
  "\<exists>s. fst (login demo_crypto 0 [] (Some ''root'') (Some ''pw'') (Some ''123456'')
    (foldl (\<lambda>d code. snd (login demo_crypto 0 [] (Some ''root'') (Some ''pw'') (Some code) d)) demo_auth
       (replicate 100 ''000000''))) = Inr s"
  by (rule codes_are_not_limited[OF demo_auth_root(1)])
     (simp_all add: is_expired_def demo_crypto_def recent_failures_def demo_auth_root(2)
       max_failed_attempts_def totp_ok_def missing_def)

text \<open>A session's token passes the role check of every endpoint for its role until it expires
  and of no other: the check reads no table, so deleting or revoking the account, or a new
  password, does not end a session. The hypothesis is PyJWT's: a token that has been issued and
  has not expired decodes to what was encoded.\<close>

theorem token_outlives_revocation:
  assumes "login C now ip user pw code d = (Inr s, d')"
    and decode: "\<And>p t. tp_iat p \<le> seconds t \<Longrightarrow> seconds t < tp_exp p \<Longrightarrow> cy_decode C (cy_encode C p) t = Some p"
  shows "\<exists>e. e = seconds (now + (case get_account d (sn_user s) of None \<Rightarrow> 0 | Some a \<Rightarrow> session_length a now)) \<and>
    (\<forall>t \<ge> now. seconds t < e \<longrightarrow>
       require_role C allowed (Some (''Bearer '' @ sn_token s)) t =
         (if sn_role s \<in> set allowed
          then Inr \<lparr>tp_role = sn_role s, tp_username = Some (sn_user s), tp_exp = e, tp_iat = seconds now\<rparr>
          else Inl 403))"
proof -
  obtain u p a where l: "verify_login C now u p ip d = (Login_Ok a, snd (verify_login C now u p ip d))"
    and s: "s = \<lparr>sn_token = cy_encode C \<lparr>tp_role = ac_role a, tp_username = Some u,
            tp_exp = seconds (now + session_length a now), tp_iat = seconds now\<rparr>,
          sn_role = ac_role a, sn_user = u\<rparr>"
    using login_cases[OF assms(1)] by metis
  show ?thesis
    using verify_login_ok(1)[OF l] by (simp add: s require_role_def decode seconds_mono)
qed

definition numbered_crypto :: crypto where
  "numbered_crypto = demo_crypto\<lparr>
     cy_encode := \<lambda>p. replicate (to_nat (tp_role p, tp_username p, tp_exp p, tp_iat p)) CHR ''t'',
     cy_decode := \<lambda>t now. case from_nat (length t) of (r, u, e, i) \<Rightarrow>
       if i \<le> seconds now \<and> seconds now < e
       then Some \<lparr>tp_role = r, tp_username = u, tp_exp = e, tp_iat = i\<rparr> else None\<rparr>"

lemma token_outlives_revocation_witness:
  "\<exists>s. fst (login numbered_crypto 0 [] (Some ''root'') (Some ''pw'') (Some ''123456'') demo_auth) = Inr s \<and>
     (\<exists>p. require_role numbered_crypto [''admin''] (Some (''Bearer '' @ sn_token s)) 3600000000 = Inr p)"
proof -
  let ?l = "login numbered_crypto 0 [] (Some ''root'') (Some ''pw'') (Some ''123456'') demo_auth"
  obtain s d' where l: "?l = (Inr s, d')" and r: "sn_role s = ''admin''" "sn_user s = ''root''"
    by (simp add: login_def missing_def verify_login_def is_locked_out_def recent_failures_def demo_auth_root
      max_failed_attempts_def is_expired_def demo_crypto_def numbered_crypto_def totp_ok_def create_token_def roles_def)
  have "cy_decode numbered_crypto (cy_encode numbered_crypto p) t = Some p"
    if "tp_iat p \<le> seconds t" "seconds t < tp_exp p" for p t
    using that by (simp add: numbered_crypto_def)
  from token_outlives_revocation[OF l this, of "[''admin'']"] r
  have "require_role numbered_crypto [''admin''] (Some (''Bearer '' @ sn_token s)) 3600000000 =
      Inr \<lparr>tp_role = ''admin'', tp_username = Some ''root'', tp_exp = 86400, tp_iat = 0\<rparr>"
    by (simp add: demo_auth_root session_length_def time_until_expiry_def default_session_def hour_us_def seconds_def)
  with l show ?thesis by simp
qed

end
