(* ===== verification/Live_Trigger.thy ===== *)
theory Live_Trigger
  imports Accounts Quota_Tracker Carts_Rotation Trust_Engine Fault_Taxonomy
begin

text \<open>
  The live-trigger endpoints of \<^verbatim>\<open>p3_trust_action/operator_api.py\<close>: the columns they add to the
  episodes table, the checks of \<^verbatim>\<open>/trigger/inject\<close>, the compare-and-set that lets one caller
  resolve an episode, the snapshot time the scorer is given, and the endpoints that stop, resolve
  or abandon an episode. \<^verbatim>\<open>Live_Episode\<close> runs them as threads. Times are microseconds of UTC; a
  column SQLite fills with \<^verbatim>\<open>datetime('now')\<close> holds seconds. The differences of
  \<^verbatim>\<open>julianday\<close> are taken exactly, at the millisecond of \<^verbatim>\<open>'now'\<close>.
\<close>

section \<open>State\<close>

datatype ep_state = Injecting | Holding | Awaiting_Fix | Resolving | Resolved | Failed

definition non_terminal_states :: "ep_state list" where
  "non_terminal_states = [Injecting, Holding, Awaiting_Fix, Resolving]"

definition terminal_states :: "ep_state list" where
  "terminal_states = [Resolved, Failed]"

text \<open>A row of episodes. A batch run leaves the state and all that goes with it NULL.\<close>

record live_row =
  lv_class :: string
  lv_target :: string
  lv_namespace :: string
  lv_t0 :: "int option"
  lv_chaos :: "string option"
  lv_state :: "ep_state option"
  lv_entered :: "int option"
  lv_user :: "string option"
  lv_pid :: "int option"
  lv_evidence :: bool
  lv_stop :: bool
  lv_abandon :: bool
  lv_by :: "string option"
  lv_republished :: "int option"

text \<open>Where a thread of the process stands. \<open>Admitted\<close> is a request that has passed the checks of
  \<^verbatim>\<open>trigger_inject\<close> and waits for the lock, \<open>Inserted\<close> one that has committed its row; \<open>Spawning\<close>,
  \<open>Watching\<close> and \<open>Arming\<close> are \<^verbatim>\<open>_run_live_episode\<close> before its Popen, in its loop, and before it
  starts the timer; \<open>Calling\<close>, \<open>Claimed\<close>, \<open>Scoring\<close> and \<open>Publishing\<close> are \<^verbatim>\<open>_attempt_resolve\<close>
  before its UPDATE, after it has hit the row, while it sleeps and runs the scorer with its snapshot
  time, and after the terminal state; the flag tells whether an
  exception there reaches the guard of \<^verbatim>\<open>_run_live_episode\<close> or ends a bare thread. \<open>Orphaned\<close> is
  \<^verbatim>\<open>_wait_for_orphan\<close>.\<close>

datatype thread =
    Admitted token_payload string string
  | Inserted string token_payload string string
  | Spawning string string
  | Watching string string int int
  | Arming string
  | Calling string string bool
  | Claimed string string bool
  | Scoring string string bool int
  | Publishing string bool
  | Orphaned string int

text \<open>The database, the files and the process variables. \<open>ap_evidence\<close> has the number an
  evidence file's text reads as, \<open>None\<close> when \<^verbatim>\<open>float\<close> raises on it; \<open>ap_timers\<close> the abandonment
  timers that have not fired, with their time.\<close>

record api =
  ap_rows :: "(string \<times> live_row) list"
  ap_scored :: "string list"
  ap_demo :: "(string \<times> int) list"
  ap_auth :: auth_db
  ap_leak_paused :: bool
  ap_timers :: "(string \<times> int) list"
  ap_threads :: "thread list"
  ap_stops :: "string list"
  ap_evidence :: "(string \<times> rat option) list"

definition idle_api :: api where
  "idle_api = \<lparr>ap_rows = [], ap_scored = [], ap_demo = [], ap_auth = empty_auth, ap_leak_paused = False,
     ap_timers = [], ap_threads = [], ap_stops = [], ap_evidence = []\<rparr>"

definition start_thread :: "thread \<Rightarrow> api \<Rightarrow> api" where
  "start_thread th a = a\<lparr>ap_threads := ap_threads a @ [th]\<rparr>"

definition end_thread :: "thread \<Rightarrow> api \<Rightarrow> api" where
  "end_thread th a = a\<lparr>ap_threads := remove1 th (ap_threads a)\<rparr>"

definition map_row :: "(live_row \<Rightarrow> live_row) \<Rightarrow> string \<Rightarrow> api \<Rightarrow> api" where
  "map_row f ep a = a\<lparr>ap_rows := List.map (\<lambda>(e, r). (e, if e = ep then f r else r)) (ap_rows a)\<rparr>"

definition api_audit :: "string \<Rightarrow> string \<Rightarrow> string \<Rightarrow> string option \<Rightarrow> api \<Rightarrow> api" where
  "api_audit role endpoint detail ip a = a\<lparr>ap_auth := audit role endpoint detail ip (ap_auth a)\<rparr>"

section \<open>Constants\<close>

definition implemented_classes :: "string list" where
  "implemented_classes =
     [''crash-loop'', ''oom'', ''disk-full'', ''cpu-throttling'', ''under-provisioned-replicas'', ''bad-rollout'',
      ''network-latency'', ''memory-leak'', ''connection-pool-exhaustion'', ''network-partition'',
      ''init-failure'', ''session-cart-failure'']"

definition safe_demo_classes :: "string list" where
  "safe_demo_classes = implemented_classes"

definition auto_fix_classes :: "string list" where
  "auto_fix_classes =
     [''crash-loop'', ''oom'', ''disk-full'', ''cpu-throttling'', ''under-provisioned-replicas'', ''bad-rollout'']"

definition inject_subprocess_timeout_s :: "string \<Rightarrow> int" where
  "inject_subprocess_timeout_s c =
     (case map_of [(''network-partition'', 260), (''init-failure'', 500), (''session-cart-failure'', 260),
        (''connection-pool-exhaustion'', 260), (''network-latency'', 500), (''crash-loop'', 260), (''oom'', 500),
        (''disk-full'', 220), (''bad-rollout'', 200), (''cpu-throttling'', 900),
        (''under-provisioned-replicas'', 300), (''memory-leak'', 540)] c of
      Some t \<Rightarrow> t | None \<Rightarrow> 300)"

definition cooldown_s :: int where "cooldown_s = 60"
definition daily_cap :: nat where "daily_cap = 3"
definition global_daily_cap :: nat where "global_daily_cap = 10"

definition settle_seconds :: int where "settle_seconds = 35"

definition settle_seconds_override :: "string \<Rightarrow> int option" where
  "settle_seconds_override = map_of [(''oom'', 150)]"

definition resolve_safety_buffer_s :: int where "resolve_safety_buffer_s = 5"

definition holding_classes :: "string list" where
  "holding_classes =
     [''crash-loop'', ''cpu-throttling'', ''network-latency'', ''network-partition'', ''memory-leak'',
      ''connection-pool-exhaustion'', ''init-failure'', ''session-cart-failure'',
      ''under-provisioned-replicas'', ''oom'']"

definition live_trigger_duration_override_s :: "string \<Rightarrow> int option" where
  "live_trigger_duration_override_s c =
     (if c = ''cpu-throttling'' then Some 300 else if c \<in> set holding_classes then Some 180 else None)"

definition wrapper_polled_classes :: "string list" where
  "wrapper_polled_classes = [''crash-loop'']"

definition evidence_file_classes :: "string list" where
  "evidence_file_classes = filter (\<lambda>c. c \<notin> set wrapper_polled_classes) holding_classes"

definition abandon_ceiling_s :: int where "abandon_ceiling_s = 300"
definition legacy_max_age_minutes :: int where "legacy_max_age_minutes = 4"

definition us :: "int \<Rightarrow> int" where
  "us s = s * 1000000"

section \<open>Who is in flight\<close>

definition in_state :: "ep_state list \<Rightarrow> live_row \<Rightarrow> bool" where
  "in_state ss r = (case lv_state r of None \<Rightarrow> False | Some s \<Rightarrow> s \<in> set ss)"

text \<open>The fallback looks at the unscored row without a state whose t0 is latest; NULL sorts last.\<close>

definition legacy_row :: "api \<Rightarrow> (string \<times> live_row) option" where
  "legacy_row a =
     (let rows = filter (\<lambda>(e, r). e \<notin> set (ap_scored a) \<and> lv_state r = None) (ap_rows a);
          timed = filter (\<lambda>(e, r). lv_t0 r \<noteq> None) rows
      in if timed = [] then find (\<lambda>_. True) rows
         else find (\<lambda>_. True) (sort_key (\<lambda>(e, r). - the (lv_t0 r)) timed))"

definition in_flight_episode_row :: "int \<Rightarrow> api \<Rightarrow> (string \<times> string option) option res" where
  "in_flight_episode_row now a =
     (case find (\<lambda>(e, r). in_state non_terminal_states r) (ap_rows a) of
        Some (e, r) \<Rightarrow> Inr (Some (e, Some (lv_class r)))
      | None \<Rightarrow>
          (case legacy_row a of
             None \<Rightarrow> Inr None
           | Some (e, r) \<Rightarrow>
               (case lv_t0 r of
                  None \<Rightarrow> Inl TypeError
                | Some t0 \<Rightarrow> Inr (if now - t0 \<le> us (60 * legacy_max_age_minutes) then Some (e, None) else None))))"

definition global_triggers_today :: "int \<Rightarrow> api \<Rightarrow> nat" where
  "global_triggers_today now a = length (filter (\<lambda>(i, t). utc_day (us t) = utc_day now) (ap_demo a))"

definition ip_triggers_today :: "int \<Rightarrow> string \<Rightarrow> api \<Rightarrow> nat" where
  "ip_triggers_today now ip a = length (filter (\<lambda>(i, t). i = ip \<and> utc_day (us t) = utc_day now) (ap_demo a))"

definition last_trigger :: "string \<Rightarrow> api \<Rightarrow> int option" where
  "last_trigger ip a =
     (case List.map snd (filter (\<lambda>(i, t). i = ip) (ap_demo a)) of [] \<Rightarrow> None | t # ts \<Rightarrow> Some (fold max ts t))"

definition since_trigger :: "int \<Rightarrow> int \<Rightarrow> int" where
  "since_trigger now t = now div 1000 * 1000 - us t"

section \<open>Starting an episode\<close>

text \<open>The gate of crash-loop: the Service selects carts and carts is ready.\<close>

definition carts_steady :: "'w kube \<Rightarrow> 'w rotation_api \<Rightarrow> 'w \<Rightarrow> bool \<times> 'w" where
  "carts_steady K R w =
     (case get_active_label K R w of (l, w1) \<Rightarrow>
        if l \<noteq> Some carts_label then (False, w1) else is_pod_ready K R carts_label w1)"

definition quoted :: "string \<Rightarrow> string" where
  "quoted s = CHR 0x27 # s @ [CHR 0x27]"

text \<open>\<^verbatim>\<open>trigger_inject\<close> up to the lock. \<open>steady\<close> is the answer of that gate.\<close>

definition trigger_checks ::
    "int \<Rightarrow> bool \<Rightarrow> string \<Rightarrow> token_payload \<Rightarrow> string \<Rightarrow> api \<Rightarrow> unit http \<times> api" where
  "trigger_checks now steady cls caller ip a =
     (let refuse = \<lambda>code why. (Inl code, api_audit (tp_role caller) ''/trigger/inject'' why (Some ip) a) in
      if cls \<notin> set implemented_classes then refuse 400 (''rejected: '' @ quoted cls @ '' not implemented'')
      else if cls = ''crash-loop'' \<and> \<not> steady then refuse 409 ''rejected: carts still recovering from a prior episode''
      else if tp_role caller \<noteq> ''demo-trigger'' then (Inr (), a)
      else if cls \<notin> set safe_demo_classes then refuse 403 (''rejected: '' @ quoted cls @ '' not in safe subset'')
      else if global_daily_cap \<le> global_triggers_today now a then refuse 429 ''rejected: global daily cap reached''
      else if (case last_trigger ip a of None \<Rightarrow> False | Some t \<Rightarrow> since_trigger now t < us cooldown_s)
      then refuse 429 ''rejected: cooldown''
      else if daily_cap \<le> ip_triggers_today now ip a then refuse 429 ''rejected: daily cap reached''
      else (Inr (), a))"

definition new_row :: "int \<Rightarrow> string \<Rightarrow> fault_cfg \<Rightarrow> string option \<Rightarrow> live_row" where
  "new_row now cls cfg user =
     \<lparr>lv_class = cls, lv_target = cfg_target cfg, lv_namespace = cfg_namespace cfg, lv_t0 = None, lv_chaos = None,
      lv_state = Some Injecting, lv_entered = Some now, lv_user = user, lv_pid = None, lv_evidence = False,
      lv_stop = False, lv_abandon = False, lv_by = None, lv_republished = None\<rparr>"

text \<open>The check and the INSERT under the lock. A class without a configuration is a KeyError.\<close>

definition trigger_insert ::
    "int \<Rightarrow> string \<Rightarrow> string \<Rightarrow> token_payload \<Rightarrow> string \<Rightarrow> api \<Rightarrow> unit http \<times> api" where
  "trigger_insert now ep cls caller ip a =
     (case fault_config cls of
        None \<Rightarrow> (Inl 500, a)
      | Some cfg \<Rightarrow>
          (case in_flight_episode_row now a of
             Inl _ \<Rightarrow> (Inl 500, a)
           | Inr (Some _) \<Rightarrow>
               (Inl 429, api_audit (tp_role caller) ''/trigger/inject'' ''rejected: episode already in flight'' (Some ip) a)
           | Inr None \<Rightarrow>
               (Inr (), a\<lparr>ap_rows := ap_rows a @ [(ep, new_row now cls cfg (tp_username caller))]\<rparr>)))"

text \<open>What follows the commit of the row: the log the caps count, the audit row, the pause of the
  checkout load, and the thread.\<close>

definition trigger_begin :: "int \<Rightarrow> string \<Rightarrow> string \<Rightarrow> token_payload \<Rightarrow> string \<Rightarrow> api \<Rightarrow> api" where
  "trigger_begin now ep cls caller ip a =
     (let a1 = (if tp_role caller = ''demo-trigger'' then a\<lparr>ap_demo := ap_demo a @ [(ip, seconds now)]\<rparr> else a);
          a2 = api_audit (tp_role caller) ''/trigger/inject'' (''fault_class='' @ cls @ '' episode_id='' @ ep) (Some ip) a1;
          a3 = (if cls = ''memory-leak'' then a2\<lparr>ap_leak_paused := True\<rparr> else a2)
      in start_thread (Spawning ep cls) a3)"

text \<open>The whole handler, when nothing runs in between.\<close>

definition trigger_inject ::
    "int \<Rightarrow> string \<Rightarrow> bool \<Rightarrow> string \<Rightarrow> token_payload \<Rightarrow> string \<Rightarrow> api \<Rightarrow> unit http \<times> api" where
  "trigger_inject now ep steady cls caller ip a =
     (case trigger_checks now steady cls caller ip a of
        (Inl code, a1) \<Rightarrow> (Inl code, a1)
      | (Inr _, a1) \<Rightarrow>
          (case trigger_insert now ep cls caller ip a1 of
             (Inl code, a2) \<Rightarrow> (Inl code, a2)
           | (Inr _, a2) \<Rightarrow> (Inr (), trigger_begin now ep cls caller ip a2)))"

definition cooldown_remaining :: "int \<Rightarrow> string \<Rightarrow> api \<Rightarrow> int" where
  "cooldown_remaining now ip a =
     (case last_trigger ip a of None \<Rightarrow> 0 | Some t \<Rightarrow> max (us cooldown_s - since_trigger now t) 0)"

text \<open>\<^verbatim>\<open>/trigger/status\<close>: the seconds are rounded half to even, and it flips the carts Service back
  before it looks.\<close>

record trigger_status =
  ts_used :: nat
  ts_remaining :: nat
  ts_cooldown_s :: int
  ts_in_flight :: "(string \<times> string option) option"
  ts_crash_loop_ready :: bool

definition trigger_status_of ::
    "'w kube \<Rightarrow> 'w rotation_api \<Rightarrow> int \<Rightarrow> string \<Rightarrow> api \<Rightarrow> 'w \<Rightarrow> trigger_status http \<times> 'w" where
  "trigger_status_of K R now ip a w =
     (case in_flight_episode_row now a of
        Inl _ \<Rightarrow> (Inl 500, w)
      | Inr row \<Rightarrow>
          (case flip_to_carts K R w of (_, w1) \<Rightarrow>
           case carts_steady K R w1 of (ready, w2) \<Rightarrow>
             (Inr \<lparr>ts_used = global_triggers_today now a,
                   ts_remaining = global_daily_cap - global_triggers_today now a,
                   ts_cooldown_s = round_half_even (of_int (cooldown_remaining now ip a) / 1000000),
                   ts_in_flight = row, ts_crash_loop_ready = ready\<rparr>, w2)))"

section \<open>State transitions\<close>

definition get_row :: "api \<Rightarrow> string \<Rightarrow> live_row option" where
  "get_row a ep = map_of (ap_rows a) ep"

text \<open>\<^verbatim>\<open>_set_episode_state\<close>; \<open>extra\<close> sets the columns its caller names, which are always allowed
  ones.\<close>

definition set_episode_state :: "int \<Rightarrow> string \<Rightarrow> ep_state \<Rightarrow> (live_row \<Rightarrow> live_row) \<Rightarrow> api \<Rightarrow> api" where
  "set_episode_state now ep st extra a =
     (let a1 = map_row (\<lambda>r. extra (r\<lparr>lv_state := Some st, lv_entered := Some now\<rparr>)) ep a in
      if st \<in> set terminal_states \<and> map_option lv_class (get_row a1 ep) = Some ''memory-leak''
      then a1\<lparr>ap_leak_paused := False\<rparr> else a1)"

definition by_col :: "string \<Rightarrow> live_row \<Rightarrow> live_row" where
  "by_col by r = r\<lparr>lv_by := Some by\<rparr>"

definition pid_col :: "int \<Rightarrow> live_row \<Rightarrow> live_row" where
  "pid_col pid r = r\<lparr>lv_pid := Some pid\<rparr>"

section \<open>Resolving an episode\<close>

text \<open>The UPDATE of \<^verbatim>\<open>_attempt_resolve\<close> and, for the caller whose UPDATE hit a row, the
  cancelled timer.\<close>

definition claim_resolve :: "int \<Rightarrow> string \<Rightarrow> api \<Rightarrow> bool \<times> api" where
  "claim_resolve now ep a =
     (if list_ex (\<lambda>(e, r). e = ep \<and> lv_state r = Some Awaiting_Fix) (ap_rows a)
      then (True, (map_row (\<lambda>r. if lv_state r = Some Awaiting_Fix
                       then r\<lparr>lv_state := Some Resolving, lv_entered := Some now\<rparr> else r) ep a)
                    \<lparr>ap_timers := AList.delete ep (ap_timers a)\<rparr>)
      else (False, a))"

definition anchored_classes :: "string list" where
  "anchored_classes =
     [''oom'', ''disk-full'', ''cpu-throttling'', ''network-latency'', ''network-partition'', ''bad-rollout'']"

definition settle_add :: "string \<Rightarrow> int" where
  "settle_add cls = (if cls \<in> {''network-latency'', ''network-partition''} then 0 else settle_seconds)"

text \<open>\<^verbatim>\<open>fromtimestamp\<close> rounds to the microsecond, half to even.\<close>

definition epoch_us :: "rat \<Rightarrow> int" where
  "epoch_us x = round_half_even (x * 1000000)"

text \<open>The time the scorer's queries are evaluated at. A file that is no number raises, as does a
  row without t0.\<close>

definition snapshot_time :: "string \<Rightarrow> api \<Rightarrow> int res" where
  "snapshot_time ep a =
     (case get_row a ep of
        None \<Rightarrow> Inl TypeError
      | Some r \<Rightarrow>
          (case lv_t0 r of
             None \<Rightarrow> Inl TypeError
           | Some t0 \<Rightarrow>
               if lv_class r \<in> set anchored_classes
               then (case map_of (ap_evidence a) ep of
                       Some (Some x) \<Rightarrow> Inr (epoch_us (py_float (x + of_int (settle_add (lv_class r)))))
                     | Some None \<Rightarrow> Inl ValueError
                     | None \<Rightarrow> Inr (t0 + us (settle_add (lv_class r))))
               else Inr (t0 + us (case settle_seconds_override (lv_class r) of
                                    Some s \<Rightarrow> s | None \<Rightarrow> settle_seconds))))"

text \<open>How long the thread sleeps first.\<close>

definition settle_wait :: "int \<Rightarrow> int \<Rightarrow> int" where
  "settle_wait now snap = (if 0 < snap - now then snap - now + us resolve_safety_buffer_s else 0)"

datatype exit = Exited int | Timed_Out

definition finish_resolve :: "int \<Rightarrow> string \<Rightarrow> string \<Rightarrow> exit \<Rightarrow> api \<Rightarrow> api" where
  "finish_resolve now ep by x a =
     set_episode_state now ep (if x = Exited 0 then Resolved else Failed) (by_col by) a"

text \<open>\<^verbatim>\<open>_republish_to_r2\<close>: two attempts, three seconds apart.\<close>

definition republish_to_r2 :: "('w, unit) step \<Rightarrow> ('w \<Rightarrow> 'w) \<Rightarrow> 'w \<Rightarrow> bool \<times> 'w" where
  "republish_to_r2 publish sleep3 w =
     (case publish w of
        (Inr _, w1) \<Rightarrow> (True, w1)
      | (Inl _, w1) \<Rightarrow>
          (case publish (sleep3 w1) of (Inr _, w2) \<Rightarrow> (True, w2) | (Inl _, w2) \<Rightarrow> (False, w2)))"

definition republished :: "int \<Rightarrow> string \<Rightarrow> bool \<Rightarrow> api \<Rightarrow> api" where
  "republished now ep ok a = (if ok then map_row (\<lambda>r. r\<lparr>lv_republished := Some now\<rparr>) ep a else a)"

section \<open>The wrapper around the injector\<close>

text \<open>\<^verbatim>\<open>_memory_leak_recency_wait\<close>: how long, and the sleeps it is spent in. The window is
  \<^verbatim>\<open>run_episodes.TARGET_RECENCY_WINDOW_S\<close>'s for this class.\<close>

definition memory_leak_window_s :: int where "memory_leak_window_s = 330"

definition recency_remaining :: "int \<Rightarrow> string \<Rightarrow> api \<Rightarrow> int" where
  "recency_remaining now ep a =
     (case List.map (\<lambda>(e, r). the (lv_t0 r))
         (filter (\<lambda>(e, r). lv_class r = ''memory-leak'' \<and> lv_t0 r \<noteq> None \<and> e \<noteq> ep) (ap_rows a)) of
        [] \<Rightarrow> 0
      | t # ts \<Rightarrow> us memory_leak_window_s - (now - fold max ts t))"

function recency_sleeps :: "int \<Rightarrow> int list" where
  "recency_sleeps rest = (if rest \<le> 0 then [] else min rest (us 5) # recency_sleeps (rest - min rest (us 5)))"
  by auto
termination
  by (relation "measure nat") (auto simp: us_def)

declare recency_sleeps.simps [simp del]

definition takes_evidence_file :: "string \<Rightarrow> bool" where
  "takes_evidence_file cls \<longleftrightarrow> cls \<in> set evidence_file_classes \<or> cls \<in> {''disk-full'', ''bad-rollout''}"

datatype injector_arg =
    Class string | Episode_Id string | Duration_Override int | Stop_File string | Evidence_File string

definition injector_args :: "string \<Rightarrow> string \<Rightarrow> injector_arg list" where
  "injector_args ep cls =
     [Class cls, Episode_Id ep] @
     (case live_trigger_duration_override_s cls of None \<Rightarrow> [] | Some s \<Rightarrow> [Duration_Override s]) @
     (if cls \<in> set holding_classes then [Stop_File ep] else []) @
     (if takes_evidence_file cls then [Evidence_File ep] else [])"

definition injector_started :: "int \<Rightarrow> string \<Rightarrow> string \<Rightarrow> int \<Rightarrow> api \<Rightarrow> api" where
  "injector_started now ep cls pid a =
     (if cls \<in> set holding_classes then set_episode_state now ep Holding (pid_col pid) a
      else map_row (pid_col pid) ep a)"

text \<open>One round of the poll, for an injector that still runs. \<open>confirmed\<close> is
  \<^verbatim>\<open>_evidence_confirmed_now\<close>'s answer, asked for crash-loop only.\<close>

definition evidence_confirmed_now :: "string \<Rightarrow> int \<Rightarrow> int \<Rightarrow> bool \<Rightarrow> bool" where
  "evidence_confirmed_now cls restarts baseline backoff =
     (if cls = ''crash-loop'' then baseline < restarts \<or> backoff else False)"

definition hold_tick :: "string \<Rightarrow> string \<Rightarrow> bool \<Rightarrow> api \<Rightarrow> api" where
  "hold_tick ep cls confirmed a =
     (if cls \<notin> set holding_classes then a
      else case get_row a ep of
        None \<Rightarrow> a
      | Some r \<Rightarrow>
          (let newly = \<not> lv_evidence r \<and>
                 (if cls \<in> set wrapper_polled_classes then confirmed
                  else takes_evidence_file cls \<and> map_of (ap_evidence a) ep \<noteq> None);
               a1 = (if newly then map_row (\<lambda>r. r\<lparr>lv_evidence := True\<rparr>) ep a else a)
           in if (lv_stop r \<or> lv_abandon r) \<and> ep \<notin> set (ap_stops a)
              then a1\<lparr>ap_stops := ap_stops a1 @ [ep]\<rparr> else a1))"

datatype wrapped = Wrapped_Failed | Wrapped_Abandoned | Wrapped_Report_Only | Wrapped_Fixable

text \<open>After the injector: what the row says, and the state it goes to.\<close>

definition injector_outcome :: "string \<Rightarrow> string \<Rightarrow> exit \<Rightarrow> api \<Rightarrow> wrapped" where
  "injector_outcome ep cls x a =
     (case get_row a ep of
        None \<Rightarrow> Wrapped_Failed
      | Some r \<Rightarrow>
          if \<not> (x = Exited 0 \<and> lv_t0 r \<noteq> None \<and> lv_chaos r \<noteq> None) then Wrapped_Failed
          else if lv_abandon r then Wrapped_Abandoned
          else if cls \<notin> set auto_fix_classes then Wrapped_Report_Only
          else Wrapped_Fixable)"

definition injector_ended :: "int \<Rightarrow> string \<Rightarrow> wrapped \<Rightarrow> api \<Rightarrow> api" where
  "injector_ended now ep out a =
     (case out of
        Wrapped_Failed \<Rightarrow> set_episode_state now ep Failed id a
      | Wrapped_Abandoned \<Rightarrow> set_episode_state now ep Failed (by_col ''abandoned'') a
      | Wrapped_Report_Only \<Rightarrow> start_thread (Calling ep ''auto_resolve'' True) (set_episode_state now ep Awaiting_Fix id a)
      | Wrapped_Fixable \<Rightarrow> start_thread (Arming ep) (set_episode_state now ep Awaiting_Fix id a))"

definition arm_timer :: "int \<Rightarrow> string \<Rightarrow> int \<Rightarrow> api \<Rightarrow> api" where
  "arm_timer now ep s a = a\<lparr>ap_timers := AList.update ep (now + s) (ap_timers a)\<rparr>"

section \<open>The other endpoints\<close>

definition trigger_stop_hold :: "string \<Rightarrow> token_payload \<Rightarrow> api \<Rightarrow> unit http \<times> api" where
  "trigger_stop_hold ep caller a =
     (case get_row a ep of
        None \<Rightarrow> (Inl 404, a)
      | Some r \<Rightarrow>
          if tp_role caller = ''demo-trigger'' \<and> lv_user r \<noteq> tp_username caller then (Inl 403, a)
          else if lv_state r \<noteq> Some Holding \<or> \<not> lv_evidence r then (Inl 409, a)
          else (Inr (), map_row (\<lambda>r. r\<lparr>lv_stop := True\<rparr>) ep a))"

definition state_text :: "ep_state option \<Rightarrow> string" where
  "state_text s =
     (case s of None \<Rightarrow> ''None'' | Some Injecting \<Rightarrow> ''injecting'' | Some Holding \<Rightarrow> ''holding''
      | Some Awaiting_Fix \<Rightarrow> ''awaiting_fix'' | Some Resolving \<Rightarrow> ''resolving'' | Some Resolved \<Rightarrow> ''resolved''
      | Some Failed \<Rightarrow> ''failed'')"

definition trigger_resolve :: "string \<Rightarrow> token_payload \<Rightarrow> api \<Rightarrow> unit http \<times> api" where
  "trigger_resolve ep caller a =
     (let log = \<lambda>why. api_audit (tp_role caller) ''/trigger/resolve'' why None a in
      case get_row a ep of
        None \<Rightarrow> (Inl 404, log (''rejected: no such episode '' @ quoted ep))
      | Some r \<Rightarrow>
          if lv_state r \<noteq> Some Awaiting_Fix then (Inl 409, log (''rejected: '' @ quoted ep @ '' not awaiting_fix (state='' @ state_text (lv_state r) @ '')''))
          else (Inr (), start_thread (Calling ep ''manual'' False) (log (''episode_id='' @ ep))))"

text \<open>No row has the username NULL equal to the caller's.\<close>

definition logout :: "token_payload \<Rightarrow> api \<Rightarrow> api" where
  "logout caller a =
     a\<lparr>ap_rows := List.map (\<lambda>(e, r).
        (e, if tp_username caller \<noteq> None \<and> lv_user r = tp_username caller \<and> in_state non_terminal_states r
            then r\<lparr>lv_abandon := True\<rparr> else r)) (ap_rows a)\<rparr>"

record live_status =
  lvs_state :: "ep_state option"
  lvs_elapsed_s :: "int option"
  lvs_evidence :: bool
  lvs_stop :: bool
  lvs_abandon :: bool
  lvs_class :: string
  lvs_t0 :: "int option"
  lvs_can_stop :: bool
  lvs_republished :: "int option"
  lvs_hold_s :: "int option"
  lvs_hold_started :: "int option"

definition trigger_live_status :: "int \<Rightarrow> string \<Rightarrow> api \<Rightarrow> live_status http" where
  "trigger_live_status now ep a =
     (case get_row a ep of
        None \<Rightarrow> Inl 404
      | Some r \<Rightarrow>
          Inr \<lparr>lvs_state = lv_state r,
               lvs_elapsed_s = map_option (\<lambda>t. round_half_even (of_int (now - t) / 1000000)) (lv_entered r),
               lvs_evidence = lv_evidence r, lvs_stop = lv_stop r, lvs_abandon = lv_abandon r,
               lvs_class = lv_class r, lvs_t0 = lv_t0 r,
               lvs_can_stop = (lv_state r = Some Holding \<and> lv_evidence r),
               lvs_republished = lv_republished r,
               lvs_hold_s = live_trigger_duration_override_s (lv_class r),
               lvs_hold_started =
                 (if lv_state r = Some Holding \<and> lv_class r \<in> set evidence_file_classes
                  then (case map_of (ap_evidence a) ep of Some (Some x) \<Rightarrow> Some (epoch_us x) | _ \<Rightarrow> None)
                  else None)\<rparr>)"

text \<open>\<^verbatim>\<open>/promote\<close> and \<^verbatim>\<open>/demote\<close>, on the trust tables, the audit log and what the publisher
  writes; whether it published is not looked at.\<close>

definition set_by_hand ::
    "('w, unit) step \<Rightarrow> ('w \<Rightarrow> 'w) \<Rightarrow> string \<Rightarrow> string \<Rightarrow> string \<Rightarrow> int \<Rightarrow> token_payload \<Rightarrow> string
       \<Rightarrow> db \<times> auth_db \<times> 'w \<Rightarrow> unit http \<times> db \<times> auth_db \<times> 'w" where
  "set_by_hand publish sleep3 endpoint c st n caller ip s =
     (case s of (d, au, w) \<Rightarrow>
        case manual_set_state d c st n of
          Inl _ \<Rightarrow> (Inl 500, s)
        | Inr d' \<Rightarrow>
            (Inr (), d', audit (tp_role caller) endpoint (''fault_class='' @ c) (Some ip) au,
             snd (republish_to_r2 publish sleep3 w)))"

definition promote ::
    "('w, unit) step \<Rightarrow> ('w \<Rightarrow> 'w) \<Rightarrow> string \<Rightarrow> token_payload \<Rightarrow> string \<Rightarrow> db \<times> auth_db \<times> 'w
       \<Rightarrow> unit http \<times> db \<times> auth_db \<times> 'w" where
  "promote publish sleep3 c caller ip s =
     (case promotion_streak c of
        None \<Rightarrow> (Inl 400, s)
      | Some n \<Rightarrow>
          if fst (get_trust_state (fst s) c) = Can_Act then (Inl 400, s)
          else set_by_hand publish sleep3 ''/promote'' c ''can_act'' n caller ip s)"

definition demote ::
    "('w, unit) step \<Rightarrow> ('w \<Rightarrow> 'w) \<Rightarrow> string \<Rightarrow> token_payload \<Rightarrow> string \<Rightarrow> db \<times> auth_db \<times> 'w
       \<Rightarrow> unit http \<times> db \<times> auth_db \<times> 'w" where
  "demote publish sleep3 c caller ip s =
     (if fst (get_trust_state (fst s) c) = Report_Only then (Inl 400, s)
      else set_by_hand publish sleep3 ''/demote'' c ''report_only'' 0 caller ip s)"

end
