(* ===== verification/Live_Episode.thy ===== *)
theory Live_Episode
  imports Live_Trigger
begin

text \<open>
  The episodes of \<^verbatim>\<open>operator_api.py\<close> as they run: the request threads, the wrapper around each
  injector, the resolvers and timers, the watchers of orphaned injectors and the reconciliation
  at startup, as one step relation over the process state. A step is what a thread does between
  two points where another can run. The injector, the scorer and a batch run are steps of the
  environment.
\<close>

section \<open>Reconciliation\<close>

text \<open>The end of \<^verbatim>\<open>_wait_for_orphan\<close>. A row that is gone makes it raise, and its guard updates
  no row.\<close>

definition classify_orphan :: "int \<Rightarrow> string \<Rightarrow> api \<Rightarrow> api" where
  "classify_orphan now ep a =
     (case get_row a ep of
        None \<Rightarrow> set_episode_state now ep Failed id a
      | Some r \<Rightarrow>
          if lv_t0 r \<noteq> None \<and> lv_chaos r \<noteq> None
          then start_thread (Calling ep ''auto_resolve'' False) (set_episode_state now ep Awaiting_Fix id a)
          else set_episode_state now ep Failed id a)"

text \<open>\<open>alive\<close> is the answer of \<^verbatim>\<open>os.kill(pid, 0)\<close>. A row without the time of its state raises,
  which the caller catches.\<close>

definition reconcile_one_row :: "int \<Rightarrow> (int \<Rightarrow> bool) \<Rightarrow> string \<times> live_row \<Rightarrow> api \<Rightarrow> api" where
  "reconcile_one_row now alive row a =
     (case row of (ep, r) \<Rightarrow>
        case lv_entered r of
          None \<Rightarrow> a
        | Some entered \<Rightarrow>
            if lv_state r \<in> {Some Injecting, Some Holding} then
              (case lv_pid r of
                 None \<Rightarrow> set_episode_state now ep Failed id a
               | Some pid \<Rightarrow>
                   if alive pid then start_thread (Orphaned ep pid) a
                   else if lv_t0 r \<noteq> None \<and> lv_chaos r \<noteq> None
                   then start_thread (Calling ep ''auto_resolve'' False) (set_episode_state now ep Awaiting_Fix id a)
                   else set_episode_state now ep Failed id a)
            else if lv_state r = Some Awaiting_Fix then
              (let rest = us abandon_ceiling_s - (now - entered) in
               if rest \<le> 0 then start_thread (Calling ep ''auto_resolve'' False) a else arm_timer now ep rest a)
            else if lv_state r = Some Resolving then
              set_episode_state now ep (if ep \<in> set (ap_scored a) then Resolved else Failed) (by_col ''auto_resolve'') a
            else a)"

text \<open>A new process: no threads, no timers, the pause flag at its initial value.\<close>

definition fresh_process :: "api \<Rightarrow> api" where
  "fresh_process a = a\<lparr>ap_threads := [], ap_timers := [], ap_leak_paused := False\<rparr>"

definition reconcile_on_startup :: "int \<Rightarrow> (int \<Rightarrow> bool) \<Rightarrow> api \<Rightarrow> api" where
  "reconcile_on_startup now alive a =
     fold (reconcile_one_row now alive) (filter (\<lambda>(e, r). in_state non_terminal_states r) (ap_rows a)) (fresh_process a)"

section \<open>Threads\<close>

text \<open>Whose exception is caught, by \<^verbatim>\<open>_run_live_episode\<close> or \<^verbatim>\<open>_wait_for_orphan\<close>, with the
  episode the guard marks failed.\<close>

fun guarded :: "thread \<Rightarrow> string option" where
  "guarded (Admitted c ip cls) = None"
| "guarded (Inserted ep c ip cls) = None"
| "guarded (Spawning ep cls) = Some ep"
| "guarded (Watching ep cls pid d) = Some ep"
| "guarded (Arming ep) = Some ep"
| "guarded (Calling ep by g) = (if g then Some ep else None)"
| "guarded (Claimed ep by g) = (if g then Some ep else None)"
| "guarded (Scoring ep by g snap) = (if g then Some ep else None)"
| "guarded (Publishing ep g) = (if g then Some ep else None)"
| "guarded (Orphaned ep pid) = Some ep"

text \<open>The steps. \<open>faults\<close> allows exceptions nothing catches and evidence files that are no
  number, \<open>restarts\<close> a restart of the process.\<close>

inductive api_step :: "bool \<Rightarrow> bool \<Rightarrow> api \<Rightarrow> api \<Rightarrow> bool" for faults restarts where
  refused: "trigger_checks now steady cls caller ip a = (Inl code, a') \<Longrightarrow> api_step faults restarts a a'"
| admitted: "trigger_checks now steady cls caller ip a = (Inr (), a') \<Longrightarrow>
    api_step faults restarts a (start_thread (Admitted caller ip cls) a')"
| busy: "Admitted caller ip cls \<in> set (ap_threads a) \<Longrightarrow>
    trigger_insert now ep cls caller ip a = (Inl code, a') \<Longrightarrow>
    api_step faults restarts a (end_thread (Admitted caller ip cls) a')"
| inserted: "Admitted caller ip cls \<in> set (ap_threads a) \<Longrightarrow> get_row a ep = None \<Longrightarrow>
    trigger_insert now ep cls caller ip a = (Inr (), a') \<Longrightarrow>
    api_step faults restarts a (start_thread (Inserted ep caller ip cls) (end_thread (Admitted caller ip cls) a'))"
| begun: "Inserted ep caller ip cls \<in> set (ap_threads a) \<Longrightarrow>
    api_step faults restarts a (trigger_begin now ep cls caller ip (end_thread (Inserted ep caller ip cls) a))"
| spawned: "Spawning ep cls \<in> set (ap_threads a) \<Longrightarrow>
    api_step faults restarts a
      (start_thread (Watching ep cls pid (now + us (inject_subprocess_timeout_s cls)))
        (injector_started now ep cls pid (end_thread (Spawning ep cls) a)))"
| ticked: "Watching ep cls pid deadline \<in> set (ap_threads a) \<Longrightarrow>
    api_step faults restarts a (hold_tick ep cls confirmed a)"
| ended: "Watching ep cls pid deadline \<in> set (ap_threads a) \<Longrightarrow> x = Timed_Out \<longrightarrow> deadline < now \<Longrightarrow>
    api_step faults restarts a
      (injector_ended now ep (injector_outcome ep cls x a) (end_thread (Watching ep cls pid deadline) a))"
| armed: "Arming ep \<in> set (ap_threads a) \<Longrightarrow>
    api_step faults restarts a (arm_timer now ep (us abandon_ceiling_s) (end_thread (Arming ep) a))"
| fired: "map_of (ap_timers a) ep = Some due \<Longrightarrow> due \<le> now \<Longrightarrow>
    api_step faults restarts a
      (start_thread (Calling ep ''auto_resolve'' False) (a\<lparr>ap_timers := AList.delete ep (ap_timers a)\<rparr>))"
| lost: "Calling ep by g \<in> set (ap_threads a) \<Longrightarrow> claim_resolve now ep a = (False, a') \<Longrightarrow>
    api_step faults restarts a (end_thread (Calling ep by g) a')"
| claimed: "Calling ep by g \<in> set (ap_threads a) \<Longrightarrow> claim_resolve now ep a = (True, a') \<Longrightarrow>
    api_step faults restarts a (start_thread (Claimed ep by g) (end_thread (Calling ep by g) a'))"
| planned: "Claimed ep by g \<in> set (ap_threads a) \<Longrightarrow> snapshot_time ep a = Inr snap \<Longrightarrow>
    api_step faults restarts a (start_thread (Scoring ep by g snap) (end_thread (Claimed ep by g) a))"
| unplanned: "Claimed ep by False \<in> set (ap_threads a) \<Longrightarrow> snapshot_time ep a = Inl e \<Longrightarrow>
    api_step faults restarts a (end_thread (Claimed ep by False) a)"
| scored: "Scoring ep by g snap \<in> set (ap_threads a) \<Longrightarrow> snap \<le> now \<Longrightarrow> x \<noteq> Exited 0 \<Longrightarrow>
    api_step faults restarts a (finish_resolve now ep by x (end_thread (Scoring ep by g snap) a))"
| resolved: "Scoring ep by g snap \<in> set (ap_threads a) \<Longrightarrow> snap \<le> now \<Longrightarrow>
    api_step faults restarts a
      (start_thread (Publishing ep g) (finish_resolve now ep by (Exited 0) (end_thread (Scoring ep by g snap) a)))"
| published: "Publishing ep g \<in> set (ap_threads a) \<Longrightarrow>
    api_step faults restarts a (republished now ep ok (end_thread (Publishing ep g) a))"
| orphan_gone: "Orphaned ep pid \<in> set (ap_threads a) \<Longrightarrow>
    api_step faults restarts a (classify_orphan now ep (end_thread (Orphaned ep pid) a))"
| caught: "th \<in> set (ap_threads a) \<Longrightarrow> guarded th = Some ep \<Longrightarrow>
    api_step faults restarts a (set_episode_state now ep Failed id (end_thread th a))"
| uncaught: "faults \<Longrightarrow> th \<in> set (ap_threads a) \<Longrightarrow> api_step faults restarts a (end_thread th a)"
| stop_clicked: "trigger_stop_hold ep caller a = (answer, a') \<Longrightarrow> api_step faults restarts a a'"
| resolve_clicked: "trigger_resolve ep caller a = (answer, a') \<Longrightarrow> api_step faults restarts a a'"
| logged_out: "api_step faults restarts a (logout caller a)"
| injector_recorded: "api_step faults restarts a (map_row (\<lambda>r. r\<lparr>lv_t0 := Some t0, lv_chaos := Some chaos\<rparr>) ep a)"
| scorer_recorded: "api_step faults restarts a (a\<lparr>ap_scored := ap_scored a @ [ep]\<rparr>)"
| evidence_recorded: "faults \<or> x \<noteq> None \<Longrightarrow>
    api_step faults restarts a (a\<lparr>ap_evidence := AList.update ep x (ap_evidence a)\<rparr>)"
| batch_recorded: "get_row a ep = None \<Longrightarrow> lv_state r = None \<Longrightarrow>
    api_step faults restarts a (a\<lparr>ap_rows := ap_rows a @ [(ep, r)]\<rparr>)"
| restarted: "restarts \<Longrightarrow> api_step faults restarts a (reconcile_on_startup now alive a)"

section \<open>The states of the rows\<close>

definition state_of :: "api \<Rightarrow> string \<Rightarrow> ep_state option option" where
  "state_of a ep = map_option lv_state (get_row a ep)"

lemma map_of_map_key: "map_of (List.map (\<lambda>(k, v). (k, g k v)) xs) k = map_option (g k) (map_of xs k)"
  by (induction xs) auto

lemma get_row_map_row [simp]:
  "get_row (map_row f ep a) e = (if e = ep then map_option f (get_row a e) else get_row a e)"
  using map_of_map_key[of "\<lambda>k v. if k = ep then f v else v" "ap_rows a" e]
  by (simp add: get_row_def map_row_def option.map_ident)

lemma get_row_frame [simp]:
  "get_row (start_thread th a) e = get_row a e" "get_row (end_thread th a) e = get_row a e"
  "get_row (api_audit r x y ip a) e = get_row a e"
  "get_row (a\<lparr>ap_timers := m\<rparr>) e = get_row a e" "get_row (a\<lparr>ap_threads := t\<rparr>) e = get_row a e"
  "get_row (a\<lparr>ap_leak_paused := b\<rparr>) e = get_row a e" "get_row (a\<lparr>ap_demo := d\<rparr>) e = get_row a e"
  "get_row (a\<lparr>ap_stops := s\<rparr>) e = get_row a e" "get_row (a\<lparr>ap_scored := c\<rparr>) e = get_row a e"
  "get_row (a\<lparr>ap_evidence := v\<rparr>) e = get_row a e"
  by (simp_all add: get_row_def start_thread_def end_thread_def api_audit_def)

lemma threads_frame [simp]:
  "ap_threads (map_row f ep a) = ap_threads a" "ap_timers (map_row f ep a) = ap_timers a"
  "ap_threads (start_thread th a) = ap_threads a @ [th]" "ap_timers (start_thread th a) = ap_timers a"
  "ap_threads (end_thread th a) = remove1 th (ap_threads a)" "ap_timers (end_thread th a) = ap_timers a"
  "ap_threads (api_audit r x y ip a) = ap_threads a" "ap_timers (api_audit r x y ip a) = ap_timers a"
  "ap_evidence (map_row f ep a) = ap_evidence a" "ap_evidence (start_thread th a) = ap_evidence a"
  "ap_evidence (end_thread th a) = ap_evidence a" "ap_evidence (api_audit r x y ip a) = ap_evidence a"
  by (simp_all add: map_row_def start_thread_def end_thread_def api_audit_def)

text \<open>What every operation does to the states, the threads and the timers.\<close>

definition same :: "api \<Rightarrow> api \<Rightarrow> bool" where
  "same a b \<longleftrightarrow> state_of b = state_of a \<and> ap_threads b = ap_threads a \<and> ap_timers b = ap_timers a \<and>
     ap_evidence b = ap_evidence a \<and>
     (\<forall>e. map_option lv_t0 (get_row b e) = map_option lv_t0 (get_row a e)) \<and>
     (\<forall>e. map_option (\<lambda>r. lv_entered r = None) (get_row b e) = map_option (\<lambda>r. lv_entered r = None) (get_row a e))"

lemma same_refl [simp]: "same a a" by (simp add: same_def)

lemma same_trans: "same a b \<Longrightarrow> same b c \<Longrightarrow> same a c" by (simp add: same_def)

lemma same_map_row:
  assumes "\<And>r. lv_state (f r) = lv_state r \<and> lv_t0 (f r) = lv_t0 r \<and> lv_entered (f r) = lv_entered r"
  shows "same a (map_row f ep a)"
  by (simp add: same_def fun_eq_iff state_of_def option.map_comp comp_def assms)

lemma same_update:
  "same a (api_audit r x y ip a)" "same a (a\<lparr>ap_leak_paused := b\<rparr>)" "same a (a\<lparr>ap_demo := d\<rparr>)"
  "same a (a\<lparr>ap_stops := s\<rparr>)" "same a (a\<lparr>ap_scored := c\<rparr>)"
  by (simp_all add: same_def fun_eq_iff state_of_def)

lemma same_checks: "trigger_checks now steady cls caller ip a = (x, a') \<Longrightarrow> same a a'"
  by (auto simp: trigger_checks_def Let_def same_update split: if_splits)

lemma same_busy: "trigger_insert now ep cls caller ip a = (Inl code, a') \<Longrightarrow> same a a'"
  by (auto simp: trigger_insert_def same_update split: option.splits sum.splits)

lemma same_tick: "same a (hold_tick ep cls confirmed a)"
  by (auto simp: hold_tick_def Let_def same_update same_map_row split: option.split
      intro!: same_trans[OF same_map_row same_update(4)])

lemma same_stop: "trigger_stop_hold ep caller a = (x, a') \<Longrightarrow> same a a'"
  by (auto simp: trigger_stop_hold_def same_map_row split: option.splits if_splits)

lemma same_republished: "same a (republished now ep ok a)"
  by (auto simp: republished_def same_map_row)

lemma same_logout: "same a (logout caller a)"
proof -
  have "get_row (logout caller a) e = map_option (\<lambda>r. if tp_username caller \<noteq> None \<and>
      lv_user r = tp_username caller \<and> in_state non_terminal_states r then r\<lparr>lv_abandon := True\<rparr> else r) (get_row a e)"
    for e
    unfolding get_row_def logout_def by (simp add: map_of_map_key)
  then show ?thesis
    by (simp add: same_def fun_eq_iff state_of_def option.map_comp comp_def if_distrib logout_def cong: if_cong)
qed

lemma state_of_frame [simp]:
  "state_of (start_thread th a) = state_of a" "state_of (end_thread th a) = state_of a"
  "state_of (a\<lparr>ap_timers := m\<rparr>) = state_of a" "state_of (fresh_process a) = state_of a"
  "state_of (a\<lparr>ap_leak_paused := l\<rparr>) = state_of a"
  by (simp_all add: fun_eq_iff state_of_def fresh_process_def)

text \<open>Setting a state, in a form that fits the columns the callers add.\<close>

lemma set_state_simps:
  assumes "\<And>r. lv_state (f r) = lv_state r \<and> lv_t0 (f r) = lv_t0 r \<and> lv_entered (f r) = lv_entered r"
  shows "state_of (set_episode_state now ep st f a) = (\<lambda>e. if e = ep then map_option (\<lambda>_. Some st) (state_of a e) else state_of a e)"
    "ap_threads (set_episode_state now ep st f a) = ap_threads a"
    "ap_timers (set_episode_state now ep st f a) = ap_timers a"
    "ap_evidence (set_episode_state now ep st f a) = ap_evidence a"
    "map_option lv_t0 (get_row (set_episode_state now ep st f a) e) = map_option lv_t0 (get_row a e)"
    "map_option lv_entered (get_row (set_episode_state now ep st f a) e) =
       (if e = ep then map_option (\<lambda>_. Some now) (get_row a e) else map_option lv_entered (get_row a e))"
  by (auto simp: set_episode_state_def Let_def state_of_def fun_eq_iff option.map_comp comp_def assms)

lemma cols [simp]:
  "lv_state (by_col by r) = lv_state r \<and> lv_t0 (by_col by r) = lv_t0 r \<and> lv_entered (by_col by r) = lv_entered r"
  "lv_state (pid_col p r) = lv_state r \<and> lv_t0 (pid_col p r) = lv_t0 r \<and> lv_entered (pid_col p r) = lv_entered r"
  "lv_state (id r) = lv_state r \<and> lv_t0 (id r) = lv_t0 r \<and> lv_entered (id r) = lv_entered r"
  by (simp_all add: by_col_def pid_col_def)

lemmas set_state [simp] = set_state_simps[OF cols(1)] set_state_simps[OF cols(2)] set_state_simps[OF cols(3)]

section \<open>The life of an episode\<close>

text \<open>Who may move a row that is being injected, and who touches it only afterwards.\<close>

fun early_of :: "thread \<Rightarrow> string option" where
  "early_of (Inserted ep c ip cls) = Some ep"
| "early_of (Spawning ep cls) = Some ep"
| "early_of (Watching ep cls pid d) = Some ep"
| "early_of (Orphaned ep pid) = Some ep"
| "early_of th = None"

fun late_of :: "thread \<Rightarrow> string option" where
  "late_of (Arming ep) = Some ep"
| "late_of (Calling ep by g) = Some ep"
| "late_of (Claimed ep by g) = Some ep"
| "late_of (Scoring ep by g snap) = Some ep"
| "late_of (Publishing ep g) = Some ep"
| "late_of th = None"

definition live :: "ep_state option option \<Rightarrow> bool" where
  "live s \<longleftrightarrow> s \<in> {Some (Some Injecting), Some (Some Holding), Some (Some Awaiting_Fix), Some (Some Resolving)}"

definition early :: "ep_state option option \<Rightarrow> bool" where
  "early s \<longleftrightarrow> s \<in> {Some (Some Injecting), Some (Some Holding)}"

definition past :: "ep_state option option \<Rightarrow> bool" where
  "past s \<longleftrightarrow> s \<in> {Some (Some Awaiting_Fix), Some (Some Resolving), Some (Some Resolved), Some (Some Failed)}"

definition owners :: "api \<Rightarrow> string \<Rightarrow> nat" where
  "owners a ep = length (filter (\<lambda>th. early_of th = Some ep) (ap_threads a))"

definition lifecycle_ok :: "api \<Rightarrow> bool" where
  "lifecycle_ok a \<longleftrightarrow>
     (\<forall>e e'. live (state_of a e) \<longrightarrow> live (state_of a e') \<longrightarrow> e = e') \<and>
     (\<forall>e. owners a e \<le> (if early (state_of a e) then 1 else 0)) \<and>
     (\<forall>th \<in> set (ap_threads a). \<forall>e. late_of th = Some e \<longrightarrow> past (state_of a e)) \<and>
     (\<forall>e \<in> dom (map_of (ap_timers a)). past (state_of a e))"

lemma owners_start [simp]:
  "owners (start_thread th a) ep = owners a ep + (if early_of th = Some ep then 1 else 0)"
  by (simp add: owners_def)

lemma length_filter_remove1:
  "length (filter P (remove1 x xs)) = length (filter P xs) - (if x \<in> set xs \<and> P x then 1 else 0)"
  by (simp add: filter_remove1 length_remove1)

lemma owners_end [simp]:
  "owners (end_thread th a) ep =
     owners a ep - (if th \<in> set (ap_threads a) \<and> early_of th = Some ep then 1 else 0)"
  unfolding owners_def by (simp add: length_filter_remove1)

lemma early_live: "early s \<Longrightarrow> live s" "early s \<Longrightarrow> \<not> past s"
  by (auto simp: early_def live_def past_def)

lemma ok_same:
  assumes "lifecycle_ok a" "same a b"
  shows "lifecycle_ok b"
  using assms by (simp add: lifecycle_ok_def same_def owners_def)

lemma ok_end:
  assumes "lifecycle_ok a"
  shows "lifecycle_ok (end_thread th a)"
proof -
  have "set (remove1 th (ap_threads a)) \<subseteq> set (ap_threads a)" by (rule set_remove1_subset)
  moreover have "owners (end_thread th a) e \<le> owners a e" for e by simp
  ultimately show ?thesis
    using assms unfolding lifecycle_ok_def state_of_frame threads_frame by (meson order_trans subsetD)
qed

lemma ok_start:
  assumes "lifecycle_ok a" "early_of th = None" "\<forall>e. late_of th = Some e \<longrightarrow> past (state_of a e)"
  shows "lifecycle_ok (start_thread th a)"
  using assms unfolding lifecycle_ok_def by auto

lemma owner_alone:
  assumes "lifecycle_ok a" "th \<in> set (ap_threads a)" "early_of th = Some ep"
  shows "owners (end_thread th a) ep = 0" "early (state_of a ep)" "owners a ep = 1"
proof -
  have "0 < owners a ep"
    using assms(2,3) by (auto simp: owners_def length_greater_0_conv filter_empty_conv)
  then show "early (state_of a ep)" "owners a ep = 1"
    using assms(1) by (auto simp: lifecycle_ok_def split: if_splits dest!: spec[of _ ep])
  then show "owners (end_thread th a) ep = 0" using assms(2,3) by simp
qed

lemma late_past:
  assumes "lifecycle_ok a" "th \<in> set (ap_threads a)" "late_of th = Some ep"
  shows "past (state_of a ep)" "owners a ep = 0"
proof -
  show p: "past (state_of a ep)" using assms by (auto simp: lifecycle_ok_def)
  then have "\<not> early (state_of a ep)" using early_live(2) by blast
  then show "owners a ep = 0" using assms(1) by (auto simp: lifecycle_ok_def dest!: spec[of _ ep])
qed

text \<open>A row nobody is injecting moves to a later state.\<close>

definition sets :: "string \<Rightarrow> ep_state \<Rightarrow> api \<Rightarrow> api \<Rightarrow> bool" where
  "sets ep st a b \<longleftrightarrow> ap_threads b = ap_threads a \<and>
     state_of b = (\<lambda>e. if e = ep then map_option (\<lambda>_. Some st) (state_of a e) else state_of a e) \<and>
     (\<forall>e. map_of (ap_timers b) e = map_of (ap_timers a) e \<or> map_of (ap_timers b) e = None)"

lemma ok_sets:
  assumes ok: "lifecycle_ok a" and b: "sets ep st a b" and free: "owners a ep = 0"
    and st: "past (Some (Some st))" "live (Some (Some st)) \<Longrightarrow> live (state_of a ep)"
  shows "lifecycle_ok b"
proof -
  have s: "state_of b e = (if e = ep then map_option (\<lambda>_. Some st) (state_of a e) else state_of a e)" for e
    using b by (simp add: sets_def)
  have l: "live (state_of a e)" if "live (state_of b e)" for e
    using that st(2) by (cases "state_of a ep") (auto simp: s split: if_splits)
  have p: "past (state_of b e)" if "past (state_of a e)" for e
    using that st(1) by (cases "state_of a ep") (auto simp: s)
  have o: "owners b e = owners a e" for e using b by (simp add: sets_def owners_def)
  have t: "e \<in> dom (map_of (ap_timers a))" if "e \<in> dom (map_of (ap_timers b))" for e
    using b that by (auto simp: sets_def dom_def dest: spec[of _ e])
  have "owners b e \<le> (if early (state_of b e) then 1 else 0)" for e
    using ok free by (cases "e = ep") (auto simp: o s lifecycle_ok_def dest: spec[of _ e])
  moreover have "ap_threads b = ap_threads a" using b by (simp add: sets_def)
  ultimately show ?thesis
    using ok l p t unfolding lifecycle_ok_def by (metis (no_types, lifting))
qed

lemma sets_set_state:
  assumes "\<And>r. lv_state (f r) = lv_state r \<and> lv_t0 (f r) = lv_t0 r \<and> lv_entered (f r) = lv_entered r"
  shows "sets ep st a (set_episode_state now ep st f a)"
  by (simp add: sets_def set_state_simps[OF assms])

lemma sets_claim:
  assumes "claim_resolve now ep a = (True, b)" "distinct (List.map fst (ap_rows a))"
  shows "sets ep Resolving a b" "state_of a ep = Some (Some Awaiting_Fix)"
proof -
  obtain r where r: "get_row a ep = Some r" "lv_state r = Some Awaiting_Fix"
    using assms by (auto simp: claim_resolve_def list_ex_iff get_row_def split: if_splits)
  then show "state_of a ep = Some (Some Awaiting_Fix)" by (simp add: state_of_def)
  have b: "b = (map_row (\<lambda>r. if lv_state r = Some Awaiting_Fix
      then r\<lparr>lv_state := Some Resolving, lv_entered := Some now\<rparr> else r) ep a)\<lparr>ap_timers := AList.delete ep (ap_timers a)\<rparr>"
    using assms by (auto simp: claim_resolve_def split: if_splits)
  show "sets ep Resolving a b"
    using r unfolding sets_def b by (auto simp: state_of_def fun_eq_iff delete_conv')
qed

lemma ok_set_failed:
  assumes "lifecycle_ok a" "owners a ep = 0"
  shows "lifecycle_ok (set_episode_state now ep Failed id a)"
  by (rule ok_sets[OF assms(1) sets_set_state assms(2)]) (simp_all add: past_def live_def)

lemma ids_frame [simp]:
  "List.map fst (ap_rows (map_row f ep a)) = List.map fst (ap_rows a)"
  "ap_rows (start_thread th a) = ap_rows a" "ap_rows (end_thread th a) = ap_rows a"
  "ap_rows (api_audit r x y ip a) = ap_rows a"
  "List.map fst (ap_rows (set_episode_state now ep st f a)) = List.map fst (ap_rows a)"
  "List.map fst (ap_rows (logout caller a)) = List.map fst (ap_rows a)"
  by (simp_all add: map_row_def start_thread_def end_thread_def api_audit_def set_episode_state_def Let_def
      logout_def comp_def case_prod_unfold)

lemma in_flight_live: "in_state non_terminal_states r \<longleftrightarrow> live (Some (lv_state r))"
  by (auto simp: in_state_def non_terminal_states_def live_def split: option.split)

lemma flying_rows:
  assumes "lifecycle_ok a" "distinct (List.map fst (ap_rows a))"
  shows "filter (\<lambda>(e, r). in_state non_terminal_states r) (ap_rows a) = [] \<or>
    (\<exists>ep r. filter (\<lambda>(e, r). in_state non_terminal_states r) (ap_rows a) = [(ep, r)] \<and>
       get_row a ep = Some r \<and> live (Some (lv_state r)))"
proof -
  let ?F = "filter (\<lambda>(e, r). in_state non_terminal_states r) (ap_rows a)"
  have g: "get_row a e = Some r" "live (Some (lv_state r))" if "(e, r) \<in> set ?F" for e r
    using that assms(2) by (auto simp: get_row_def in_flight_live)
  have "e = e'" if "(e, r) \<in> set ?F" "(e', r') \<in> set ?F" for e e' r r'
    using g[OF that(1)] g[OF that(2)] assms(1) by (auto simp: lifecycle_ok_def state_of_def)
  moreover have d: "distinct (List.map fst ?F)" using assms(2) by (rule distinct_map_filter)
  ultimately have "?F \<noteq> x # y # zs" for x y zs
    by (cases x; cases y) (metis distinct_length_2_or_more list.set_intros list.simps(9) fst_conv)
  then have "length ?F \<le> 1" by (cases ?F; cases "tl ?F") auto
  then consider "?F = []" | p where "?F = [p]"
    by (cases ?F; cases "tl ?F") auto
  then show ?thesis
  proof cases
    case 2
    then show ?thesis using g[of "fst p" "snd p"] by (cases p) auto
  qed simp
qed

lemma free_lock:
  assumes "in_flight_episode_row now a = Inr None"
  shows "\<not> live (state_of a e)"
proof
  assume l: "live (state_of a e)"
  then obtain r where r: "(e, r) \<in> set (ap_rows a)" "in_state non_terminal_states r"
    by (auto simp: state_of_def in_flight_live live_def get_row_def dest: map_of_SomeD)
  then have "find (\<lambda>(e, r). in_state non_terminal_states r) (ap_rows a) \<noteq> None"
    by (auto simp: find_None_iff)
  with assms show False by (auto simp: in_flight_episode_row_def split: option.splits)
qed

lemma ok_insert:
  assumes "lifecycle_ok a" "get_row a ep = None" "trigger_insert now ep cls caller ip a = (Inr (), b)"
  shows "lifecycle_ok (start_thread (Inserted ep caller ip cls) (end_thread th b))"
    "List.map fst (ap_rows b) = List.map fst (ap_rows a) @ [ep]"
proof -
  from assms(3) obtain cfg where f: "in_flight_episode_row now a = Inr None"
    and b: "b = a\<lparr>ap_rows := ap_rows a @ [(ep, new_row now cls cfg (tp_username caller))]\<rparr>"
    by (auto simp: trigger_insert_def split: option.splits sum.splits)
  then show "List.map fst (ap_rows b) = List.map fst (ap_rows a) @ [ep]" by simp
  have s: "state_of b e = (if e = ep then Some (Some Injecting) else state_of a e)" for e
    using assms(2) by (auto simp: state_of_def b get_row_def map_add_def new_row_def split: option.split)
  have n: "state_of a ep = None" using assms(2) by (simp add: state_of_def)
  have "lifecycle_ok (end_thread th a)" by (rule ok_end[OF assms(1)])
  moreover have "owners (end_thread th b) e = owners (end_thread th a) e" for e
    by (simp add: b owners_def end_thread_def)
  moreover have "ap_threads (end_thread th b) = ap_threads (end_thread th a)" "ap_timers b = ap_timers a"
    by (simp_all add: b)
  moreover have "owners (end_thread th a) ep = 0"
    using ok_end[OF assms(1), of th] n by (auto simp: lifecycle_ok_def early_def dest: spec[of _ ep])
  moreover have "map_of (ap_timers a) ep = None"
    using assms(1) n by (auto simp: lifecycle_ok_def past_def dom_def dest: spec[of _ ep])
  ultimately show "lifecycle_ok (start_thread (Inserted ep caller ip cls) (end_thread th b))"
    using free_lock[OF f] n unfolding lifecycle_ok_def
    by (auto simp: s past_def early_def live_def dest: spec[of _ ep] split: if_splits)
qed

lemma early_not_late: "early_of th = Some e \<Longrightarrow> late_of th = None"
  by (cases th) auto

lemma ok_start_early:
  assumes "lifecycle_ok a" "owners a ep = 0" "early (state_of a ep)" "early_of th = Some ep"
  shows "lifecycle_ok (start_thread th a)"
proof -
  have "owners (start_thread th a) e \<le> (if early (state_of a e) then 1 else 0)" for e
    using assms by (cases "e = ep") (auto simp: lifecycle_ok_def dest: spec[of _ e])
  then show ?thesis
    using assms(1) early_not_late[OF assms(4)] unfolding lifecycle_ok_def by auto
qed

lemma ok_hold:
  assumes "lifecycle_ok a" "early (state_of a ep)" "sets ep Holding a b" "ap_timers b = ap_timers a"
  shows "lifecycle_ok b"
proof -
  have s: "state_of b = (state_of a)(ep := Some (Some Holding))"
    using assms(2,3) by (auto simp: sets_def early_def fun_eq_iff)
  have "live (state_of b e) = live (state_of a e)" "early (state_of b e) = early (state_of a e)"
      "past (state_of b e) = past (state_of a e)" for e
    using assms(2) by (auto simp: s early_def live_def past_def)
  moreover have "ap_threads b = ap_threads a" using assms(3) by (simp add: sets_def)
  ultimately show ?thesis using assms(1,4) by (simp add: lifecycle_ok_def owners_def)
qed

text \<open>What a thread that owned its row does last.\<close>

lemma ok_leave:
  assumes "lifecycle_ok a" "th \<in> set (ap_threads a)" "early_of th = Some ep"
  shows "f \<in> insert id (range by_col) \<Longrightarrow> lifecycle_ok (set_episode_state now ep Failed f (end_thread th a))"
    and "late_of th' = Some ep \<Longrightarrow> early_of th' = None \<Longrightarrow>
      lifecycle_ok (start_thread th' (set_episode_state now ep Awaiting_Fix id (end_thread th a)))"
proof -
  note o = owner_alone[OF assms] and e = ok_end[OF assms(1), of th]
  show "lifecycle_ok (set_episode_state now ep Failed f (end_thread th a))" if "f \<in> insert id (range by_col)"
    by (rule ok_sets[OF e sets_set_state o(1)]) (use that in \<open>auto simp: past_def live_def\<close>)
  have "lifecycle_ok (set_episode_state now ep Awaiting_Fix id (end_thread th a))"
    by (rule ok_sets[OF e sets_set_state o(1)]) (use early_live(1)[OF o(2)] in \<open>auto simp: past_def\<close>)
  then show "lifecycle_ok (start_thread th' (set_episode_state now ep Awaiting_Fix id (end_thread th a)))"
    if "late_of th' = Some ep" "early_of th' = None"
    by (rule ok_start) (use that o(2) in \<open>auto simp: past_def early_def\<close>)
qed

lemma ok_finish:
  assumes "lifecycle_ok a" "Scoring ep by g snap \<in> set (ap_threads a)"
  shows "lifecycle_ok (finish_resolve now ep by x (end_thread (Scoring ep by g snap) a))"
    "past (state_of (finish_resolve now ep by x (end_thread (Scoring ep by g snap) a)) ep)"
proof -
  have o: "owners (end_thread (Scoring ep by g snap) a) ep = 0" "past (state_of a ep)"
    using late_past[OF assms] by simp_all
  show "lifecycle_ok (finish_resolve now ep by x (end_thread (Scoring ep by g snap) a))"
    unfolding finish_resolve_def
    by (rule ok_sets[OF ok_end[OF assms(1)] sets_set_state o(1)]) (auto simp: past_def live_def split: if_splits)
  show "past (state_of (finish_resolve now ep by x (end_thread (Scoring ep by g snap) a)) ep)"
    using o(2) by (auto simp: finish_resolve_def past_def)
qed

lemma ok_caught:
  assumes "lifecycle_ok a" "th \<in> set (ap_threads a)" "guarded th = Some ep"
  shows "lifecycle_ok (set_episode_state now ep Failed id (end_thread th a))"
proof (rule ok_set_failed[OF ok_end[OF assms(1)]])
  have "early_of th = Some ep \<or> late_of th = Some ep" using assms(3) by (cases th) (auto split: if_splits)
  then show "owners (end_thread th a) ep = 0"
    using owner_alone(1)[OF assms(1,2)] late_past(2)[OF assms(1,2)] by auto
qed

text \<open>At most one row is live, so reconciliation meets at most one.\<close>

lemma fresh_ok: "lifecycle_ok a \<Longrightarrow> lifecycle_ok (fresh_process a)"
  by (auto simp: lifecycle_ok_def owners_def fresh_process_def state_of_def)

lemma fresh_simps [simp]:
  "ap_threads (fresh_process a) = []" "ap_timers (fresh_process a) = []" "owners (fresh_process a) e = 0"
  "get_row (fresh_process a) e = get_row a e" "ap_rows (fresh_process a) = ap_rows a"
  "ap_evidence (fresh_process a) = ap_evidence a"
  by (simp_all add: fresh_process_def owners_def get_row_def)

lemma ok_arm: "lifecycle_ok a \<Longrightarrow> past (state_of a ep) \<Longrightarrow> lifecycle_ok (arm_timer now ep t a)"
  by (auto simp: lifecycle_ok_def arm_timer_def owners_def update_conv' split: if_splits)

lemma ok_reconcile_row:
  assumes ok: "lifecycle_ok a" and r: "get_row a ep = Some r" and n: "owners a ep = 0"
  shows "lifecycle_ok (reconcile_one_row now alive (ep, r) a)"
proof -
  have s: "state_of a ep = Some (lv_state r)" using r by (simp add: state_of_def)
  have f: "lifecycle_ok (set_episode_state now ep Failed id a)" by (rule ok_set_failed[OF ok n])
  have t: "lifecycle_ok (set_episode_state now ep (if b then Resolved else Failed) (by_col c) a)" for b c
    by (rule ok_sets[OF ok sets_set_state n]) (auto simp: past_def live_def split: if_splits)
  have aw: "lifecycle_ok (start_thread (Calling ep ''auto_resolve'' False) (set_episode_state now ep Awaiting_Fix id a))"
    if "early (state_of a ep)"
  proof (rule ok_start)
    show "lifecycle_ok (set_episode_state now ep Awaiting_Fix id a)"
      by (rule ok_sets[OF ok sets_set_state n]) (use early_live(1)[OF that] in \<open>auto simp: past_def\<close>)
  qed (use that in \<open>auto simp: past_def early_def\<close>)
  have orph: "lifecycle_ok (start_thread (Orphaned ep pid) a)" if "early (state_of a ep)" for pid
    by (rule ok_start_early[OF ok n that]) simp
  have call: "lifecycle_ok (start_thread (Calling ep ''auto_resolve'' False) a)" if "past (state_of a ep)"
    by (rule ok_start[OF ok]) (use that in auto)
  show ?thesis
    using ok f t[of True, simplified] t[of False, simplified] aw orph call ok_arm[OF ok, of ep]
    by (auto simp: reconcile_one_row_def s Let_def early_def past_def split: option.split)
qed

lemma ids_reconcile_row [simp]:
  "List.map fst (ap_rows (reconcile_one_row now alive row a)) = List.map fst (ap_rows a)"
  by (cases row) (auto simp: reconcile_one_row_def Let_def arm_timer_def split: option.split)

lemma ok_reconcile:
  assumes "lifecycle_ok a" "distinct (List.map fst (ap_rows a))"
  shows "lifecycle_ok (reconcile_on_startup now alive a)"
    "List.map fst (ap_rows (reconcile_on_startup now alive a)) = List.map fst (ap_rows a)"
  using flying_rows[OF assms] ok_reconcile_row[OF fresh_ok[OF assms(1)]] fresh_ok[OF assms(1)]
  by (auto simp: reconcile_on_startup_def)

lemma same_rows:
  "trigger_checks now steady cls caller ip a = (x, a') \<Longrightarrow> ap_rows a' = ap_rows a"
  "trigger_insert now ep cls caller ip a = (Inl code, a') \<Longrightarrow> ap_rows a' = ap_rows a"
  "trigger_resolve ep caller a = (answer, a') \<Longrightarrow> ap_rows a' = ap_rows a"
  by (auto simp: trigger_checks_def trigger_insert_def trigger_resolve_def Let_def
      split: if_splits option.splits sum.splits)

lemma ids_ops [simp]:
  "List.map fst (ap_rows (hold_tick ep cls confirmed a)) = List.map fst (ap_rows a)"
  "List.map fst (ap_rows (injector_ended now ep w a)) = List.map fst (ap_rows a)"
  "List.map fst (ap_rows (injector_started now ep cls pid a)) = List.map fst (ap_rows a)"
  "List.map fst (ap_rows (finish_resolve now ep by x a)) = List.map fst (ap_rows a)"
  "List.map fst (ap_rows (republished now ep ok a)) = List.map fst (ap_rows a)"
  "List.map fst (ap_rows (classify_orphan now ep a)) = List.map fst (ap_rows a)"
  "ap_rows (trigger_begin now ep cls caller ip a) = ap_rows a"
  "ap_rows (arm_timer now ep t a) = ap_rows a"
  "List.map fst (ap_rows (snd (claim_resolve now ep a))) = List.map fst (ap_rows a)"
  "List.map fst (ap_rows (snd (trigger_stop_hold ep caller a))) = List.map fst (ap_rows a)"
  by (auto simp: hold_tick_def injector_ended_def injector_started_def finish_resolve_def republished_def
      classify_orphan_def trigger_begin_def claim_resolve_def trigger_stop_hold_def arm_timer_def Let_def
      split: option.split wrapped.split)

lemma step_ids:
  assumes "api_step faults restarts a b" "distinct (List.map fst (ap_rows a))" "lifecycle_ok a"
  shows "distinct (List.map fst (ap_rows b))"
  using assms
proof cases
  case (inserted caller ip cls ep now a')
  then show ?thesis
    using ok_insert(2)[OF assms(3) inserted(3,4)] assms(2) by (simp add: get_row_def map_of_eq_None_iff)
next
  case (batch_recorded ep r)
  then show ?thesis using assms(2) by (simp add: get_row_def map_of_eq_None_iff)
next
  case (lost ep "by" g now a')
  then show ?thesis using assms(2) ids_ops(9)[of now ep a] by simp
next
  case (claimed ep "by" g now a')
  then show ?thesis using assms(2) ids_ops(9)[of now ep a] by simp
next
  case (stop_clicked ep caller answer)
  then show ?thesis using assms(2) ids_ops(10)[of ep caller a] by simp
next
  case (restarted now alive)
  then show ?thesis using ok_reconcile(2)[OF assms(3,2)] assms(2) by simp
qed (simp_all add: same_rows)

lemma begin_as_start:
  "\<exists>c. same a c \<and> trigger_begin now ep cls caller ip a = start_thread (Spawning ep cls) c"
proof -
  define a1 where "a1 = (if tp_role caller = ''demo-trigger'' then a\<lparr>ap_demo := ap_demo a @ [(ip, seconds now)]\<rparr> else a)"
  define why where "why = ''fault_class='' @ cls @ '' episode_id='' @ ep"
  define a2 where "a2 = api_audit (tp_role caller) ''/trigger/inject'' why (Some ip) a1"
  define a3 where "a3 = (if cls = ''memory-leak'' then a2\<lparr>ap_leak_paused := True\<rparr> else a2)"
  have "same a a1" by (simp add: same_update a1_def)
  then have "same a a2" unfolding a2_def by (rule same_trans[OF _ same_update(1)])
  then have "same a a3" unfolding a3_def by (cases "cls = ''memory-leak''") (simp_all only: if_True if_False same_trans[OF _ same_update(2)] simp_thms)
  moreover have "trigger_begin now ep cls caller ip a = start_thread (Spawning ep cls) a3"
    unfolding trigger_begin_def Let_def a1_def[symmetric] why_def[symmetric] a2_def[symmetric] a3_def[symmetric] ..
  ultimately show ?thesis by blast
qed

lemma same_recorded:
  "state_of (map_row (\<lambda>r. r\<lparr>lv_t0 := Some t0, lv_chaos := Some chaos\<rparr>) ep a) = state_of a"
  by (simp add: fun_eq_iff state_of_def option.map_comp comp_def)

lemma ok_cong:
  assumes "lifecycle_ok a" "state_of b = state_of a" "ap_threads b = ap_threads a" "ap_timers b = ap_timers a"
  shows "lifecycle_ok b"
  using assms by (simp add: lifecycle_ok_def owners_def)

lemma ok_early_step:
  assumes "lifecycle_ok a" "th \<in> set (ap_threads a)" "early_of th = Some ep" "early_of th' = Some ep"
    and "same (end_thread th a) b \<or>
      sets ep Holding (end_thread th a) b \<and> ap_timers b = ap_timers (end_thread th a)"
  shows "lifecycle_ok (start_thread th' b)"
proof -
  note o = owner_alone[OF assms(1-3)] and e = ok_end[OF assms(1), of th]
  have "lifecycle_ok b" "early (state_of b ep)" "ap_threads b = ap_threads (end_thread th a)"
    using assms(5) ok_same[OF e] ok_hold[OF e] o(2) by (auto simp: same_def sets_def early_def)
  moreover from this(3) have "owners b ep = 0" using o(1) by (simp add: owners_def)
  ultimately show ?thesis using ok_start_early assms(4) by blast
qed

theorem step_ok:
  assumes "api_step faults restarts a b" "lifecycle_ok a" "distinct (List.map fst (ap_rows a))"
  shows "lifecycle_ok b"
  using assms
proof cases
  case (refused now steady cls caller ip code)
  then show ?thesis using ok_same[OF assms(2) same_checks] by simp
next
  case (admitted now steady cls caller ip a')
  then show ?thesis using ok_start[OF ok_same[OF assms(2) same_checks[OF admitted(2)]]] by simp
next
  case (busy caller ip cls now ep code a')
  then show ?thesis using ok_end[OF ok_same[OF assms(2) same_busy]] by simp
next
  case (inserted caller ip cls ep now a')
  then show ?thesis using ok_insert(1)[OF assms(2)] by simp
next
  case (begun ep caller ip cls now)
  obtain c where "same (end_thread (Inserted ep caller ip cls) a) c"
    "b = start_thread (Spawning ep cls) c"
    using begin_as_start[of "end_thread (Inserted ep caller ip cls) a"] begun(1) by metis
  then show ?thesis using ok_early_step[OF assms(2) begun(2)] by simp
next
  case (spawned ep cls now pid)
  then show ?thesis
    using ok_early_step[OF assms(2) spawned(2)]
    by (simp add: injector_started_def sets_set_state same_map_row)
next
  case (ticked ep cls pid deadline confirmed)
  then show ?thesis using ok_same[OF assms(2) same_tick] by simp
next
  case (ended ep cls pid deadline x now)
  then show ?thesis
    using ok_leave[OF assms(2) ended(2)]
    by (simp add: injector_ended_def split: wrapped.split)
next
  case (armed ep now)
  then show ?thesis
    using ok_arm[OF ok_end[OF assms(2)]] late_past(1)[OF assms(2) armed(2)] by simp
next
  case (fired ep due now)
  have "lifecycle_ok (a\<lparr>ap_timers := AList.delete ep (ap_timers a)\<rparr>)"
    using assms(2) by (auto simp: lifecycle_ok_def owners_def delete_conv' split: if_splits)
  moreover have "past (state_of a ep)" using fired(2) assms(2) by (auto simp: lifecycle_ok_def)
  ultimately show ?thesis using fired(1) by (auto intro: ok_start)
next
  case (lost ep "by" g now a')
  then show ?thesis using ok_end[OF assms(2)] by (auto simp: claim_resolve_def split: if_splits)
next
  case (claimed ep "by" g now a')
  note c = sets_claim[OF claimed(3) assms(3)]
  have "lifecycle_ok a'"
    by (rule ok_sets[OF assms(2) c(1)]) (use c(2) late_past[OF assms(2) claimed(2)] in \<open>auto simp: past_def live_def\<close>)
  moreover have "past (state_of a' ep)" using c by (simp add: sets_def past_def)
  ultimately show ?thesis using claimed(1) ok_end ok_start by simp
next
  case (planned ep "by" g snap)
  then show ?thesis using ok_start[OF ok_end[OF assms(2)]] late_past(1)[OF assms(2) planned(2)] by simp
next
  case (scored ep "by" g snap now x)
  then show ?thesis using ok_finish(1)[OF assms(2)] by simp
next
  case (resolved ep "by" g snap now)
  then show ?thesis using ok_start ok_finish[OF assms(2) resolved(2)] by simp
next
  case (published ep g now ok)
  then show ?thesis using ok_same[OF ok_end[OF assms(2)] same_republished] by simp
next
  case (orphan_gone ep pid now)
  then show ?thesis
    using ok_leave[OF assms(2) orphan_gone(2)] by (simp add: classify_orphan_def split: option.split)
next
  case (caught th ep now)
  then show ?thesis using ok_caught[OF assms(2)] by simp
next
  case (stop_clicked ep caller answer)
  then show ?thesis using ok_same[OF assms(2) same_stop] by simp
next
  case (resolve_clicked ep caller answer)
  then show ?thesis
    using ok_same[OF assms(2) same_update(1)]
    by (auto simp: trigger_resolve_def Let_def past_def state_of_def split: option.splits if_splits intro!: ok_start)
next
  case logged_out
  then show ?thesis using ok_same[OF assms(2) same_logout] by simp
next
  case (injector_recorded t0 chaos ep)
  then show ?thesis using ok_cong[OF assms(2) same_recorded] by simp
next
  case (scorer_recorded ep)
  then show ?thesis using ok_same[OF assms(2) same_update(5)] by simp
next
  case (evidence_recorded x ep)
  then show ?thesis using ok_cong[OF assms(2)] by (simp add: state_of_def fun_eq_iff)
next
  case (batch_recorded ep r)
  have "state_of b = (state_of a)(ep := Some None)"
    using batch_recorded by (auto simp: state_of_def get_row_def map_add_def fun_eq_iff split: option.split)
  moreover have "state_of a ep = None" using batch_recorded(2) by (simp add: state_of_def)
  ultimately have "live (state_of b e) = live (state_of a e)" "early (state_of b e) = early (state_of a e)"
      "past (state_of b e) = past (state_of a e)" for e
    by (simp_all add: live_def early_def past_def)
  then show ?thesis
    using assms(2) batch_recorded(1) by (simp add: lifecycle_ok_def owners_def)
next
  case (restarted now alive)
  then show ?thesis using ok_reconcile(1)[OF assms(2,3)] by simp
qed (simp_all add: ok_end[OF assms(2)])

end
