(* ===== verification/Live_Properties.thy ===== *)
theory Live_Properties
  imports Live_Episode
begin

text \<open>
  What \<^verbatim>\<open>operator_api.py\<close> keeps true of its episodes whatever the interleaving: one episode in
  flight, one resolver, a thread or a timer behind every row that is not finished, and what an
  exception nobody catches does to that; the caps, the snapshot time and the overrides.
\<close>

section \<open>Every unfinished row is somebody's business\<close>

fun duty :: "thread \<Rightarrow> (string \<times> nat) option" where
  "duty (Inserted ep c ip cls) = Some (ep, 0)"
| "duty (Spawning ep cls) = Some (ep, 0)"
| "duty (Watching ep cls pid d) = Some (ep, 0)"
| "duty (Orphaned ep pid) = Some (ep, 0)"
| "duty (Arming ep) = Some (ep, 1)"
| "duty (Calling ep by g) = Some (ep, 1)"
| "duty (Claimed ep by g) = Some (ep, 2)"
| "duty (Scoring ep by g snap) = Some (ep, 2)"
| "duty (Admitted c ip cls) = None"
| "duty (Publishing ep g) = None"

definition stage :: "ep_state option option \<Rightarrow> nat option" where
  "stage s = (case s of Some (Some Injecting) \<Rightarrow> Some 0 | Some (Some Holding) \<Rightarrow> Some 0
     | Some (Some Awaiting_Fix) \<Rightarrow> Some 1 | Some (Some Resolving) \<Rightarrow> Some 2 | _ \<Rightarrow> None)"

definition covered :: "api \<Rightarrow> string \<Rightarrow> nat \<Rightarrow> bool" where
  "covered a ep k \<longleftrightarrow> (\<exists>th \<in> set (ap_threads a). duty th = Some (ep, k)) \<or>
     k = 1 \<and> ep \<in> dom (map_of (ap_timers a))"

definition watched :: "api \<Rightarrow> bool" where
  "watched a \<longleftrightarrow> (\<forall>ep k. stage (state_of a ep) = Some k \<longrightarrow> covered a ep k)"

text \<open>What the watchers rely on: the columns their state promises and readable evidence.\<close>

definition t0_of :: "api \<Rightarrow> string \<Rightarrow> int option option" where
  "t0_of a ep = map_option lv_t0 (get_row a ep)"

definition dated :: "api \<Rightarrow> bool" where
  "dated a \<longleftrightarrow> (\<forall>ep r. get_row a ep = Some r \<longrightarrow>
     (stage (Some (lv_state r)) \<noteq> None \<longrightarrow> lv_entered r \<noteq> None) \<and>
     (stage (Some (lv_state r)) \<in> {Some 1, Some 2} \<longrightarrow> lv_t0 r \<noteq> None)) \<and>
     (\<forall>ep. map_of (ap_evidence a) ep \<noteq> Some None)"

lemma datedD:
  assumes "dated a" "get_row a ep = Some r"
  shows "stage (Some (lv_state r)) \<noteq> None \<Longrightarrow> lv_entered r \<noteq> None"
    "stage (Some (lv_state r)) \<in> {Some 1, Some 2} \<Longrightarrow> lv_t0 r \<noteq> None"
  using assms unfolding dated_def by blast+

lemma stage_simps [simp]:
  "stage None = None" "stage (Some None) = None" "stage (Some (Some Injecting)) = Some 0"
  "stage (Some (Some Holding)) = Some 0" "stage (Some (Some Awaiting_Fix)) = Some 1"
  "stage (Some (Some Resolving)) = Some 2" "stage (Some (Some Resolved)) = None"
  "stage (Some (Some Failed)) = None"
  by (simp_all add: stage_def)

lemma stage_live: "live s \<longleftrightarrow> stage s \<noteq> None"
  by (auto simp: live_def stage_def split: option.splits ep_state.splits)

lemma stage_early: "stage s = Some 0 \<longleftrightarrow> early s" "early s \<Longrightarrow> stage s = Some 0"
  by (auto simp: early_def stage_def split: option.splits ep_state.splits)

text \<open>One thread ends or none, one row changes or none.\<close>

lemma watched_step:
  assumes "watched a"
    and "\<And>t. t \<in> set (ap_threads a) \<Longrightarrow> t \<in> set (ap_threads b) \<or> (case duty t of None \<Rightarrow> True | Some (e, _) \<Rightarrow> e = ep)"
    and "\<And>e. e \<noteq> ep \<Longrightarrow> state_of b e = state_of a e"
    and "\<And>e. e \<noteq> ep \<Longrightarrow> e \<in> dom (map_of (ap_timers a)) \<Longrightarrow> e \<in> dom (map_of (ap_timers b))"
    and "\<And>k. stage (state_of b ep) = Some k \<Longrightarrow> covered b ep k"
  shows "watched b"
  unfolding watched_def
proof (intro allI impI)
  fix e k
  assume s: "stage (state_of b e) = Some k"
  show "covered b e k"
  proof (cases "e = ep")
    case False
    then have "covered a e k" using s assms(1,3) by (simp add: watched_def)
    then show ?thesis using assms(2,4) False by (fastforce simp: covered_def)
  qed (use s assms(5) in simp)
qed

lemma watched_same: "watched a \<Longrightarrow> same a b \<Longrightarrow> watched b"
  by (simp add: watched_def covered_def same_def)

lemma in_remove1: "t \<in> set xs \<Longrightarrow> t \<in> set (remove1 x xs) \<or> t = x"
  by (cases "t = x") auto

lemma watched_end:
  assumes "watched a" "\<forall>e k. duty th = Some (e, k) \<longrightarrow> stage (state_of a e) \<noteq> Some k"
  shows "watched (end_thread th a)"
proof -
  have "t \<in> set (ap_threads (end_thread th a)) \<or> t = th" if "t \<in> set (ap_threads a)" for t
    using in_remove1[OF that] by simp
  then show ?thesis
    using assms unfolding watched_def covered_def by (simp only: threads_frame state_of_frame) (metis in_remove1)
qed

lemma watched_start: "watched a \<Longrightarrow> watched (start_thread th a)"
  by (auto simp: watched_def covered_def)

text \<open>A thread \<open>th\<close> with a duty for \<open>ep\<close> ends, the row of \<open>ep\<close> gets a state and \<open>th'\<close> starts.\<close>

lemma watched_turn:
  assumes w: "watched a" and th: "duty th = Some (ep, k) \<or> duty th = None"
    and b: "ap_threads b = remove1 th (ap_threads a)"
      "\<And>e. e \<noteq> ep \<Longrightarrow> state_of b e = state_of a e"
      "\<And>e. e \<noteq> ep \<Longrightarrow> map_of (ap_timers b) e = map_of (ap_timers a) e"
  shows "stage (state_of b ep) = None \<Longrightarrow> watched b"
    and "duty th' = Some (ep, j) \<Longrightarrow> stage (state_of b ep) \<in> {None, Some j} \<Longrightarrow> watched (start_thread th' b)"
proof -
  have keep: "t \<in> set (ap_threads b) \<or> (case duty t of None \<Rightarrow> True | Some (e, _) \<Rightarrow> e = ep)"
    if "t \<in> set (ap_threads a)" for t
    using in_remove1[OF that, of th] th b(1) by auto
  show "watched b" if "stage (state_of b ep) = None"
    by (rule watched_step[OF w, of b ep]) (use keep b that in \<open>auto simp: dom_def\<close>)
  show "watched (start_thread th' b)"
    if "duty th' = Some (ep, j)" "stage (state_of b ep) \<in> {None, Some j}"
  proof (rule watched_step[OF w, of "start_thread th' b" ep])
    show "t \<in> set (ap_threads (start_thread th' b)) \<or> (case duty t of None \<Rightarrow> True | Some (e, _) \<Rightarrow> e = ep)"
      if "t \<in> set (ap_threads a)" for t using keep[OF that] by auto
    show "covered (start_thread th' b) ep i" if "stage (state_of (start_thread th' b) ep) = Some i" for i
      using that \<open>duty th' = Some (ep, j)\<close> \<open>stage (state_of b ep) \<in> _\<close> by (auto simp: covered_def)
  qed (use b in \<open>auto simp: dom_def\<close>)
qed

lemma duty_early: "early_of th = Some ep \<longleftrightarrow> duty th = Some (ep, 0)"
  by (cases th) auto

lemma watched_frame:
  assumes "state_of b = state_of a" "ap_threads b = ap_threads a" "ap_timers b = ap_timers a"
  shows "watched b = watched a"
  using assms by (simp add: watched_def covered_def)

text \<open>A thread that owned its row hands it on, or ends it.\<close>

lemma watched_leave:
  assumes "watched a" "duty th = Some (ep, k)"
  shows "f \<in> insert id (range by_col) \<Longrightarrow> watched (set_episode_state now ep Failed f (end_thread th a))"
    "f \<in> insert id (range by_col) \<Longrightarrow> watched (set_episode_state now ep Resolved f (end_thread th a))"
    "duty th' = Some (ep, 1) \<Longrightarrow>
      watched (start_thread th' (set_episode_state now ep Awaiting_Fix id (end_thread th a)))"
proof -
  have f: "lv_state (f r) = lv_state r \<and> lv_t0 (f r) = lv_t0 r \<and> lv_entered (f r) = lv_entered r"
    if "f \<in> insert id (range by_col)" for r :: live_row and f
    using that by (auto simp: by_col_def)
  have st: "stage (map_option (\<lambda>_. Some s) x) \<in> {None, stage (Some (Some s))}" for s and x :: "ep_state option option"
    by (cases x) auto
  show "watched (set_episode_state now ep Failed f (end_thread th a))" if "f \<in> insert id (range by_col)"
    by (rule watched_turn(1)[OF assms(1) disjI1[OF assms(2)]])
       (use st[of Failed] in \<open>auto simp: set_state_simps[OF f[OF that]]\<close>)
  show "watched (set_episode_state now ep Resolved f (end_thread th a))" if "f \<in> insert id (range by_col)"
    by (rule watched_turn(1)[OF assms(1) disjI1[OF assms(2)]])
       (use st[of Resolved] in \<open>auto simp: set_state_simps[OF f[OF that]]\<close>)
  show "watched (start_thread th' (set_episode_state now ep Awaiting_Fix id (end_thread th a)))"
    if "duty th' = Some (ep, 1)"
    by (rule watched_turn(2)[OF assms(1) disjI1[OF assms(2)] _ _ _ that])
       (use st[of Awaiting_Fix] in auto)
qed

section \<open>The columns\<close>

lemma dated_rows:
  assumes "dated a" "ap_evidence b = ap_evidence a"
    and "\<And>ep r'. get_row b ep = Some r' \<Longrightarrow> \<exists>r. get_row a ep = Some r \<and>
      (stage (Some (lv_state r')) \<noteq> None \<longrightarrow> lv_entered r' = None \<longrightarrow> stage (Some (lv_state r)) \<noteq> None \<and> lv_entered r = None) \<and>
      (stage (Some (lv_state r')) \<in> {Some 1, Some 2} \<longrightarrow> lv_t0 r' = None \<longrightarrow>
        stage (Some (lv_state r)) \<in> {Some 1, Some 2} \<and> lv_t0 r = None)"
  shows "dated b"
  using assms unfolding dated_def by (metis (no_types, lifting))

lemma dated_same:
  assumes "dated a" "same a b"
  shows "dated b"
proof (rule dated_rows[OF assms(1)])
  show "ap_evidence b = ap_evidence a" using assms(2) by (simp add: same_def)
  fix ep r'
  assume r': "get_row b ep = Some r'"
  have eq: "map_option lv_state (get_row b ep) = map_option lv_state (get_row a ep)"
    "map_option lv_t0 (get_row b ep) = map_option lv_t0 (get_row a ep)"
    "map_option (\<lambda>r. lv_entered r = None) (get_row b ep) = map_option (\<lambda>r. lv_entered r = None) (get_row a ep)"
    using assms(2) by (auto simp: same_def state_of_def fun_eq_iff)
  with r' obtain r where r: "get_row a ep = Some r" by (cases "get_row a ep") auto
  with r' eq show "\<exists>r. get_row a ep = Some r \<and>
      (stage (Some (lv_state r')) \<noteq> None \<longrightarrow> lv_entered r' = None \<longrightarrow> stage (Some (lv_state r)) \<noteq> None \<and> lv_entered r = None) \<and>
      (stage (Some (lv_state r')) \<in> {Some 1, Some 2} \<longrightarrow> lv_t0 r' = None \<longrightarrow>
        stage (Some (lv_state r)) \<in> {Some 1, Some 2} \<and> lv_t0 r = None)"
    by auto
qed

lemma dated_frame [simp]:
  "dated (start_thread th a) = dated a" "dated (end_thread th a) = dated a" "dated (a\<lparr>ap_timers := m\<rparr>) = dated a"
  "dated (fresh_process a) = dated a"
  by (simp_all add: dated_def)

lemma dated_set:
  assumes "dated a" "\<And>r. lv_state (f r) = lv_state r \<and> lv_t0 (f r) = lv_t0 r \<and> lv_entered (f r) = lv_entered r"
    and "\<And>r. get_row a ep = Some r \<Longrightarrow> stage (Some (Some st)) \<in> {Some 1, Some 2} \<Longrightarrow> lv_t0 r \<noteq> None"
  shows "dated (set_episode_state now ep st f a)"
proof -
  have r: "get_row (set_episode_state now ep st f a) e =
      (if e = ep then map_option (\<lambda>r. f (r\<lparr>lv_state := Some st, lv_entered := Some now\<rparr>)) (get_row a e) else get_row a e)" for e
    by (simp add: set_episode_state_def Let_def)
  show ?thesis
    using assms unfolding dated_def r
    by (auto simp: set_state_simps(4)[OF assms(2)] split: if_splits)
qed

text \<open>The claim keeps the columns and dates the row.\<close>

lemma claim_cases:
  assumes "claim_resolve now ep a = (True, b)"
  shows "ap_threads b = ap_threads a" "ap_evidence b = ap_evidence a"
    "e \<noteq> ep \<Longrightarrow> map_of (ap_timers b) e = map_of (ap_timers a) e"
    "get_row b e = (if e = ep then map_option (\<lambda>r. if lv_state r = Some Awaiting_Fix
       then r\<lparr>lv_state := Some Resolving, lv_entered := Some now\<rparr> else r) (get_row a e) else get_row a e)"
  using assms by (auto simp: claim_resolve_def delete_conv' split: if_splits)

lemma dated_claim:
  assumes "dated a" "claim_resolve now ep a = (True, b)"
  shows "dated b"
proof -
  note c = claim_cases[OF assms(2)]
  show ?thesis
    using assms(1) unfolding dated_def c(2) c(4) by (auto split: if_splits)
qed

lemma claim_lost:
  assumes "claim_resolve now ep a = (False, b)"
  shows "b = a" "state_of a ep \<noteq> Some (Some Awaiting_Fix)"
  using assms
  by (auto simp: claim_resolve_def state_of_def get_row_def list_ex_iff split: if_splits dest: map_of_SomeD)

text \<open>With the columns in place and readable evidence the plan of a claimed row cannot raise.\<close>

lemma plan_total:
  assumes "dated a" "stage (state_of a ep) = Some 2"
  shows "\<exists>snap. snapshot_time ep a = Inr snap"
proof -
  obtain r where r: "get_row a ep = Some r" "stage (Some (lv_state r)) = Some 2"
    using assms(2) by (cases "get_row a ep") (auto simp: state_of_def)
  then obtain t0 where "lv_t0 r = Some t0" using datedD(2)[OF assms(1) r(1)] by auto
  moreover have "map_of (ap_evidence a) ep \<noteq> Some None" using assms(1) by (simp add: dated_def)
  ultimately show ?thesis using r(1) by (auto simp: snapshot_time_def split: option.split)
qed

text \<open>Reconciliation of the one live row.\<close>

lemma state_of_get: "get_row a ep = Some r \<Longrightarrow> state_of a ep = Some (lv_state r)"
  by (simp add: state_of_def)

lemma others_asleep:
  assumes "lifecycle_ok a" "live (state_of a ep)" "e \<noteq> ep"
  shows "stage (state_of a e) = None"
proof (rule ccontr)
  assume "stage (state_of a e) \<noteq> None"
  then have "live (state_of a e)" by (simp add: stage_live)
  with assms show False by (auto simp: lifecycle_ok_def)
qed

lemma watched_alone:
  assumes "\<And>e. e \<noteq> ep \<Longrightarrow> stage (state_of b e) = None"
    and "\<And>k. stage (state_of b ep) = Some k \<Longrightarrow> covered b ep k"
  shows "watched b"
  unfolding watched_def
proof (intro allI impI)
  show "covered b e k" if "stage (state_of b e) = Some k" for e k
    using assms that by (cases "e = ep") auto
qed

lemma watched_reconcile_row:
  assumes r: "get_row a ep = Some r" and t: "lv_entered r \<noteq> None" and l: "live (Some (lv_state r))"
    and o: "\<And>e. e \<noteq> ep \<Longrightarrow> stage (state_of a e) = None"
  shows "watched (reconcile_one_row now alive (ep, r) a)"
proof (rule watched_alone)
  let ?b = "reconcile_one_row now alive (ep, r) a"
  obtain t where t: "lv_entered r = Some t" using t by auto
  consider "lv_state r = Some Injecting \<or> lv_state r = Some Holding" | "lv_state r = Some Awaiting_Fix"
    | "lv_state r = Some Resolving" using l by (auto simp: live_def)
  then have "(\<forall>e. e \<noteq> ep \<longrightarrow> state_of ?b e = state_of a e) \<and> (\<forall>k. stage (state_of ?b ep) = Some k \<longrightarrow> covered ?b ep k)"
  proof cases
    case 1
    then have "lv_state r \<in> {Some Injecting, Some Holding}" by auto
    with 1 show ?thesis
      by (auto simp: reconcile_one_row_def t state_of_get[OF r] covered_def split: option.split)
  next
    case 2
    then show ?thesis
      by (auto simp: reconcile_one_row_def t state_of_get[OF r] covered_def Let_def arm_timer_def update_conv')
  next
    case 3
    then show ?thesis
      by (auto simp: reconcile_one_row_def t state_of_get[OF r])
  qed
  then show "stage (state_of ?b e) = None" if "e \<noteq> ep" for e
    using o[OF that] that by simp
  show "covered ?b ep k" if "stage (state_of ?b ep) = Some k" for k
    using \<open>_ \<and> _\<close> that by blast
qed

lemma dated_reconcile_row:
  assumes "dated a" "get_row a ep = Some r"
  shows "dated (reconcile_one_row now alive (ep, r) a)"
proof -
  have aw: "dated (set_episode_state now ep Awaiting_Fix id a)" if "lv_t0 r \<noteq> None"
    by (rule dated_set[OF assms(1)]) (use assms(2) that in auto)
  have fin: "dated (set_episode_state now ep st f a)" if "st \<in> {Failed, Resolved}" "f \<in> insert id (range by_col)" for st f
    by (rule dated_set[OF assms(1)]) (use that in auto)
  have arm: "dated (arm_timer now ep t a)" for t using assms(1) by (simp add: arm_timer_def)
  show ?thesis
    using assms(1) aw fin arm by (auto simp: reconcile_one_row_def Let_def split: option.split)
qed

lemma watched_reconcile:
  assumes "lifecycle_ok a" "distinct (List.map fst (ap_rows a))" "dated a"
  shows "watched (reconcile_on_startup now alive a)" "dated (reconcile_on_startup now alive a)"
proof -
  consider "filter (\<lambda>(e, r). in_state non_terminal_states r) (ap_rows a) = []"
    | ep r where "filter (\<lambda>(e, r). in_state non_terminal_states r) (ap_rows a) = [(ep, r)]"
      "get_row a ep = Some r" "live (Some (lv_state r))"
    using flying_rows[OF assms(1,2)] by blast
  then have "watched (reconcile_on_startup now alive a) \<and> dated (reconcile_on_startup now alive a)"
  proof cases
    case 1
    have "stage (state_of a e) = None" for e
    proof (rule ccontr)
      assume "stage (state_of a e) \<noteq> None"
      then have "live (state_of a e)" by (simp add: stage_live)
      then obtain r where "(e, r) \<in> set (ap_rows a)" "in_state non_terminal_states r"
        by (auto simp: state_of_def in_flight_live live_def get_row_def dest: map_of_SomeD)
      with 1 show False by (auto simp: filter_empty_conv)
    qed
    then show ?thesis using 1 assms(3) by (simp add: reconcile_on_startup_def watched_def)
  next
    case (2 ep r)
    have l: "live (state_of a ep)" using 2(2,3) by (simp add: state_of_get)
    have t: "lv_entered r \<noteq> None" using datedD(1)[OF assms(3) 2(2)] 2(3) by (simp add: stage_live)
    have "watched (reconcile_one_row now alive (ep, r) (fresh_process a))"
      by (rule watched_reconcile_row) (use 2 t others_asleep[OF assms(1) l] in auto)
    moreover have "dated (reconcile_one_row now alive (ep, r) (fresh_process a))"
      by (rule dated_reconcile_row) (use assms(3) 2 in auto)
    ultimately show ?thesis using 2(1) by (simp add: reconcile_on_startup_def)
  qed
  then show "watched (reconcile_on_startup now alive a)" "dated (reconcile_on_startup now alive a)" by auto
qed

section \<open>Every step keeps the watch\<close>

lemma watched_swap:
  assumes "watched a" "duty th' = duty th" "same (end_thread th a) b"
  shows "watched (start_thread th' b)"
proof -
  have T: "ap_threads b = remove1 th (ap_threads a)" "ap_timers b = ap_timers a" "state_of b = state_of a"
    using assms(3) by (auto simp: same_def)
  have "\<exists>t' \<in> set (ap_threads (start_thread th' b)). duty t' = duty t" if "t \<in> set (ap_threads a)" for t
    using in_remove1[OF that, of th] assms(2) by (auto simp: T)
  then show ?thesis
    using assms(1) unfolding watched_def covered_def by (simp add: T) metis
qed

lemma insert_parts:
  assumes "trigger_insert now ep cls caller ip a = (Inr (), b)"
  obtains r where "lv_state r = Some Injecting" "lv_entered r = Some now" "b = a\<lparr>ap_rows := ap_rows a @ [(ep, r)]\<rparr>"
proof -
  obtain cfg where "b = a\<lparr>ap_rows := ap_rows a @ [(ep, new_row now cls cfg (tp_username caller))]\<rparr>"
    using assms by (auto simp: trigger_insert_def split: option.splits sum.splits)
  then show ?thesis by (intro that[of "new_row now cls cfg (tp_username caller)"]) (simp_all add: new_row_def)
qed

lemma get_row_append:
  "get_row a ep = None \<Longrightarrow> get_row (a\<lparr>ap_rows := ap_rows a @ [(ep, r)]\<rparr>) e = (if e = ep then Some r else get_row a e)"
  by (auto simp: get_row_def map_add_def split: option.split)

lemma dated_append:
  assumes "dated a" "get_row a ep = None" "lv_entered r \<noteq> None \<and> lv_state r = Some Injecting \<or> lv_state r = None"
  shows "dated (a\<lparr>ap_rows := ap_rows a @ [(ep, r)]\<rparr>)"
  using assms(1,3) unfolding dated_def get_row_append[OF assms(2)] by (auto split: if_splits)

lemma dated_id_or_col:
  assumes "dated a" "st \<in> {Failed, Resolved, Holding}" "f \<in> {id} \<union> range by_col \<union> range pid_col"
  shows "dated (set_episode_state now ep st f a)"
  by (rule dated_set[OF assms(1)]) (use assms(2,3) in \<open>auto simp: by_col_def pid_col_def\<close>)

lemma dated_awaiting:
  assumes "dated a" "\<And>r. get_row a ep = Some r \<Longrightarrow> lv_t0 r \<noteq> None"
  shows "dated (set_episode_state now ep Awaiting_Fix id a)"
  by (rule dated_set[OF assms(1)]) (use assms(2) in auto)

lemma same_dated_end: "dated a \<Longrightarrow> same (end_thread th a) b \<Longrightarrow> dated b"
  using dated_same[of "end_thread th a" b] by simp

lemma step_insert:
  assumes "watched a" "dated a" "get_row a ep = None" "trigger_insert now ep cls caller ip a = (Inr (), b)"
  shows "watched (start_thread (Inserted ep caller ip cls) (end_thread (Admitted caller ip cls) b)) \<and> dated b"
proof -
  obtain r where r: "lv_state r = Some Injecting" "lv_entered r = Some now" "b = a\<lparr>ap_rows := ap_rows a @ [(ep, r)]\<rparr>"
    using insert_parts[OF assms(4)] .
  have "watched (start_thread (Inserted ep caller ip cls) (end_thread (Admitted caller ip cls) b))"
    by (rule watched_turn(2)[OF assms(1), of "Admitted caller ip cls" ep 0 _ _ 0])
       (auto simp: r(1,3) state_of_def get_row_append[OF assms(3)])
  moreover have "dated b" using dated_append[OF assms(2,3)] r by auto
  ultimately show ?thesis by simp
qed

lemma step_spawn:
  assumes "watched a" "dated a" "lifecycle_ok a" "Spawning ep cls \<in> set (ap_threads a)"
  shows "watched (start_thread (Watching ep cls pid d) (injector_started now ep cls pid (end_thread (Spawning ep cls) a)))
    \<and> dated (injector_started now ep cls pid (end_thread (Spawning ep cls) a))"
proof (cases "cls \<in> set holding_classes")
  case True
  have "stage (map_option (\<lambda>_. Some Holding) x) \<in> {None, Some 0}" for x :: "ep_state option option"
    by (cases x) auto
  then have "watched (start_thread (Watching ep cls pid d)
      (set_episode_state now ep Holding (pid_col pid) (end_thread (Spawning ep cls) a)))"
    by (intro watched_turn(2)[OF assms(1), of "Spawning ep cls" ep 0 _ _ 0]) auto
  moreover have "dated (set_episode_state now ep Holding (pid_col pid) (end_thread (Spawning ep cls) a))"
    by (rule dated_id_or_col) (use assms(2) in auto)
  ultimately show ?thesis using True by (simp add: injector_started_def)
next
  case False
  have s: "same (end_thread (Spawning ep cls) a) (map_row (pid_col pid) ep (end_thread (Spawning ep cls) a))"
    by (rule same_map_row) simp
  show ?thesis
    using False watched_swap[OF assms(1) _ s, of "Watching ep cls pid d"] same_dated_end[OF assms(2) s]
    by (simp add: injector_started_def)
qed

lemma outcome_t0:
  assumes "injector_outcome ep cls x a \<in> {Wrapped_Report_Only, Wrapped_Fixable}" "get_row a ep = Some r"
  shows "lv_t0 r \<noteq> None"
  using assms by (auto simp: injector_outcome_def split: if_splits)

lemma step_end:
  assumes "watched a" "dated a"
  shows "watched (injector_ended now ep (injector_outcome ep cls x a) (end_thread (Watching ep cls pid d) a)) \<and>
    dated (injector_ended now ep (injector_outcome ep cls x a) (end_thread (Watching ep cls pid d) a))"
proof -
  have "dated (set_episode_state now ep Awaiting_Fix id (end_thread (Watching ep cls pid d) a))"
    if "injector_outcome ep cls x a \<in> {Wrapped_Report_Only, Wrapped_Fixable}"
    by (rule dated_awaiting) (use assms(2) outcome_t0[OF that] in auto)
  then show ?thesis
    using watched_leave[OF assms(1), of "Watching ep cls pid d" ep 0] assms(2)
    by (auto simp: injector_ended_def dated_id_or_col split: wrapped.split)
qed

lemma step_orphan:
  assumes "watched a" "dated a"
  shows "watched (classify_orphan now ep (end_thread (Orphaned ep pid) a)) \<and>
    dated (classify_orphan now ep (end_thread (Orphaned ep pid) a))"
proof -
  have "dated (set_episode_state now ep Awaiting_Fix id (end_thread (Orphaned ep pid) a))"
    if "get_row a ep = Some r" "lv_t0 r \<noteq> None" for r
    by (rule dated_awaiting) (use assms(2) that in auto)
  then show ?thesis
    using watched_leave[OF assms(1), of "Orphaned ep pid" ep 0] assms(2)
    by (auto simp: classify_orphan_def dated_id_or_col split: option.split)
qed

lemma step_arm:
  assumes "watched a" "lifecycle_ok a" "Arming ep \<in> set (ap_threads a)"
  shows "watched (arm_timer now ep t (end_thread (Arming ep) a))"
proof (rule watched_step[OF assms(1), of _ ep])
  have "past (state_of a ep)" by (rule late_past[OF assms(2,3)]) simp
  then have k: "k \<in> {1, 2}" if "stage (state_of a ep) = Some k" for k
    using that by (auto simp: past_def)
  show "covered (arm_timer now ep t (end_thread (Arming ep) a)) ep k"
    if "stage (state_of (arm_timer now ep t (end_thread (Arming ep) a)) ep) = Some k" for k
  proof (cases "k = 1")
    case True
    then show ?thesis by (simp add: covered_def arm_timer_def update_conv')
  next
    case False
    have s: "stage (state_of a ep) = Some k" using that by (simp add: arm_timer_def)
    then have "k = 2" using k[OF s] False by simp
    then have "covered a ep 2" using assms(1) s by (simp add: watched_def)
    then obtain th where "th \<in> set (ap_threads a)" "duty th = Some (ep, 2)"
      by (auto simp: covered_def)
    then show ?thesis
      using \<open>k = 2\<close> in_remove1[of th "ap_threads a" "Arming ep"] by (auto simp: covered_def arm_timer_def)
  qed
  show "t' \<in> set (ap_threads (arm_timer now ep t (end_thread (Arming ep) a))) \<or>
      (case duty t' of None \<Rightarrow> True | Some (e, _) \<Rightarrow> e = ep)" if "t' \<in> set (ap_threads a)" for t'
    using in_remove1[OF that, of "Arming ep"] by (auto simp: arm_timer_def)
qed (simp_all add: arm_timer_def update_conv')

lemma step_fire:
  assumes "watched a"
  shows "watched (start_thread (Calling ep by False) (a\<lparr>ap_timers := AList.delete ep (ap_timers a)\<rparr>))"
proof (rule watched_step[OF assms, of _ ep])
  let ?b = "start_thread (Calling ep by False) (a\<lparr>ap_timers := AList.delete ep (ap_timers a)\<rparr>)"
  show "covered ?b ep k" if "stage (state_of ?b ep) = Some k" for k
  proof (cases "k = 1")
    case False
    have "covered a ep k" using assms that by (simp add: watched_def)
    then show ?thesis using False by (auto simp: covered_def)
  qed (simp add: covered_def)
qed (simp_all add: delete_conv')

lemma step_claim:
  assumes "watched a" "distinct (List.map fst (ap_rows a))" "claim_resolve now ep a = (True, b)"
  shows "watched (start_thread (Claimed ep by g) (end_thread (Calling ep by g) b))"
proof -
  note c = claim_cases[OF assms(3)] and s = sets_claim[OF assms(3,2)]
  have "state_of b e = (if e = ep then Some (Some Resolving) else state_of a e)" for e
    using s by (auto simp: sets_def)
  then show ?thesis
    by (intro watched_turn(2)[OF assms(1), of "Calling ep by g" ep 1 _ _ 2]) (use c(1,3) in auto)
qed

lemma step_caught:
  assumes "watched a" "guarded th = Some ep"
  shows "watched (set_episode_state now ep Failed id (end_thread th a))"
proof -
  have th: "\<exists>k. duty th = Some (ep, k) \<or> duty th = None" using assms(2) by (cases th) (auto split: if_splits)
  have "stage (map_option (\<lambda>_. Some Failed) x) = None" for x :: "ep_state option option" by (cases x) auto
  with th show ?thesis by (elim exE, intro watched_turn(1)[OF assms(1)]) auto
qed

lemma stage_1: "stage s = Some 1 \<longleftrightarrow> s = Some (Some Awaiting_Fix)"
  by (auto simp: stage_def split: option.splits ep_state.splits)

lemma dated_recorded: "dated a \<Longrightarrow> dated (map_row (\<lambda>r. r\<lparr>lv_t0 := Some t0, lv_chaos := Some chaos\<rparr>) ep a)"
  unfolding dated_def by (auto split: if_splits)

lemma step_watched:
  assumes "api_step False restarts a b"
    and "lifecycle_ok a" "distinct (List.map fst (ap_rows a))" and w: "watched a" and d: "dated a"
  shows "watched b \<and> dated b"
  using assms(1)
proof cases
  case (refused now steady cls caller ip code)
  then show ?thesis using watched_same[OF w] dated_same[OF d] same_checks by blast
next
  case (admitted now steady cls caller ip a')
  note s = same_checks[OF admitted(2)]
  show ?thesis using admitted(1) watched_start[OF watched_same[OF w s]] dated_same[OF d s] by simp
next
  case (busy caller ip cls now ep code a')
  note s = same_busy[OF busy(3)]
  show ?thesis using busy(1) watched_end[OF watched_same[OF w s]] dated_same[OF d s] by simp
next
  case (inserted caller ip cls ep now a')
  then show ?thesis using step_insert[OF w d inserted(3,4)] by simp
next
  case (begun ep caller ip cls now)
  obtain c where c: "same (end_thread (Inserted ep caller ip cls) a) c" "b = start_thread (Spawning ep cls) c"
    using begin_as_start[of "end_thread (Inserted ep caller ip cls) a"] begun(1) by metis
  then show ?thesis using watched_swap[OF w _ c(1)] same_dated_end[OF d c(1)] by simp
next
  case (spawned ep cls now pid)
  then show ?thesis using step_spawn[OF w d assms(2) spawned(2)] by simp
next
  case (ticked ep cls pid deadline confirmed)
  then show ?thesis using watched_same[OF w same_tick] dated_same[OF d same_tick] by simp
next
  case (ended ep cls pid deadline x now)
  then show ?thesis using step_end[OF w d] by simp
next
  case (armed ep now)
  then show ?thesis using step_arm[OF w assms(2)] d by (simp add: dated_def arm_timer_def)
next
  case (fired ep due now)
  then show ?thesis using step_fire[OF w] d by simp
next
  case (lost ep "by" g now a')
  note l = claim_lost[OF lost(3)]
  show ?thesis using lost(1) watched_end[OF w] l d by (simp add: stage_1[simplified])
next
  case (claimed ep "by" g now a')
  then show ?thesis using step_claim[OF w assms(3) claimed(3)] dated_claim[OF d claimed(3)] by simp
next
  case (planned ep "by" g snap)
  then show ?thesis using watched_swap[OF w _ same_refl, of "Scoring ep by g snap" "Claimed ep by g"] d by simp
next
  case (unplanned ep "by" e)
  then have "stage (state_of a ep) \<noteq> Some 2" using plan_total[OF d, of ep] by auto
  then show ?thesis using unplanned(1) watched_end[OF w] d by simp
next
  case (scored ep "by" g snap now x)
  then show ?thesis
    using watched_leave(1)[OF w, of "Scoring ep by g snap" ep 2] d
    by (simp add: finish_resolve_def dated_id_or_col)
next
  case (resolved ep "by" g snap now)
  then show ?thesis
    using watched_start watched_leave(2)[OF w, of "Scoring ep by g snap" ep 2] d
    by (simp add: finish_resolve_def dated_id_or_col)
next
  case (published ep g now ok)
  have "watched (end_thread (Publishing ep g) a)" by (rule watched_end[OF w]) simp
  then show ?thesis
    using published(1) watched_same[OF _ same_republished] same_dated_end[OF d same_republished] by simp
next
  case (orphan_gone ep pid now)
  then show ?thesis using step_orphan[OF w d] by simp
next
  case (caught th ep now)
  then show ?thesis using step_caught[OF w] d by (simp add: dated_id_or_col)
next
  case (stop_clicked ep caller answer)
  then show ?thesis using watched_same[OF w same_stop] dated_same[OF d same_stop] by simp
next
  case (resolve_clicked ep caller answer)
  have "same a (api_audit r x y None a)" for r x y by (rule same_update)
  then show ?thesis
    using resolve_clicked watched_same[OF w] dated_same[OF d]
    by (auto simp: trigger_resolve_def Let_def intro: watched_start split: option.splits if_splits)
next
  case logged_out
  then show ?thesis using watched_same[OF w same_logout] dated_same[OF d same_logout] by simp
next
  case (injector_recorded t0 chaos ep)
  then show ?thesis using w watched_frame[OF same_recorded] dated_recorded[OF d] by simp
next
  case (scorer_recorded ep)
  then show ?thesis using watched_same[OF w same_update(5)] dated_same[OF d same_update(5)] by simp
next
  case (evidence_recorded x ep)
  have "watched b" using w watched_frame[of b a] evidence_recorded(1) by (simp add: state_of_def fun_eq_iff)
  then show ?thesis using d evidence_recorded by (auto simp: dated_def update_conv')
next
  case (batch_recorded ep r)
  have "state_of b e = (if e = ep then Some None else state_of a e)" for e
    using batch_recorded by (auto simp: state_of_def get_row_append)
  then have "watched b"
    by (intro watched_step[OF w, of b ep]) (use batch_recorded(1) in auto)
  then show ?thesis using dated_append[OF d batch_recorded(2)] batch_recorded(1,3) by simp
next
  case (restarted now alive)
  then show ?thesis using watched_reconcile[OF assms(2,3) d] by simp
qed simp

section \<open>Runs\<close>

lemma idle_ok: "lifecycle_ok idle_api" "distinct (List.map fst (ap_rows idle_api))" "watched idle_api" "dated idle_api"
  by (simp_all add: idle_api_def lifecycle_ok_def owners_def state_of_def get_row_def live_def watched_def dated_def)

lemma run_ok:
  "(api_step faults restarts)\<^sup>*\<^sup>* a b \<Longrightarrow> lifecycle_ok a \<Longrightarrow> distinct (List.map fst (ap_rows a)) \<Longrightarrow>
     lifecycle_ok b \<and> distinct (List.map fst (ap_rows b))"
  by (induction rule: rtranclp_induct) (auto intro: step_ok step_ids)

lemma run_watched:
  assumes "(api_step False restarts)\<^sup>*\<^sup>* a b"
    and "lifecycle_ok a" "distinct (List.map fst (ap_rows a))" "watched a" "dated a"
  shows "watched b \<and> dated b"
  using assms
proof (induction rule: rtranclp_induct)
  case (step y z)
  then have "lifecycle_ok y" "distinct (List.map fst (ap_rows y))" using run_ok[OF step.hyps(1)] by auto
  then show ?case using step step_watched[OF step.hyps(2)] by blast
qed simp

lemma live_row:
  assumes "get_row a ep = Some r" "in_state non_terminal_states r"
  obtains k where "stage (state_of a ep) = Some k"
proof -
  have "live (state_of a ep)" using assms by (simp add: state_of_get in_flight_live)
  then show ?thesis using that by (auto simp: stage_live)
qed

text \<open>Once a row is claimed it stays behind the claim.\<close>

definition settled :: "ep_state option option \<Rightarrow> bool" where
  "settled s \<longleftrightarrow> s \<in> {Some (Some Resolving), Some (Some Resolved), Some (Some Failed)}"

lemma settled_simps [simp]:
  "settled (Some (Some Resolving))" "settled (Some (Some Resolved))" "settled (Some (Some Failed))"
  "\<not> settled None" "\<not> settled (Some None)" "\<not> settled (Some (Some Awaiting_Fix))"
  by (simp_all add: settled_def)

lemma settled_not_early: "settled s \<Longrightarrow> \<not> early s"
  by (auto simp: settled_def early_def)

lemma settled_set: "settled s \<Longrightarrow> settled (map_option (\<lambda>_. Some Failed) s)" "settled s \<Longrightarrow> settled (map_option (\<lambda>_. Some Resolved) s)"
  by (cases s; simp)+

lemma settled_reconcile:
  assumes "lifecycle_ok a" "distinct (List.map fst (ap_rows a))" "settled (state_of a e)"
  shows "settled (state_of (reconcile_on_startup now alive a) e)"
proof -
  consider "filter (\<lambda>(e, r). in_state non_terminal_states r) (ap_rows a) = []"
    | ep r where "filter (\<lambda>(e, r). in_state non_terminal_states r) (ap_rows a) = [(ep, r)]"
      "get_row a ep = Some r"
    using flying_rows[OF assms(1,2)] by blast
  then show ?thesis
  proof cases
    case (2 ep r)
    have s: "state_of a ep = Some (lv_state r)" by (rule state_of_get[OF 2(2)])
    have "settled (state_of (reconcile_one_row now alive (ep, r) (fresh_process a)) e)"
      using assms(3) s
      by (cases "e = ep") (auto simp: reconcile_one_row_def Let_def arm_timer_def settled_def split: option.split)
    then show ?thesis using 2(1) by (simp add: reconcile_on_startup_def)
  qed (use assms(3) in \<open>simp add: reconcile_on_startup_def\<close>)
qed

lemma settled_early_thread:
  assumes "lifecycle_ok a" "settled (state_of a e)" "th \<in> set (ap_threads a)" "early_of th = Some ep"
  shows "ep \<noteq> e"
  using owner_alone(2)[OF assms(1,3,4)] settled_not_early[OF assms(2)] by auto

lemma step_settled:
  assumes "api_step faults restarts a b" "lifecycle_ok a" "distinct (List.map fst (ap_rows a))" "settled (state_of a e)"
  shows "settled (state_of b e)"
  using assms(1)
proof cases
  case (inserted caller ip cls ep now a')
  obtain r where "a' = a\<lparr>ap_rows := ap_rows a @ [(ep, r)]\<rparr>" using insert_parts[OF inserted(4)] .
  then show ?thesis using inserted(1,3) assms(4) by (auto simp: state_of_def get_row_append)
next
  case (begun ep caller ip cls now)
  obtain c where "same (end_thread (Inserted ep caller ip cls) a) c" "b = start_thread (Spawning ep cls) c"
    using begin_as_start[of "end_thread (Inserted ep caller ip cls) a"] begun(1) by metis
  then show ?thesis using assms(4) by (simp add: same_def)
next
  case (spawned ep cls now pid)
  then have "ep \<noteq> e" using settled_early_thread[OF assms(2,4)] by auto
  moreover have "state_of (map_row (pid_col p) ep x) = state_of x" for p x
    using same_map_row[of "pid_col p" x ep] by (simp add: same_def)
  ultimately show ?thesis using spawned(1) assms(4) by (auto simp: injector_started_def)
next
  case (ended ep cls pid deadline x now)
  then have "ep \<noteq> e" using settled_early_thread[OF assms(2,4)] by auto
  then show ?thesis using ended(1) assms(4) by (simp add: injector_ended_def split: wrapped.split)
next
  case (orphan_gone ep pid now)
  then have "ep \<noteq> e" using settled_early_thread[OF assms(2,4)] by auto
  then show ?thesis using orphan_gone(1) assms(4) by (simp add: classify_orphan_def split: option.split)
next
  case (lost ep "by" g now a')
  then show ?thesis using claim_lost(1)[OF lost(3)] assms(4) by simp
next
  case (claimed ep "by" g now a')
  then show ?thesis
    using sets_claim[OF claimed(3) assms(3)] assms(4) by (auto simp: sets_def)
next
  case (resolve_clicked ep caller answer)
  then show ?thesis
    using assms(4) by (auto simp: trigger_resolve_def Let_def state_of_def split: option.splits if_splits)
next
  case (batch_recorded ep r)
  then show ?thesis using assms(4) by (auto simp: state_of_def get_row_append)
next
  case (restarted now alive)
  then show ?thesis using settled_reconcile[OF assms(2-4)] by simp
qed (use assms(4) in \<open>auto simp: same_checks[unfolded same_def] same_busy[unfolded same_def] same_stop[unfolded same_def]
      same_tick[unfolded same_def] same_republished[unfolded same_def] same_logout[unfolded same_def]
      same_recorded finish_resolve_def settled_set arm_timer_def state_of_def\<close>)

lemma run_settled:
  assumes "(api_step faults restarts)\<^sup>*\<^sup>* a b"
    and "lifecycle_ok a" "distinct (List.map fst (ap_rows a))" "settled (state_of a e)"
  shows "settled (state_of b e)"
  using assms
proof (induction rule: rtranclp_induct)
  case (step y z)
  then have "lifecycle_ok y" "distinct (List.map fst (ap_rows y))" using run_ok[OF step.hyps(1)] by auto
  then show ?case using step step_settled[OF step.hyps(2)] by blast
qed simp

text \<open>A row that is being resolved by nobody.\<close>

definition abandoned :: "api \<Rightarrow> string \<Rightarrow> bool" where
  "abandoned a ep \<longleftrightarrow> state_of a ep = Some (Some Resolving) \<and>
     (\<forall>th \<in> set (ap_threads a). early_of th \<noteq> Some ep \<and> late_of th \<noteq> Some ep) \<and>
     map_of (ap_timers a) ep = None"

lemma abandoned_same: "same a b \<Longrightarrow> abandoned a ep \<Longrightarrow> abandoned b ep"
  by (simp add: abandoned_def same_def)

lemma abandoned_end: "abandoned a ep \<Longrightarrow> abandoned (end_thread th a) ep"
  by (auto simp: abandoned_def dest: in_set_remove1[THEN iffD1, rotated] notin_set_remove1[THEN contrapos_pp])

lemma abandoned_start:
  "abandoned a ep \<Longrightarrow> early_of th \<noteq> Some ep \<Longrightarrow> late_of th \<noteq> Some ep \<Longrightarrow> abandoned (start_thread th a) ep"
  by (auto simp: abandoned_def)

lemma abandoned_set:
  "abandoned a ep \<Longrightarrow> e \<noteq> ep \<Longrightarrow> f \<in> {id} \<union> range by_col \<union> range pid_col \<Longrightarrow>
     abandoned (set_episode_state now e st f a) ep"
  by (auto simp: abandoned_def)

lemma abandoned_thread:
  assumes "abandoned a ep" "th \<in> set (ap_threads a)"
  shows "early_of th = Some e \<Longrightarrow> e \<noteq> ep" "late_of th = Some e \<Longrightarrow> e \<noteq> ep" "guarded th = Some e \<Longrightarrow> e \<noteq> ep"
proof -
  show "early_of th = Some e \<Longrightarrow> e \<noteq> ep" "late_of th = Some e \<Longrightarrow> e \<noteq> ep"
    using assms by (auto simp: abandoned_def)
  moreover have "guarded th = Some e \<Longrightarrow> early_of th = Some e \<or> late_of th = Some e"
    by (cases th) (auto split: if_splits)
  ultimately show "guarded th = Some e \<Longrightarrow> e \<noteq> ep" by auto
qed

lemma step_abandoned:
  assumes "api_step faults False a b" "distinct (List.map fst (ap_rows a))" and ab: "abandoned a ep"
  shows "abandoned b ep"
  using assms(1)
proof cases
  case (admitted now steady cls caller ip a')
  then show ?thesis using abandoned_start[OF abandoned_same[OF same_checks ab]] by simp
next
  case (inserted caller ip cls e now a')
  obtain r where "a' = a\<lparr>ap_rows := ap_rows a @ [(e, r)]\<rparr>" using insert_parts[OF inserted(4)] .
  moreover have "e \<noteq> ep" using inserted(3) ab by (auto simp: abandoned_def state_of_def)
  ultimately have "abandoned a' ep" using ab inserted(3) by (auto simp: abandoned_def state_of_def get_row_append)
  then show ?thesis using inserted(1) \<open>e \<noteq> ep\<close> by (simp add: abandoned_start abandoned_end)
next
  case (begun e caller ip cls now)
  obtain c where c: "same (end_thread (Inserted e caller ip cls) a) c" "b = start_thread (Spawning e cls) c"
    using begin_as_start[of "end_thread (Inserted e caller ip cls) a"] begun(1) by metis
  have "e \<noteq> ep" using abandoned_thread(1)[OF ab begun(2)] by simp
  then show ?thesis using abandoned_start[OF abandoned_same[OF c(1) abandoned_end[OF ab]]] c(2) by simp
next
  case (spawned e cls now pid)
  have "e \<noteq> ep" using abandoned_thread(1)[OF ab spawned(2)] by simp
  moreover have "abandoned (map_row (pid_col p) e (end_thread (Spawning e cls) a)) ep" for p
    by (rule abandoned_same[OF same_map_row abandoned_end[OF ab]]) simp
  ultimately show ?thesis
    using spawned(1) ab by (auto simp: injector_started_def intro!: abandoned_start abandoned_set abandoned_end)
next
  case (ended e cls pid deadline x now)
  have "e \<noteq> ep" using abandoned_thread(1)[OF ab ended(2)] by simp
  then show ?thesis
    using ended(1) ab by (auto simp: injector_ended_def intro!: abandoned_start abandoned_set abandoned_end split: wrapped.split)
next
  case (armed e now)
  have "e \<noteq> ep" using abandoned_thread(2)[OF ab armed(2)] by simp
  then show ?thesis using armed(1) abandoned_end[OF ab, of "Arming e"] by (simp add: abandoned_def arm_timer_def update_conv')
next
  case (fired e due now)
  then have "e \<noteq> ep" using ab by (auto simp: abandoned_def)
  then show ?thesis using fired(1) ab by (auto simp: abandoned_def delete_conv')
next
  case (lost e "by" g now a')
  then show ?thesis using claim_lost(1)[OF lost(3)] abandoned_end[OF ab] by simp
next
  case (claimed e "by" g now a')
  note s = sets_claim[OF claimed(3) assms(2)]
  have "e \<noteq> ep" using s(2) ab by (auto simp: abandoned_def)
  moreover have "abandoned a' ep"
    using ab s(1) \<open>e \<noteq> ep\<close> claim_cases(3)[OF claimed(3), of ep] by (auto simp: abandoned_def sets_def)
  ultimately show ?thesis using claimed(1) by (simp add: abandoned_start abandoned_end)
next
  case (planned e "by" g snap)
  then show ?thesis using abandoned_thread(2)[OF ab planned(2)] by (simp add: abandoned_start abandoned_end ab)
next
  case (scored e "by" g snap now x)
  have "e \<noteq> ep" using abandoned_thread(2)[OF ab scored(2)] by simp
  then show ?thesis using scored(1) ab by (auto simp: finish_resolve_def intro!: abandoned_set abandoned_end)
next
  case (resolved e "by" g snap now)
  have "e \<noteq> ep" using abandoned_thread(2)[OF ab resolved(2)] by simp
  then show ?thesis
    using resolved(1) ab by (auto simp: finish_resolve_def intro!: abandoned_start abandoned_set abandoned_end)
next
  case (orphan_gone e pid now)
  have "e \<noteq> ep" using abandoned_thread(1)[OF ab orphan_gone(2)] by simp
  then show ?thesis
    using orphan_gone(1) ab by (auto simp: classify_orphan_def intro!: abandoned_start abandoned_set abandoned_end split: option.split)
next
  case (caught th e now)
  then show ?thesis using abandoned_thread(3)[OF ab caught(2,3)] ab by (auto intro!: abandoned_set abandoned_end)
next
  case (resolve_clicked e caller answer)
  have s: "abandoned (api_audit r x y None a) ep" for r x y by (rule abandoned_same[OF same_update(1) ab])
  have "e \<noteq> ep" if "get_row a e = Some r" "lv_state r = Some Awaiting_Fix" for r
    using that ab by (auto simp: abandoned_def state_of_def)
  then show ?thesis
    using resolve_clicked s
    by (auto simp: trigger_resolve_def Let_def intro!: abandoned_start split: option.splits if_splits)
next
  case (injector_recorded t0 chaos e)
  then show ?thesis using ab same_recorded[of t0 chaos e a] by (simp add: abandoned_def)
next
  case (evidence_recorded x e)
  then show ?thesis using ab by (simp add: abandoned_def state_of_def)
next
  case (batch_recorded e r)
  then show ?thesis using ab by (auto simp: abandoned_def state_of_def get_row_append)
next
  case (unplanned e "by" err)
  then show ?thesis using abandoned_end[OF ab] by simp
next
  case (busy caller ip cls now e code a')
  then show ?thesis using abandoned_end[OF abandoned_same[OF same_busy ab]] by simp
next
  case (published e g now ok)
  then show ?thesis using abandoned_same[OF same_republished abandoned_end[OF ab]] by simp
next
  case (uncaught th)
  then show ?thesis using abandoned_end[OF ab] by simp
next
  case (refused now steady cls caller ip code)
  then show ?thesis using abandoned_same[OF same_checks ab] by simp
next
  case (ticked e cls pid deadline confirmed)
  then show ?thesis using abandoned_same[OF same_tick ab] by simp
next
  case (stop_clicked e caller answer)
  then show ?thesis using abandoned_same[OF same_stop ab] by simp
next
  case logged_out
  then show ?thesis using abandoned_same[OF same_logout ab] by simp
next
  case (scorer_recorded e)
  then show ?thesis using abandoned_same[OF same_update(5) ab] by simp
qed simp

lemma run_abandoned:
  assumes "(api_step faults False)\<^sup>*\<^sup>* a b" "lifecycle_ok a" "distinct (List.map fst (ap_rows a))" "abandoned a ep"
  shows "abandoned b ep"
  using assms
proof (induction rule: rtranclp_induct)
  case (step y z)
  then have "distinct (List.map fst (ap_rows y))" using run_ok[OF step.hyps(1)] by auto
  then show ?case using step step_abandoned[OF step.hyps(2)] by blast
qed simp

lemma live_row_locks:
  assumes "live (state_of a ep)" "fault_config cls \<noteq> None"
  shows "fst (trigger_insert now e cls caller ip a) = Inl 429"
proof -
  obtain r where "(ep, r) \<in> set (ap_rows a)" "in_state non_terminal_states r"
    using assms(1) by (auto simp: state_of_def in_flight_live live_def get_row_def dest: map_of_SomeD)
  then have "find (\<lambda>(e, r). in_state non_terminal_states r) (ap_rows a) \<noteq> None"
    by (auto simp: find_None_iff)
  then obtain p where "find (\<lambda>(e, r). in_state non_terminal_states r) (ap_rows a) = Some p" by auto
  with assms(2) show ?thesis
    by (cases p) (auto simp: trigger_insert_def in_flight_episode_row_def split: option.split)
qed

section \<open>The caps of the demo\<close>

text \<open>The handlers at growing times, interleaved, at most \<open>lanes\<close> of them past their checks: those
  run outside the lock, so a handler can wait there while others log their triggers. \<open>elsewhere\<close>
  is everything that neither logs a trigger nor starts a handler: a refusal, the 429 of an episode in
  flight, a restart, and all the other threads.\<close>

fun is_request :: "thread \<Rightarrow> bool" where
  "is_request (Admitted caller ip cls) = True"
| "is_request (Inserted ep caller ip cls) = True"
| "is_request th = False"

definition requests :: "api \<Rightarrow> thread list" where
  "requests a = filter is_request (ap_threads a)"

inductive demo_step :: "nat \<Rightarrow> int \<times> api \<Rightarrow> int \<times> api \<Rightarrow> bool" for lanes where
  checked: "now \<le> t \<Longrightarrow> trigger_checks t steady cls caller ip a = (Inr (), a') \<Longrightarrow>
    length (requests a) < lanes \<Longrightarrow> demo_step lanes (now, a) (t, start_thread (Admitted caller ip cls) a')"
| entered: "now \<le> t \<Longrightarrow> Admitted caller ip cls \<in> set (ap_threads a) \<Longrightarrow>
    trigger_insert t ep cls caller ip a = (Inr (), a') \<Longrightarrow>
    demo_step lanes (now, a) (t, start_thread (Inserted ep caller ip cls) (end_thread (Admitted caller ip cls) a'))"
| logged: "now \<le> t \<Longrightarrow> Inserted ep caller ip cls \<in> set (ap_threads a) \<Longrightarrow>
    demo_step lanes (now, a) (t, trigger_begin t ep cls caller ip (end_thread (Inserted ep caller ip cls) a))"
| elsewhere: "now \<le> t \<Longrightarrow> ap_demo b = ap_demo a \<Longrightarrow> mset (requests b) \<subseteq># mset (requests a) \<Longrightarrow>
    demo_step lanes (now, a) (t, b)"

text \<open>What the two caps count, over all addresses or one, and the requests of the demo that can still
  add to it.\<close>

fun triggered :: "int \<times> api \<Rightarrow> int \<times> string option \<Rightarrow> nat" where
  "triggered (now, a) (day, who) =
     length (filter (\<lambda>(i, t). (who = None \<or> who = Some i) \<and> utc_day (us t) = day) (ap_demo a))"

fun asks :: "string option \<Rightarrow> thread \<Rightarrow> bool" where
  "asks who (Admitted caller ip cls) \<longleftrightarrow> tp_role caller = ''demo-trigger'' \<and> (who = None \<or> who = Some ip)"
| "asks who (Inserted ep caller ip cls) \<longleftrightarrow> tp_role caller = ''demo-trigger'' \<and> (who = None \<or> who = Some ip)"
| "asks who th \<longleftrightarrow> False"

definition asking :: "string option \<Rightarrow> api \<Rightarrow> nat" where
  "asking who a = length (filter (asks who) (ap_threads a))"

fun expected :: "int \<times> api \<Rightarrow> int \<times> string option \<Rightarrow> nat" where
  "expected (now, a) (day, who) = (if utc_day now \<le> day then asking who a else 0)"

fun demo_cap :: "int \<times> string option \<Rightarrow> nat" where
  "demo_cap (day, None) = global_daily_cap"
| "demo_cap (day, Some ip) = daily_cap"

definition times_of :: "string \<Rightarrow> api \<Rightarrow> int list" where
  "times_of ip a = List.map snd (filter (\<lambda>(i, t). i = ip) (ap_demo a))"

text \<open>One handler at a time waits the cooldown out.\<close>

definition spaced :: "int \<Rightarrow> api \<Rightarrow> bool" where
  "spaced now a \<longleftrightarrow> (\<forall>ip. sorted_wrt (\<lambda>s t. s + cooldown_s \<le> t) (times_of ip a) \<and>
     (0 < asking (Some ip) a \<longrightarrow> (\<forall>t \<in> set (times_of ip a). t + cooldown_s \<le> seconds now)))"

fun demo_ok :: "nat \<Rightarrow> int \<times> api \<Rightarrow> bool" where
  "demo_ok lanes (now, a) \<longleftrightarrow> length (requests a) \<le> lanes \<and> (\<forall>(i, t) \<in> set (ap_demo a). t \<le> seconds now) \<and>
     (lanes \<le> 1 \<longrightarrow> spaced now a)"

lemma same_second_day: "utc_day (us (seconds now)) = utc_day now"
  by (simp add: utc_day_def us_def seconds_def day_us_def)

lemma day_le: "now \<le> t \<Longrightarrow> utc_day now \<le> utc_day t"
  by (simp add: utc_day_def day_us_def zdiv_mono1)

lemma day_of_past: "s \<le> seconds now \<Longrightarrow> utc_day (us s) \<le> utc_day now"
  by (simp add: utc_day_def us_def seconds_def day_us_def)

lemma checks_same: "trigger_checks now steady cls caller ip a = (x, a') \<Longrightarrow>
    ap_demo a' = ap_demo a \<and> ap_threads a' = ap_threads a"
  by (auto simp: trigger_checks_def Let_def api_audit_def split: if_splits)

lemma insert_same: "trigger_insert now ep cls caller ip a = (x, a') \<Longrightarrow>
    ap_demo a' = ap_demo a \<and> ap_threads a' = ap_threads a"
  by (auto simp: trigger_insert_def api_audit_def split: option.splits sum.splits)

lemma begin_demo: "ap_demo (trigger_begin now ep cls caller ip a) =
    ap_demo a @ (if tp_role caller = ''demo-trigger'' then [(ip, seconds now)] else [])"
  by (simp add: trigger_begin_def Let_def api_audit_def start_thread_def)

lemma begin_threads: "\<exists>xs ys. ap_threads (trigger_begin now ep cls caller ip a) = xs @ Spawning ep cls # ys \<and>
    ap_threads a = xs @ ys"
  by (auto simp: trigger_begin_def Let_def api_audit_def start_thread_def)

lemma last_trigger_max: "t \<in> set (times_of ip a) \<Longrightarrow> \<exists>m. last_trigger ip a = Some m \<and> t \<le> m"
proof -
  assume t: "t \<in> set (times_of ip a)"
  then obtain x xs where e: "times_of ip a = x # xs" by (cases "times_of ip a") auto
  have "fold max xs x = Max (set (x # xs))" by (rule Max.set_eq_fold[symmetric])
  moreover have "t \<le> Max (set (x # xs))" using t e by (intro Max_ge) auto
  ultimately show ?thesis using e by (simp add: last_trigger_def times_of_def)
qed

text \<open>What an accepted request of the demo has passed.\<close>

lemma checks_passed:
  assumes "trigger_checks now steady cls caller ip a = (Inr (), a')" "tp_role caller = ''demo-trigger''"
  shows "global_triggers_today now a < global_daily_cap" "ip_triggers_today now ip a < daily_cap"
    "t \<in> set (times_of ip a) \<Longrightarrow> t + cooldown_s \<le> seconds now"
proof -
  show "global_triggers_today now a < global_daily_cap" "ip_triggers_today now ip a < daily_cap"
    using assms by (auto simp: trigger_checks_def Let_def not_le split: if_splits)
  assume "t \<in> set (times_of ip a)"
  then obtain m where m: "last_trigger ip a = Some m" "t \<le> m" using last_trigger_max by blast
  then have "us cooldown_s \<le> since_trigger now m"
    using assms by (auto simp: trigger_checks_def Let_def not_le not_less split: if_splits)
  then show "t + cooldown_s \<le> seconds now"
    using m(2) by (simp add: since_trigger_def us_def seconds_def cooldown_s_def)
qed

text \<open>How each step moves the requests.\<close>

lemma asks_request: "asks who th \<Longrightarrow> is_request th"
  by (cases th) auto

lemma asking_requests: "asking who a = length (filter (asks who) (requests a))"
  unfolding asking_def requests_def filter_filter
  by (intro arg_cong[where f = length] filter_cong refl) (auto dest: asks_request)

lemma asking_le: "asking who a \<le> length (requests a)"
  by (simp add: asking_requests)

lemma fewer_requests:
  assumes "mset (requests b) \<subseteq># mset (requests a)"
  shows "length (requests b) \<le> length (requests a)" "asking who b \<le> asking who a"
  using size_mset_mono[OF assms] size_mset_mono[OF multiset_filter_mono[OF assms, of "asks who"]]
  by (simp_all add: asking_requests flip: mset_filter)

lemma start_requests:
  "length (requests (start_thread th a)) = length (requests a) + (if is_request th then 1 else 0)"
  "asking who (start_thread th a) = asking who a + (if asks who th then 1 else 0)"
  "ap_demo (start_thread th a) = ap_demo a"
  by (simp_all add: start_thread_def requests_def asking_def)

lemma end_requests:
  assumes "th \<in> set (ap_threads a)"
  shows "length (requests a) = length (requests (end_thread th a)) + (if is_request th then 1 else 0)"
    "asking who a = asking who (end_thread th a) + (if asks who th then 1 else 0)"
    "ap_demo (end_thread th a) = ap_demo a"
  using count_remove1[OF assms, of is_request] count_remove1[OF assms, of "asks who"]
  by (simp_all add: end_thread_def requests_def asking_def)

lemma begin_requests:
  "length (requests (trigger_begin now ep cls caller ip a)) = length (requests a)"
  "asking who (trigger_begin now ep cls caller ip a) = asking who a"
  using begin_threads[of now ep cls caller ip a] by (auto simp: requests_def asking_def)

lemma same_requests:
  assumes "ap_threads a' = ap_threads a"
  shows "requests a' = requests a" "asking who a' = asking who a"
  using assms by (simp_all add: requests_def asking_def)

text \<open>A handler enters only below both caps, and leaves its place for the trigger it logs.\<close>

lemma demo_race:
  assumes "demo_ok lanes s" "demo_step lanes s s'"
  shows "triggered s' k + expected s' k \<le> triggered s k + expected s k \<or>
    triggered s' k < demo_cap k \<and> expected s' k \<le> lanes"
  using assms(2,1)
proof cases
  case (checked now t steady cls caller ip a a')
  obtain day who where k: "k = (day, who)" by (cases k)
  note same = checks_same[OF checked(4)]
  note n = start_requests(2)[of who "Admitted caller ip cls" a'] same_requests(2)[of a' a who] asking_le[of who a]
  have late: "expected s' k \<le> lanes" using checked(2,5) k n same by (auto split: if_splits)
  have "triggered s' k + expected s' k \<le> triggered s k + expected s k \<or> triggered s' k < demo_cap k"
  proof (cases "asks who (Admitted caller ip cls) \<and> utc_day t \<le> day")
    case False
    then show ?thesis using checked(1-3) k n same day_le[of now t] by (auto simp: start_requests)
  next
    case True
    show ?thesis
    proof (cases "day = utc_day t")
      case False
      have "utc_day (us x) \<noteq> day" if "(i, x) \<in> set (ap_demo a)" for i x
      proof -
        have "utc_day (us x) \<le> utc_day now" using checked(1) assms(1) that by (auto intro!: day_of_past)
        then show ?thesis using day_le[OF checked(3)] True False by simp
      qed
      then have "triggered s' k = 0" using checked(2) k same by (auto simp: start_requests filter_empty_conv)
      then show ?thesis by (cases who) (simp_all add: k global_daily_cap_def daily_cap_def)
    next
      case today: True
      then show ?thesis
        using True checks_passed(1,2)[OF checked(4)] checked(2) same k
        by (cases who) (auto simp: start_requests global_triggers_today_def ip_triggers_today_def eq_commute[of ip])
    qed
  qed
  with late show ?thesis by blast
next
  case (entered now t caller ip cls a ep a')
  obtain day who where k: "k = (day, who)" by (cases k)
  note same = insert_same[OF entered(5)]
  have "Admitted caller ip cls \<in> set (ap_threads a')" using entered(4) same by simp
  note e = end_requests[OF this]
  have "asking who (start_thread (Inserted ep caller ip cls) (end_thread (Admitted caller ip cls) a')) = asking who a"
    using e(2)[of who] same_requests(2)[of a' a who] same by (simp add: start_requests)
  then show ?thesis using entered(1-3) k same e(3) day_le[OF entered(3)] by (simp add: start_requests)
next
  case (logged now t ep caller ip cls a)
  obtain day who where k: "k = (day, who)" by (cases k)
  note e = end_requests[OF logged(4)]
  have "triggered s' k = triggered s k +
      (if asks who (Inserted ep caller ip cls) \<and> utc_day t = day then 1 else 0)"
    using logged(1,2) k e(3) by (cases who) (auto simp: begin_demo same_second_day)
  moreover have "expected s' k \<le> (if utc_day t \<le> day then asking who (end_thread (Inserted ep caller ip cls) a) else 0)"
    using logged(2) k by (simp add: begin_requests)
  ultimately show ?thesis
    using logged(1,2) k e(2)[of who] day_le[OF logged(3)] by (auto split: if_splits)
next
  case (elsewhere now t b a)
  obtain day who where k: "k = (day, who)" by (cases k)
  show ?thesis using elsewhere k fewer_requests(2)[OF elsewhere(5), of who] day_le[OF elsewhere(3)] by auto
qed

lemma spaced_wait:
  assumes "spaced now a" "now \<le> t" "0 < asking (Some ip) a" "x \<in> set (times_of ip a)"
  shows "x + cooldown_s \<le> seconds t"
proof -
  have "x + cooldown_s \<le> seconds now" using assms(1,3,4) unfolding spaced_def by blast
  then show ?thesis using seconds_mono[OF assms(2)] by linarith
qed

lemma spaced_later:
  assumes "spaced now a" "now \<le> t" "ap_demo b = ap_demo a" "\<And>ip. asking (Some ip) b \<le> asking (Some ip) a"
  shows "spaced t b"
proof -
  have "x + cooldown_s \<le> seconds t" if "0 < asking (Some ip) b" "x \<in> set (times_of ip a)" for ip x
  proof -
    have "0 < asking (Some ip) a" using that(1) assms(4)[of ip] by simp
    then show ?thesis by (rule spaced_wait[OF assms(1,2) _ that(2)])
  qed
  then show ?thesis using assms(1,3) by (auto simp: spaced_def times_of_def)
qed

lemma demo_keeps:
  assumes "demo_ok lanes s" "demo_step lanes s s'"
  shows "demo_ok lanes s'"
  using assms(2,1)
proof cases
  case (checked now t steady cls caller ip a a')
  note same = checks_same[OF checked(4)]
  have "spaced t (start_thread (Admitted caller ip cls) a')" if "lanes \<le> 1"
  proof -
    have "spaced now a" using assms(1) checked(1) that by simp
    have none: "asking who a = 0" for who using checked(5) that asking_le[of who a] by simp
    have "x + cooldown_s \<le> seconds t"
      if "0 < asking (Some i) (start_thread (Admitted caller ip cls) a')" "x \<in> set (times_of i a)" for i x
      using that none[of "Some i"] same same_requests(2)[of a' a "Some i"] checks_passed(3)[OF checked(4)]
      by (auto simp: start_requests split: if_splits)
    then show ?thesis using \<open>spaced now a\<close> same by (auto simp: spaced_def times_of_def start_requests)
  qed
  then show ?thesis
    using assms(1) checked(1-3,5) same same_requests(1)[of a' a] seconds_mono[OF checked(3)]
    by (fastforce simp: start_requests)
next
  case (entered now t caller ip cls a ep a')
  note same = insert_same[OF entered(5)]
  have "Admitted caller ip cls \<in> set (ap_threads a')" using entered(4) same by simp
  note e = end_requests[OF this]
  let ?b = "start_thread (Inserted ep caller ip cls) (end_thread (Admitted caller ip cls) a')"
  have n: "length (requests ?b) = length (requests a)" "asking who ?b = asking who a" "ap_demo ?b = ap_demo a" for who
    using e(1) e(2)[of who] e(3) same_requests[of a' a] same by (simp_all add: start_requests)
  have "spaced t ?b" if "spaced now a"
    by (rule spaced_later[OF that entered(3) n(3)]) (simp add: n(2))
  then show ?thesis using assms(1) entered(1,2) n seconds_mono[OF entered(3)] by fastforce
next
  case (logged now t ep caller ip cls a)
  note e = end_requests[OF logged(4)]
  let ?c = "end_thread (Inserted ep caller ip cls) a"
  let ?b = "trigger_begin t ep cls caller ip ?c"
  have d: "ap_demo ?b = ap_demo a @ (if tp_role caller = ''demo-trigger'' then [(ip, seconds t)] else [])"
    by (simp add: begin_demo e(3))
  have "spaced t ?b" if l: "lanes \<le> 1"
  proof -
    have s: "spaced now a" using assms(1) logged(1) l by simp
    have "length (requests a) \<le> 1" using assms(1) logged(1) l by simp
    then have "asking who ?b = 0" for who
      using e(1) asking_le[of who ?c] by (simp add: begin_requests)
    moreover have "sorted_wrt (\<lambda>s t. s + cooldown_s \<le> t) (times_of i ?b)" for i
    proof (cases "tp_role caller = ''demo-trigger'' \<and> i = ip")
      case True
      then have "0 < asking (Some i) a" using e(2)[of "Some i"] by simp
      then have "\<forall>x \<in> set (times_of i a). x + cooldown_s \<le> seconds t"
        using spaced_wait[OF s logged(3)] by blast
      then show ?thesis using True s d by (auto simp: times_of_def spaced_def sorted_wrt_append)
    next
      case False
      then have "times_of i ?b = times_of i a" using d by (auto simp: times_of_def)
      then show ?thesis using s by (simp add: spaced_def)
    qed
    ultimately show ?thesis by (simp add: spaced_def)
  qed
  moreover have "length (requests ?b) \<le> lanes" using assms(1) logged(1) e(1) by (simp add: begin_requests)
  moreover have "\<forall>(i, x) \<in> set (ap_demo ?b). x \<le> seconds t"
    using assms(1) logged(1) d seconds_mono[OF logged(3)] by fastforce
  ultimately show ?thesis using logged(2) by simp
next
  case (elsewhere now t b a)
  note f = fewer_requests[OF elsewhere(5)]
  have "spaced t b" if "spaced now a"
    by (rule spaced_later[OF that elsewhere(3,4)]) (rule f(2))
  then show ?thesis using assms(1) elsewhere(1,2,4) f(1) seconds_mono[OF elsewhere(3)] by fastforce
qed

interpretation demo: raced_meter "demo_ok lanes" "demo_step lanes" triggered expected demo_cap lanes for lanes
  by (unfold_locales; (rule demo_keeps; assumption)?; rule demo_race; assumption)

section \<open>What the lifecycle guarantees\<close>

text \<open>A concrete process to look at: a request, its row, and the thread that resolves it.\<close>

definition operator :: token_payload where
  "operator = \<lparr>tp_role = ''admin'', tp_username = Some ''ops'', tp_exp = 0, tp_iat = 0\<rparr>"

definition oom_row :: live_row where
  "oom_row = new_row 0 ''oom'' (sock_shop ''catalogue'') (Some ''ops'')"

definition one_row_api :: "live_row \<Rightarrow> thread list \<Rightarrow> api" where
  "one_row_api r ths = idle_api\<lparr>ap_rows := [(''e1'', r)], ap_threads := ths\<rparr>"

lemmas example_defs = operator_def oom_row_def one_row_api_def idle_api_def new_row_def

lemma inserted_example: "(api_step faults restarts)\<^sup>*\<^sup>* idle_api
    (one_row_api oom_row [Inserted ''e1'' operator ''ip'' ''oom''])"
proof -
  have "trigger_checks 0 True ''oom'' operator ''ip'' idle_api = (Inr (), idle_api)"
    by (simp add: trigger_checks_def operator_def implemented_classes_def)
  from api_step.admitted[OF this] have 1: "api_step faults restarts idle_api
    (start_thread (Admitted operator ''ip'' ''oom'') idle_api)" .
  have "trigger_insert 0 ''e1'' ''oom'' operator ''ip'' (start_thread (Admitted operator ''ip'' ''oom'') idle_api)
    = (Inr (), one_row_api oom_row [Admitted operator ''ip'' ''oom''])"
    by (simp add: trigger_insert_def fault_config_def in_flight_episode_row_def legacy_row_def start_thread_def
        oom_row_def one_row_api_def idle_api_def operator_def)
  from api_step.inserted[OF _ _ this]
  have 2: "api_step faults restarts (start_thread (Admitted operator ''ip'' ''oom'') idle_api)
    (one_row_api oom_row [Inserted ''e1'' operator ''ip'' ''oom''])"
    by (simp add: start_thread_def end_thread_def one_row_api_def idle_api_def get_row_def)
  show ?thesis by (rule rtranclp.rtrancl_into_rtrancl, rule r_into_rtranclp, rule 1, rule 2)
qed

text \<open>C3: the admission lock holds: whatever requests, injectors, timers, resolvers, exceptions and
  restarts of the process interleave, at most one row is in a non-terminal state, and no two rows
  share an id.\<close>

theorem one_episode_in_flight:
  assumes "(api_step faults restarts)\<^sup>*\<^sup>* idle_api a"
  shows "length (filter (\<lambda>(e, r). in_state non_terminal_states r) (ap_rows a)) \<le> 1 \<and>
    distinct (List.map fst (ap_rows a))"
proof -
  from run_ok[OF assms idle_ok(1,2)] have ok: "lifecycle_ok a" "distinct (List.map fst (ap_rows a))" by auto
  from flying_rows[OF ok] ok(2) show ?thesis by (elim disjE exE) simp_all
qed

theorem one_episode_in_flight_witness:
  "length (filter (\<lambda>(e, r). in_state non_terminal_states r)
     (ap_rows (one_row_api oom_row [Inserted ''e1'' operator ''ip'' ''oom'']))) = 1"
proof (rule antisym)
  show "length (filter (\<lambda>(e, r). in_state non_terminal_states r)
     (ap_rows (one_row_api oom_row [Inserted ''e1'' operator ''ip'' ''oom'']))) \<le> 1"
    by (rule one_episode_in_flight[OF inserted_example, THEN conjunct1])
qed (simp add: example_defs in_state_def non_terminal_states_def)

text \<open>C11: as long as no exception escapes and every evidence file is a number, every non-terminal row
  of a reachable state has a thread working on it or an armed timer, across restarts too: an
  episode is never forgotten.\<close>

theorem every_live_row_is_watched:
  assumes "(api_step False restarts)\<^sup>*\<^sup>* idle_api a" "get_row a ep = Some r" "in_state non_terminal_states r"
  shows "(\<exists>th \<in> set (ap_threads a). \<exists>k. duty th = Some (ep, k)) \<or>
    lv_state r = Some Awaiting_Fix \<and> map_of (ap_timers a) ep \<noteq> None"
proof -
  obtain k where k: "stage (state_of a ep) = Some k" using live_row[OF assms(2,3)] .
  then have "covered a ep k" using run_watched[OF assms(1) idle_ok] by (simp add: watched_def)
  then show ?thesis using k stage_1 by (auto simp: covered_def state_of_get[OF assms(2)])
qed

theorem every_live_row_is_watched_witness:
  "\<exists>th \<in> set (ap_threads (one_row_api oom_row [Inserted ''e1'' operator ''ip'' ''oom''])).
     \<exists>k. duty th = Some (''e1'', k)"
proof -
  have "get_row (one_row_api oom_row [Inserted ''e1'' operator ''ip'' ''oom'']) ''e1'' = Some oom_row"
    "in_state non_terminal_states oom_row" "lv_state oom_row \<noteq> Some Awaiting_Fix"
    by (simp_all add: example_defs get_row_def in_state_def non_terminal_states_def)
  with every_live_row_is_watched[OF inserted_example[of False False], of "''e1''" oom_row] show ?thesis by blast
qed

text \<open>C13: an episode is resolved by one caller: once a row is resolving or finished, no later attempt to
  resolve it, by hand, by the timer, at the end of the hold or after a restart, gets past its UPDATE.\<close>

theorem resolved_at_most_once:
  assumes "(api_step faults restarts)\<^sup>*\<^sup>* idle_api a" "get_row a ep = Some r"
    and "lv_state r \<in> {Some Resolving, Some Resolved, Some Failed}"
    and "(api_step faults restarts)\<^sup>*\<^sup>* a b"
  shows "claim_resolve now ep b = (False, b)"
proof -
  from run_ok[OF assms(1) idle_ok(1,2)] have ok: "lifecycle_ok a" "distinct (List.map fst (ap_rows a))" by auto
  have "settled (state_of a ep)" using assms(3) by (simp add: state_of_get[OF assms(2)] settled_def)
  with run_settled[OF assms(4) ok] have s: "settled (state_of b ep)" .
  have d: "distinct (List.map fst (ap_rows b))" using run_ok[OF assms(4) ok] by simp
  have "\<not> fst (claim_resolve now ep b)"
  proof
    assume "fst (claim_resolve now ep b)"
    then obtain c where "claim_resolve now ep b = (True, c)" by (cases "claim_resolve now ep b") auto
    then show False using sets_claim(2)[OF _ d] s by fastforce
  qed
  then obtain c where c: "claim_resolve now ep b = (False, c)" by (cases "claim_resolve now ep b") auto
  with claim_lost(1)[OF c] show ?thesis by simp
qed

theorem resolved_at_most_once_witness:
  "\<exists>a. get_row a ''e1'' = Some (oom_row\<lparr>lv_state := Some Failed, lv_entered := Some 0\<rparr>) \<and>
     (\<forall>b now. (api_step True True)\<^sup>*\<^sup>* a b \<longrightarrow> claim_resolve now ''e1'' b = (False, b))"
proof -
  let ?b = "one_row_api (oom_row\<lparr>lv_state := Some Failed, lv_entered := Some 0\<rparr>) []"
  have "reconcile_on_startup 0 (\<lambda>_. False) (one_row_api oom_row [Inserted ''e1'' operator ''ip'' ''oom'']) = ?b"
    by (simp add: reconcile_on_startup_def example_defs in_state_def non_terminal_states_def reconcile_one_row_def
        fresh_process_def set_episode_state_def map_row_def terminal_states_def get_row_def)
  then have "api_step True True (one_row_api oom_row [Inserted ''e1'' operator ''ip'' ''oom'']) ?b"
    using api_step.restarted[of True True _ 0 "\<lambda>_. False"] by metis
  with inserted_example[of True True] have run: "(api_step True True)\<^sup>*\<^sup>* idle_api ?b" by simp
  have row: "get_row ?b ''e1'' = Some (oom_row\<lparr>lv_state := Some Failed, lv_entered := Some 0\<rparr>)"
    by (simp add: one_row_api_def get_row_def)
  have "claim_resolve now ''e1'' b = (False, b)" if "(api_step True True)\<^sup>*\<^sup>* ?b b" for b now
    by (rule resolved_at_most_once[OF run row _ that]) simp
  with row show ?thesis by blast
qed

text \<open>C19: a thread of \<^verbatim>\<open>/trigger/resolve\<close>, of the timer or of a reconciliation has no guard. When its
  row has no t0 or its evidence file is no number it dies after the claim, and until the process
  restarts the row stays in resolving and the endpoint answers every trigger with 429.\<close>

theorem crash_blocks_triggers:
  assumes "lifecycle_ok a" "distinct (List.map fst (ap_rows a))" "state_of a ep = Some (Some Resolving)"
    and "Claimed ep by False \<in> set (ap_threads a)" "snapshot_time ep a = Inl err"
    and "\<forall>th \<in> set (remove1 (Claimed ep by False) (ap_threads a)). early_of th \<noteq> Some ep \<and> late_of th \<noteq> Some ep"
    and "map_of (ap_timers a) ep = None"
  shows "\<exists>b. api_step faults False a b \<and>
    (\<forall>c. (api_step faults False)\<^sup>*\<^sup>* b c \<longrightarrow> state_of c ep = Some (Some Resolving) \<and>
      (\<forall>now e cls caller ip. fault_config cls \<noteq> None \<longrightarrow> fst (trigger_insert now e cls caller ip c) = Inl 429))"
proof -
  let ?b = "end_thread (Claimed ep by False) a"
  have s: "api_step faults False a ?b" by (rule api_step.unplanned[OF assms(4,5)])
  have ab: "abandoned ?b ep" using assms(3,6,7) by (simp add: abandoned_def end_thread_def state_of_def get_row_def)
  have ok: "lifecycle_ok ?b" "distinct (List.map fst (ap_rows ?b))" using ok_end[OF assms(1)] assms(2) by simp_all
  have c: "state_of c ep = Some (Some Resolving)" if "(api_step faults False)\<^sup>*\<^sup>* ?b c" for c
    by (rule run_abandoned[OF that ok ab, unfolded abandoned_def, THEN conjunct1])
  have "fst (trigger_insert now e cls caller ip c) = Inl 429"
    if "(api_step faults False)\<^sup>*\<^sup>* ?b c" "fault_config cls \<noteq> None" for c now e cls caller ip
    by (rule live_row_locks[OF _ that(2), of c ep]) (simp add: c[OF that(1)] live_def)
  with s c show ?thesis by blast
qed

theorem crash_blocks_triggers_witness:
  "\<exists>b. api_step False False (one_row_api (oom_row\<lparr>lv_state := Some Resolving\<rparr>) [Claimed ''e1'' ''manual'' False]) b \<and>
     fst (trigger_insert 0 ''e2'' ''disk-full'' operator ''ip'' b) = Inl 429"
proof -
  let ?a = "one_row_api (oom_row\<lparr>lv_state := Some Resolving\<rparr>) [Claimed ''e1'' ''manual'' False]"
  have r: "get_row ?a e = (if e = ''e1'' then Some (oom_row\<lparr>lv_state := Some Resolving\<rparr>) else None)" for e
    by (simp add: one_row_api_def get_row_def)
  have st: "state_of ?a e = (if e = ''e1'' then Some (Some Resolving) else None)" for e
    by (simp add: state_of_def r)
  have "ap_threads ?a = [Claimed ''e1'' ''manual'' False]" "ap_timers ?a = []"
    by (simp_all add: one_row_api_def idle_api_def)
  then have "lifecycle_ok ?a"
    by (simp add: lifecycle_ok_def st owners_def live_def early_def past_def)
  moreover have "fault_config ''disk-full'' \<noteq> None" by (simp add: fault_config_def)
  moreover have "state_of ?a ''e1'' = Some (Some Resolving)" by (simp add: state_of_def r)
  moreover have "snapshot_time ''e1'' ?a = Inl TypeError"
    by (simp add: snapshot_time_def r) (simp add: oom_row_def new_row_def)
  moreover have "Claimed ''e1'' ''manual'' False \<in> set (ap_threads ?a)" "map_of (ap_timers ?a) ''e1'' = None"
    "distinct (List.map fst (ap_rows ?a))" "remove1 (Claimed ''e1'' ''manual'' False) (ap_threads ?a) = []"
    by (simp_all add: one_row_api_def idle_api_def)
  ultimately show ?thesis
    using crash_blocks_triggers[of ?a "''e1''" "''manual''" TypeError False] by fastforce
qed

text \<open>C18: however the requests fall and the threads that serve them interleave, from any number of
  addresses: no day has more than ten triggers of the demo plus one for every thread but the first,
  no address more than three plus as many; with one thread, the caps are exact and an address waits
  a minute between two. The caps are read outside the lock, so each further thread can add one.\<close>

theorem demo_caps_hold:
  assumes "(demo_step lanes)\<^sup>*\<^sup>* (start, idle_api) (now, a)" "0 < lanes"
  shows "length (filter (\<lambda>(i, t). utc_day (us t) = day) (ap_demo a)) \<le> global_daily_cap + (lanes - 1) \<and>
    length (filter (\<lambda>(i, t). i = ip \<and> utc_day (us t) = day) (ap_demo a)) \<le> daily_cap + (lanes - 1) \<and>
    (lanes = 1 \<longrightarrow> sorted_wrt (\<lambda>s t. s + cooldown_s \<le> t) (List.map snd (filter (\<lambda>(i, t). i = ip) (ap_demo a))))"
proof -
  have ok: "demo_ok lanes (start, idle_api)"
    by (simp add: idle_api_def requests_def spaced_def times_of_def)
  have "triggered (now, a) k < demo_cap k + lanes" for k
    using assms(2) by (intro demo.bounded[OF assms(1) ok])
      (cases k rule: demo_cap.cases; simp add: idle_api_def asking_def global_daily_cap_def daily_cap_def)
  from this[of "(day, None)"] this[of "(day, Some ip)"]
  have "length (filter (\<lambda>(i, t). utc_day (us t) = day) (ap_demo a)) \<le> global_daily_cap + (lanes - 1)"
    "length (filter (\<lambda>(i, t). i = ip \<and> utc_day (us t) = day) (ap_demo a)) \<le> daily_cap + (lanes - 1)"
    using assms(2) by (simp_all add: eq_commute[of ip])
  moreover have "demo_ok lanes (now, a)" by (rule demo.inv_steps[OF assms(1) ok])
  then have "lanes = 1 \<longrightarrow> sorted_wrt (\<lambda>s t. s + cooldown_s \<le> t) (times_of ip a)" by (auto simp: spaced_def)
  ultimately show ?thesis by (simp add: times_of_def)
qed

text \<open>Two requests of one address in the same second: both pass the checks, and the second takes the
  lock when the episode of the first has failed.\<close>

definition guest :: token_payload where
  "guest = operator\<lparr>tp_role := ''demo-trigger''\<rparr>"

lemma demo_caps_hold_witness:
  "\<exists>a. (demo_step 2)\<^sup>*\<^sup>* (0, idle_api) (0, a) \<and> ap_demo a = [(''ip'', 0), (''ip'', 0)] \<and>
     (\<forall>day. length (filter (\<lambda>(i, t). i = ''ip'' \<and> utc_day (us t) = day) (ap_demo a)) \<le> daily_cap + 1)"
proof -
  let ?A = "Admitted guest ''ip'' ''oom''"
  let ?row = "\<lambda>s. new_row 0 ''oom'' (sock_shop ''catalogue'') (Some ''ops'')\<lparr>lv_state := Some s\<rparr>"
  let ?I = "\<lambda>e. Inserted e guest ''ip'' ''oom''"
  let ?log_it = "\<lambda>e. trigger_begin 0 e ''oom'' guest ''ip''"
  define a1 where "a1 = idle_api\<lparr>ap_threads := [?A]\<rparr>"
  define a2 where "a2 = idle_api\<lparr>ap_threads := [?A, ?A]\<rparr>"
  define a3 where "a3 = idle_api\<lparr>ap_threads := [?A, ?I ''e1''], ap_rows := [(''e1'', ?row Injecting)]\<rparr>"
  define a4 where "a4 = ?log_it ''e1'' (end_thread (?I ''e1'') a3)"
  define a5 where "a5 = a4\<lparr>ap_rows := [(''e1'', ?row Failed)]\<rparr>"
  define a6 where "a6 = start_thread (?I ''e2'') (end_thread ?A (a5\<lparr>ap_rows := ap_rows a5 @ [(''e2'', ?row Injecting)]\<rparr>))"
  have free: "trigger_checks 0 True ''oom'' guest ''ip'' a = (Inr (), a)" if "ap_demo a = []" for a
    using that by (simp add: trigger_checks_def guest_def operator_def implemented_classes_def safe_demo_classes_def
        global_triggers_today_def ip_triggers_today_def last_trigger_def global_daily_cap_def daily_cap_def)
  have clear: "trigger_insert 0 e ''oom'' guest ''ip'' a = (Inr (), a\<lparr>ap_rows := ap_rows a @ [(e, ?row Injecting)]\<rparr>)"
    if "ap_rows a = [] \<or> ap_rows a = [(''e1'', ?row Failed)]" for a e
    using that by (auto simp: trigger_insert_def fault_config_def in_flight_episode_row_def legacy_row_def
        in_state_def non_terminal_states_def new_row_def guest_def operator_def Let_def)
  have threads: "ap_threads a5 = [?A, Spawning ''e1'' ''oom'']" "ap_demo a5 = [(''ip'', 0)]"
    "ap_rows a5 = [(''e1'', ?row Failed)]" "ap_threads a4 = ap_threads a5" "ap_demo a4 = ap_demo a5"
    by (simp_all add: a5_def a4_def a3_def trigger_begin_def Let_def api_audit_def start_thread_def end_thread_def
        guest_def idle_api_def seconds_def)
  have i: "ap_demo idle_api = []" "ap_threads idle_api = []" "ap_rows idle_api = []" by (simp_all add: idle_api_def)
  have "demo_step 2 (0, idle_api) (0, a1)" "demo_step 2 (0, a1) (0, a2)"
    using checked[of 0 0 True "''oom''" guest "''ip''" idle_api idle_api 2, OF _ free]
      checked[of 0 0 True "''oom''" guest "''ip''" a1 a1 2, OF _ free]
    by (simp_all add: a1_def a2_def i start_thread_def requests_def)
  moreover have "demo_step 2 (0, a2) (0, a3)"
    using entered[of 0 0 guest "''ip''" "''oom''" a2 "''e1''" _ 2, OF _ _ clear]
    by (simp add: a2_def a3_def idle_api_def start_thread_def end_thread_def)
  moreover have "demo_step 2 (0, a3) (0, a4)"
    unfolding a4_def by (rule logged) (simp_all add: a3_def)
  moreover have "demo_step 2 (0, a4) (0, a5)"
    by (rule elsewhere) (simp_all add: threads requests_def)
  moreover have "demo_step 2 (0, a5) (0, a6)"
    unfolding a6_def by (rule entered[OF _ _ clear]) (simp_all add: threads)
  moreover have "demo_step 2 (0, a6) (0, ?log_it ''e2'' (end_thread (?I ''e2'') a6))"
    by (rule logged) (simp_all add: a6_def start_thread_def)
  ultimately have run: "(demo_step 2)\<^sup>*\<^sup>* (0, idle_api) (0, ?log_it ''e2'' (end_thread (?I ''e2'') a6))"
    by (meson converse_rtranclp_into_rtranclp rtranclp.rtrancl_refl)
  have "ap_demo (?log_it ''e2'' (end_thread (?I ''e2'') a6)) = [(''ip'', 0), (''ip'', 0)]"
    by (simp add: begin_demo end_thread_def a6_def start_thread_def threads guest_def seconds_def)
  with run demo_caps_hold[OF run, of _ "''ip''"] show ?thesis by fastforce
qed

end
