(* ===== verification/Batch_Plan.thy ===== *)
theory Batch_Plan
  imports Cage_Actions Quota_Tracker Fault_Taxonomy
begin

text \<open>
  \<^verbatim>\<open>run_batch_plan.py\<close> and the helpers it takes from \<^verbatim>\<open>run_episodes.py\<close>: the resumable runner
  of long series of episodes. A plan is a list of chunks, a class and a number of episodes;
  its progress is saved to a file after every episode and read again by the next process. The
  injector, the scorer and the baseline audit are subprocesses, and the operator's Ctrl+C, flag
  file and key press are read from the world.
\<close>

section \<open>State\<close>

datatype plan_status = Running | Paused | Complete

text \<open>The JSON of a plan. \<open>pl_completed\<close> is \<open>None\<close> where an old file has a dictionary there;
  times of faults are microseconds.\<close>

record gave_up_info =
  gu_done :: int
  gu_target :: int
  gu_failures :: nat

record plan =
  pl_items :: "(string \<times> int) list"
  pl_completed :: "int list option"
  pl_status :: plan_status
  pl_fault_time :: "(string \<times> int) list"
  pl_fault_class :: "(string \<times> string) list"
  pl_gave_up :: "(string \<times> gave_up_info) list"

record timing =
  tm_count :: int
  tm_total :: rat
  tm_min :: rat
  tm_max :: rat
  tm_avg :: rat

record provider_usage =
  pu_count :: int
  pu_tokens :: "int \<times> int \<times> int \<times> rat"
  pu_neurons :: "rat \<times> rat \<times> rat \<times> rat"

text \<open>What the runner reaches of the world: the two health pages with their status, \<open>None\<close> for a
  RequestException; the scripts it starts with whether they exit with 0; the database; the
  baseline helpers of the injector, which may raise; the clocks; the operator.\<close>

record 'w batch_env =
  be_prometheus :: "'w \<Rightarrow> int option \<times> 'w"
  be_agent :: "'w \<Rightarrow> int option \<times> 'w"
  be_run :: "string \<Rightarrow> string list \<Rightarrow> 'w \<Rightarrow> bool \<times> 'w"
  be_audit :: "bool \<Rightarrow> 'w \<Rightarrow> bool \<times> 'w"
  be_count :: "'w \<Rightarrow> string \<Rightarrow> nat"
  be_latest :: "'w \<Rightarrow> string \<Rightarrow> string option"
  be_usage :: "'w \<Rightarrow> quota_db"
  be_ensure :: "string \<Rightarrow> ('w, unit) step"
  be_time :: "'w \<Rightarrow> int"
  be_monotonic :: "'w \<Rightarrow> rat"
  be_sleep :: "int \<Rightarrow> 'w \<Rightarrow> 'w"
  be_stop :: "'w \<Rightarrow> bool"
  be_flag :: "'w \<Rightarrow> bool"
  be_unlink :: "'w \<Rightarrow> 'w"
  be_select :: "'w \<Rightarrow> bool \<times> 'w"

text \<open>The process and its files: the plan in memory, the progress file, the archived plans, and
  the two statistics files (of the timing files the one \<^verbatim>\<open>WARDENCE_STUB_ONLY\<close> picks).\<close>

record 'w batch =
  bt_world :: 'w
  bt_plan :: plan
  bt_disk :: "plan option"
  bt_archive :: "plan list"
  bt_timings :: "(string \<times> timing) list"
  bt_tokens :: "((string \<times> string) \<times> provider_usage) list"

definition batch_world :: "('w \<Rightarrow> 'w) \<Rightarrow> 'w batch \<Rightarrow> 'w batch" where
  "batch_world f s = s\<lparr>bt_world := f (bt_world s)\<rparr>"

definition batch_plan :: "(plan \<Rightarrow> plan) \<Rightarrow> 'w batch \<Rightarrow> 'w batch" where
  "batch_plan f s = s\<lparr>bt_plan := f (bt_plan s)\<rparr>"

definition save_plan :: "'w batch \<Rightarrow> 'w batch" where
  "save_plan s = s\<lparr>bt_disk := Some (bt_plan s)\<rparr>"

definition save_status :: "plan_status \<Rightarrow> 'w batch \<Rightarrow> 'w batch" where
  "save_status st s = save_plan (batch_plan (\<lambda>p. p\<lparr>pl_status := st\<rparr>) s)"

definition archive_completed_plan :: "'w batch \<Rightarrow> 'w batch" where
  "archive_completed_plan s =
     (case bt_disk s of None \<Rightarrow> s | Some p \<Rightarrow> s\<lparr>bt_disk := None, bt_archive := bt_archive s @ [p]\<rparr>)"

section \<open>Plans from the command line\<close>

text \<open>\<^verbatim>\<open>s.split(c)\<close> and \<^verbatim>\<open>s.partition(c)\<close> for a single character.\<close>

fun py_split :: "char \<Rightarrow> string \<Rightarrow> string list" where
  "py_split c [] = [[]]"
| "py_split c (x # xs) =
     (if x = c then [] # py_split c xs
      else (case py_split c xs of [] \<Rightarrow> [[x]] | w # ws \<Rightarrow> (x # w) # ws))"

definition py_partition :: "char \<Rightarrow> string \<Rightarrow> string \<times> string" where
  "py_partition c s = (takeWhile (\<lambda>x. x \<noteq> c) s, drop 1 (dropWhile (\<lambda>x. x \<noteq> c) s))"

definition parse_chunk :: "string \<Rightarrow> (string \<times> int) res" where
  "parse_chunk chunk =
     (case py_partition (CHR '':'') chunk of (c, n) \<Rightarrow>
        let cls = py_strip c in
        if fault_config cls = None then Inl ValueError
        else try_res (py_int n) (\<lambda>k. Inr (cls, k)))"

fun parse_chunks :: "string list \<Rightarrow> (string \<times> int) list res" where
  "parse_chunks [] = Inr []"
| "parse_chunks (c # cs) = try_res (parse_chunk c) (\<lambda>x. try_res (parse_chunks cs) (\<lambda>xs. Inr (x # xs)))"

definition parse_plan_arg :: "string \<Rightarrow> (string \<times> int) list res" where
  "parse_plan_arg arg = parse_chunks (py_split (CHR '','') arg)"

text \<open>A dictionary: a class named twice keeps its first place and its last count.\<close>

definition parse_shuffle_arg :: "string \<Rightarrow> (string \<times> int) list res" where
  "parse_shuffle_arg arg =
     try_res (parse_chunks (py_split (CHR '','') arg)) (\<lambda>cs. Inr (fold (\<lambda>(c, n) d. AList.update c n d) cs []))"

text \<open>\<open>draw\<close> stands for \<^verbatim>\<open>random.sample(keys, 2)\<close> with the shuffle after it: two different keys of
  the list it is given, in some order. A draw that is no such pair ends the loop.\<close>

definition take_one :: "string \<Rightarrow> (string \<times> int) list \<Rightarrow> (string \<times> int) list" where
  "take_one c m = List.map (\<lambda>(k, n). (k, if k = c then n - 1 else n)) m"

definition drop_spent :: "string \<Rightarrow> (string \<times> int) list \<Rightarrow> (string \<times> int) list" where
  "drop_spent c m = (if (case map_of m c of None \<Rightarrow> 0 | Some n \<Rightarrow> n) \<le> 0 then AList.delete c m else m)"

definition budget_left :: "(string \<times> int) list \<Rightarrow> nat" where
  "budget_left m = sum_list (List.map (\<lambda>(k, n). nat n) m)"

function shuffle_pairs ::
    "(nat \<Rightarrow> string list \<Rightarrow> string \<times> string) \<Rightarrow> (string \<times> int) list \<Rightarrow> (string \<times> int) list" where
  "shuffle_pairs draw m =
     (if length m < 2 then m
      else let (a, b) = draw (budget_left m) (List.map fst m);
               m' = drop_spent b (drop_spent a (take_one b (take_one a m))) in
           if budget_left m' < budget_left m then (a, 1) # (b, 1) # shuffle_pairs draw m' else [])"
  by pat_completeness auto
termination by (relation "measure (\<lambda>(draw, m). budget_left m)") auto

declare shuffle_pairs.simps [simp del]

definition build_shuffled_plan ::
    "(nat \<Rightarrow> string list \<Rightarrow> string \<times> string) \<Rightarrow> (string \<times> int) list \<Rightarrow> (string \<times> int) list" where
  "build_shuffled_plan draw counts = shuffle_pairs draw (filter (\<lambda>(c, n). 0 < n) counts)"

definition pairs_file_to_plan :: "(string \<times> string) list \<Rightarrow> (string \<times> int) list" where
  "pairs_file_to_plan pairs = concat (List.map (\<lambda>(a, b). [(a, 1), (b, 1)]) pairs)"

section \<open>Waiting\<close>

definition infra_wait_max_s :: int where "infra_wait_max_s = 1200"
definition infra_wait_poll_s :: int where "infra_wait_poll_s = 20"
definition batch_settle_s :: int where "batch_settle_s = 35"

definition infra_ready :: "'w batch_env \<Rightarrow> 'w \<Rightarrow> bool \<times> 'w" where
  "infra_ready E w =
     (case be_prometheus E w of (r, w1) \<Rightarrow>
        if r \<noteq> Some 200 then (False, w1)
        else (case be_agent E w1 of (r', w2) \<Rightarrow> (r' = Some 200, w2)))"

function wait_from :: "'w batch_env \<Rightarrow> int \<Rightarrow> 'w \<Rightarrow> bool \<times> 'w" where
  "wait_from E waited w =
     (case infra_ready E w of (ok, w1) \<Rightarrow>
        if ok then (True, w1)
        else if infra_wait_max_s \<le> waited then (False, w1)
        else wait_from E (waited + infra_wait_poll_s) (be_sleep E (seconds_us infra_wait_poll_s) w1))"
  by pat_completeness auto
termination
  by (relation "measure (\<lambda>(E, waited, w). nat (infra_wait_max_s - waited))")
     (auto simp: infra_wait_max_s_def infra_wait_poll_s_def)

declare wait_from.simps [simp del]

definition wait_for_infra_ready :: "'w batch_env \<Rightarrow> 'w \<Rightarrow> bool \<times> 'w" where
  "wait_for_infra_ready E w = wait_from E 0 w"

definition target_recency_window_s :: "string \<Rightarrow> int" where
  "target_recency_window_s c =
     (case map_of [(''network-latency'', 150), (''network-partition'', 150), (''init-failure'', 150),
        (''session-cart-failure'', 150), (''memory-leak'', 330), (''connection-pool-exhaustion'', 210),
        (''crash-loop'', 60), (''oom'', 60), (''disk-full'', 60), (''bad-rollout'', 60),
        (''under-provisioned-replicas'', 60), (''cpu-throttling'', 60)] c of
      Some s \<Rightarrow> s | None \<Rightarrow> 300)"

text \<open>Chunks of five seconds, with the stop flag looked at between them.\<close>

function sleep_rest :: "'w batch_env \<Rightarrow> int \<Rightarrow> 'w \<Rightarrow> 'w" where
  "sleep_rest E rest w =
     (if 0 < rest \<and> \<not> be_stop E w
      then sleep_rest E (rest - min rest (seconds_us 5)) (be_sleep E (min rest (seconds_us 5)) w)
      else w)"
  by pat_completeness auto
termination by (relation "measure (\<lambda>(E, rest, w). nat rest)") (auto simp: seconds_us_def)

declare sleep_rest.simps [simp del]

definition wait_for_target_recency ::
    "'w batch_env \<Rightarrow> string \<Rightarrow> string \<Rightarrow> (string \<times> int) list \<Rightarrow> 'w \<Rightarrow> 'w" where
  "wait_for_target_recency E target cls fault_time w =
     (case map_of fault_time target of
        None \<Rightarrow> w
      | Some t \<Rightarrow>
          let window = seconds_us (target_recency_window_s cls); elapsed = be_time E w - t in
          if elapsed < window then sleep_rest E (window - elapsed) w else w)"

section \<open>One episode\<close>

text \<open>\<^verbatim>\<open>run_one_episode\<close>: an unknown class raises before anything is done.\<close>

definition run_one_episode :: "'w batch_env \<Rightarrow> string \<Rightarrow> 'w batch \<Rightarrow> bool res \<times> 'w batch" where
  "run_one_episode E cls s =
     (case fault_config cls of
        None \<Rightarrow> (Inl (KeyError cls), s)
      | Some cfg \<Rightarrow>
          (case wait_for_infra_ready E (bt_world s) of (up, w1) \<Rightarrow>
             if \<not> up then (Inr False, s\<lparr>bt_world := w1\<rparr>)
             else
               let w2 = wait_for_target_recency E (cfg_target cfg) cls (pl_fault_time (bt_plan s)) w1 in
               (case be_run E ''injector.py'' [''--class'', cls] w2 of (injected, w3) \<Rightarrow>
                  if \<not> injected then (Inr False, s\<lparr>bt_world := w3\<rparr>)
                  else
                    let s1 = batch_plan (\<lambda>p. p\<lparr>pl_fault_time := AList.update (cfg_target cfg) (be_time E w3) (pl_fault_time p),
                               pl_fault_class := AList.update (cfg_target cfg) cls (pl_fault_class p)\<rparr>) s in
                    (case be_run E ''../p3_trust_action/p3_scorer.py'' [] (be_sleep E (seconds_us batch_settle_s) w3) of
                       (scored, w4) \<Rightarrow> (Inr scored, s1\<lparr>bt_world := w4\<rparr>)))))"

section \<open>Statistics\<close>

definition update_timings :: "string \<Rightarrow> rat \<Rightarrow> 'w batch \<Rightarrow> 'w batch" where
  "update_timings cls elapsed s =
     (let old = (case map_of (bt_timings s) cls of
                   None \<Rightarrow> \<lparr>tm_count = 0, tm_total = 0, tm_min = elapsed, tm_max = elapsed, tm_avg = 0\<rparr>
                 | Some t \<Rightarrow> t);
          n = tm_count old + 1; total = py_float (tm_total old + elapsed)
      in s\<lparr>bt_timings := AList.update cls
             \<lparr>tm_count = n, tm_total = total, tm_min = min (tm_min old) elapsed, tm_max = max (tm_max old) elapsed,
              tm_avg = py_float (total / of_int n)\<rparr> (bt_timings s)\<rparr>)"

text \<open>The totals of one episode per provider and model, in the order they first appear. Total, least,
  greatest and average of tokens and of Neurons.\<close>

definition episode_totals :: "call_row list \<Rightarrow> (string \<times> (int \<times> rat)) list" where
  "episode_totals rows =
     fold (\<lambda>r d. let k = cr_provider r @ '':'' @ cr_model r;
                     (t, n) = (case map_of d k of None \<Rightarrow> (0, 0) | Some x \<Rightarrow> x)
                 in AList.update k (t + cr_tokens r, py_float (n + cr_neurons r)) d) rows []"

definition fold_usage :: "int \<times> rat \<Rightarrow> provider_usage option \<Rightarrow> provider_usage" where
  "fold_usage x old =
     (case x of (t, n) \<Rightarrow>
        (case (case old of None \<Rightarrow> (0, (0, t, t, 0), (0, n, n, 0))
                         | Some u \<Rightarrow> (pu_count u, pu_tokens u, pu_neurons u)) of
           (k, (t_sum, t_min, t_max, _), (n_sum, n_min, n_max, _)) \<Rightarrow>
             \<lparr>pu_count = k + 1,
              pu_tokens = (t_sum + t, min t_min t, max t_max t, py_float (of_int (t_sum + t) / of_int (k + 1))),
              pu_neurons = (py_float (n_sum + n), min n_min n, max n_max n,
                            py_float (py_float (n_sum + n) / of_int (k + 1)))\<rparr>))"

definition update_token_usage :: "'w batch_env \<Rightarrow> string \<Rightarrow> string option \<Rightarrow> 'w batch \<Rightarrow> 'w batch" where
  "update_token_usage E cls episode s =
     (case episode of
        None \<Rightarrow> s
      | Some ep \<Rightarrow>
          (case get_episode_usage ep (be_usage E (bt_world s)) of
             [] \<Rightarrow> s
           | rows \<Rightarrow> s\<lparr>bt_tokens := fold (\<lambda>(k, x) d. AList.update (cls, k) (fold_usage x (map_of d (cls, k))) d)
                          (episode_totals rows) (bt_tokens s)\<rparr>))"

section \<open>Between two episodes\<close>

text \<open>The prompt: the flag of Ctrl+C is looked at once more after the five seconds.\<close>

definition prompt_for_pause :: "'w batch_env \<Rightarrow> 'w \<Rightarrow> bool \<times> 'w" where
  "prompt_for_pause E w = (case be_select E w of (ready, w1) \<Rightarrow> (be_stop E w1 \<or> ready, w1))"

definition pause_requested :: "'w batch_env \<Rightarrow> 'w \<Rightarrow> bool \<times> 'w" where
  "pause_requested E w =
     (if be_stop E w then (True, w) else if be_flag E w then (True, w) else prompt_for_pause E w)"

definition run_baseline_checks :: "'w batch_env \<Rightarrow> ('w, unit) step" where
  "run_baseline_checks E = then_step (be_ensure E ''oom'') (\<lambda>_. be_ensure E ''cpu-throttling'')"

text \<open>The audit, its repair and the audit again.\<close>

definition run_baseline_check :: "'w batch_env \<Rightarrow> 'w \<Rightarrow> bool \<times> 'w" where
  "run_baseline_check E w =
     (case be_audit E False w of (clean, w1) \<Rightarrow>
        if clean then (True, w1)
        else (case be_audit E True w1 of (fixed, w2) \<Rightarrow>
                if \<not> fixed then (False, w2) else be_audit E False w2))"

section \<open>The chunks of a plan\<close>

definition max_consecutive_real_failures :: nat where
  "max_consecutive_real_failures = 3"

definition unlink_flag :: "'w batch_env \<Rightarrow> 'w batch \<Rightarrow> 'w batch" where
  "unlink_flag E s = (if be_flag E (bt_world s) then batch_world (be_unlink E) s else s)"

definition completed_of :: "plan \<Rightarrow> int list" where
  "completed_of p = (case pl_completed p of None \<Rightarrow> List.map (\<lambda>_. 0) (pl_items p) | Some xs \<Rightarrow> xs)"

text \<open>\<^verbatim>\<open>plan_state["completed"][idx] = n\<close>.\<close>

definition set_completed :: "nat \<Rightarrow> int \<Rightarrow> 'w batch \<Rightarrow> 'w batch" where
  "set_completed idx n s = batch_plan (\<lambda>p. p\<lparr>pl_completed := Some ((completed_of p)[idx := n])\<rparr>) s"

definition give_up :: "string \<Rightarrow> int \<Rightarrow> int \<Rightarrow> nat \<Rightarrow> 'w batch \<Rightarrow> 'w batch" where
  "give_up cls done_so_far target fails s =
     save_plan (batch_plan (\<lambda>p. p\<lparr>pl_gave_up := AList.update cls
       \<lparr>gu_done = done_so_far, gu_target = target, gu_failures = fails\<rparr> (pl_gave_up p)\<rparr>) s)"

text \<open>What follows a recorded episode: statistics, progress, baselines, and whether to pause.\<close>

definition after_recorded ::
    "'w batch_env \<Rightarrow> nat \<Rightarrow> string \<Rightarrow> int \<Rightarrow> rat \<Rightarrow> 'w batch \<Rightarrow> bool res \<times> 'w batch" where
  "after_recorded E idx cls done_so_far elapsed s =
     (let s1 = update_token_usage E cls (be_latest E (bt_world s) cls) (update_timings cls elapsed s);
          s2 = save_plan (set_completed idx (done_so_far + 1) s1)
      in case run_baseline_checks E (bt_world s2) of
           (Inl e, w1) \<Rightarrow> (Inl e, s2\<lparr>bt_world := w1\<rparr>)
         | (Inr _, w1) \<Rightarrow>
             (case pause_requested E w1 of (stop, w2) \<Rightarrow>
                if stop then (Inr True, unlink_flag E (save_status Paused (s2\<lparr>bt_world := w2\<rparr>)))
                else (Inr False, s2\<lparr>bt_world := w2\<rparr>)))"

text \<open>The loop of a chunk. \<open>done_so_far\<close> is the chunk's entry of \<^verbatim>\<open>completed\<close>, which only the loop
  changes; the result tells whether the run stopped early.\<close>

function run_chunk ::
    "'w batch_env \<Rightarrow> nat \<Rightarrow> string \<Rightarrow> int \<Rightarrow> int \<Rightarrow> nat \<Rightarrow> 'w batch \<Rightarrow> bool res \<times> 'w batch" where
  "run_chunk E idx cls target done_so_far fails s =
     (if target \<le> done_so_far then (Inr False, s)
      else
        case run_one_episode E cls s of
          (Inl e, s1) \<Rightarrow> (Inl e, s1)
        | (Inr ok, s1) \<Rightarrow>
            if \<not> ok then (Inr True, save_status Paused s1)
            else if be_count E (bt_world s1) cls \<le> be_count E (bt_world s) cls then
              (if max_consecutive_real_failures \<le> fails + 1
               then (Inr False, give_up cls done_so_far target (fails + 1) s1)
               else run_chunk E idx cls target done_so_far (fails + 1) s1)
            else
              (case after_recorded E idx cls done_so_far
                      (py_float (be_monotonic E (bt_world s1) - be_monotonic E (bt_world s))) s1 of
                 (Inl e, s2) \<Rightarrow> (Inl e, s2)
               | (Inr stop, s2) \<Rightarrow>
                   if stop then (Inr True, s2) else run_chunk E idx cls target (done_so_far + 1) 0 s2))"
  by pat_completeness auto
termination
  by (relation "measures [\<lambda>(E, idx, cls, target, d, fails, s). nat (target - d),
                          \<lambda>(E, idx, cls, target, d, fails, s). max_consecutive_real_failures - fails]") auto

declare run_chunk.simps [simp del]

text \<open>The chunks from \<open>idx\<close> on. A progress list that is too short raises.\<close>

fun run_chunks :: "'w batch_env \<Rightarrow> nat \<Rightarrow> (string \<times> int) list \<Rightarrow> 'w batch \<Rightarrow> bool res \<times> 'w batch" where
  "run_chunks E idx [] s = (Inr False, s)"
| "run_chunks E idx ((cls, target) # rest) s =
     (let done_of = completed_of (bt_plan s) in
      if length done_of \<le> idx then (Inl IndexError, s)
      else if target \<le> done_of ! idx then run_chunks E (Suc idx) rest s
      else if map_of (pl_gave_up (bt_plan s)) cls \<noteq> None
      then run_chunks E (Suc idx) rest (save_plan (set_completed idx target s))
      else (case run_chunk E idx cls target (done_of ! idx) 0 s of
              (Inl e, s1) \<Rightarrow> (Inl e, s1)
            | (Inr stop, s1) \<Rightarrow> if stop then (Inr True, s1) else run_chunks E (Suc idx) rest s1))"

section \<open>The process\<close>

datatype plan_arg = Plan_Arg string | Shuffle_Arg string | Pairs_Arg "(string \<times> string) list"

definition plan_of_arg :: "(nat \<Rightarrow> string list \<Rightarrow> string \<times> string) \<Rightarrow> plan_arg \<Rightarrow> (string \<times> int) list res" where
  "plan_of_arg draw arg =
     (case arg of
        Plan_Arg t \<Rightarrow> parse_plan_arg t
      | Shuffle_Arg t \<Rightarrow> try_res (parse_shuffle_arg t) (\<lambda>counts. Inr (build_shuffled_plan draw counts))
      | Pairs_Arg pairs \<Rightarrow> Inr (pairs_file_to_plan pairs))"

definition new_plan :: "(string \<times> int) list \<Rightarrow> plan" where
  "new_plan items = \<lparr>pl_items = items, pl_completed = Some (List.map (\<lambda>_. 0) items), pl_status = Running,
     pl_fault_time = [], pl_fault_class = [], pl_gave_up = []\<rparr>"

text \<open>The plan to run: the saved one while it is not complete, whatever the arguments; else a new one
  of the only argument. \<open>None\<close> when there is nothing to do.\<close>

definition choose_plan ::
    "(nat \<Rightarrow> string list \<Rightarrow> string \<times> string) \<Rightarrow> plan_arg list \<Rightarrow> 'w batch \<Rightarrow> 'w batch option res" where
  "choose_plan draw args s =
     (case bt_disk s of
        Some p \<Rightarrow>
          if pl_status p \<noteq> Complete then Inr (Some (s\<lparr>bt_plan := p\<rparr>))
          else (case args of
                  [arg] \<Rightarrow> try_res (plan_of_arg draw arg) (\<lambda>items. Inr (Some (save_plan (s\<lparr>bt_plan := new_plan items\<rparr>))))
                | _ \<Rightarrow> Inr None)
      | None \<Rightarrow>
          (case args of
             [arg] \<Rightarrow> try_res (plan_of_arg draw arg) (\<lambda>items. Inr (Some (save_plan (s\<lparr>bt_plan := new_plan items\<rparr>))))
           | _ \<Rightarrow> Inr None))"

text \<open>\<^verbatim>\<open>main\<close> after the arguments; the result is the last status the run leaves.\<close>

definition run_plan :: "'w batch_env \<Rightarrow> 'w batch \<Rightarrow> plan_status res \<times> 'w batch" where
  "run_plan E s =
     (let s1 = unlink_flag E s in
      case run_baseline_check E (bt_world s1) of (clean, w1) \<Rightarrow>
        let s2 = s1\<lparr>bt_world := w1\<rparr> in
        if \<not> clean then (Inr Paused, save_status Paused s2)
        else
          let s3 = batch_plan (\<lambda>p. p\<lparr>pl_completed := Some (completed_of p)\<rparr>) s2 in
          (case run_chunks E 0 (pl_items (bt_plan s3)) s3 of
             (Inl e, s4) \<Rightarrow> (Inl e, s4)
           | (Inr stopped, s4) \<Rightarrow>
               if stopped then (Inr Paused, s4)
               else (Inr Complete, archive_completed_plan (save_status Complete s4))))"

definition batch_main ::
    "'w batch_env \<Rightarrow> (nat \<Rightarrow> string list \<Rightarrow> string \<times> string) \<Rightarrow> plan_arg list \<Rightarrow> 'w batch \<Rightarrow> plan_status option res \<times> 'w batch" where
  "batch_main E draw args s =
     (case choose_plan draw args s of
        Inl e \<Rightarrow> (Inl e, s)
      | Inr None \<Rightarrow> (Inr None, s)
      | Inr (Some s1) \<Rightarrow> (case run_plan E s1 of (Inl e, s2) \<Rightarrow> (Inl e, s2) | (Inr st, s2) \<Rightarrow> (Inr (Some st), s2)))"

end
