(* ===== verification/Batch_Properties.thy ===== *)
theory Batch_Properties
  imports Batch_Plan
begin

text \<open>
  What the batch runner keeps: the recency window before an injection, progress that stands for
  recorded episodes, a progress file that is never behind the process, shuffled plans that add up
  to what was asked for; and what follows from the exit code of a refused injection.
\<close>

section \<open>Shuffled plans\<close>

definition asked :: "(string \<times> int) list \<Rightarrow> string \<Rightarrow> int" where
  "asked m c = (case map_of m c of None \<Rightarrow> 0 | Some n \<Rightarrow> n)"

definition planned_of :: "(string \<times> int) list \<Rightarrow> string \<Rightarrow> int" where
  "planned_of items c = sum_list (List.map snd (filter (\<lambda>x. fst x = c) items))"

definition fair_draw :: "(nat \<Rightarrow> string list \<Rightarrow> string \<times> string) \<Rightarrow> bool" where
  "fair_draw draw \<longleftrightarrow> (\<forall>n ks. 2 \<le> length ks \<and> distinct ks \<longrightarrow>
     fst (draw n ks) \<in> set ks \<and> snd (draw n ks) \<in> set ks \<and> fst (draw n ks) \<noteq> snd (draw n ks))"

lemma planned_simps [simp]:
  "planned_of [] c = 0" "planned_of ((d, n) # xs) c = (if d = c then n else 0) + planned_of xs c"
  by (simp_all add: planned_of_def)

lemma map_of_take_one: "map_of (take_one c m) k = map_option (\<lambda>n. if k = c then n - 1 else n) (map_of m k)"
  by (induction m) (auto simp: take_one_def)

lemma asked_take_one: "asked (take_one c m) k = asked m k - (if k = c \<and> c \<in> dom (map_of m) then 1 else 0)"
  by (auto simp: asked_def map_of_take_one split: option.splits)

lemma asked_drop_spent:
  assumes "0 \<le> asked m c"
  shows "asked (drop_spent c m) k = asked m k"
  using assms by (auto simp: asked_def drop_spent_def delete_conv' split: option.splits)

lemma keys_take_one [simp]: "List.map fst (take_one c m) = List.map fst m"
  by (induction m) (auto simp: take_one_def)

lemma distinct_drop_spent: "distinct (List.map fst m) \<Longrightarrow> distinct (List.map fst (drop_spent c m))"
  by (simp add: drop_spent_def distinct_delete)

definition spendable :: "(string \<times> int) list \<Rightarrow> bool" where
  "spendable m \<longleftrightarrow> distinct (List.map fst m) \<and> (\<forall>x \<in> set m. 0 < snd x)"

lemma asked_in: "distinct (List.map fst m) \<Longrightarrow> (c, n) \<in> set m \<Longrightarrow> asked m c = n"
  by (simp add: asked_def)

lemma asked_out: "c \<notin> fst ` set m \<Longrightarrow> asked m c = 0"
  by (auto simp: asked_def split: option.split dest: map_of_SomeD intro: rev_image_eqI)

lemma spendable_pos: "spendable m \<Longrightarrow> c \<in> set (List.map fst m) \<Longrightarrow> 0 < asked m c"
  by (auto simp: spendable_def asked_in)

lemma set_delete: "set (AList.delete c m) = {x \<in> set m. fst x \<noteq> c}"
  by (induction m) auto

text \<open>One round takes one from each of the two and drops what is spent.\<close>

definition after_pair :: "string \<Rightarrow> string \<Rightarrow> (string \<times> int) list \<Rightarrow> (string \<times> int) list" where
  "after_pair a b m = drop_spent b (drop_spent a (take_one b (take_one a m)))"

lemma asked_after_pair:
  assumes "spendable m" "a \<in> set (List.map fst m)" "b \<in> set (List.map fst m)" "a \<noteq> b"
  shows "asked (after_pair a b m) c = asked m c - (if c = a \<or> c = b then 1 else 0)"
proof -
  let ?t = "take_one b (take_one a m)"
  have d: "dom (map_of (take_one a m)) = dom (map_of m)" "dom (map_of m) = fst ` set m"
    by (simp add: map_of_take_one dom_def, rule dom_map_of_conv_image_fst)
  have t: "asked ?t k = asked m k - (if k = a \<or> k = b then 1 else 0)" for k
    using assms(2-4) d by (auto simp: asked_take_one)
  have "0 \<le> asked ?t a" "0 \<le> asked ?t b"
    using spendable_pos[OF assms(1,2)] spendable_pos[OF assms(1,3)] by (simp_all add: t)
  then show ?thesis by (simp add: after_pair_def asked_drop_spent t)
qed

lemma in_drop_spent:
  assumes "distinct (List.map fst x)" "(c, n) \<in> set (drop_spent k x)"
  shows "(c, n) \<in> set x" "c = k \<Longrightarrow> 0 < n"
  using assms by (auto simp: drop_spent_def set_delete split: if_splits)

lemma spendable_after_pair:
  assumes "spendable m"
  shows "spendable (after_pair a b m)"
proof -
  let ?t = "take_one b (take_one a m)"
  have d: "distinct (List.map fst ?t)" using assms by (simp add: spendable_def)
  have "0 < n" if "(c, n) \<in> set (after_pair a b m)" for c n
  proof (cases "c = a \<or> c = b")
    case True
    then show ?thesis
      using that in_drop_spent[OF d] in_drop_spent(2)[OF distinct_drop_spent[OF d]]
        in_drop_spent(1)[OF distinct_drop_spent[OF d]]
      unfolding after_pair_def by blast
  next
    case False
    have "(c, n) \<in> set ?t"
      using that in_drop_spent(1)[OF d] in_drop_spent(1)[OF distinct_drop_spent[OF d]]
      unfolding after_pair_def by blast
    with False have "(c, n) \<in> set m" by (auto simp: take_one_def)
    with assms show ?thesis by (auto simp: spendable_def)
  qed
  with distinct_drop_spent[OF distinct_drop_spent[OF d]] show ?thesis by (auto simp: spendable_def after_pair_def)
qed

text \<open>A draw of two keys spends two episodes, so the loop goes on until one class is left.\<close>

lemma budget_take_one:
  "budget_left (take_one c m) \<le> budget_left m"
  "(c, n) \<in> set m \<Longrightarrow> 0 < n \<Longrightarrow> budget_left (take_one c m) < budget_left m"
proof -
  show *: "budget_left (take_one c m) \<le> budget_left m" for m
    by (induction m) (auto simp: budget_left_def take_one_def)
  show "(c, n) \<in> set m \<Longrightarrow> 0 < n \<Longrightarrow> budget_left (take_one c m) < budget_left m"
  proof (induction m)
    case (Cons x m)
    then show ?case using *[of m] by (cases x) (auto simp: budget_left_def take_one_def)
  qed simp
qed

lemma budget_drop_spent: "budget_left (drop_spent c m) \<le> budget_left m"
proof -
  have "budget_left (AList.delete c m) \<le> budget_left m"
    by (induction m) (auto simp: budget_left_def)
  then show ?thesis by (simp add: drop_spent_def)
qed

lemma budget_after_pair:
  assumes "spendable m" "a \<in> set (List.map fst m)"
  shows "budget_left (after_pair a b m) < budget_left m"
proof -
  obtain n where "(a, n) \<in> set m" "0 < n" using assms by (auto simp: spendable_def)
  then have "budget_left (take_one a m) < budget_left m" by (rule budget_take_one(2))
  then show ?thesis
    unfolding after_pair_def
    by (meson budget_drop_spent budget_take_one(1) le_less_trans)
qed

lemma shuffle_step:
  assumes "spendable m" "fair_draw draw" "2 \<le> length m"
  obtains a b where "a \<noteq> b" "a \<in> set (List.map fst m)" "b \<in> set (List.map fst m)"
    "shuffle_pairs draw m = (a, 1) # (b, 1) # shuffle_pairs draw (after_pair a b m)"
proof -
  obtain a b where ab: "draw (budget_left m) (List.map fst m) = (a, b)" by fastforce
  then have "a \<in> set (List.map fst m)" "b \<in> set (List.map fst m)" "a \<noteq> b"
    using assms unfolding fair_draw_def spendable_def by (metis fst_conv snd_conv length_map)+
  moreover from this have "shuffle_pairs draw m = (a, 1) # (b, 1) # shuffle_pairs draw (after_pair a b m)"
    using assms(3) ab budget_after_pair[OF assms(1)]
    by (subst shuffle_pairs.simps) (simp add: Let_def after_pair_def)
  ultimately show ?thesis using that by blast
qed

text \<open>The plan in terms of what was asked: pairs of two classes, then one block.\<close>

fun paired :: "(string \<times> int) list \<Rightarrow> bool" where
  "paired ((a, m) # (b, n) # xs) \<longleftrightarrow> m = 1 \<and> n = 1 \<and> a \<noteq> b \<and> paired xs"
| "paired [(a, n)] \<longleftrightarrow> 0 < n"
| "paired [] \<longleftrightarrow> True"

lemma shuffle_pairs_ok:
  "spendable m \<Longrightarrow> fair_draw draw \<Longrightarrow>
     planned_of (shuffle_pairs draw m) c = asked m c \<and> paired (shuffle_pairs draw m)"
proof (induction "budget_left m" arbitrary: m rule: less_induct)
  case less
  show ?case
  proof (cases "length m < 2")
    case True
    then show ?thesis
      using less(2) by (cases m; cases "tl m") (auto simp: shuffle_pairs.simps asked_def spendable_def)
  next
    case False
    then obtain a b where ab: "a \<noteq> b" "a \<in> set (List.map fst m)" "b \<in> set (List.map fst m)"
      "shuffle_pairs draw m = (a, 1) # (b, 1) # shuffle_pairs draw (after_pair a b m)"
      using shuffle_step[OF less(2,3)] by (metis not_less)
    have "planned_of (shuffle_pairs draw (after_pair a b m)) c = asked (after_pair a b m) c \<and>
      paired (shuffle_pairs draw (after_pair a b m))"
      by (rule less(1)[OF budget_after_pair[OF less(2) ab(2)] spendable_after_pair[OF less(2)] less(3)])
    then show ?thesis using ab asked_after_pair[OF less(2) ab(2,3,1), of c] by auto
  qed
qed

section \<open>The wait before an injection\<close>

lemma wait_same:
  "infra_ready F = infra_ready E \<Longrightarrow> be_sleep F = be_sleep E \<Longrightarrow> wait_from F n w = wait_from E n w"
proof (induction E n w rule: wait_from.induct)
  case (1 E n w)
  obtain ok w1 where i: "infra_ready E w = (ok, w1)" by fastforce
  show ?case
    using 1(1)[OF i[symmetric] _ _ 1(2,3)] 1(2,3) i by (simp add: wait_from.simps[of _ n w])
qed

lemma sleep_same:
  "be_stop F = be_stop E \<Longrightarrow> be_sleep F = be_sleep E \<Longrightarrow> sleep_rest F n w = sleep_rest E n w"
proof (induction E n w rule: sleep_rest.induct)
  case (1 E n w)
  show ?case
    using 1(1)[OF _ 1(2,3)] 1(2,3) by (cases "0 < n \<and> \<not> be_stop E w") (auto simp: sleep_rest.simps[of _ n w])
qed

text \<open>What \<^verbatim>\<open>time.sleep\<close> promises: at least the time it was asked for, while nobody sets the clock back.\<close>

definition sleeps_enough :: "'w batch_env \<Rightarrow> bool" where
  "sleeps_enough E \<longleftrightarrow> (\<forall>n w. 0 \<le> n \<longrightarrow> be_time E w + n \<le> be_time E (be_sleep E n w))"

lemma sleep_rest_time:
  "sleeps_enough E \<Longrightarrow> 0 \<le> rest \<Longrightarrow>
     be_time E w + rest \<le> be_time E (sleep_rest E rest w) \<or> be_stop E (sleep_rest E rest w)"
proof (induction E rest w rule: sleep_rest.induct)
  case (1 E rest w)
  show ?case
  proof (cases "0 < rest \<and> \<not> be_stop E w")
    case True
    let ?n = "min rest (seconds_us 5)"
    have "sleep_rest E rest w = sleep_rest E (rest - ?n) (be_sleep E ?n w)"
      using True by (simp add: sleep_rest.simps[of E rest w])
    moreover have "be_time E w + ?n \<le> be_time E (be_sleep E ?n w)"
      using 1(2) True by (simp add: sleeps_enough_def seconds_us_def)
    ultimately show ?thesis using 1(1)[OF True 1(2)] by fastforce
  qed (use 1(3) in \<open>auto simp: sleep_rest.simps[of E rest w]\<close>)
qed

lemma target_recency:
  assumes "sleeps_enough E" "map_of ft target = Some t"
    and "\<not> be_stop E (wait_for_target_recency E target cls ft w)"
  shows "t + seconds_us (target_recency_window_s cls) \<le> be_time E (wait_for_target_recency E target cls ft w)"
  using assms sleep_rest_time[OF assms(1), of "seconds_us (target_recency_window_s cls) - (be_time E w - t)" w]
  by (auto simp: wait_for_target_recency_def Let_def split: if_splits)

section \<open>What the runner does besides starting the injector\<close>

text \<open>A relation between worlds that is kept by everything the runner reaches, subprocesses apart, is kept
  by its waits, its audits and its prompts.\<close>

locale quiet_world =
  fixes E :: "'w batch_env" and rel :: "'w \<Rightarrow> 'w \<Rightarrow> bool"
  assumes same: "rel w w"
    and later: "rel a b \<Longrightarrow> rel b c \<Longrightarrow> rel a c"
    and prometheus: "rel w (snd (be_prometheus E w))"
    and agent: "rel w (snd (be_agent E w))"
    and audit: "rel w (snd (be_audit E x w))"
    and ensure: "rel w (snd (be_ensure E t w))"
    and sleep: "rel w (be_sleep E n w)"
    and unlink: "rel w (be_unlink E w)"
    and select: "rel w (snd (be_select E w))"
begin

lemma infra: "infra_ready E w = (b, w') \<Longrightarrow> rel w w'"
  using prometheus[of w] agent[of "snd (be_prometheus E w)"]
  by (auto simp: infra_ready_def intro: later split: if_splits prod.splits)

lemma wait: "wait_from E t w = (b, w') \<Longrightarrow> rel w w'"
proof (induction "nat (infra_wait_max_s - t)" arbitrary: t w rule: less_induct)
  case less
  obtain ok w1 where i: "infra_ready E w = (ok, w1)" by fastforce
  show ?case
  proof (cases "ok \<or> infra_wait_max_s \<le> t")
    case False
    let ?w = "be_sleep E (seconds_us infra_wait_poll_s) w1"
    have "wait_from E (t + infra_wait_poll_s) ?w = (b, w')"
      using less(2) i False by (simp add: wait_from.simps[of E t w])
    then have "rel ?w w'" by (intro less(1)) (use False in \<open>simp_all add: infra_wait_poll_s_def infra_wait_max_s_def\<close>)
    then show ?thesis by (rule later[OF infra[OF i] later[OF sleep]])
  qed (use less(2) i infra[OF i] in \<open>auto simp: wait_from.simps[of E t w] split: if_splits\<close>)
qed

lemma rest: "rel w (sleep_rest E n w)"
proof (induction "nat n" arbitrary: n w rule: less_induct)
  case less
  show ?case
  proof (cases "0 < n \<and> \<not> be_stop E w")
    case True
    then have "rel (be_sleep E (min n (seconds_us 5)) w) (sleep_rest E (n - min n (seconds_us 5)) (be_sleep E (min n (seconds_us 5)) w))"
      by (intro less) (auto simp: seconds_us_def)
    then show ?thesis using True by (simp add: sleep_rest.simps[of E n w] later[OF sleep])
  qed (auto simp: sleep_rest.simps[of E n w] same)
qed

lemma recency: "rel w (wait_for_target_recency E target cls ft w)"
  by (auto simp: wait_for_target_recency_def Let_def rest same split: option.split)

lemma pause: "pause_requested E w = (b, w') \<Longrightarrow> rel w w'"
  using select[of w] by (auto simp: pause_requested_def prompt_for_pause_def same split: if_splits prod.splits)

lemma checks: "run_baseline_checks E w = (r, w') \<Longrightarrow> rel w w'"
  using ensure[of w "''oom''"] ensure[of "snd (be_ensure E ''oom'' w)" "''cpu-throttling''"]
  by (auto simp: run_baseline_checks_def then_step_def intro: later split: prod.splits sum.splits)

lemma audits: "run_baseline_check E w = (b, w') \<Longrightarrow> rel w w'"
  using audit[of w False] audit[of "snd (be_audit E False w)" True]
    audit[of "snd (be_audit E True (snd (be_audit E False w)))" False]
  by (auto simp: run_baseline_check_def intro: later split: if_splits prod.splits)

end

section \<open>Progress\<close>

text \<open>The database only gains episodes.\<close>

definition grown :: "'w batch_env \<Rightarrow> 'w \<Rightarrow> 'w \<Rightarrow> bool" where
  "grown E w w' \<longleftrightarrow> (\<forall>c. be_count E w c \<le> be_count E w' c)"

definition only_grows :: "'w batch_env \<Rightarrow> bool" where
  "only_grows E \<longleftrightarrow> (\<forall>w. grown E w (snd (be_prometheus E w)) \<and> grown E w (snd (be_agent E w)) \<and>
     grown E w (snd (be_select E w)) \<and> grown E w (be_unlink E w) \<and>
     (\<forall>x. grown E w (be_sleep E x w)) \<and> (\<forall>x. grown E w (snd (be_audit E x w))) \<and>
     (\<forall>x. grown E w (snd (be_ensure E x w))) \<and> (\<forall>x y. grown E w (snd (be_run E x y w))))"

lemma grown_refl [simp]: "grown E w w" by (simp add: grown_def)

lemma grown_trans: "grown E a b \<Longrightarrow> grown E b c \<Longrightarrow> grown E a c"
  unfolding grown_def by (blast intro: le_trans)

lemma only_growsD:
  assumes "only_grows E"
  shows "be_prometheus E w = (x, w') \<Longrightarrow> grown E w w'" "be_agent E w = (x, w') \<Longrightarrow> grown E w w'"
    "be_select E w = (b, w') \<Longrightarrow> grown E w w'" "grown E w (be_unlink E w)" "grown E w (be_sleep E n w)"
    "be_audit E fx w = (b, w') \<Longrightarrow> grown E w w'" "be_ensure E t w = (r, w') \<Longrightarrow> grown E w w'"
    "be_run E t as w = (b, w') \<Longrightarrow> grown E w w'"
  using assms unfolding only_grows_def by (metis snd_conv)+

interpretation growth: quiet_world E "\<lambda>w w'. only_grows E \<longrightarrow> grown E w w'" for E
  by unfold_locales (auto simp: only_grows_def intro: grown_trans)

lemma infra_grows: "only_grows E \<Longrightarrow> infra_ready E w = (b, w') \<Longrightarrow> grown E w w'"
  by (rule growth.infra[rule_format])

lemma wait_grows: "only_grows E \<Longrightarrow> wait_from E t w = (b, w') \<Longrightarrow> grown E w w'"
  by (rule growth.wait[rule_format])

lemma rest_grows: "only_grows E \<Longrightarrow> grown E w (sleep_rest E n w)"
  by (rule growth.rest[rule_format])

lemma recency_grows: "only_grows E \<Longrightarrow> grown E w (wait_for_target_recency E target cls ft w)"
  by (rule growth.recency[rule_format])

lemma pause_grows: "only_grows E \<Longrightarrow> pause_requested E w = (b, w') \<Longrightarrow> grown E w w'"
  by (rule growth.pause[rule_format])

lemma checks_grow: "only_grows E \<Longrightarrow> run_baseline_checks E w = (r, w') \<Longrightarrow> grown E w w'"
  by (rule growth.checks[rule_format])

lemma audit_grows: "only_grows E \<Longrightarrow> run_baseline_check E w = (b, w') \<Longrightarrow> grown E w w'"
  by (rule growth.audits[rule_format])

text \<open>An episode touches the world, and of the plan the times of the last faults.\<close>

definition same_plan :: "'w batch \<Rightarrow> 'w batch \<Rightarrow> bool" where
  "same_plan s s' \<longleftrightarrow> pl_items (bt_plan s') = pl_items (bt_plan s) \<and>
     pl_completed (bt_plan s') = pl_completed (bt_plan s) \<and> pl_status (bt_plan s') = pl_status (bt_plan s) \<and>
     pl_gave_up (bt_plan s') = pl_gave_up (bt_plan s) \<and> bt_disk s' = bt_disk s"

lemma episode_effect:
  assumes "only_grows E" "run_one_episode E cls s = (r, s')"
  shows "grown E (bt_world s) (bt_world s')" "same_plan s s'"
proof -
  have "grown E (bt_world s) (bt_world s') \<and> same_plan s s'"
  proof (cases "fault_config cls")
    case None
    then show ?thesis using assms(2) by (auto simp: run_one_episode_def same_plan_def)
  next
    case (Some cfg)
    obtain up w1 where i: "wait_for_infra_ready E (bt_world s) = (up, w1)" by fastforce
    define w2 where "w2 = wait_for_target_recency E (cfg_target cfg) cls (pl_fault_time (bt_plan s)) w1"
    obtain ok w3 where j: "be_run E ''injector.py'' [''--class'', cls] w2 = (ok, w3)" by fastforce
    obtain sc w4 where k: "be_run E ''../p3_trust_action/p3_scorer.py'' [] (be_sleep E (seconds_us batch_settle_s) w3) = (sc, w4)"
      by fastforce
    have 1: "grown E (bt_world s) w1" using wait_grows[OF assms(1)] i by (simp add: wait_for_infra_ready_def)
    have 3: "grown E (bt_world s) w3"
      using grown_trans[OF grown_trans[OF 1 recency_grows[OF assms(1)]] only_growsD(8)[OF assms(1) j[unfolded w2_def]]] .
    have 4: "grown E (bt_world s) w4"
      using grown_trans[OF grown_trans[OF 3 only_growsD(5)[OF assms(1)]] only_growsD(8)[OF assms(1) k]] .
    show ?thesis
      using assms(2) 1 3 4
      by (auto simp: run_one_episode_def Some i j[unfolded w2_def] k Let_def same_plan_def batch_plan_def split: if_splits)
  qed
  then show "grown E (bt_world s) (bt_world s')" "same_plan s s'" by auto
qed

text \<open>What the progress list says was done for a class.\<close>

definition earned :: "plan \<Rightarrow> string \<Rightarrow> int" where
  "earned p c = sum_list (List.map2 (\<lambda>x n. if fst x = c then n else 0) (pl_items p) (completed_of p))"

lemma completed_of_simps [simp]:
  "completed_of (p\<lparr>pl_status := st\<rparr>) = completed_of p" "completed_of (p\<lparr>pl_gave_up := g\<rparr>) = completed_of p"
  "completed_of (p\<lparr>pl_completed := Some ns\<rparr>) = ns"
  by (simp_all add: completed_of_def split: option.split)

lemma sum_map2_update:
  "i < length xs \<Longrightarrow> i < length ns \<Longrightarrow>
     sum_list (List.map2 (\<lambda>x n. if fst x = c then n else (0::int)) xs (ns[i := v])) =
     sum_list (List.map2 (\<lambda>x n. if fst x = c then n else 0) xs ns) + (if fst (xs ! i) = c then v - ns ! i else 0)"
proof (induction xs ns arbitrary: i rule: list_induct2')
  case (4 x xs n ns)
  then show ?case by (cases i) auto
qed auto

text \<open>The file has the same progress as the process.\<close>

definition synced :: "'w batch \<Rightarrow> bool" where
  "synced s \<longleftrightarrow> (\<exists>d. bt_disk s = Some d \<and> pl_items d = pl_items (bt_plan s) \<and>
     completed_of d = completed_of (bt_plan s) \<and> pl_gave_up d = pl_gave_up (bt_plan s))"

text \<open>What every step of the runner keeps: the chunks, the file in step, and for a class that has not
  been given up no more progress than episodes recorded.\<close>

definition moved :: "'w batch_env \<Rightarrow> 'w batch \<Rightarrow> 'w batch \<Rightarrow> bool" where
  "moved E s s' \<longleftrightarrow> pl_items (bt_plan s') = pl_items (bt_plan s) \<and>
     length (completed_of (bt_plan s')) = length (completed_of (bt_plan s)) \<and> (synced s \<longrightarrow> synced s') \<and>
     grown E (bt_world s) (bt_world s') \<and>
     (\<forall>c. map_of (pl_gave_up (bt_plan s')) c = None \<longrightarrow> map_of (pl_gave_up (bt_plan s)) c = None \<and>
        earned (bt_plan s') c - earned (bt_plan s) c \<le> int (be_count E (bt_world s') c) - int (be_count E (bt_world s) c))"

lemma moved_trans: "moved E a b \<Longrightarrow> moved E b c \<Longrightarrow> moved E a c"
  unfolding moved_def
proof (elim conjE, intro conjI)
  assume 1: "\<forall>k. map_of (pl_gave_up (bt_plan b)) k = None \<longrightarrow> map_of (pl_gave_up (bt_plan a)) k = None \<and>
      earned (bt_plan b) k - earned (bt_plan a) k \<le> int (be_count E (bt_world b) k) - int (be_count E (bt_world a) k)"
    and 2: "\<forall>k. map_of (pl_gave_up (bt_plan c)) k = None \<longrightarrow> map_of (pl_gave_up (bt_plan b)) k = None \<and>
      earned (bt_plan c) k - earned (bt_plan b) k \<le> int (be_count E (bt_world c) k) - int (be_count E (bt_world b) k)"
  show "\<forall>k. map_of (pl_gave_up (bt_plan c)) k = None \<longrightarrow> map_of (pl_gave_up (bt_plan a)) k = None \<and>
      earned (bt_plan c) k - earned (bt_plan a) k \<le> int (be_count E (bt_world c) k) - int (be_count E (bt_world a) k)"
  proof (intro allI impI)
    fix k
    assume "map_of (pl_gave_up (bt_plan c)) k = None"
    then show "map_of (pl_gave_up (bt_plan a)) k = None \<and>
      earned (bt_plan c) k - earned (bt_plan a) k \<le> int (be_count E (bt_world c) k) - int (be_count E (bt_world a) k)"
      using 1[rule_format, of k] 2[rule_format, of k] by simp
  qed
qed (auto intro: grown_trans)

lemma moved_refl [simp]: "moved E s s" by (simp add: moved_def)

lemma completed_of_same: "pl_items p = pl_items q \<Longrightarrow> pl_completed p = pl_completed q \<Longrightarrow> completed_of p = completed_of q"
  by (simp add: completed_of_def split: option.split)

lemma moved_same:
  assumes "same_plan s s'" "grown E (bt_world s) (bt_world s')"
  shows "moved E s s'"
proof -
  have "completed_of (bt_plan s') = completed_of (bt_plan s)"
    using assms(1) by (intro completed_of_same) (simp_all add: same_plan_def)
  then show ?thesis
    using assms by (simp add: moved_def same_plan_def synced_def earned_def grown_def)
qed

lemma same_plan_world [simp]:
  "same_plan s (s\<lparr>bt_world := w\<rparr>)" "same_plan s (batch_world f s)" "same_plan s (update_timings cls x s)"
  "same_plan s (update_token_usage E cls ep s)"
  by (simp_all add: same_plan_def batch_world_def update_timings_def Let_def update_token_usage_def split: option.split list.split)

lemma worlds [simp]:
  "bt_world (update_timings cls x s) = bt_world s" "bt_world (update_token_usage E cls ep s) = bt_world s"
  "bt_world (save_status st s) = bt_world s" "bt_world (set_completed i n s) = bt_world s"
  "bt_world (give_up cls d t f s) = bt_world s" "bt_world (save_plan s) = bt_world s"
  by (simp_all add: update_timings_def Let_def update_token_usage_def save_status_def save_plan_def batch_plan_def
      set_completed_def give_up_def split: option.split list.split)

lemma moved_status: "moved E s (save_status st s)"
  by (simp add: moved_def save_status_def save_plan_def batch_plan_def synced_def earned_def)

lemma moved_unlink: "only_grows E \<Longrightarrow> moved E s (unlink_flag E s)"
  by (simp add: unlink_flag_def moved_same batch_world_def only_growsD(4))

lemma moved_give_up: "moved E s (give_up cls d t f s)"
  by (simp add: moved_def give_up_def save_plan_def batch_plan_def synced_def earned_def update_conv')

text \<open>One more episode is counted when one more is recorded.\<close>

lemma moved_recorded:
  assumes "idx < length (pl_items (bt_plan s))" "idx < length (completed_of (bt_plan s))"
    and "grown E (bt_world s0) (bt_world s)" "same_plan s0 s"
    and "completed_of (bt_plan s) ! idx = n"
    and "be_count E (bt_world s0) (fst (pl_items (bt_plan s) ! idx)) < be_count E (bt_world s) (fst (pl_items (bt_plan s) ! idx))"
  shows "moved E s0 (save_plan (set_completed idx (n + 1) s))"
proof -
  have c: "completed_of (bt_plan s0) = completed_of (bt_plan s)" "pl_items (bt_plan s0) = pl_items (bt_plan s)"
    using completed_of_same[of "bt_plan s0" "bt_plan s"] assms(4) by (simp_all add: same_plan_def)
  have g: "pl_gave_up (bt_plan s0) = pl_gave_up (bt_plan s)" using assms(4) by (simp add: same_plan_def)
  have e: "earned (bt_plan (set_completed idx (n + 1) s)) k =
      earned (bt_plan s) k + (if fst (pl_items (bt_plan s) ! idx) = k then n + 1 - completed_of (bt_plan s) ! idx else 0)" for k
    unfolding earned_def sum_map2_update[OF assms(1,2), symmetric] by (simp add: set_completed_def batch_plan_def)
  have e0: "earned (bt_plan s0) k = earned (bt_plan s) k" for k by (simp add: earned_def c)
  have w: "moved E s0 (save_plan (set_completed idx (n + 1) s)) \<longleftrightarrow>
    (\<forall>k. map_of (pl_gave_up (bt_plan s)) k = None \<longrightarrow>
      earned (bt_plan (set_completed idx (n + 1) s)) k - earned (bt_plan s0) k \<le>
      int (be_count E (bt_world s) k) - int (be_count E (bt_world s0) k))"
    using assms(3) by (simp add: moved_def save_plan_def synced_def set_completed_def batch_plan_def c g)
  show ?thesis
    unfolding w
  proof (intro allI impI)
    fix k
    have "int (be_count E (bt_world s0) k) \<le> int (be_count E (bt_world s) k)" using assms(3) by (simp add: grown_def)
    then show "earned (bt_plan (set_completed idx (n + 1) s)) k - earned (bt_plan s0) k \<le>
        int (be_count E (bt_world s) k) - int (be_count E (bt_world s0) k)"
      using assms(5,6) by (cases "fst (pl_items (bt_plan s) ! idx) = k") (simp_all add: e e0)
  qed
qed

definition at_chunk :: "nat \<Rightarrow> string \<Rightarrow> int \<Rightarrow> 'w batch \<Rightarrow> bool" where
  "at_chunk idx cls n s \<longleftrightarrow> idx < length (pl_items (bt_plan s)) \<and> idx < length (completed_of (bt_plan s)) \<and>
     fst (pl_items (bt_plan s) ! idx) = cls \<and> completed_of (bt_plan s) ! idx = n"

lemma at_chunk_same: "same_plan s s' \<Longrightarrow> at_chunk idx cls n s' = at_chunk idx cls n s"
  using completed_of_same[of "bt_plan s'" "bt_plan s"] by (simp add: at_chunk_def same_plan_def)

lemma same_plan_trans: "same_plan a b \<Longrightarrow> same_plan b c \<Longrightarrow> same_plan a c"
  by (simp add: same_plan_def)

lemma recorded_effect:
  assumes "only_grows E" "after_recorded E idx cls n x s1 = (r, s2)" "at_chunk idx cls n s1"
    and "same_plan s0 s1" "grown E (bt_world s0) (bt_world s1)"
    and "be_count E (bt_world s0) cls < be_count E (bt_world s1) cls"
  shows "moved E s0 s2" "r = Inr False \<Longrightarrow> at_chunk idx cls (n + 1) s2"
proof -
  define t where "t = update_token_usage E cls (be_latest E (bt_world s1) cls) (update_timings cls x s1)"
  define u where "u = save_plan (set_completed idx (n + 1) t)"
  obtain q w1 where q: "run_baseline_checks E (bt_world t) = (q, w1)" by fastforce
  obtain stop w2 where w2: "pause_requested E w1 = (stop, w2)" by fastforce
  have st: "same_plan s1 t" unfolding t_def by (rule same_plan_trans[OF same_plan_world(3,4)])
  have wt: "bt_world t = bt_world s1" "bt_world u = bt_world s1" by (simp_all add: t_def u_def)
  have at: "at_chunk idx cls n t" using at_chunk_same[OF st] assms(3) by simp
  have mu: "moved E s0 u"
    unfolding u_def
    by (rule moved_recorded) (use at assms(5,6) same_plan_trans[OF assms(4) st] in \<open>simp_all add: at_chunk_def wt\<close>)
  have g1: "grown E (bt_world u) w1" using checks_grow[OF assms(1) q] by (simp add: u_def)
  have g2: "grown E w1 w2" by (rule pause_grows[OF assms(1) w2])
  have m1: "moved E s0 (u\<lparr>bt_world := w1\<rparr>)" by (rule moved_trans[OF mu moved_same]) (simp_all add: g1)
  have m2: "moved E s0 (u\<lparr>bt_world := w2\<rparr>)"
    by (rule moved_trans[OF mu moved_same]) (use grown_trans[OF g1 g2] in simp_all)
  have m3: "moved E s0 (unlink_flag E (save_status Paused (u\<lparr>bt_world := w2\<rparr>)))"
    by (rule moved_trans[OF moved_trans[OF m2 moved_status] moved_unlink[OF assms(1)]])
  have r: "(r, s2) = (case q of Inl e \<Rightarrow> (Inl e, u\<lparr>bt_world := w1\<rparr>)
      | Inr _ \<Rightarrow> if stop then (Inr True, unlink_flag E (save_status Paused (u\<lparr>bt_world := w2\<rparr>)))
                 else (Inr False, u\<lparr>bt_world := w2\<rparr>))"
    using assms(2) q w2 by (simp add: after_recorded_def t_def[symmetric] u_def[symmetric] split: sum.splits if_splits)
  then show "moved E s0 s2" using m1 m2 m3 by (auto split: sum.splits if_splits)
  have "at_chunk idx cls (n + 1) u"
    using at by (simp add: at_chunk_def u_def save_plan_def set_completed_def batch_plan_def)
  then show "r = Inr False \<Longrightarrow> at_chunk idx cls (n + 1) s2"
    using r by (auto simp: at_chunk_def split: sum.splits if_splits)
qed

text \<open>One round of the loop, and what the state is when another follows.\<close>

lemma chunk_step:
  obtains (done_already) "target \<le> n" "run_chunk E idx cls target n k s = (Inr False, s)"
  | (raised) e s1 where "n < target" "run_one_episode E cls s = (Inl e, s1)" "run_chunk E idx cls target n k s = (Inl e, s1)"
  | (stopped) s1 where "n < target" "run_one_episode E cls s = (Inr False, s1)"
      "run_chunk E idx cls target n k s = (Inr True, save_status Paused s1)"
  | (gave_up) s1 where "n < target" "run_one_episode E cls s = (Inr True, s1)"
      "be_count E (bt_world s1) cls \<le> be_count E (bt_world s) cls" "max_consecutive_real_failures \<le> k + 1"
      "run_chunk E idx cls target n k s = (Inr False, give_up cls n target (k + 1) s1)"
  | (retried) s1 where "n < target" "run_one_episode E cls s = (Inr True, s1)"
      "be_count E (bt_world s1) cls \<le> be_count E (bt_world s) cls" "k + 1 < max_consecutive_real_failures"
      "run_chunk E idx cls target n k s = run_chunk E idx cls target n (k + 1) s1"
  | (ended) s1 x r s2 where "n < target" "run_one_episode E cls s = (Inr True, s1)"
      "be_count E (bt_world s) cls < be_count E (bt_world s1) cls"
      "after_recorded E idx cls n x s1 = (r, s2)" "r \<noteq> Inr False" "run_chunk E idx cls target n k s = (r, s2)"
  | (recorded) s1 x s2 where "n < target" "run_one_episode E cls s = (Inr True, s1)"
      "be_count E (bt_world s) cls < be_count E (bt_world s1) cls"
      "after_recorded E idx cls n x s1 = (Inr False, s2)"
      "run_chunk E idx cls target n k s = run_chunk E idx cls target (n + 1) 0 s2"
proof (cases "target \<le> n")
  case True
  then show thesis using done_already by (simp add: run_chunk.simps[of E idx cls target n k s])
next
  case False
  obtain r0 s1 where r0: "run_one_episode E cls s = (r0, s1)" by fastforce
  note eq = run_chunk.simps[of E idx cls target n k s]
  show thesis
  proof (cases r0)
    case (Inl e)
    then show thesis using raised[of e s1] False r0 by (simp add: eq)
  next
    case (Inr ok)
    define x where "x = py_float (be_monotonic E (bt_world s1) - be_monotonic E (bt_world s))"
    obtain q s2 where q: "after_recorded E idx cls n x s1 = (q, s2)" by fastforce
    show thesis
    proof (cases "ok \<and> be_count E (bt_world s) cls < be_count E (bt_world s1) cls")
      case True
      then show thesis
        using False r0 Inr q ended[of s1 x q s2] recorded[of s1 x s2]
        by (cases q) (auto simp: eq x_def[symmetric])
    next
      case nothing: False
      then show thesis
        using False r0 Inr stopped[of s1] gave_up[of s1] retried[of s1]
        by (cases ok; cases "max_consecutive_real_failures \<le> k + 1") (auto simp: eq not_less not_le)
    qed
  qed
qed

definition rank :: "int \<Rightarrow> int \<Rightarrow> nat \<Rightarrow> nat" where
  "rank target n k = nat (target - n) * 4 + (max_consecutive_real_failures - k)"

lemma rank_less:
  "k + 1 < max_consecutive_real_failures \<Longrightarrow> rank target n (k + 1) < rank target n k"
  "n < target \<Longrightarrow> rank target (n + 1) 0 < rank target n k"
proof -
  show "k + 1 < max_consecutive_real_failures \<Longrightarrow> rank target n (k + 1) < rank target n k"
    by (simp add: rank_def)
  assume "n < target"
  then have "nat (target - n) = Suc (nat (target - (n + 1)))" by (simp add: Suc_nat_eq_nat_zadd1)
  then show "rank target (n + 1) 0 < rank target n k" by (simp add: rank_def max_consecutive_real_failures_def)
qed

text \<open>A chunk leaves the progress of the others and the classes of the others alone.\<close>

definition only_chunk :: "nat \<Rightarrow> string \<Rightarrow> 'w batch \<Rightarrow> 'w batch \<Rightarrow> bool" where
  "only_chunk idx cls s s' \<longleftrightarrow>
     (\<forall>i. i \<noteq> idx \<longrightarrow> completed_of (bt_plan s') ! i = completed_of (bt_plan s) ! i) \<and>
     (\<forall>c. c \<noteq> cls \<longrightarrow> map_of (pl_gave_up (bt_plan s')) c = map_of (pl_gave_up (bt_plan s)) c)"

definition chunk_moved :: "'w batch_env \<Rightarrow> nat \<Rightarrow> string \<Rightarrow> 'w batch \<Rightarrow> 'w batch \<Rightarrow> bool" where
  "chunk_moved E idx cls s s' \<longleftrightarrow> moved E s s' \<and> only_chunk idx cls s s'"

lemma chunk_moved_trans: "chunk_moved E i c s0 s1 \<Longrightarrow> chunk_moved E i c s1 s2 \<Longrightarrow> chunk_moved E i c s0 s2"
  using moved_trans by (fastforce simp: chunk_moved_def only_chunk_def)

lemma chunk_moved_same:
  assumes "same_plan s s'" "grown E (bt_world s) (bt_world s')"
  shows "chunk_moved E i c s s'"
  using moved_same[OF assms] completed_of_same[of "bt_plan s'" "bt_plan s"] assms(1)
  by (simp add: chunk_moved_def only_chunk_def same_plan_def)

lemma chunk_moved_status: "chunk_moved E i c s (save_status st s)"
  using moved_status[of E s st] by (simp add: chunk_moved_def only_chunk_def save_status_def save_plan_def batch_plan_def)

lemma chunk_moved_give_up: "chunk_moved E i c s (give_up c d t f s)"
  using moved_give_up[of E s c d t f]
  by (simp add: chunk_moved_def only_chunk_def give_up_def save_plan_def batch_plan_def update_conv')

lemma unlink_plan [simp]: "bt_plan (unlink_flag E s) = bt_plan s"
  by (simp add: unlink_flag_def batch_world_def)

lemma status_plan [simp]: "bt_plan (save_status st s) = bt_plan s\<lparr>pl_status := st\<rparr>"
  by (simp add: save_status_def save_plan_def batch_plan_def)

lemma recorded_only:
  assumes "after_recorded E idx cls n x s1 = (r, s2)" "same_plan s0 s1"
  shows "only_chunk idx cls s0 s2"
proof -
  define t where "t = update_token_usage E cls (be_latest E (bt_world s1) cls) (update_timings cls x s1)"
  have "same_plan s0 t" unfolding t_def by (rule same_plan_trans[OF assms(2) same_plan_trans[OF same_plan_world(3,4)]])
  define u where "u = save_plan (set_completed idx (n + 1) t)"
  have u: "only_chunk idx cls s0 u"
    using \<open>same_plan s0 t\<close> completed_of_same[of "bt_plan s0" "bt_plan t"]
    by (simp add: u_def only_chunk_def save_plan_def set_completed_def batch_plan_def same_plan_def)
  have "bt_plan s2 = bt_plan u \<or> bt_plan s2 = bt_plan u\<lparr>pl_status := Paused\<rparr>"
    using assms(1)
    by (auto simp: after_recorded_def Let_def t_def[symmetric] u_def[symmetric] split: prod.splits sum.splits if_splits)
  then show ?thesis using u by (auto simp: only_chunk_def)
qed

lemma chunk_moves:
  assumes "only_grows E"
  shows "at_chunk idx cls n s \<Longrightarrow> run_chunk E idx cls target n k s = (r, s') \<Longrightarrow> chunk_moved E idx cls s s'"
proof (induction "rank target n k" arbitrary: n k s rule: less_induct)
  case less
  note eff = episode_effect[OF assms]
  note run = less(3)
  show ?case
  proof (cases rule: chunk_step[of target n E idx cls k s])
    case done_already
    then show ?thesis using run by (simp add: chunk_moved_def only_chunk_def)
  next
    case (raised e s1)
    then show ?thesis using run chunk_moved_same[OF eff(2,1)] by auto
  next
    case (stopped s1)
    then show ?thesis using run chunk_moved_trans[OF chunk_moved_same[OF eff(2,1)] chunk_moved_status] by auto
  next
    case (gave_up s1)
    then show ?thesis using run chunk_moved_trans[OF chunk_moved_same[OF eff(2,1)] chunk_moved_give_up] by auto
  next
    case (retried s1)
    note e = eff[OF retried(2)]
    have "at_chunk idx cls n s1" using at_chunk_same[OF e(2)] less(2) by simp
    then have "chunk_moved E idx cls s1 s'"
      by (rule less(1)[OF rank_less(1)[OF retried(4)]]) (use retried(5) run in simp)
    then show ?thesis by (rule chunk_moved_trans[OF chunk_moved_same[OF e(2,1)]])
  next
    case (ended s1 x q s2)
    note e = eff[OF ended(2)]
    have at: "at_chunk idx cls n s1" using at_chunk_same[OF e(2)] less(2) by simp
    show ?thesis
      using recorded_effect(1)[OF assms ended(4) at e(2,1) ended(3)] recorded_only[OF ended(4) e(2)] ended(6) run
      by (simp add: chunk_moved_def)
  next
    case (recorded s1 x s2)
    note e = eff[OF recorded(2)]
    have at: "at_chunk idx cls n s1" using at_chunk_same[OF e(2)] less(2) by simp
    note rec = recorded_effect[OF assms recorded(4) at e(2,1) recorded(3)]
    have "chunk_moved E idx cls s2 s'"
      by (rule less(1)[OF rank_less(2)[OF recorded(1)] rec(2)[OF refl]]) (use recorded(5) run in simp)
    moreover have "chunk_moved E idx cls s s2"
      using rec(1) recorded_only[OF recorded(4) e(2)] by (simp add: chunk_moved_def)
    ultimately show ?thesis using chunk_moved_trans by blast
  qed
qed

text \<open>A skipped chunk belongs to a class that was given up.\<close>

lemma moved_skip:
  assumes "idx < length (pl_items (bt_plan s))" "idx < length (completed_of (bt_plan s))"
    and "map_of (pl_gave_up (bt_plan s)) (fst (pl_items (bt_plan s) ! idx)) \<noteq> None"
  shows "moved E s (save_plan (set_completed idx n s))"
proof -
  have "earned (bt_plan (set_completed idx n s)) c = earned (bt_plan s) c"
    if "map_of (pl_gave_up (bt_plan s)) c = None" for c
    using sum_map2_update[OF assms(1,2), of c n] assms(3) that
    by (auto simp: earned_def set_completed_def batch_plan_def)
  then show ?thesis
    by (simp add: moved_def save_plan_def synced_def set_completed_def batch_plan_def)
qed

lemma chunks_move:
  assumes "only_grows E"
  shows "pl_items (bt_plan s) = before @ rest \<Longrightarrow> idx = length before \<Longrightarrow>
    run_chunks E idx rest s = (r, s') \<Longrightarrow> moved E s s'"
proof (induction rest arbitrary: before idx s)
  case (Cons item rest)
  obtain cls target where item: "item = (cls, target)" by (cases item)
  let ?c = "completed_of (bt_plan s)"
  have nth: "pl_items (bt_plan s) ! idx = (cls, target)" "idx < length (pl_items (bt_plan s))"
    using Cons.prems(1,2) item by simp_all
  have next_step: "moved E s1 s'" if "moved E s s1" "run_chunks E (Suc idx) rest s1 = (r, s')" for s1
    by (rule Cons.IH[of s1 "before @ [item]"]) (use that Cons.prems in \<open>simp_all add: moved_def\<close>)
  consider "length ?c \<le> idx" | "idx < length ?c" "target \<le> ?c ! idx"
    | "idx < length ?c" "?c ! idx < target" "map_of (pl_gave_up (bt_plan s)) cls \<noteq> None"
    | "idx < length ?c" "?c ! idx < target" "map_of (pl_gave_up (bt_plan s)) cls = None"
    by linarith
  then show ?case
  proof cases
    case 1
    then show ?thesis using Cons.prems(3) by (simp add: item)
  next
    case 2
    then show ?thesis using Cons.prems(3) next_step[of s] by (simp add: item)
  next
    case 3
    have m: "moved E s (save_plan (set_completed idx target s))"
      by (rule moved_skip) (use 3 nth in simp_all)
    show ?thesis using 3 Cons.prems(3) next_step[OF m] moved_trans[OF m] by (simp add: item)
  next
    case 4
    obtain q s1 where q: "run_chunk E idx cls target (?c ! idx) 0 s = (q, s1)" by fastforce
    have "chunk_moved E idx cls s s1" by (rule chunk_moves[OF assms _ q]) (use 4 nth in \<open>simp add: at_chunk_def\<close>)
    then have "moved E s s1" by (simp add: chunk_moved_def)
    then show ?thesis
      using 4 q Cons.prems(3) next_step[of s1] moved_trans
      by (auto simp: item split: sum.splits if_splits)
  qed
qed simp

text \<open>A whole run, as far as its chunks.\<close>

lemma run_plan_cases:
  assumes "only_grows E" "run_plan E s = (r, s')"
  obtains (dirty) "r = Inr Paused" "moved E s s'"
  | (run) s1 q s2 where "moved E s s1" "completed_of (bt_plan s1) = completed_of (bt_plan s)"
      "pl_gave_up (bt_plan s1) = pl_gave_up (bt_plan s)"
      "run_chunks E 0 (pl_items (bt_plan s1)) s1 = (q, s2)" "moved E s s2"
      "(r, s') = (case q of Inl e \<Rightarrow> (Inl e, s2) | Inr stopped \<Rightarrow>
          if stopped then (Inr Paused, s2) else (Inr Complete, archive_completed_plan (save_status Complete s2)))"
proof -
  obtain b w1 where b: "run_baseline_check E (bt_world (unlink_flag E s)) = (b, w1)" by fastforce
  let ?s2 = "unlink_flag E s\<lparr>bt_world := w1\<rparr>"
  let ?s3 = "batch_plan (\<lambda>p. p\<lparr>pl_completed := Some (completed_of p)\<rparr>) ?s2"
  have m: "moved E s ?s2"
    by (rule moved_trans[OF moved_unlink[OF assms(1)] moved_same]) (use audit_grows[OF assms(1) b] in simp_all)
  have e: "earned (p\<lparr>pl_completed := Some (completed_of p)\<rparr>) c = earned p c" for p c by (simp add: earned_def)
  have m3: "moved E s ?s3"
    by (rule moved_trans[OF m]) (simp add: moved_def batch_plan_def synced_def e)
  obtain q s4 where q: "run_chunks E 0 (pl_items (bt_plan ?s3)) ?s3 = (q, s4)" by fastforce
  have m4: "moved E s s4" by (rule moved_trans[OF m3 chunks_move[OF assms(1) _ _ q, of "[]"]]) simp_all
  show thesis
  proof (cases b)
    case True
    show thesis
      by (rule run[of ?s3 q s4])
         (use m3 q m4 assms(2) b True in \<open>simp_all add: run_plan_def Let_def batch_plan_def split: sum.splits\<close>)
  next
    case False
    have "moved E s (save_status Paused ?s2)" by (rule moved_trans[OF m moved_status])
    then show thesis
      using dirty assms(2) b False by (simp add: run_plan_def Let_def)
  qed
qed

section \<open>The exit code of the injector\<close>

text \<open>The injector leaves with status 0 only after it has recorded its episode.\<close>

definition refuses_or_records :: "'w batch_env \<Rightarrow> bool" where
  "refuses_or_records E \<longleftrightarrow> (\<forall>c w w'. be_run E ''injector.py'' [''--class'', c] w = (True, w') \<longrightarrow>
     be_count E w c < be_count E w' c)"

lemma episode_recorded:
  assumes "only_grows E" "refuses_or_records E" "run_one_episode E cls s = (Inr True, s')"
  shows "be_count E (bt_world s) cls < be_count E (bt_world s') cls"
proof -
  obtain cfg where cfg: "fault_config cls = Some cfg"
    using assms(3) by (cases "fault_config cls") (auto simp: run_one_episode_def)
  obtain up w1 where i: "wait_for_infra_ready E (bt_world s) = (up, w1)" by fastforce
  define w2 where "w2 = wait_for_target_recency E (cfg_target cfg) cls (pl_fault_time (bt_plan s)) w1"
  obtain ok w3 where j: "be_run E ''injector.py'' [''--class'', cls] w2 = (ok, w3)" by fastforce
  obtain sc w4 where k: "be_run E ''../p3_trust_action/p3_scorer.py'' [] (be_sleep E (seconds_us batch_settle_s) w3) = (sc, w4)"
    by fastforce
  have r: "ok" "bt_world s' = w4"
    using assms(3) i j[unfolded w2_def] k cfg
    by (auto simp: run_one_episode_def Let_def batch_plan_def split: if_splits)
  have "grown E (bt_world s) w2"
    unfolding w2_def
    by (rule grown_trans[OF wait_grows[OF assms(1) i[unfolded wait_for_infra_ready_def]] recency_grows[OF assms(1)]])
  moreover have "grown E w3 w4" by (rule grown_trans[OF only_growsD(5)[OF assms(1)] only_growsD(8)[OF assms(1) k]])
  moreover have "be_count E w2 cls < be_count E w3 cls" using assms(2) j r(1) by (simp add: refuses_or_records_def)
  ultimately show ?thesis unfolding grown_def r(2) by (meson le_less_trans less_le_trans)
qed

lemma recorded_gave_up:
  "after_recorded E idx cls n x s = (r, s') \<Longrightarrow> pl_gave_up (bt_plan s') = pl_gave_up (bt_plan s)"
  using recorded_only[of E idx "cls" n x s r s' s]
  by (auto simp: after_recorded_def Let_def save_plan_def set_completed_def batch_plan_def update_timings_def
      update_token_usage_def split: prod.splits sum.splits if_splits option.splits list.splits)

lemma chunk_keeps_classes:
  assumes "only_grows E" "refuses_or_records E"
  shows "run_chunk E idx cls target n k s = (r, s') \<Longrightarrow> pl_gave_up (bt_plan s') = pl_gave_up (bt_plan s)"
proof (induction "rank target n k" arbitrary: n k s rule: less_induct)
  case less
  have same: "pl_gave_up (bt_plan s1) = pl_gave_up (bt_plan s)" if "run_one_episode E cls s = (x, s1)" for x s1
    using episode_effect(2)[OF assms(1) that] by (simp add: same_plan_def)
  show ?case
  proof (cases rule: chunk_step[of target n E idx cls k s])
    case (gave_up s1)
    then show ?thesis using episode_recorded[OF assms gave_up(2)] by simp
  next
    case (retried s1)
    then show ?thesis using episode_recorded[OF assms retried(2)] by simp
  next
    case (recorded s1 x s2)
    have "pl_gave_up (bt_plan s') = pl_gave_up (bt_plan s2)"
      by (rule less(1)[OF rank_less(2)[OF recorded(1)]]) (use recorded(5) less(2) in simp)
    then show ?thesis using recorded_gave_up[OF recorded(4)] same[OF recorded(2)] by simp
  next
    case (ended s1 x q s2)
    then show ?thesis using recorded_gave_up[OF ended(4)] same[OF ended(2)] less(2) by simp
  qed (use less(2) same in auto)
qed

lemma chunks_keep_classes:
  assumes "only_grows E" "refuses_or_records E"
  shows "run_chunks E idx rest s = (r, s') \<Longrightarrow> pl_gave_up (bt_plan s') = pl_gave_up (bt_plan s)"
proof (induction rest arbitrary: idx s)
  case (Cons item rest)
  obtain cls target where item: "item = (cls, target)" by (cases item)
  let ?c = "completed_of (bt_plan s)"
  let ?skip = "save_plan (set_completed idx target s)"
  obtain q s1 where q: "run_chunk E idx cls target (?c ! idx) 0 s = (q, s1)" by fastforce
  have s1: "pl_gave_up (bt_plan s1) = pl_gave_up (bt_plan s)" by (rule chunk_keeps_classes[OF assms q])
  have skip: "pl_gave_up (bt_plan ?skip) = pl_gave_up (bt_plan s)"
    by (simp add: save_plan_def set_completed_def batch_plan_def)
  show ?case
    using Cons.prems q s1 skip Cons.IH[of "Suc idx" s] Cons.IH[of "Suc idx" s1] Cons.IH[of "Suc idx" ?skip]
    by (auto simp: item Let_def split: if_splits sum.splits)
qed simp

lemma plan_keeps_classes:
  assumes "only_grows E" "refuses_or_records E"
  shows "pl_gave_up (bt_plan (snd (run_plan E s))) = pl_gave_up (bt_plan s)"
proof -
  have arch: "bt_plan (archive_completed_plan t) = bt_plan t" for t :: "'a batch"
    by (simp add: archive_completed_plan_def split: option.split)
  obtain b w1 where b: "run_baseline_check E (bt_world (unlink_flag E s)) = (b, w1)" by fastforce
  define t where "t = batch_plan (\<lambda>p. p\<lparr>pl_completed := Some (completed_of p)\<rparr>) (unlink_flag E s\<lparr>bt_world := w1\<rparr>)"
  obtain q u where q: "run_chunks E 0 (pl_items (bt_plan t)) t = (q, u)" by fastforce
  have "pl_gave_up (bt_plan u) = pl_gave_up (bt_plan t)" by (rule chunks_keep_classes[OF assms q])
  then show ?thesis
    using q b by (simp add: run_plan_def Let_def t_def[symmetric] arch split: sum.split)
       (simp add: t_def batch_plan_def)
qed

text \<open>An environment that does what \<open>E\<close> does and notes every call.\<close>

datatype batch_call = Ran string "string list" bool | Called string

definition noting :: "('a \<Rightarrow> batch_call) \<Rightarrow> ('w \<Rightarrow> 'a \<times> 'w) \<Rightarrow> 'w \<times> batch_call list \<Rightarrow> 'a \<times> 'w \<times> batch_call list" where
  "noting c f x = (case f (fst x) of (a, w) \<Rightarrow> (a, w, snd x @ [c a]))"

definition logged :: "'w batch_env \<Rightarrow> ('w \<times> batch_call list) batch_env" where
  "logged E = \<lparr>be_prometheus = noting (\<lambda>_. Called ''prometheus'') (be_prometheus E),
     be_agent = noting (\<lambda>_. Called ''agent'') (be_agent E),
     be_run = (\<lambda>script args. noting (Ran script args) (be_run E script args)),
     be_audit = (\<lambda>b. noting (\<lambda>_. Called ''audit'') (be_audit E b)),
     be_count = (\<lambda>x. be_count E (fst x)), be_latest = (\<lambda>x. be_latest E (fst x)), be_usage = (\<lambda>x. be_usage E (fst x)),
     be_ensure = (\<lambda>t. noting (\<lambda>_. Called ''baseline'') (be_ensure E t)),
     be_time = (\<lambda>x. be_time E (fst x)), be_monotonic = (\<lambda>x. be_monotonic E (fst x)),
     be_sleep = (\<lambda>n x. snd (noting (\<lambda>_. Called ''sleep'') (\<lambda>w. ((), be_sleep E n w)) x)),
     be_stop = (\<lambda>x. be_stop E (fst x)), be_flag = (\<lambda>x. be_flag E (fst x)),
     be_unlink = (\<lambda>x. snd (noting (\<lambda>_. Called ''unlink'') (\<lambda>w. ((), be_unlink E w)) x)),
     be_select = noting (\<lambda>_. Called ''select'') (be_select E)\<rparr>"

lemma logged_ops [simp]:
  "be_count (logged E) x = be_count E (fst x)"
  "be_run (logged E) script args x = noting (Ran script args) (be_run E script args) x"
  by (simp_all add: logged_def)

lemma logged_contract: "only_grows E \<Longrightarrow> only_grows (logged E)" "refuses_or_records E \<Longrightarrow> refuses_or_records (logged E)"
proof -
  have n: "fst (snd (noting c f x)) = snd (f (fst x))" for c :: "'b \<Rightarrow> batch_call" and f :: "'a \<Rightarrow> 'b \<times> 'a" and x
    by (simp add: noting_def split: prod.split)
  show "only_grows E \<Longrightarrow> only_grows (logged E)"
    unfolding only_grows_def grown_def by (simp add: logged_def n)
  show "refuses_or_records E \<Longrightarrow> refuses_or_records (logged E)"
    by (fastforce simp: refuses_or_records_def noting_def split: prod.splits)
qed

text \<open>No refusal so far, or one and nothing after it.\<close>

fun refusal :: "batch_call \<Rightarrow> bool" where
  "refusal (Ran script args ok) \<longleftrightarrow> script = ''injector.py'' \<and> \<not> ok"
| "refusal (Called what) \<longleftrightarrow> False"

definition calm :: "'w \<times> batch_call list \<Rightarrow> bool" where
  "calm x \<longleftrightarrow> \<not> list_ex refusal (snd x)"

definition just_refused :: "'w \<times> batch_call list \<Rightarrow> bool" where
  "just_refused x \<longleftrightarrow> (\<exists>calls args. snd x = calls @ [Ran ''injector.py'' args False] \<and> \<not> list_ex refusal calls)"

interpretation quiet: quiet_world "logged E" "\<lambda>x y. calm x \<longrightarrow> calm y" for E
  by unfold_locales (auto simp: logged_def noting_def calm_def split: prod.splits)

lemma calm_run:
  assumes "calm x" "noting (Ran script args) f x = (ok, y)"
  shows "calm y \<or> \<not> ok \<and> just_refused y" "script \<noteq> ''injector.py'' \<Longrightarrow> calm y"
  using assms by (auto simp: noting_def calm_def just_refused_def split: prod.splits)

lemma episode_calm:
  assumes "run_one_episode (logged E) cls s = (r, s')" "calm (bt_world s)"
  shows "calm (bt_world s') \<or> r = Inr False \<and> just_refused (bt_world s')"
proof (cases "fault_config cls")
  case None
  then show ?thesis using assms by (auto simp: run_one_episode_def)
next
  case (Some cfg)
  let ?E = "logged E"
  obtain up w1 where i: "wait_for_infra_ready ?E (bt_world s) = (up, w1)" by (rule prod.exhaust)
  define w2 where "w2 = wait_for_target_recency ?E (cfg_target cfg) cls (pl_fault_time (bt_plan s)) w1"
  obtain ok w3 where j: "be_run ?E ''injector.py'' [''--class'', cls] w2 = (ok, w3)" by (rule prod.exhaust)
  obtain sc w4 where k: "be_run ?E ''../p3_trust_action/p3_scorer.py'' [] (be_sleep ?E (seconds_us batch_settle_s) w3) = (sc, w4)"
    by (rule prod.exhaust)
  have 1: "calm w1" using quiet.wait[OF i[unfolded wait_for_infra_ready_def]] assms(2) by simp
  have 2: "calm w2" using quiet.recency 1 unfolding w2_def by blast
  have 3: "calm w3 \<or> \<not> ok \<and> just_refused w3" using j by (intro calm_run(1)[OF 2]) simp
  have 4: "calm w4" if "calm w3"
  proof -
    have "calm (be_sleep ?E (seconds_us batch_settle_s) w3)" using quiet.sleep that by blast
    then show ?thesis by (rule calm_run(2)[OF _ k[unfolded logged_ops(2)]]) simp
  qed
  show ?thesis
    using assms(1) 1 3 4
    by (auto simp: run_one_episode_def Some i j[unfolded w2_def] k Let_def batch_plan_def simp del: logged_ops split: if_splits)
qed

lemma recorded_calm:
  assumes "after_recorded (logged E) idx cls n x s = (r, s')" "calm (bt_world s)"
  shows "calm (bt_world s')"
proof -
  let ?E = "logged E"
  define t where "t = save_plan (set_completed idx (n + 1)
    (update_token_usage ?E cls (be_latest ?E (bt_world s) cls) (update_timings cls x s)))"
  have t: "bt_world t = bt_world s" by (simp add: t_def)
  obtain q w1 where q: "run_baseline_checks ?E (bt_world t) = (q, w1)" by (rule prod.exhaust)
  obtain stop w2 where w2: "pause_requested ?E w1 = (stop, w2)" by (rule prod.exhaust)
  have "calm w1" "calm w2" using quiet.checks[OF q] quiet.pause[OF w2] assms(2) by (simp_all add: t)
  moreover have "calm (be_unlink ?E w2)" using quiet.unlink \<open>calm w2\<close> by blast
  moreover have "(case q of Inl e \<Rightarrow> (Inl e, t\<lparr>bt_world := w1\<rparr>)
      | Inr _ \<Rightarrow> if stop then (Inr True, unlink_flag ?E (save_status Paused (t\<lparr>bt_world := w2\<rparr>)))
                 else (Inr False, t\<lparr>bt_world := w2\<rparr>)) = (r, s')"
    using assms(1) unfolding after_recorded_def Let_def t_def[symmetric] q prod.case w2 .
  ultimately show ?thesis
    by (auto simp: unlink_flag_def batch_world_def split: sum.splits if_splits)
qed

text \<open>A refusal ends the chunk, the chunks and the plan, paused and saved.\<close>

definition paused_by_refusal :: "bool res \<Rightarrow> ('w \<times> batch_call list) batch \<Rightarrow> bool" where
  "paused_by_refusal r s \<longleftrightarrow> r = Inr True \<and> just_refused (bt_world s) \<and> pl_status (bt_plan s) = Paused \<and>
     bt_disk s = Some (bt_plan s)"

lemma chunk_calm:
  "run_chunk (logged E) idx cls target n k s = (r, s') \<Longrightarrow> calm (bt_world s) \<Longrightarrow>
     calm (bt_world s') \<or> paused_by_refusal r s'"
proof (induction "rank target n k" arbitrary: n k s rule: less_induct)
  case less
  note run = less(2)
  have ep: "calm (bt_world s1) \<or> x = Inr False \<and> just_refused (bt_world s1)"
    if "run_one_episode (logged E) cls s = (x, s1)" for x s1
    by (rule episode_calm[OF that less(3)])
  show ?case
  proof (cases rule: chunk_step[of target n "logged E" idx cls k s])
    case (stopped s1)
    then show ?thesis
      using run ep[OF stopped(2)]
      by (auto simp: paused_by_refusal_def save_status_def save_plan_def batch_plan_def)
  next
    case (gave_up s1)
    then show ?thesis using run ep[OF gave_up(2)] by (auto simp: give_up_def save_plan_def batch_plan_def)
  next
    case (retried s1)
    have "calm (bt_world s1)" using ep[OF retried(2)] by auto
    then show ?thesis by (intro less(1)[OF rank_less(1)[OF retried(4)]]) (use retried(5) run in simp)
  next
    case (ended s1 x q s2)
    have "calm (bt_world s1)" using ep[OF ended(2)] by auto
    then show ?thesis using recorded_calm[OF ended(4)] ended(6) run by simp
  next
    case (recorded s1 x s2)
    have "calm (bt_world s1)" using ep[OF recorded(2)] by auto
    then have "calm (bt_world s2)" by (rule recorded_calm[OF recorded(4)])
    then show ?thesis by (intro less(1)[OF rank_less(2)[OF recorded(1)]]) (use recorded(5) run in simp)
  qed (use run less(3) ep in auto)
qed

lemma chunks_calm:
  "run_chunks (logged E) idx rest s = (r, s') \<Longrightarrow> calm (bt_world s) \<Longrightarrow>
     calm (bt_world s') \<or> paused_by_refusal r s'"
proof (induction rest arbitrary: idx s)
  case (Cons item rest)
  obtain cls target where item: "item = (cls, target)" by (cases item)
  let ?c = "completed_of (bt_plan s)"
  let ?skip = "save_plan (set_completed idx target s)"
  obtain q s1 where q: "run_chunk (logged E) idx cls target (?c ! idx) 0 s = (q, s1)" by (rule prod.exhaust)
  have skip: "bt_world ?skip = bt_world s" by (simp add: save_plan_def set_completed_def batch_plan_def)
  from chunk_calm[OF q Cons.prems(2)] show ?case
  proof
    assume "calm (bt_world s1)"
    then show ?thesis
      using Cons.prems q skip Cons.IH[of "Suc idx" s] Cons.IH[of "Suc idx" s1] Cons.IH[of "Suc idx" ?skip]
      by (auto simp: item Let_def split: if_splits sum.splits)
  next
    assume p: "paused_by_refusal q s1"
    then show ?thesis
      using Cons.prems q skip Cons.IH[of "Suc idx" s] Cons.IH[of "Suc idx" ?skip]
      by (auto simp: item Let_def paused_by_refusal_def split: if_splits sum.splits)
  qed
qed simp

lemma plan_calm:
  assumes "run_plan (logged E) s = (r, s')" "calm (bt_world s)"
  shows "calm (bt_world s') \<or> r = Inr Paused \<and> paused_by_refusal (Inr True) s'"
proof -
  let ?E = "logged E"
  have u: "calm (bt_world (unlink_flag ?E s))"
    using assms(2) quiet.unlink[of "bt_world s" E] by (auto simp: unlink_flag_def batch_world_def)
  obtain b w1 where b: "run_baseline_check ?E (bt_world (unlink_flag ?E s)) = (b, w1)" by (rule prod.exhaust)
  have w1: "calm w1" using quiet.audits[OF b] u by simp
  define t where "t = batch_plan (\<lambda>p. p\<lparr>pl_completed := Some (completed_of p)\<rparr>) (unlink_flag ?E s\<lparr>bt_world := w1\<rparr>)"
  have t: "calm (bt_world t)" using w1 by (simp add: t_def batch_plan_def)
  obtain q v where q: "run_chunks ?E 0 (pl_items (bt_plan t)) t = (q, v)" by (rule prod.exhaust)
  have arch: "bt_world (archive_completed_plan x) = bt_world x" for x :: "('a \<times> batch_call list) batch"
    by (simp add: archive_completed_plan_def split: option.split)
  have "(if \<not> b then (Inr Paused, save_status Paused (unlink_flag ?E s\<lparr>bt_world := w1\<rparr>))
      else case q of Inl e \<Rightarrow> (Inl e, v)
        | Inr stopped \<Rightarrow> if stopped then (Inr Paused, v)
                          else (Inr Complete, archive_completed_plan (save_status Complete v))) = (r, s')"
    using assms(1) unfolding run_plan_def Let_def b prod.case t_def[symmetric] q .
  then show ?thesis
    using w1 chunks_calm[OF q t]
    by (auto simp: arch paused_by_refusal_def split: if_splits sum.splits)
qed

section \<open>Classes without a configuration\<close>

definition pending :: "nat \<Rightarrow> string \<Rightarrow> 'w batch \<Rightarrow> bool" where
  "pending j cls s \<longleftrightarrow> j < length (pl_items (bt_plan s)) \<and> j < length (completed_of (bt_plan s)) \<and>
     fst (pl_items (bt_plan s) ! j) = cls \<and> completed_of (bt_plan s) ! j < snd (pl_items (bt_plan s) ! j) \<and>
     map_of (pl_gave_up (bt_plan s)) cls = None"

lemma chunk_raises:
  assumes "fault_config cls = None" "n < target"
  shows "run_chunk E idx cls target n k s = (Inl (KeyError cls), s)"
  using assms by (simp add: run_chunk.simps[of E idx "cls" target n k s] run_one_episode_def)

lemma pending_kept:
  assumes "pending j cls s" "moved E s s'" "only_chunk idx d s s'" "idx \<noteq> j" "d \<noteq> cls"
  shows "pending j cls s'"
  using assms by (auto simp: pending_def moved_def only_chunk_def)

lemma chunks_never_finish:
  assumes "only_grows E" "fault_config cls = None"
  shows "pl_items (bt_plan s) = before @ rest \<Longrightarrow> idx = length before \<Longrightarrow> idx \<le> j \<Longrightarrow> pending j cls s \<Longrightarrow>
    fst (run_chunks E idx rest s) \<noteq> Inr False"
proof (induction rest arbitrary: before idx s)
  case (Cons item rest)
  obtain d target where item: "item = (d, target)" by (cases item)
  let ?c = "completed_of (bt_plan s)"
  have nth: "pl_items (bt_plan s) ! idx = (d, target)" "idx < length (pl_items (bt_plan s))"
    using Cons.prems(1,2) item by simp_all
  have idx: "idx < length ?c" using Cons.prems(3,4) by (simp add: pending_def)
  have step: "fst (run_chunks E (Suc idx) rest s1) \<noteq> Inr False" if "moved E s s1" "idx \<noteq> j" "pending j cls s1" for s1
    by (rule Cons.IH[of s1 "before @ [item]"]) (use that Cons.prems in \<open>simp_all add: moved_def\<close>)
  show ?case
  proof (cases "target \<le> ?c ! idx")
    case True
    then have "idx \<noteq> j" using Cons.prems(4) nth by (auto simp: pending_def)
    then show ?thesis using True idx step[of s] Cons.prems(4) by (simp add: item)
  next
    case False
    show ?thesis
    proof (cases "d = cls")
      case True
      have "map_of (pl_gave_up (bt_plan s)) d = None" using Cons.prems(4) True by (simp add: pending_def)
      moreover have "run_chunk E idx d target (?c ! idx) 0 s = (Inl (KeyError d), s)"
        using chunk_raises[of d "?c ! idx" target] assms(2) True False by simp
      ultimately show ?thesis using False idx by (simp add: item)
    next
      case other: False
      then have "idx \<noteq> j" using Cons.prems(4) nth by (auto simp: pending_def)
      let ?skip = "save_plan (set_completed idx target s)"
      obtain q s1 where q: "run_chunk E idx d target (?c ! idx) 0 s = (q, s1)" by fastforce
      have m: "chunk_moved E idx d s s1"
        by (rule chunk_moves[OF assms(1) _ q]) (use idx nth in \<open>simp add: at_chunk_def\<close>)
      then have s1: "fst (run_chunks E (Suc idx) rest s1) \<noteq> Inr False"
        using step[of s1] pending_kept[OF Cons.prems(4) _ _ \<open>idx \<noteq> j\<close> other] \<open>idx \<noteq> j\<close> unfolding chunk_moved_def by blast
      have "fst (run_chunks E (Suc idx) rest ?skip) \<noteq> Inr False" if "map_of (pl_gave_up (bt_plan s)) d \<noteq> None"
      proof (rule step[OF _ \<open>idx \<noteq> j\<close>])
        show k: "moved E s ?skip" by (rule moved_skip) (use idx nth that in simp_all)
        have "only_chunk idx d s ?skip" by (simp add: only_chunk_def save_plan_def set_completed_def batch_plan_def)
        then show "pending j cls ?skip" by (rule pending_kept[OF Cons.prems(4) k _ \<open>idx \<noteq> j\<close> other])
      qed
      then show ?thesis using False idx q s1 by (auto simp: item split: sum.splits)
    qed
  qed
qed (simp add: pending_def)

section \<open>What the runner guarantees\<close>

text \<open>A concrete cluster: a clock in microseconds and the number of recorded crash-loop episodes. The
  injector takes a minute and refuses every other class.\<close>

definition demo_batch_env :: "(int \<times> nat) batch_env" where
  "demo_batch_env = \<lparr>be_prometheus = (\<lambda>w. (Some 200, w)), be_agent = (\<lambda>w. (Some 200, w)),
     be_run = (\<lambda>script args w. if script = ''injector.py''
        then (if args = [''--class'', ''crash-loop''] then (True, (fst w + seconds_us 60, Suc (snd w))) else (False, w))
        else (True, w)),
     be_audit = (\<lambda>_ w. (True, w)), be_count = (\<lambda>w c. if c = ''crash-loop'' then snd w else 0),
     be_latest = (\<lambda>_ _. None), be_usage = (\<lambda>_. empty_quota), be_ensure = (\<lambda>_ w. (Inr (), w)),
     be_time = fst, be_monotonic = (\<lambda>_. 0), be_sleep = (\<lambda>n w. (fst w + n, snd w)),
     be_stop = (\<lambda>_. False), be_flag = (\<lambda>_. False), be_unlink = (\<lambda>w. w), be_select = (\<lambda>w. (False, w))\<rparr>"

definition demo_batch :: "plan \<Rightarrow> (int \<times> nat) batch" where
  "demo_batch p = \<lparr>bt_world = (0, 0), bt_plan = p, bt_disk = Some p, bt_archive = [], bt_timings = [], bt_tokens = []\<rparr>"

lemma demo_grows: "only_grows demo_batch_env"
  by (simp add: only_grows_def grown_def demo_batch_env_def)

lemma demo_records: "refuses_or_records demo_batch_env"
  by (auto simp: refuses_or_records_def demo_batch_env_def split: if_splits)

text \<open>C14: however a run ends, by completing, pausing or raising, the plan it leaves on disk (or archived)
  has the chunks it started with, and for every class that was not given up it counts no more
  episodes than the run recorded in the database.\<close>

theorem progress_is_real:
  assumes "only_grows E" "bt_disk s = Some (bt_plan s)" "run_plan E s = (r, s')"
  shows "\<exists>p. (bt_disk s' = Some p \<or> p \<in> set (bt_archive s')) \<and> pl_items p = pl_items (bt_plan s) \<and>
    (\<forall>c. map_of (pl_gave_up p) c = None \<longrightarrow>
       earned p c - earned (bt_plan s) c \<le> int (be_count E (bt_world s') c) - int (be_count E (bt_world s) c))"
proof -
  have sy: "synced s" using assms(2) by (simp add: synced_def)
  have *: "\<exists>p. bt_disk t = Some p \<and> pl_items p = pl_items (bt_plan s) \<and> (\<forall>c. map_of (pl_gave_up p) c = None \<longrightarrow>
       earned p c - earned (bt_plan s) c \<le> int (be_count E (bt_world t) c) - int (be_count E (bt_world s) c))"
    if "moved E s t" for t
  proof -
    from that sy obtain d where d: "bt_disk t = Some d" "pl_items d = pl_items (bt_plan t)"
      "completed_of d = completed_of (bt_plan t)" "pl_gave_up d = pl_gave_up (bt_plan t)"
      by (auto simp: moved_def synced_def)
    then have "earned d = earned (bt_plan t)" by (simp add: earned_def fun_eq_iff)
    with d that show ?thesis by (auto simp: moved_def)
  qed
  from assms(1,3) show ?thesis
  proof (cases rule: run_plan_cases)
    case dirty
    then show ?thesis using *[of s'] by blast
  next
    case (run s1 q s2)
    have m: "moved E s (save_status Complete s2)" by (rule moved_trans[OF run(5) moved_status])
    have arch: "p \<in> set (bt_archive (archive_completed_plan t))" "bt_world (archive_completed_plan t) = bt_world t"
      if "bt_disk t = Some p" for p and t :: "'a batch"
      using that by (simp_all add: archive_completed_plan_def)
    from *[OF m] obtain p where "bt_disk (save_status Complete s2) = Some p" "pl_items p = pl_items (bt_plan s)"
      "\<forall>c. map_of (pl_gave_up p) c = None \<longrightarrow> earned p c - earned (bt_plan s) c \<le>
         int (be_count E (bt_world (save_status Complete s2)) c) - int (be_count E (bt_world s) c)" by blast
    then show ?thesis
      using run(6) *[OF run(5)] arch[of "save_status Complete s2" p] by (cases q) (auto split: if_splits)
  qed
qed

theorem progress_is_real_witness:
  "\<exists>p. (bt_disk (snd (run_plan demo_batch_env (demo_batch (new_plan [(''crash-loop'', 2)])))) = Some p \<or>
      p \<in> set (bt_archive (snd (run_plan demo_batch_env (demo_batch (new_plan [(''crash-loop'', 2)])))))) \<and>
    pl_items p = [(''crash-loop'', 2)]"
proof -
  let ?s = "demo_batch (new_plan [(''crash-loop'', 2)])"
  have "bt_disk ?s = Some (bt_plan ?s)" "pl_items (bt_plan ?s) = [(''crash-loop'', 2)]"
    by (simp_all add: demo_batch_def new_plan_def)
  with progress_is_real[OF demo_grows this(1) prod.collapse[symmetric]] show ?thesis by auto
qed

text \<open>C17: the injector is not started on a target before the recency window of the class has passed since
  the last fault there, unless Ctrl+C was pressed: whatever the injector would do at such a time,
  an episode runs the same.\<close>

theorem recency_before_injection:
  assumes "sleeps_enough E" "fault_config cls = Some cfg"
  shows "run_one_episode (E\<lparr>be_run := \<lambda>script args w.
      if script = ''injector.py'' \<and> \<not> be_stop E w \<and>
         (\<exists>t. map_of (pl_fault_time (bt_plan s)) (cfg_target cfg) = Some t \<and>
            be_time E w < t + seconds_us (target_recency_window_s cls))
      then anything w else be_run E script args w\<rparr>) cls s = run_one_episode E cls s"
proof -
  define F where "F = E\<lparr>be_run := \<lambda>script args w.
      if script = ''injector.py'' \<and> \<not> be_stop E w \<and>
         (\<exists>t. map_of (pl_fault_time (bt_plan s)) (cfg_target cfg) = Some t \<and>
            be_time E w < t + seconds_us (target_recency_window_s cls))
      then anything w else be_run E script args w\<rparr>"
  have f: "be_prometheus F = be_prometheus E" "be_agent F = be_agent E" "be_stop F = be_stop E"
    "be_sleep F = be_sleep E" "be_time F = be_time E"
    "be_run F ''../p3_trust_action/p3_scorer.py'' [] = be_run E ''../p3_trust_action/p3_scorer.py'' []"
    by (simp_all add: F_def fun_eq_iff)
  have wait: "wait_for_infra_ready F = wait_for_infra_ready E"
    by (auto simp: wait_for_infra_ready_def fun_eq_iff infra_ready_def f intro!: wait_same split: prod.split)
  have rest: "wait_for_target_recency F = wait_for_target_recency E"
    by (auto simp: wait_for_target_recency_def fun_eq_iff f Let_def sleep_same[of F E] split: option.split)
  define w2 where "w2 = (\<lambda>w1. wait_for_target_recency E (cfg_target cfg) cls (pl_fault_time (bt_plan s)) w1)"
  have "be_run F ''injector.py'' args (w2 w1) = be_run E ''injector.py'' args (w2 w1)" for args w1
    using target_recency[OF assms(1)] by (fastforce simp: F_def w2_def)
  then show ?thesis
    unfolding F_def[symmetric] by (simp add: run_one_episode_def assms(2) wait rest w2_def f Let_def case_prod_unfold)
qed

theorem recency_before_injection_witness:
  "run_one_episode (demo_batch_env\<lparr>be_run := \<lambda>script args w.
      if script = ''injector.py'' \<and> \<not> be_stop demo_batch_env w \<and>
         (\<exists>t. map_of (pl_fault_time (bt_plan (demo_batch (new_plan [(''crash-loop'', 2)])))) ''carts'' = Some t \<and>
            be_time demo_batch_env w < t + seconds_us (target_recency_window_s ''crash-loop''))
      then (False, w) else be_run demo_batch_env script args w\<rparr>) ''crash-loop'' (demo_batch (new_plan [(''crash-loop'', 2)]))
   = run_one_episode demo_batch_env ''crash-loop'' (demo_batch (new_plan [(''crash-loop'', 2)]))"
proof -
  have "sleeps_enough demo_batch_env" by (simp add: sleeps_enough_def demo_batch_env_def)
  moreover have "fault_config ''crash-loop'' = Some (sock_shop ''carts'')" "cfg_target (sock_shop ''carts'') = ''carts''"
    by (simp_all add: fault_config_def sock_shop_def)
  ultimately show ?thesis
    using recency_before_injection[of demo_batch_env "''crash-loop''" "sock_shop ''carts''"
        "demo_batch (new_plan [(''crash-loop'', 2)])" "\<lambda>w. (False, w)"] by simp
qed

text \<open>Once Ctrl+C was pressed the wait is over at once, and the injection follows.\<close>

lemma stop_skips_the_wait: "be_stop E w \<Longrightarrow> wait_for_target_recency E target cls ft w = w"
  by (simp add: wait_for_target_recency_def Let_def sleep_rest.simps[of E _ w] split: option.split)

text \<open>C22: the first injection that is refused pauses the whole plan: no call of the run follows it, neither a
  retry nor the scorer nor another class; the plan is saved as paused. With an injector that exits
  with 0 only after recording, as it does, no class is given up either.\<close>

theorem refused_injection_pauses:
  assumes "run_plan (logged E) s = (r, s')" "snd (bt_world s) = []"
    and "Ran ''injector.py'' args False \<in> set (snd (bt_world s'))"
  shows "r = Inr Paused \<and> pl_status (bt_plan s') = Paused \<and> bt_disk s' = Some (bt_plan s') \<and>
    (\<exists>calls. snd (bt_world s') = calls @ [Ran ''injector.py'' args False] \<and>
       (\<forall>a. Ran ''injector.py'' a False \<notin> set calls)) \<and>
    (only_grows E \<and> refuses_or_records E \<longrightarrow> pl_gave_up (bt_plan s') = pl_gave_up (bt_plan s))"
proof -
  have "calm (bt_world s)" "\<not> calm (bt_world s')" using assms(2,3) by (force simp: calm_def list_ex_iff)+
  with plan_calm[OF assms(1)] have p: "r = Inr Paused" "paused_by_refusal (Inr True) s'" by auto
  then obtain calls a where c: "snd (bt_world s') = calls @ [Ran ''injector.py'' a False]" "\<not> list_ex refusal calls"
    by (auto simp: paused_by_refusal_def just_refused_def)
  have "Ran ''injector.py'' x False \<notin> set calls" for x using c(2) by (auto simp: list_ex_iff)
  moreover from this[of args] have "a = args" using assms(3) c(1) by auto
  moreover have "pl_gave_up (bt_plan s') = pl_gave_up (bt_plan s)" if "only_grows E" "refuses_or_records E"
    using plan_keeps_classes[OF logged_contract(1)[OF that(1)] logged_contract(2)[OF that(2)], of s] assms(1) by simp
  ultimately show ?thesis using p c(1) by (auto simp: paused_by_refusal_def)
qed

definition logged_batch :: "plan \<Rightarrow> ((int \<times> nat) \<times> batch_call list) batch" where
  "logged_batch p = \<lparr>bt_world = ((0, 0), []), bt_plan = p, bt_disk = Some p, bt_archive = [], bt_timings = [], bt_tokens = []\<rparr>"

lemma logged_refusal:
  "snd (bt_world (snd (run_plan (logged demo_batch_env) (logged_batch (new_plan [(''oom'', 3)]))))) =
     [Called ''audit'', Called ''prometheus'', Called ''agent'', Ran ''injector.py'' [''--class'', ''oom''] False]"
proof -
  have "run_one_episode (logged demo_batch_env) ''oom'' s =
      (Inr False, s\<lparr>bt_world := (w, l @ [Called ''prometheus'', Called ''agent'', Ran ''injector.py'' [''--class'', ''oom''] False])\<rparr>)"
    if "bt_world s = (w, l)" "pl_fault_time (bt_plan s) = []" for s w l
    using that by (simp add: run_one_episode_def fault_config_def wait_for_infra_ready_def wait_from.simps infra_ready_def
        wait_for_target_recency_def logged_def demo_batch_env_def noting_def)
  note ep = this
  have "run_baseline_check (logged demo_batch_env) (w, l) = (True, w, l @ [Called ''audit''])" for w l
    by (simp add: run_baseline_check_def logged_def demo_batch_env_def noting_def)
  moreover have "\<not> be_flag (logged demo_batch_env) x" for x by (simp add: logged_def demo_batch_env_def)
  ultimately show ?thesis
    by (simp add: run_plan_def unlink_flag_def run_chunk.simps[of _ 0] ep batch_plan_def logged_batch_def
        new_plan_def completed_of_def Let_def)
qed

theorem refused_injection_pauses_witness:
  "fst (run_plan (logged demo_batch_env) (logged_batch (new_plan [(''oom'', 3)]))) = Inr Paused \<and>
   pl_status (bt_plan (snd (run_plan (logged demo_batch_env) (logged_batch (new_plan [(''oom'', 3)]))))) = Paused"
proof -
  have "snd (bt_world (logged_batch (new_plan [(''oom'', 3)]))) = []" by (simp add: logged_batch_def)
  from refused_injection_pauses[OF prod.collapse[symmetric] this, of "[''--class'', ''oom'']" demo_batch_env]
  show ?thesis by (simp add: logged_refusal)
qed

text \<open>A shuffled plan runs every class as often as it was asked for: pairs of two different classes, one
  episode each, and then what is left of a single class in one block.\<close>

theorem shuffled_plan_adds_up:
  assumes "fair_draw draw" "distinct (List.map fst counts)"
  shows "planned_of (build_shuffled_plan draw counts) c = max 0 (asked counts c) \<and>
    paired (build_shuffled_plan draw counts)"
proof -
  let ?m = "filter (\<lambda>(k, n). 0 < n) counts"
  have m: "spendable ?m" using assms(2) by (auto simp: spendable_def distinct_map_filter)
  have "asked ?m c = max 0 (asked counts c)"
  proof (cases "map_of counts c")
    case None
    then have "c \<notin> fst ` set ?m" by (auto simp: map_of_eq_None_iff intro: rev_image_eqI)
    then show ?thesis using None asked_out[of c ?m] by (simp add: asked_def)
  next
    case (Some n)
    then have n: "(c, n) \<in> set counts" by (rule map_of_SomeD)
    show ?thesis
    proof (cases "0 < n")
      case True
      then have "(c, n) \<in> set ?m" using n by simp
      moreover have "distinct (List.map fst ?m)" using m by (simp add: spendable_def)
      ultimately show ?thesis using asked_in[of ?m c n] Some True by (simp add: asked_def)
    next
      case False
      have "m = n" if "(c, m) \<in> set counts" for m using asked_in[OF assms(2) that] asked_in[OF assms(2) n] by simp
      then have "c \<notin> fst ` set ?m" using False by auto
      then show ?thesis using asked_out[of c ?m] Some False by (simp add: asked_def)
    qed
  qed
  with shuffle_pairs_ok[OF m assms(1), of c] show ?thesis by (simp add: build_shuffled_plan_def)
qed

theorem shuffled_plan_adds_up_witness:
  "planned_of (build_shuffled_plan (\<lambda>n ks. (ks ! 1, ks ! 0)) [(''oom'', 2), (''disk-full'', 1)]) ''oom'' = 2"
proof -
  have "fair_draw (\<lambda>n ks. (ks ! 1, ks ! 0))"
  proof (unfold fair_draw_def, intro allI impI)
    fix n and ks :: "string list"
    assume "2 \<le> length ks \<and> distinct ks"
    then obtain x y zs where "ks = x # y # zs" "x \<noteq> y" by (cases ks; cases "tl ks") auto
    then show "fst (ks ! 1, ks ! 0) \<in> set ks \<and> snd (ks ! 1, ks ! 0) \<in> set ks \<and> fst (ks ! 1, ks ! 0) \<noteq> snd (ks ! 1, ks ! 0)"
      by simp
  qed
  from shuffled_plan_adds_up[OF this, of "[(''oom'', 2), (''disk-full'', 1)]" "''oom''"] show ?thesis
    by (simp add: asked_def)
qed

text \<open>A pairs file that names a class without a fault configuration makes a plan that no run completes.\<close>

lemma unknown_class_never_completes:
  assumes "only_grows E" "bt_disk s = None" "(a, b) \<in> set pairs" "fault_config a = None \<or> fault_config b = None"
  shows "fst (batch_main E draw [Pairs_Arg pairs] s) \<noteq> Inr (Some Complete)"
proof -
  let ?items = "pairs_file_to_plan pairs"
  define s0 where "s0 = save_plan (s\<lparr>bt_plan := new_plan ?items\<rparr>)"
  obtain cls where cls: "fault_config cls = None" "(cls, 1) \<in> set ?items"
    using assms(3,4) by (auto simp: pairs_file_to_plan_def)
  then obtain j where j: "j < length ?items" "?items ! j = (cls, 1)" by (auto simp: in_set_conv_nth)
  have "fst (run_plan E s0) \<noteq> Inr Complete"
  proof
    obtain r s' where r: "run_plan E s0 = (r, s')" by fastforce
    assume "fst (run_plan E s0) = Inr Complete"
    with r have "r = Inr Complete" by simp
    with assms(1) r obtain s1 q s2 where s1: "moved E s0 s1" "completed_of (bt_plan s1) = completed_of (bt_plan s0)"
      "pl_gave_up (bt_plan s1) = pl_gave_up (bt_plan s0)" "run_chunks E 0 (pl_items (bt_plan s1)) s1 = (q, s2)"
      "q = Inr False"
      by (cases rule: run_plan_cases) (auto split: sum.splits if_splits)
    have "pending j cls s1"
      using s1(1-3) j by (simp add: pending_def moved_def s0_def save_plan_def new_plan_def completed_of_def)
    with chunks_never_finish[OF assms(1) cls(1), of s1 "[]" "pl_items (bt_plan s1)" 0 j] s1(4,5) show False by simp
  qed
  then show ?thesis
    using assms(2)
    by (auto simp: batch_main_def choose_plan_def plan_of_arg_def s0_def[symmetric] split: prod.splits sum.splits)
qed

end
