(* ===== verification/Sample_Rounds.thy ===== *)
theory Sample_Rounds
  imports Batch_Properties "HOL-Library.Char_ord" "HOL-Library.List_Lexorder" "HOL-Library.Product_Lexorder"
begin

text \<open>
  \<^verbatim>\<open>phase_d_generate_sample_rounds.py\<close> and \<^verbatim>\<open>phase_d_generate_batches.py\<close>: the rounds of ordered
  pairs of classes that the batch runner executes from a pairs file, half of a round carried over
  from the one before and the last one a safety net.
\<close>

section \<open>Drawing\<close>

type_synonym cpair = "string \<times> string"

text \<open>What the code takes from \<^verbatim>\<open>random\<close>, each draw with a number of its own: one weighted choice, a
  sample without replacement, a shuffle.\<close>

record rng =
  rg_choice :: "nat \<Rightarrow> rat list \<Rightarrow> cpair list \<Rightarrow> cpair"
  rg_sample :: "nat \<Rightarrow> nat \<Rightarrow> cpair list \<Rightarrow> cpair list"
  rg_shuffle :: "nat \<Rightarrow> cpair list \<Rightarrow> cpair list"

definition sampled_classes :: "string list" where
  "sampled_classes =
     [''crash-loop'', ''oom'', ''disk-full'', ''cpu-throttling'', ''under-provisioned-replicas'', ''bad-rollout'']"

definition all_classes :: "string list" where
  "all_classes = sampled_classes @ [''none'']"

definition build_all_pairs :: "cpair list" where
  "build_all_pairs = concat (List.map (\<lambda>a. List.map (\<lambda>b. (a, b)) all_classes) all_classes)"

definition round_size_of :: "nat \<Rightarrow> nat" where
  "round_size_of i = [24, 25] ! (i mod 2)"

text \<open>The number of times a pair was seen; the dictionary has every pair.\<close>

type_synonym seen_count = "cpair \<Rightarrow> nat"

fun pick_loop :: "rng \<Rightarrow> seen_count \<Rightarrow> nat \<Rightarrow> nat \<Rightarrow> cpair list \<Rightarrow> cpair list \<times> nat" where
  "pick_loop R seen 0 k cands = ([], k)"
| "pick_loop R seen (Suc n) k cands =
     (let x = rg_choice R k (List.map (\<lambda>p. py_float (1 / of_nat (seen p + 1))) cands) cands in
      case pick_loop R seen n (Suc k) (remove1 x cands) of (xs, k') \<Rightarrow> (x # xs, k'))"

definition weighted_pick :: "rng \<Rightarrow> seen_count \<Rightarrow> nat \<Rightarrow> nat \<Rightarrow> cpair list \<Rightarrow> cpair list \<times> nat" where
  "weighted_pick R seen n k candidates = pick_loop R seen (min n (length candidates)) k candidates"

section \<open>Rounds\<close>

record sampler =
  sm_seen :: seen_count
  sm_covered :: "cpair set"
  sm_rounds :: "cpair list list"
  sm_draw :: nat

text \<open>The candidates that are not yet in the round, and the pairs no round has covered.\<close>

definition not_in :: "cpair list \<Rightarrow> cpair list \<Rightarrow> cpair list" where
  "not_in xs all_pairs = filter (\<lambda>p. p \<notin> set xs) all_pairs"

definition uncovered :: "sampler \<Rightarrow> cpair list \<Rightarrow> cpair list" where
  "uncovered s all_pairs = filter (\<lambda>p. p \<notin> sm_covered s) all_pairs"

definition fill_up :: "rng \<Rightarrow> sampler \<Rightarrow> nat \<Rightarrow> nat \<Rightarrow> cpair list \<Rightarrow> cpair list \<Rightarrow> cpair list \<times> nat" where
  "fill_up R s sz k all_pairs xs =
     (if length xs < sz
      then (case weighted_pick R (sm_seen s) (sz - length xs) k (not_in xs all_pairs) of (ys, k') \<Rightarrow> (xs @ ys, k'))
      else (xs, k))"

text \<open>The pairs of a round before its shuffle: the last round takes all that is uncovered, the first is
  fresh, the others carry half over from the round before.\<close>

definition last_round :: "rng \<Rightarrow> sampler \<Rightarrow> nat \<Rightarrow> cpair list \<Rightarrow> cpair list \<times> nat" where
  "last_round R s sz all_pairs =
     fill_up R s sz (Suc (sm_draw s)) all_pairs (rg_shuffle R (sm_draw s) (uncovered s all_pairs))"

definition first_round :: "rng \<Rightarrow> sampler \<Rightarrow> nat \<Rightarrow> cpair list \<Rightarrow> cpair list \<times> nat" where
  "first_round R s sz all_pairs = weighted_pick R (sm_seen s) sz (sm_draw s) all_pairs"

definition middle_round :: "rng \<Rightarrow> sampler \<Rightarrow> nat \<Rightarrow> cpair list \<Rightarrow> cpair list \<times> nat" where
  "middle_round R s sz all_pairs =
     (let prev = last (sm_rounds s); overlap = sz div 2; fresh = sz - overlap;
          carried = rg_sample R (sm_draw s) (min overlap (length prev)) prev;
          open_pairs = rg_shuffle R (Suc (sm_draw s)) (uncovered s all_pairs)
      in fill_up R s sz (Suc (Suc (sm_draw s))) all_pairs (carried @ take fresh open_pairs))"

definition next_round :: "rng \<Rightarrow> cpair list \<Rightarrow> nat \<Rightarrow> nat \<Rightarrow> sampler \<Rightarrow> sampler" where
  "next_round R all_pairs n_rounds i s =
     (let sz = round_size_of i in
      case (if Suc i = n_rounds then last_round R s sz all_pairs
            else if i = 0 then first_round R s sz all_pairs
            else middle_round R s sz all_pairs) of
        (xs, k) \<Rightarrow>
          \<lparr>sm_seen = (\<lambda>p. sm_seen s p + count_list xs p), sm_covered = sm_covered s \<union> set xs,
           sm_rounds = sm_rounds s @ [rg_shuffle R k xs], sm_draw = Suc k\<rparr>)"

definition fresh_sampler :: sampler where
  "fresh_sampler = \<lparr>sm_seen = (\<lambda>_. 0), sm_covered = {}, sm_rounds = [], sm_draw = 0\<rparr>"

definition sample_states :: "rng \<Rightarrow> cpair list \<Rightarrow> nat \<Rightarrow> nat \<Rightarrow> sampler" where
  "sample_states R all_pairs n_rounds k = fold (next_round R all_pairs n_rounds) [0..<k] fresh_sampler"

definition generate_rounds :: "rng \<Rightarrow> cpair list \<Rightarrow> nat \<Rightarrow> cpair list list" where
  "generate_rounds R all_pairs n_rounds = sm_rounds (sample_states R all_pairs n_rounds n_rounds)"

section \<open>The coverage report\<close>

record round_report =
  rr_round :: nat
  rr_pairs :: nat
  rr_unique :: nat
  rr_new :: nat
  rr_covered :: nat
  rr_percent :: rat
  rr_missing :: "cpair list"
  rr_full :: bool

text \<open>\<^verbatim>\<open>round(100 * covered / total, 1)\<close>.\<close>

definition coverage_pct :: "nat \<Rightarrow> nat \<Rightarrow> rat" where
  "coverage_pct got possible =
     py_float (of_int (round_half_even (10 * py_float (of_nat (100 * got) / of_nat possible))) / 10)"

fun report_rounds :: "cpair list \<Rightarrow> nat \<Rightarrow> cpair list \<Rightarrow> cpair list list \<Rightarrow> round_report list" where
  "report_rounds all_pairs i seen [] = []"
| "report_rounds all_pairs i seen (xs # rounds) =
     (let seen' = remdups (xs @ seen); missing = filter (\<lambda>p. p \<notin> set seen') (remdups all_pairs) in
      \<lparr>rr_round = i, rr_pairs = length xs, rr_unique = length (remdups xs),
       rr_new = length (remdups (filter (\<lambda>p. p \<notin> set seen) xs)), rr_covered = length seen',
       rr_percent = coverage_pct (length seen') (length (remdups all_pairs)),
       rr_missing = sort missing, rr_full = (missing = [])\<rparr> # report_rounds all_pairs (Suc i) seen' rounds)"

record coverage_report =
  cv_total :: nat
  cv_rounds :: nat
  cv_first_full :: "nat option"
  cv_round_4 :: bool
  cv_per_round :: "round_report list"

definition build_coverage_report :: "cpair list \<Rightarrow> cpair list list \<Rightarrow> coverage_report" where
  "build_coverage_report all_pairs rounds =
     (let rs = report_rounds all_pairs 1 [] rounds;
          full = map_option rr_round (find rr_full rs)
      in \<lparr>cv_total = length (remdups all_pairs), cv_rounds = length rounds, cv_first_full = full,
          cv_round_4 = (case full of None \<Rightarrow> True | Some r \<Rightarrow> 3 < r), cv_per_round = rs\<rparr>)"

text \<open>The two batches of the older generator.\<close>

definition split_batches :: "rng \<Rightarrow> cpair list \<Rightarrow> cpair list \<times> cpair list" where
  "split_batches R pairs = (let ps = rg_shuffle R 0 pairs in (take 24 ps, drop 24 ps))"

section \<open>Draws without repetition\<close>

definition fair_rng :: "rng \<Rightarrow> bool" where
  "fair_rng R \<longleftrightarrow>
     (\<forall>k ws xs. xs \<noteq> [] \<longrightarrow> rg_choice R k ws xs \<in> set xs) \<and>
     (\<forall>k n xs. n \<le> length xs \<longrightarrow> distinct xs \<longrightarrow> length (rg_sample R k n xs) = n \<and>
        distinct (rg_sample R k n xs) \<and> set (rg_sample R k n xs) \<subseteq> set xs) \<and>
     (\<forall>k xs. mset (rg_shuffle R k xs) = mset xs)"

lemma shuffleD:
  assumes "fair_rng R"
  shows "set (rg_shuffle R k xs) = set xs" "length (rg_shuffle R k xs) = length xs"
    "distinct (rg_shuffle R k xs) = distinct xs"
proof -
  have "mset (rg_shuffle R k xs) = mset xs" using assms by (simp add: fair_rng_def)
  then show "set (rg_shuffle R k xs) = set xs" "length (rg_shuffle R k xs) = length xs"
    "distinct (rg_shuffle R k xs) = distinct xs"
    by (metis set_mset_mset, metis size_mset, metis mset_eq_imp_distinct_iff)
qed

lemma pick_loop_ok:
  "fair_rng R \<Longrightarrow> distinct cands \<Longrightarrow> n \<le> length cands \<Longrightarrow> pick_loop R seen n k cands = (xs, k') \<Longrightarrow>
     length xs = n \<and> distinct xs \<and> set xs \<subseteq> set cands"
proof (induction R seen n k cands arbitrary: xs k' rule: pick_loop.induct)
  case (2 R seen n k cands)
  let ?x = "rg_choice R k (List.map (\<lambda>p. py_float (1 / of_nat (seen p + 1))) cands) cands"
  obtain ys k1 where ys: "pick_loop R seen n (Suc k) (remove1 ?x cands) = (ys, k1)" by fastforce
  have "cands \<noteq> []" using 2(4) by auto
  then have x: "?x \<in> set cands" using 2(2) by (simp add: fair_rng_def)
  have "length ys = n \<and> distinct ys \<and> set ys \<subseteq> set (remove1 ?x cands)"
    by (rule 2(1)[OF refl 2(2) _ _ ys]) (use 2(3,4) x in \<open>simp_all add: length_remove1 distinct_remove1\<close>)
  moreover have "xs = ?x # ys" using 2(5) ys by (simp add: Let_def)
  ultimately show ?case using x 2(3) by auto
qed simp

lemma weighted_pick_ok:
  assumes "fair_rng R" "distinct cands" "weighted_pick R seen n k cands = (xs, k')"
  shows "length xs = min n (length cands)" "distinct xs" "set xs \<subseteq> set cands"
  using pick_loop_ok[OF assms(1,2) _ assms(3)[unfolded weighted_pick_def]] by auto

section \<open>A round\<close>

lemma fill_up_ok:
  assumes "fair_rng R" "distinct P" "distinct xs" "set xs \<subseteq> set P" "fill_up R s sz k P xs = (ys, k')"
  shows "distinct ys" "set ys \<subseteq> set P" "set xs \<subseteq> set ys" "length ys = max (length xs) (min sz (length P))"
    "sz \<le> length xs \<Longrightarrow> ys = xs"
proof -
  have n: "length (not_in xs P) = length P - length xs"
  proof -
    have "card (set P - set xs) = length P - length xs"
      using assms(2-4) by (simp add: card_Diff_subset distinct_card)
    moreover have "set (not_in xs P) = set P - set xs" "distinct (not_in xs P)"
      using assms(2) by (auto simp: not_in_def)
    ultimately show ?thesis using distinct_card by metis
  qed
  have le: "length xs \<le> length P" using assms(2-4) by (metis card_mono distinct_card finite_set)
  have "distinct ys \<and> set ys \<subseteq> set P \<and> set xs \<subseteq> set ys \<and> length ys = max (length xs) (min sz (length P))"
  proof (cases "length xs < sz")
    case True
    obtain zs k1 where z: "weighted_pick R (sm_seen s) (sz - length xs) k (not_in xs P) = (zs, k1)" by fastforce
    have "distinct (not_in xs P)" using assms(2) by (simp add: not_in_def)
    note w = weighted_pick_ok[OF assms(1) this z]
    have "ys = xs @ zs" using assms(5) True z by (simp add: fill_up_def)
    moreover have "set zs \<subseteq> set P - set xs" using w(3) by (auto simp: not_in_def)
    ultimately show ?thesis using w(1,2) n assms(3,4) True le by auto
  next
    case False
    then show ?thesis using assms(3-5) le by (auto simp: fill_up_def)
  qed
  then show "distinct ys" "set ys \<subseteq> set P" "set xs \<subseteq> set ys" "length ys = max (length xs) (min sz (length P))" by auto
  show "sz \<le> length xs \<Longrightarrow> ys = xs" using assms(5) by (simp add: fill_up_def)
qed

lemma max_min_fill: "m = max a (min b c) \<Longrightarrow> a \<le> b \<Longrightarrow> a \<le> c \<Longrightarrow> m = min b c" for a b c m :: nat
  by simp

definition sampler_ok :: "cpair list \<Rightarrow> sampler \<Rightarrow> bool" where
  "sampler_ok P s \<longleftrightarrow> sm_covered s = (\<Union>r \<in> set (sm_rounds s). set r) \<and>
     (\<forall>r \<in> set (sm_rounds s). distinct r \<and> set r \<subseteq> set P)"

lemma open_pairs:
  assumes "fair_rng R" "distinct P" "sampler_ok P s"
  shows "distinct (rg_shuffle R k (uncovered s P))" "set (rg_shuffle R k (uncovered s P)) = set P - sm_covered s"
    "length (rg_shuffle R k (uncovered s P)) = length P - card (sm_covered s)"
proof -
  have "distinct (uncovered s P)" "set (uncovered s P) = set P - sm_covered s"
    using assms(2) by (auto simp: uncovered_def)
  moreover have "sm_covered s \<subseteq> set P" "finite (sm_covered s)" using assms(3) by (auto simp: sampler_ok_def)
  moreover have "length (uncovered s P) = card (set (uncovered s P))"
    using calculation(1) by (simp add: distinct_card)
  ultimately show "distinct (rg_shuffle R k (uncovered s P))" "set (rg_shuffle R k (uncovered s P)) = set P - sm_covered s"
    "length (rg_shuffle R k (uncovered s P)) = length P - card (sm_covered s)"
    using assms(2) by (simp_all add: shuffleD[OF assms(1)] card_Diff_subset distinct_card)
qed

text \<open>The pairs a middle round starts with: the carried ones and as many uncovered as fit.\<close>

lemma middle_start:
  fixes sz k j :: nat
  assumes "fair_rng R" "distinct P" "sampler_ok P s" "sm_rounds s \<noteq> []"
  defines "prev \<equiv> last (sm_rounds s)"
  defines "carried \<equiv> rg_sample R k (min (sz div 2) (length prev)) prev"
    and "fresh \<equiv> take (sz - sz div 2) (rg_shuffle R j (uncovered s P))"
  shows "distinct (carried @ fresh)" "set (carried @ fresh) \<subseteq> set P" "length (carried @ fresh) \<le> sz"
    "length carried = min (sz div 2) (length prev)" "set carried \<subseteq> set prev" "set prev \<subseteq> sm_covered s"
    "set fresh \<inter> sm_covered s = {}"
proof -
  have prev: "prev \<in> set (sm_rounds s)" using assms(4) by (simp add: prev_def)
  then have d: "distinct prev" "set prev \<subseteq> set P" using assms(3) by (auto simp: sampler_ok_def)
  have c: "length carried = min (sz div 2) (length prev)" "distinct carried" "set carried \<subseteq> set prev"
    using assms(1) d(1) by (auto simp: carried_def fair_rng_def)
  note o = open_pairs[OF assms(1-3), of j]
  have f: "distinct fresh" "set fresh \<subseteq> set P - sm_covered s" "length fresh \<le> sz - sz div 2"
    using o(1) set_take_subset[of _ "rg_shuffle R j (uncovered s P)"] by (auto simp: fresh_def o(2))
  show p: "set prev \<subseteq> sm_covered s" using prev assms(3) by (auto simp: sampler_ok_def)
  show "distinct (carried @ fresh)" "set (carried @ fresh) \<subseteq> set P" "length (carried @ fresh) \<le> sz"
    "length carried = min (sz div 2) (length prev)" "set carried \<subseteq> set prev" "set fresh \<inter> sm_covered s = {}"
    using c f p d by auto
qed

text \<open>What a round adds, whatever its kind.\<close>

lemma round_effect:
  assumes "fair_rng R" "distinct P" "sampler_ok P s" "i = length (sm_rounds s)"
  obtains (new) x where "sm_rounds (next_round R P N i s) = sm_rounds s @ [x]"
    "sm_covered (next_round R P N i s) = sm_covered s \<union> set x" "distinct x" "set x \<subseteq> set P"
    "Suc i = N \<Longrightarrow> set P - sm_covered s \<subseteq> set x"
    "Suc i \<noteq> N \<Longrightarrow> length x = min (round_size_of i) (length P)"
    "Suc i \<noteq> N \<Longrightarrow> 0 < i \<Longrightarrow>
       min (round_size_of i div 2) (length (last (sm_rounds s))) \<le> card (set x \<inter> set (last (sm_rounds s)))"
    "Suc i \<noteq> N \<Longrightarrow> 0 < i \<Longrightarrow>
       min (round_size_of i - round_size_of i div 2) (length P - card (sm_covered s)) \<le> card (set x - sm_covered s)"
proof -
  let ?sz = "round_size_of i"
  have goal: thesis if nr: "next_round R P N i s = \<lparr>sm_seen = g, sm_covered = sm_covered s \<union> set xs,
        sm_rounds = sm_rounds s @ [rg_shuffle R k xs], sm_draw = Suc k\<rparr>"
    and "distinct xs" "set xs \<subseteq> set P" "Suc i = N \<Longrightarrow> set P - sm_covered s \<subseteq> set xs"
      "Suc i \<noteq> N \<Longrightarrow> length xs = min ?sz (length P)"
      "Suc i \<noteq> N \<Longrightarrow> 0 < i \<Longrightarrow>
         min (?sz div 2) (length (last (sm_rounds s))) \<le> card (set xs \<inter> set (last (sm_rounds s)))"
      "Suc i \<noteq> N \<Longrightarrow> 0 < i \<Longrightarrow> min (?sz - ?sz div 2) (length P - card (sm_covered s)) \<le> card (set xs - sm_covered s)" for g xs k
    by (rule new[of "rg_shuffle R k xs"])
       (use \<open>distinct xs\<close> that(3-7) in \<open>simp_all add: nr shuffleD[OF assms(1)]\<close>)
  consider "Suc i = N" | "Suc i \<noteq> N" "i = 0" | "Suc i \<noteq> N" "0 < i" by auto
  then show thesis
  proof cases
    case 1
    note o = open_pairs[OF assms(1-3), of "sm_draw s"]
    obtain ys k where y: "last_round R s ?sz P = (ys, k)" by fastforce
    then have "fill_up R s ?sz (Suc (sm_draw s)) P (rg_shuffle R (sm_draw s) (uncovered s P)) = (ys, k)"
      by (simp add: last_round_def)
    from fill_up_ok[OF assms(1,2) o(1) _ this] o(2)
    have "distinct ys" "set ys \<subseteq> set P" "set P - sm_covered s \<subseteq> set ys" by auto
    then show thesis
      by (intro goal[of "\<lambda>p. sm_seen s p + count_list ys p" ys k]) (use 1 y in \<open>simp_all add: next_round_def\<close>)
  next
    case 2
    obtain ys k where y: "first_round R s ?sz P = (ys, k)" by fastforce
    from weighted_pick_ok[OF assms(1,2) y[unfolded first_round_def]]
    show thesis
      by (intro goal[of "\<lambda>p. sm_seen s p + count_list ys p" ys k]) (use 2 y in \<open>simp_all add: next_round_def\<close>)
  next
    case 3
    then have ne: "sm_rounds s \<noteq> []" using assms(4) by auto
    note m = middle_start[OF assms(1-3) ne]
    let ?start = "rg_sample R (sm_draw s) (min (?sz div 2) (length (last (sm_rounds s)))) (last (sm_rounds s)) @
      take (?sz - ?sz div 2) (rg_shuffle R (Suc (sm_draw s)) (uncovered s P))"
    obtain ys k where y: "middle_round R s ?sz P = (ys, k)" by fastforce
    then have eq: "fill_up R s ?sz (Suc (Suc (sm_draw s))) P ?start = (ys, k)"
      by (simp add: middle_round_def Let_def)
    have st: "distinct ?start" "set ?start \<subseteq> set P" "length ?start \<le> ?sz"
      by (rule m(1), rule m(2), rule m(3))
    note f = fill_up_ok(1-4)[OF assms(1,2) st(1,2) eq]
    have len: "length ?start \<le> length P" using st(1,2) assms(2) by (metis card_mono distinct_card finite_set)
    have "min (?sz div 2) (length (last (sm_rounds s))) \<le> card (set ys \<inter> set (last (sm_rounds s)))"
    proof -
      define c where "c = rg_sample R (sm_draw s) (min (?sz div 2) (length (last (sm_rounds s)))) (last (sm_rounds s))"
      have "card (set c) = length c" using st(1) by (simp only: c_def distinct_append distinct_card)
      moreover have "length c = min (?sz div 2) (length (last (sm_rounds s)))" unfolding c_def by (rule m(4))
      moreover have "set c \<subseteq> set ys \<inter> set (last (sm_rounds s))"
        using f(3) m(5)[of "sm_draw s" ?sz] unfolding c_def set_append by (meson Int_greatest Un_subset_iff)
      then have "card (set c) \<le> card (set ys \<inter> set (last (sm_rounds s)))" by (intro card_mono) simp_all
      ultimately show ?thesis by linarith
    qed
    moreover have "min (?sz - ?sz div 2) (length P - card (sm_covered s)) \<le> card (set ys - sm_covered s)"
    proof -
      define opn where "opn = rg_shuffle R (Suc (sm_draw s)) (uncovered s P)"
      note op = open_pairs[OF assms(1-3), of "Suc (sm_draw s)", folded opn_def]
      have "set (take (?sz - ?sz div 2) opn) \<subseteq> set ys" using f(3) unfolding opn_def set_append by blast
      moreover have "set (take (?sz - ?sz div 2) opn) \<inter> sm_covered s = {}" unfolding opn_def by (rule m(7))
      ultimately have "card (set (take (?sz - ?sz div 2) opn)) \<le> card (set ys - sm_covered s)"
        by (intro card_mono) auto
      moreover have "card (set (take (?sz - ?sz div 2) opn)) = min (?sz - ?sz div 2) (length P - card (sm_covered s))"
        using op(1,3) by (simp add: distinct_card min.commute)
      ultimately show ?thesis by simp
    qed
    moreover have "length ys = min ?sz (length P)" by (rule max_min_fill[OF f(4) st(3) len])
    moreover have "next_round R P N i s = \<lparr>sm_seen = (\<lambda>p. sm_seen s p + count_list ys p), sm_covered = sm_covered s \<union> set ys,
        sm_rounds = sm_rounds s @ [rg_shuffle R k ys], sm_draw = Suc k\<rparr>"
      using 3 y by (simp add: next_round_def)
    ultimately show thesis using goal f(1,2) 3(1) by blast
  qed
qed

section \<open>All rounds\<close>

lemma sample_states_Suc:
  "sample_states R P N (Suc k) = next_round R P N k (sample_states R P N k)"
  by (simp add: sample_states_def)

lemma states_ok:
  assumes "fair_rng R" "distinct P"
  shows "length (sm_rounds (sample_states R P N k)) = k \<and> sampler_ok P (sample_states R P N k)"
proof (induction k)
  case 0
  then show ?case by (simp add: sample_states_def fresh_sampler_def sampler_ok_def)
next
  case (Suc k)
  let ?s = "sample_states R P N k"
  from Suc obtain x where "sm_rounds (next_round R P N k ?s) = sm_rounds ?s @ [x]"
    "sm_covered (next_round R P N k ?s) = sm_covered ?s \<union> set x" "distinct x" "set x \<subseteq> set P"
    using round_effect[OF assms, of ?s k N] by metis
  with Suc show ?case by (auto simp: sample_states_Suc sampler_ok_def)
qed

lemma rounds_prefix:
  assumes "fair_rng R" "distinct P" "k \<le> m"
  shows "take k (sm_rounds (sample_states R P N m)) = sm_rounds (sample_states R P N k)"
  using assms(3)
proof (induction m)
  case (Suc m)
  note ok = states_ok[OF assms(1,2), of N m]
  obtain x where "sm_rounds (sample_states R P N (Suc m)) = sm_rounds (sample_states R P N m) @ [x]"
    using round_effect[OF assms(1,2) conjunct2[OF ok], of m N] ok by (metis sample_states_Suc)
  then show ?case using Suc ok states_ok[OF assms(1,2), of N "Suc m"] by (cases "k = Suc m") simp_all
qed (simp add: sample_states_def fresh_sampler_def)

text \<open>The round with number \<open>i\<close>, in terms of the state before it.\<close>

lemma round_at:
  assumes "fair_rng R" "distinct P" "i < N"
  shows "generate_rounds R P N ! i = last (sm_rounds (sample_states R P N (Suc i)))"
    "0 < i \<Longrightarrow> generate_rounds R P N ! (i - 1) = last (sm_rounds (sample_states R P N i))"
proof -
  have *: "generate_rounds R P N ! j = last (sm_rounds (sample_states R P N (Suc j)))" if "j < N" for j
  proof -
    have t: "take (Suc j) (generate_rounds R P N) = sm_rounds (sample_states R P N (Suc j))"
      using rounds_prefix[OF assms(1,2), of "Suc j" N N] that by (simp add: generate_rounds_def)
    have "length (generate_rounds R P N) = N" using states_ok[OF assms(1,2), of N N] by (simp add: generate_rounds_def)
    then show ?thesis using that by (simp add: t[symmetric] take_Suc_conv_app_nth)
  qed
  show "generate_rounds R P N ! i = last (sm_rounds (sample_states R P N (Suc i)))" by (rule *[OF assms(3)])
  show "0 < i \<Longrightarrow> generate_rounds R P N ! (i - 1) = last (sm_rounds (sample_states R P N i))"
    using *[of "i - 1"] assms(3) by simp
qed

lemma covered_is_rounds:
  assumes "fair_rng R" "distinct P"
  shows "sm_covered (sample_states R P N k) = (\<Union>r \<in> set (sm_rounds (sample_states R P N k)). set r)"
  using states_ok[OF assms, of N k] by (simp add: sampler_ok_def)

lemma all_pairs: "distinct build_all_pairs" "length build_all_pairs = 49" "(''none'', ''none'') \<in> set build_all_pairs"
  by code_simp+

lemma last_round_covers:
  assumes "fair_rng R" "distinct P" "0 < N"
  shows "(\<Union>r \<in> set (generate_rounds R P N). set r) = set P"
proof -
  obtain k where k: "N = Suc k" using assms(3) by (cases N) auto
  let ?s = "sample_states R P N k"
  note ok = states_ok[OF assms(1,2), of N k]
  obtain x where x: "sm_covered (next_round R P N k ?s) = sm_covered ?s \<union> set x" "set x \<subseteq> set P"
    "set P - sm_covered ?s \<subseteq> set x"
    using round_effect[OF assms(1,2) conjunct2[OF ok], of k N] ok k by metis
  have "sm_covered ?s \<subseteq> set P" using ok by (auto simp: sampler_ok_def)
  with x have "sm_covered (sample_states R P N N) = set P" by (auto simp: k sample_states_Suc)
  then show ?thesis using covered_is_rounds[OF assms(1,2), of N N] by (simp add: generate_rounds_def)
qed

text \<open>A middle round of a set that is still open adds exactly its fresh half.\<close>

lemma middle_adds:
  assumes "fair_rng R" "distinct P" "0 < i" "Suc i < N"
    and "round_size_of i \<le> length P" "round_size_of i div 2 \<le> length (generate_rounds R P N ! (i - 1))"
    and "card (sm_covered (sample_states R P N i)) + (round_size_of i - round_size_of i div 2) \<le> length P"
  shows "card (sm_covered (sample_states R P N (Suc i))) =
    card (sm_covered (sample_states R P N i)) + (round_size_of i - round_size_of i div 2)"
proof -
  let ?s = "sample_states R P N i" and ?sz = "round_size_of i"
  note ok = states_ok[OF assms(1,2), of N i]
  have prev: "generate_rounds R P N ! (i - 1) = last (sm_rounds ?s)"
    using round_at(2)[OF assms(1,2)] assms(3,4) by simp
  obtain x where x: "sm_covered (next_round R P N i ?s) = sm_covered ?s \<union> set x" "distinct x"
    "length x = min ?sz (length P)" "min (?sz div 2) (length (last (sm_rounds ?s))) \<le> card (set x \<inter> set (last (sm_rounds ?s)))"
    "min (?sz - ?sz div 2) (length P - card (sm_covered ?s)) \<le> card (set x - sm_covered ?s)"
    by (rule round_effect[OF assms(1,2) conjunct2[OF ok], of i N]) (use ok assms(3,4) in auto)
  have fin: "finite (sm_covered ?s)" using ok by (auto simp: sampler_ok_def)
  have "last (sm_rounds ?s) \<in> set (sm_rounds ?s)" using ok assms(3) by (intro last_in_set) auto
  then have "set x \<inter> set (last (sm_rounds ?s)) \<subseteq> set x \<inter> sm_covered ?s" using ok by (auto simp: sampler_ok_def)
  then have "card (set x \<inter> set (last (sm_rounds ?s))) \<le> card (set x \<inter> sm_covered ?s)" by (intro card_mono) auto
  moreover have "card (set x \<inter> sm_covered ?s) + card (set x - sm_covered ?s) = ?sz"
    using card_Diff_subset_Int[of "set x" "sm_covered ?s"] card_mono[of "set x" "set x \<inter> sm_covered ?s"]
      distinct_card[OF x(2)] x(3) assms(5) by simp
  ultimately have "card (set x - sm_covered ?s) = ?sz - ?sz div 2"
    using x(4,5) assms(6,7) prev by simp
  moreover have "card (sm_covered ?s \<union> set x) = card (sm_covered ?s) + card (set x - sm_covered ?s)"
    using fin by (metis Un_Diff_cancel card_Un_disjoint Diff_disjoint finite_Diff finite_set)
  ultimately show ?thesis by (simp add: sample_states_Suc x(1))
qed

lemma round_length:
  assumes "fair_rng R" "distinct P" "Suc i < N" "49 \<le> length P"
  shows "length (generate_rounds R P N ! i) = round_size_of i"
proof -
  note ok = states_ok[OF assms(1,2), of N i]
  obtain x where "sm_rounds (sample_states R P N (Suc i)) = sm_rounds (sample_states R P N i) @ [x]"
    "length x = min (round_size_of i) (length P)"
    by (rule round_effect[OF assms(1,2) conjunct2[OF ok], of i N]) (use ok assms(3) in \<open>auto simp: sample_states_Suc\<close>)
  moreover have "round_size_of i \<le> 49" by (simp add: round_size_of_def nth_Cons' mod_2_eq_odd)
  ultimately show ?thesis using round_at(1)[OF assms(1,2), of i N] assms(3,4) by simp
qed

text \<open>The last round has its size, or is as large as what the others have left open.\<close>

lemma last_round_length:
  assumes "fair_rng R" "distinct P" "49 \<le> length P"
  shows "length (generate_rounds R P (Suc k) ! k) =
    max (round_size_of k) (card (set P - (\<Union>r \<in> set (take k (generate_rounds R P (Suc k))). set r)))"
proof -
  let ?s = "sample_states R P (Suc k) k"
  note ok = states_ok[OF assms(1,2), of "Suc k" k, THEN conjunct2]
  note o = open_pairs[OF assms(1,2) ok, of "sm_draw ?s"]
  obtain ys j where y: "last_round R ?s (round_size_of k) P = (ys, j)" by fastforce
  then have "fill_up R ?s (round_size_of k) (Suc (sm_draw ?s)) P (rg_shuffle R (sm_draw ?s) (uncovered ?s P)) = (ys, j)"
    by (simp add: last_round_def)
  from fill_up_ok(4)[OF assms(1,2) o(1) _ this] o(2)
  have "length ys = max (length (rg_shuffle R (sm_draw ?s) (uncovered ?s P))) (min (round_size_of k) (length P))" by auto
  moreover have "round_size_of k \<le> 49" by (simp add: round_size_of_def nth_Cons' mod_2_eq_odd)
  moreover have "length (rg_shuffle R (sm_draw ?s) (uncovered ?s P)) = card (set P - sm_covered ?s)"
    using o(1,2) distinct_card by metis
  moreover have "last (sm_rounds (next_round R P (Suc k) k ?s)) = rg_shuffle R j ys"
    by (simp add: next_round_def y)
  then have "length (generate_rounds R P (Suc k) ! k) = length ys"
    using round_at(1)[OF assms(1,2), of k "Suc k"] by (simp add: sample_states_Suc shuffleD[OF assms(1)])
  moreover have "take k (generate_rounds R P (Suc k)) = sm_rounds ?s"
    using rounds_prefix[OF assms(1,2), of k "Suc k" "Suc k"] by (simp add: generate_rounds_def)
  ultimately show ?thesis
    using covered_is_rounds[OF assms(1,2), of "Suc k" k] assms(3) by (simp add: max.commute)
qed

lemma round_overlap:
  assumes "fair_rng R" "distinct P" "0 < i" "Suc i < N"
  shows "min (round_size_of i div 2) (length (generate_rounds R P N ! (i - 1))) \<le>
    card (set (generate_rounds R P N ! i) \<inter> set (generate_rounds R P N ! (i - 1)))"
proof -
  note ok = states_ok[OF assms(1,2), of N i]
  obtain x where "sm_rounds (sample_states R P N (Suc i)) = sm_rounds (sample_states R P N i) @ [x]"
    "min (round_size_of i div 2) (length (last (sm_rounds (sample_states R P N i)))) \<le>
       card (set x \<inter> set (last (sm_rounds (sample_states R P N i))))"
    by (rule round_effect[OF assms(1,2) conjunct2[OF ok], of i N]) (use ok assms(3,4) in \<open>auto simp: sample_states_Suc\<close>)
  then show ?thesis using round_at[OF assms(1,2), of i N] assms(3,4) by simp
qed

lemma first_three:
  assumes "fair_rng R" "distinct P" "length P = 49" "4 \<le> N"
  shows "card (sm_covered (sample_states R P N 1)) = 24" "card (sm_covered (sample_states R P N 2)) = 37"
    "card (sm_covered (sample_states R P N 3)) = 49"
proof -
  note ok = states_ok[OF assms(1,2), of N]
  have len: "length (generate_rounds R P N ! i) = round_size_of i" if "Suc i < N" for i
    by (rule round_length[OF assms(1,2) that]) (simp add: assms(3))
  have sz: "round_size_of 0 = 24" "round_size_of 1 = 25" "round_size_of 2 = 24" by (simp_all add: round_size_of_def)
  have "length (sm_rounds (sample_states R P N 0)) = 0" using ok[of 0] by simp
  then have r0: "sm_covered (sample_states R P N 1) = set (generate_rounds R P N ! 0)"
    using round_at(1)[OF assms(1,2), of 0 N] covered_is_rounds[OF assms(1,2), of N 1] ok[of 1] assms(4)
    by (cases "sm_rounds (sample_states R P N 1)") auto
  have "distinct (generate_rounds R P N ! 0)"
    using ok[of N] assms(4) nth_mem[of 0 "generate_rounds R P N"] by (simp add: sampler_ok_def generate_rounds_def)
  then show 1: "card (sm_covered (sample_states R P N 1)) = 24"
    using r0 len[of 0] assms(4) sz by (simp add: distinct_card)
  show 2: "card (sm_covered (sample_states R P N 2)) = 37"
    using middle_adds[OF assms(1,2), of 1 N] 1 len[of 0] assms(3,4) sz by (simp add: numeral_2_eq_2[symmetric])
  show "card (sm_covered (sample_states R P N 3)) = 49"
    using middle_adds[OF assms(1,2), of 2 N] 2 len[of 1] assms(3,4) sz by (simp add: numeral_3_eq_3[symmetric])
qed

section \<open>What the generated rounds guarantee\<close>

text \<open>Draws that are always the first ones.\<close>

definition plain_rng :: rng where
  "plain_rng = \<lparr>rg_choice = (\<lambda>k ws xs. hd xs), rg_sample = (\<lambda>k n xs. take n xs), rg_shuffle = (\<lambda>k xs. xs)\<rparr>"

lemma plain_fair: "fair_rng plain_rng"
  by (auto simp: fair_rng_def plain_rng_def dest: in_set_takeD)

text \<open>C23: whatever is drawn, the rounds together have every ordered pair of classes and no round has a pair
  twice; each round but the last has its size, the last its size or, where that is more, all that the
  others have left open; and each round between the first and the last repeats half of the one before.\<close>

theorem rounds_cover_everything:
  assumes "fair_rng R" "0 < N"
  shows "(\<Union>r \<in> set (generate_rounds R build_all_pairs N). set r) = set build_all_pairs \<and>
    length (generate_rounds R build_all_pairs N) = N \<and> (\<forall>r \<in> set (generate_rounds R build_all_pairs N). distinct r) \<and>
    (\<forall>i. Suc i < N \<longrightarrow> length (generate_rounds R build_all_pairs N ! i) = round_size_of i) \<and>
    length (generate_rounds R build_all_pairs N ! (N - 1)) = max (round_size_of (N - 1))
      (card (set build_all_pairs - (\<Union>r \<in> set (take (N - 1) (generate_rounds R build_all_pairs N)). set r))) \<and>
    (\<forall>i. 0 < i \<and> Suc i < N \<longrightarrow>
       12 \<le> card (set (generate_rounds R build_all_pairs N ! i) \<inter> set (generate_rounds R build_all_pairs N ! (i - 1))))"
proof (intro conjI allI impI)
  let ?P = build_all_pairs
  note ok = states_ok[OF assms(1) all_pairs(1)]
  show "(\<Union>r \<in> set (generate_rounds R ?P N). set r) = set ?P" by (rule last_round_covers[OF assms(1) all_pairs(1) assms(2)])
  show "length (generate_rounds R ?P N) = N" "\<forall>r \<in> set (generate_rounds R ?P N). distinct r"
    using ok[of N N] by (auto simp: generate_rounds_def sampler_ok_def)
  show len: "length (generate_rounds R ?P N ! j) = round_size_of j" if "Suc j < N" for j
    by (rule round_length[OF assms(1) all_pairs(1) that]) (simp add: all_pairs(2))
  show "length (generate_rounds R ?P N ! (N - 1)) = max (round_size_of (N - 1))
      (card (set ?P - (\<Union>r \<in> set (take (N - 1) (generate_rounds R ?P N)). set r)))"
    using last_round_length[OF assms(1) all_pairs(1), of "N - 1"] assms(2) by (simp add: all_pairs(2))
  fix i
  assume i: "0 < i \<and> Suc i < N"
  have "min (round_size_of i div 2) (length (generate_rounds R ?P N ! (i - 1))) \<le>
    card (set (generate_rounds R ?P N ! i) \<inter> set (generate_rounds R ?P N ! (i - 1)))"
    by (rule round_overlap[OF assms(1) all_pairs(1)]) (use i in simp_all)
  moreover have 24: "24 \<le> round_size_of j" for j by (simp add: round_size_of_def nth_Cons' mod_2_eq_odd)
  moreover have "length (generate_rounds R ?P N ! (i - 1)) = round_size_of (i - 1)" using len[of "i - 1"] i by simp
  moreover have "12 \<le> round_size_of i div 2" using 24[of i] by simp
  moreover have "12 \<le> round_size_of (i - 1)" using 24[of "i - 1"] by simp
  ultimately show "12 \<le> card (set (generate_rounds R ?P N ! i) \<inter> set (generate_rounds R ?P N ! (i - 1)))" by simp
qed

theorem rounds_cover_everything_witness:
  "(\<Union>r \<in> set (generate_rounds plain_rng build_all_pairs 1). set r) = set build_all_pairs \<and>
   length (generate_rounds plain_rng build_all_pairs 1 ! 0) = 49"
proof -
  have "card (set build_all_pairs) = 49" using all_pairs(1,2) by (simp add: distinct_card)
  then show ?thesis using rounds_cover_everything[OF plain_fair, of 1] by (simp add: round_size_of_def)
qed

text \<open>With the default of four rounds, or more, the third is always the first to reach full coverage, so
  the report never finds the fourth one necessary and its safety net has nothing to add.\<close>

theorem three_rounds_suffice:
  assumes "fair_rng R" "4 \<le> N"
  shows "cv_first_full (build_coverage_report build_all_pairs (generate_rounds R build_all_pairs N)) = Some 3 \<and>
    \<not> cv_round_4 (build_coverage_report build_all_pairs (generate_rounds R build_all_pairs N))"
proof -
  let ?P = build_all_pairs and ?G = "generate_rounds R build_all_pairs N"
  note ok = states_ok[OF assms(1) all_pairs(1), of N]
  have len: "length ?G = N" using ok[of N] by (simp add: generate_rounds_def)
  obtain a b c rest where G: "?G = a # b # c # rest"
    using len assms(2) by (cases ?G; cases "tl ?G"; cases "tl (tl ?G)") auto
  have cov: "sm_covered (sample_states R ?P N k) = (\<Union>r \<in> set (take k ?G). set r)" if "k \<le> N" for k
    using covered_is_rounds[OF assms(1) all_pairs(1), of N k] rounds_prefix[OF assms(1) all_pairs(1) that, of N]
    by (simp add: generate_rounds_def)
  have sub: "(\<Union>r \<in> set (take k ?G). set r) \<subseteq> set ?P" for k
    using ok[of N] by (auto simp: sampler_ok_def generate_rounds_def dest: in_set_takeD)
  have full: "set ?P \<subseteq> (\<Union>r \<in> set (take k ?G). set r) \<longleftrightarrow> 49 \<le> card (\<Union>r \<in> set (take k ?G). set r)" for k
  proof -
    have "card (set ?P) = 49" using all_pairs(1,2) by (simp add: distinct_card)
    then show ?thesis using card_seteq[OF _ sub[of k]] card_mono[of "\<Union>r \<in> set (take k ?G). set r" "set ?P"] sub[of k] by auto
  qed
  note cards = first_three[OF assms(1) all_pairs(1,2) assms(2)]
  have "\<not> set ?P \<subseteq> set a" "\<not> set ?P \<subseteq> set a \<union> set b" "set ?P \<subseteq> set a \<union> (set b \<union> set c)"
    using full[of 1] full[of 2] full[of 3] cov[of 1] cov[of 2] cov[of 3] cards assms(2)
    by (simp_all add: G numeral_2_eq_2 numeral_3_eq_3)
  then have "(filter (\<lambda>p. p \<notin> set a) ?P = []) = False" "(filter (\<lambda>p. p \<notin> set a \<union> set b) ?P = []) = False"
    "(filter (\<lambda>p. p \<notin> set a \<union> (set b \<union> set c)) ?P = []) = True"
    by (auto simp: filter_empty_conv)
  then have "find rr_full (report_rounds ?P 1 [] ?G) \<noteq> None \<and>
      map_option rr_round (find rr_full (report_rounds ?P 1 [] ?G)) = Some 3"
    unfolding distinct_remdups_id[OF all_pairs(1)] G
    by (simp add: Let_def distinct_remdups_id[OF all_pairs(1)] Un_commute Un_left_commute)
  then show ?thesis by (auto simp: build_coverage_report_def Let_def)
qed

theorem three_rounds_suffice_witness:
  "cv_first_full (build_coverage_report build_all_pairs (generate_rounds plain_rng build_all_pairs 4)) = Some 3"
  using three_rounds_suffice[OF plain_fair, of 4] by simp

text \<open>The rounds are not runnable as they are: they pair classes with ''none'', which the injector has no
  configuration for, so among the generated files there is one whose plan the batch runner, started
  on it, never completes.\<close>

theorem generated_rounds_block_the_batch:
  assumes "fair_rng R" "0 < N" "only_grows E" "bt_disk s = None"
  shows "\<exists>r \<in> set (generate_rounds R build_all_pairs N). fst (batch_main E draw [Pairs_Arg r] s) \<noteq> Inr (Some Complete)"
proof -
  have "(''none'', ''none'') \<in> (\<Union>r \<in> set (generate_rounds R build_all_pairs N). set r)"
    using last_round_covers[OF assms(1) all_pairs(1) assms(2)] all_pairs(3) by simp
  then obtain r where r: "r \<in> set (generate_rounds R build_all_pairs N)" "(''none'', ''none'') \<in> set r" by blast
  moreover have "fault_config ''none'' = None" by (simp add: fault_config_def)
  ultimately show ?thesis using unknown_class_never_completes[OF assms(3,4) r(2)] by blast
qed

theorem generated_rounds_block_the_batch_witness:
  "\<exists>r \<in> set (generate_rounds plain_rng build_all_pairs 4).
     fst (batch_main demo_batch_env (\<lambda>n ks. (ks ! 0, ks ! 1)) [Pairs_Arg r] ((demo_batch (new_plan []))\<lparr>bt_disk := None\<rparr>))
       \<noteq> Inr (Some Complete)"
  by (rule generated_rounds_block_the_batch[OF plain_fair _ demo_grows]) simp_all

end
