(* ===== verification/Baseline_Audit.thy ===== *)
theory Baseline_Audit
  imports Prelude
begin

text \<open>
  \<^verbatim>\<open>check_all_baselines.py\<close>: the audit of every class's target against its documented baseline, and
  its \<^verbatim>\<open>--fix\<close>. \<^verbatim>\<open>kubectl\<close> is a function of the world: its arguments and what it prints. A call
  that fails prints nothing; its exit code is not looked at.
\<close>

section \<open>Commands\<close>

type_synonym 'w kubectl = "string list \<Rightarrow> 'w \<Rightarrow> string \<times> 'w"

definition kubectl :: "'w kubectl \<Rightarrow> string list \<Rightarrow> 'w \<Rightarrow> string \<times> 'w" where
  "kubectl K args w = (case K args w of (out, w1) \<Rightarrow> (py_strip out, w1))"

definition audit_namespace :: string where "audit_namespace = ''sock-shop''"
definition oom_limit :: string where "oom_limit = ''200Mi''"
definition throttle_limit :: string where "throttle_limit = ''300m''"
definition catalogue_replicas :: string where "catalogue_replicas = ''1''"
definition payment_path :: string where "payment_path = ''/health''"
definition session_replicas :: string where "session_replicas = ''1''"
definition ephemeral_limit :: string where "ephemeral_limit = ''300Mi''"

definition memory_path :: string where
  "memory_path = ''{.spec.template.spec.containers[0].resources.limits.memory}''"
definition cpu_path :: string where
  "cpu_path = ''{.spec.template.spec.containers[0].resources.limits.cpu}''"
definition image_path :: string where
  "image_path = ''{.spec.template.spec.containers[0].image}''"
definition probe_path :: string where
  "probe_path = ''{.spec.template.spec.containers[0].readinessProbe.httpGet.path}''"
definition ephemeral_path :: string where
  "ephemeral_path = ''{.spec.template.spec.containers[0].resources.limits.ephemeral-storage}''"
definition replicas_path :: string where
  "replicas_path = ''__replicas__''"

text \<open>A drift: a setting of a deployment that is not as expected, or a dead pod.\<close>

datatype drift = Setting string string string | Dead_Pod string

section \<open>The checks\<close>

definition get_args :: "string \<Rightarrow> string \<Rightarrow> string list" where
  "get_args deployment path =
     [''get'', ''deployment'', deployment, ''-n'', audit_namespace, ''-o'',
      ''jsonpath='' @ (if path = replicas_path then ''{.spec.replicas}'' else path)]"

definition check_jsonpath :: "'w kubectl \<Rightarrow> string \<Rightarrow> string \<Rightarrow> string \<Rightarrow> 'w \<Rightarrow> drift list \<times> 'w" where
  "check_jsonpath K deployment path expected w =
     (case kubectl K (get_args deployment path) w of (actual, w1) \<Rightarrow>
        (if actual = expected then [] else [Setting deployment path expected], w1))"

definition is_break :: "char \<Rightarrow> bool" where
  "is_break c = (let n = of_char c :: nat in (10 \<le> n \<and> n \<le> 13) \<or> (28 \<le> n \<and> n \<le> 30))"

text \<open>\<^verbatim>\<open>[line for line in s.splitlines() if line.strip()]\<close>.\<close>

fun full_lines :: "string \<Rightarrow> string \<Rightarrow> string list" where
  "full_lines acc [] = (if py_strip (rev acc) = [] then [] else [rev acc])"
| "full_lines acc (c # cs) =
     (if is_break c then (if py_strip (rev acc) = [] then [] else [rev acc]) @ full_lines [] cs
      else full_lines (c # acc) cs)"

text \<open>\<^verbatim>\<open>line.split()[0]\<close>.\<close>

definition first_word :: "string \<Rightarrow> string" where
  "first_word s = takeWhile (\<lambda>c. \<not> is_space c) (dropWhile is_space s)"

definition pods_args :: "string list" where
  "pods_args =
     [''get'', ''pods'', ''-n'', audit_namespace, ''--field-selector=status.phase!=Running,status.phase!=Succeeded'',
      ''-o'', dq (''jsonpath={range .items[*]}{.metadata.name}{~ ~}{.status.phase}{~'' @ [CHR 0x5C] @ ''n~}{end}'')]"

definition check_dead_pods :: "'w kubectl \<Rightarrow> 'w \<Rightarrow> drift list \<times> 'w" where
  "check_dead_pods K w =
     (case kubectl K pods_args w of (out, w1) \<Rightarrow> (List.map (\<lambda>l. Dead_Pod (first_word l)) (full_lines [] out), w1))"

text \<open>The image is what \<^verbatim>\<open>FRONT_END_IMAGE_BASELINE\<close> names.\<close>

definition baselines :: "string \<Rightarrow> (string \<times> string \<times> string) list" where
  "baselines img =
     [(''catalogue'', memory_path, oom_limit), (''catalogue'', replicas_path, catalogue_replicas),
      (''user'', cpu_path, throttle_limit), (''front-end'', image_path, img),
      (''payment'', probe_path, payment_path), (''session-db'', replicas_path, session_replicas),
      (''queue-master'', ephemeral_path, ephemeral_limit)]"

fun check_settings :: "'w kubectl \<Rightarrow> (string \<times> string \<times> string) list \<Rightarrow> 'w \<Rightarrow> drift list \<times> 'w" where
  "check_settings K [] w = ([], w)"
| "check_settings K ((d, p, e) # rest) w =
     (case check_jsonpath K d p e w of (xs, w1) \<Rightarrow>
        (case check_settings K rest w1 of (ys, w2) \<Rightarrow> (xs @ ys, w2)))"

section \<open>The repair\<close>

text \<open>The command of a repair, \<open>None\<close> where the code only prints a warning.\<close>

definition container_patch :: "string \<Rightarrow> string \<Rightarrow> string" where
  "container_patch name inner =
     dq (''{~spec~:{~template~:{~spec~:{~containers~:[{~name~:~'' @ name @ ''~,'') @ inner @ dq ''}]}}}}''"

definition fix_args :: "string \<Rightarrow> string \<Rightarrow> string \<Rightarrow> string list option" where
  "fix_args deployment path expected =
     (let patch = \<lambda>name inner. Some [''patch'', ''deployment'', deployment, ''-n'', audit_namespace, ''--type=strategic'', ''-p'',
                                     container_patch name inner] in
      if occurs_in ''resources.limits.memory'' path \<and> deployment = ''catalogue''
      then patch ''catalogue'' (dq ''~resources~:{~limits~:{~memory~:~'' @ expected @ dq ''~}}'')
      else if occurs_in ''resources.limits.cpu'' path \<and> deployment = ''user''
      then patch ''user'' (dq ''~resources~:{~limits~:{~cpu~:~'' @ expected @ dq ''~}}'')
      else if occurs_in ''image'' path
      then Some [''set'', ''image'', ''deployment/'' @ deployment, deployment @ ''='' @ expected, ''-n'', audit_namespace]
      else if occurs_in ''readinessProbe'' path
      then patch ''payment'' (dq ''~readinessProbe~:{~httpGet~:{~path~:~'' @ expected @ dq ''~}}'')
      else if path = replicas_path
      then Some [''scale'', ''deployment'', deployment, ''-n'', audit_namespace, ''--replicas='' @ expected]
      else None)"

fun apply_fix :: "'w kubectl \<Rightarrow> drift \<Rightarrow> 'w \<Rightarrow> 'w" where
  "apply_fix K (Dead_Pod name) w = snd (kubectl K [''delete'', ''pod'', name, ''-n'', audit_namespace] w)"
| "apply_fix K (Setting deployment path expected) w =
     (case fix_args deployment path expected of None \<Rightarrow> w | Some args \<Rightarrow> snd (kubectl K args w))"

text \<open>\<^verbatim>\<open>main\<close>: whether it exits with 0. With \<^verbatim>\<open>--fix\<close> it always does.\<close>

definition find_drift :: "'w kubectl \<Rightarrow> string \<Rightarrow> 'w \<Rightarrow> drift list \<times> 'w" where
  "find_drift K img w =
     (case check_settings K (baselines img) w of (xs, w1) \<Rightarrow>
        (case check_dead_pods K w1 of (ys, w2) \<Rightarrow> (xs @ ys, w2)))"

definition check_all_baselines :: "'w kubectl \<Rightarrow> string \<Rightarrow> bool \<Rightarrow> 'w \<Rightarrow> bool \<times> 'w" where
  "check_all_baselines K img fix_it w =
     (case find_drift K img w of (drift, w1) \<Rightarrow>
        if drift = [] then (True, w1)
        else if fix_it then (True, fold (apply_fix K) drift w1)
        else (False, w1))"

section \<open>What the audit decides\<close>

text \<open>A cluster that answers the questions of the audit: \<open>value\<close> is a setting of it, \<open>pods\<close> what the
  pod query prints. Reading changes neither, and a repair sets its setting and nothing else the
  audit looks at.\<close>

definition answers :: "'w kubectl \<Rightarrow> string \<Rightarrow> ('w \<Rightarrow> string \<times> string \<Rightarrow> string) \<Rightarrow> ('w \<Rightarrow> string) \<Rightarrow> bool" where
  "answers K img setting pods \<longleftrightarrow> (\<forall>w. K pods_args w = (pods w, w)) \<and>
     (\<forall>(d, p, e) \<in> set (baselines img).
        (\<forall>w. K (get_args d p) w = (setting w (d, p), w)) \<and>
        (\<forall>w args. fix_args d p e = Some args \<longrightarrow> pods (snd (K args w)) = pods w \<and>
           (\<forall>(d', p', e') \<in> set (baselines img).
              setting (snd (K args w)) (d', p') = (if (d', p') = (d, p) then e else setting w (d', p')))))"

definition off_baseline :: "('w \<Rightarrow> string \<times> string \<Rightarrow> string) \<Rightarrow> string \<Rightarrow> 'w \<Rightarrow> drift list" where
  "off_baseline setting img w =
     List.map (\<lambda>(d, p, e). Setting d p e) (filter (\<lambda>(d, p, e). py_strip (setting w (d, p)) \<noteq> e) (baselines img))"

lemma fixable:
  "fix_args ''catalogue'' memory_path e \<noteq> None" "fix_args ''catalogue'' replicas_path e \<noteq> None"
  "fix_args ''user'' cpu_path e \<noteq> None" "fix_args ''front-end'' image_path e \<noteq> None"
  "fix_args ''payment'' probe_path e \<noteq> None" "fix_args ''session-db'' replicas_path e \<noteq> None"
  "fix_args ''queue-master'' ephemeral_path e = None"
proof -
  have o: "occurs_in ''resources.limits.memory'' memory_path" "occurs_in ''resources.limits.cpu'' cpu_path"
    "occurs_in ''image'' image_path" "occurs_in ''readinessProbe'' probe_path"
    "\<not> occurs_in ''resources.limits.memory'' ephemeral_path" "\<not> occurs_in ''resources.limits.cpu'' ephemeral_path"
    "\<not> occurs_in ''image'' ephemeral_path" "\<not> occurs_in ''readinessProbe'' ephemeral_path" "ephemeral_path \<noteq> replicas_path"
    by code_simp+
  show "fix_args ''catalogue'' memory_path e \<noteq> None" "fix_args ''catalogue'' replicas_path e \<noteq> None"
    "fix_args ''user'' cpu_path e \<noteq> None" "fix_args ''front-end'' image_path e \<noteq> None"
    "fix_args ''payment'' probe_path e \<noteq> None" "fix_args ''session-db'' replicas_path e \<noteq> None"
    "fix_args ''queue-master'' ephemeral_path e = None"
    using o by (simp_all add: fix_args_def Let_def)
qed

lemma answersD:
  assumes "answers K img setting pods" "(d, p, e) \<in> set (baselines img)"
  shows "K (get_args d p) w = (setting w (d, p), w)"
    "fix_args d p e = Some args \<Longrightarrow> pods (snd (K args w)) = pods w"
    "fix_args d p e = Some args \<Longrightarrow> (d', p', e') \<in> set (baselines img) \<Longrightarrow>
       setting (snd (K args w)) (d', p') = (if (d', p') = (d, p) then e else setting w (d', p'))"
  using assms unfolding answers_def by fast+

lemma check_settings_answers:
  assumes "answers K img setting pods"
  shows "set xs \<subseteq> set (baselines img) \<Longrightarrow> check_settings K xs w =
    (List.map (\<lambda>(d, p, e). Setting d p e) (filter (\<lambda>(d, p, e). py_strip (setting w (d, p)) \<noteq> e) xs), w)"
proof (induction xs)
  case (Cons x xs)
  obtain d p e where x: "x = (d, p, e)" by (cases x)
  have "K (get_args d p) w = (setting w (d, p), w)" using answersD(1)[OF assms, of d p e] Cons.prems by (simp add: x)
  then show ?case using Cons by (simp add: x check_jsonpath_def kubectl_def)
qed simp

lemma find_drift_answers:
  assumes "answers K img setting pods"
  shows "find_drift K img w = (off_baseline setting img w @ List.map (\<lambda>l. Dead_Pod (first_word l)) (full_lines [] (py_strip (pods w))), w)"
proof -
  have "K pods_args w = (pods w, w)" using assms by (simp add: answers_def)
  then show ?thesis
    by (simp add: find_drift_def check_settings_answers[OF assms] check_dead_pods_def kubectl_def off_baseline_def)
qed

text \<open>Repairs of different settings do not meet.\<close>

lemma repairs:
  assumes "answers K img setting pods" "(d', p', e') \<in> set (baselines img)"
  shows "distinct (List.map (\<lambda>(d, p, e). (d, p)) xs) \<Longrightarrow> set xs \<subseteq> set (baselines img) \<Longrightarrow>
    setting (fold (apply_fix K) (List.map (\<lambda>(d, p, e). Setting d p e) xs) w) (d', p') =
      (case find (\<lambda>(d, p, e). (d, p) = (d', p') \<and> fix_args d p e \<noteq> None) xs of
         Some (d, p, e) \<Rightarrow> e | None \<Rightarrow> setting w (d', p')) \<and>
    pods (fold (apply_fix K) (List.map (\<lambda>(d, p, e). Setting d p e) xs) w) = pods w"
proof (induction xs arbitrary: w)
  case (Cons x xs)
  obtain d p e where x: "x = (d, p, e)" by (cases x)
  have mem: "(d, p, e) \<in> set (baselines img)" using Cons.prems(2) x by simp
  let ?w = "apply_fix K (Setting d p e) w"
  have step: "setting ?w (d', p') = (if fix_args d p e \<noteq> None \<and> (d', p') = (d, p) then e else setting w (d', p'))"
    "pods ?w = pods w"
    using answersD(2,3)[OF assms(1) mem] assms(2) by (auto simp: kubectl_def case_prod_unfold split: option.split)
  have none: "find (\<lambda>(d', p', e). (d', p') = (d, p) \<and> fix_args d' p' e \<noteq> None) xs = None"
    using Cons.prems(1) by (force simp: x find_None_iff)
  have ih: "setting (fold (apply_fix K) (List.map (\<lambda>(d, p, e). Setting d p e) xs) ?w) (d', p') =
      (case find (\<lambda>(d, p, e). (d, p) = (d', p') \<and> fix_args d p e \<noteq> None) xs of
         Some (d, p, e) \<Rightarrow> e | None \<Rightarrow> setting ?w (d', p')) \<and>
      pods (fold (apply_fix K) (List.map (\<lambda>(d, p, e). Setting d p e) xs) ?w) = pods ?w"
    by (rule Cons.IH) (use Cons.prems x in simp_all)
  show ?case
    using ih step none by (cases "(d', p') = (d, p)"; cases "fix_args d p e") (auto simp: x split: option.split)
qed simp

lemma find_key:
  assumes "distinct (List.map (\<lambda>(d, p, e). (d, p)) xs)" "(d, p, e) \<in> set xs" "F d p e"
  shows "find (\<lambda>(d', p', e'). (d', p') = (d, p) \<and> F d' p' e') (filter Q xs) = (if Q (d, p, e) then Some (d, p, e) else None)"
  using assms(1,2)
proof (induction xs)
  case (Cons x xs)
  have no: "find (\<lambda>(d', p', e'). (d', p') = (d, p) \<and> F d' p' e') (filter Q xs) = None" if "x = (d, p, e)"
    using Cons.prems(1) that by (force simp: find_None_iff)
  show ?case
  proof (cases "x = (d, p, e)")
    case True
    then show ?thesis using no assms(3) by simp
  next
    case False
    then have "(d, p, e) \<in> set xs" using Cons.prems(2) by simp
    moreover from this have "(case x of (d', p', e') \<Rightarrow> (d', p')) \<noteq> (d, p)" using Cons.prems(1) by (force simp: image_iff)
    ultimately show ?thesis using Cons by (cases x) auto
  qed
qed simp

lemma baseline_keys: "distinct (List.map (\<lambda>(d, p, e). (d, p)) (baselines img))"
  by (simp add: baselines_def memory_path_def cpu_path_def image_path_def probe_path_def ephemeral_path_def replicas_path_def)

lemma stripped:
  "py_strip oom_limit = oom_limit" "py_strip throttle_limit = throttle_limit" "py_strip catalogue_replicas = catalogue_replicas"
  "py_strip payment_path = payment_path" "py_strip session_replicas = session_replicas" "py_strip ephemeral_limit = ephemeral_limit"
  by code_simp+

text \<open>After \<^verbatim>\<open>--fix\<close> the audit is clean except for the ephemeral storage of queue-master: the repair has
  no case for it, so a drift there stays, and the batch runner refuses to start.\<close>

theorem fix_repairs_all_but_queue_master:
  assumes "answers K img setting pods" "full_lines [] (py_strip (pods w)) = []" "py_strip img = img"
  shows "fst (check_all_baselines K img False (snd (check_all_baselines K img True w))) \<longleftrightarrow>
    py_strip (setting w (''queue-master'', ephemeral_path)) = ephemeral_limit"
proof -
  let ?Q = "\<lambda>(d, p, e). py_strip (setting w (d, p)) \<noteq> e"
  let ?xs = "filter ?Q (baselines img)"
  define w' where "w' = fold (apply_fix K) (off_baseline setting img w) w"
  have clean: "fst (check_all_baselines K img False v) \<longleftrightarrow> off_baseline setting img v = []" if "pods v = pods w" for v
    using assms(2) that by (simp add: check_all_baselines_def find_drift_answers[OF assms(1)])
  have w': "snd (check_all_baselines K img True w) = w'"
    using assms(2) by (simp add: check_all_baselines_def find_drift_answers[OF assms(1)] w'_def)
  have "distinct (List.map (\<lambda>(d, p, e). (d, p)) ?xs)" using baseline_keys by (rule distinct_map_filter)
  then have r: "setting w' (d, p) = (case find (\<lambda>(d', p', e). (d', p') = (d, p) \<and> fix_args d' p' e \<noteq> None) ?xs of
      Some (d, p, e) \<Rightarrow> e | None \<Rightarrow> setting w (d, p)) \<and> pods w' = pods w"
    if "(d, p, e) \<in> set (baselines img)" for d p e
    using repairs[OF assms(1) that, of ?xs w] by (simp add: w'_def off_baseline_def)
  have queue: "(''queue-master'', ephemeral_path, ephemeral_limit) \<in> set (baselines img)" by (simp add: baselines_def)
  have set_w': "setting w' (d, p) = (if ?Q (d, p, e) then e else setting w (d, p))"
    if "(d, p, e) \<in> set (baselines img)" "fix_args d p e \<noteq> None" for d p e
    using r[OF that(1)] find_key[OF baseline_keys that(1), of "\<lambda>d p e. fix_args d p e \<noteq> None" ?Q] that(2)
    by (simp split: if_splits)
  have ok: "py_strip (setting w' (d, p)) = e" if "(d, p, e) \<in> set (baselines img)" "fix_args d p e \<noteq> None" for d p e
  proof -
    have "py_strip e = e" using that(1) assms(3) stripped by (auto simp: baselines_def)
    then show ?thesis using set_w'[OF that] by simp
  qed
  have "find (\<lambda>(d, p, e). (d, p) = (''queue-master'', ephemeral_path) \<and> fix_args d p e \<noteq> None) ?xs = None"
    using fixable(7) by (auto simp: find_None_iff)
  then have q: "setting w' (''queue-master'', ephemeral_path) = setting w (''queue-master'', ephemeral_path)"
    using r[OF queue] by simp
  have "off_baseline setting img w' = [] \<longleftrightarrow> (\<forall>(d, p, e) \<in> set (baselines img). py_strip (setting w' (d, p)) = e)"
    by (auto simp: off_baseline_def filter_empty_conv)
  also have "\<dots> \<longleftrightarrow> py_strip (setting w' (''queue-master'', ephemeral_path)) = ephemeral_limit"
    using ok fixable by (auto simp: baselines_def)
  finally show ?thesis using clean[of w'] r[OF queue] w' q by simp
qed

text \<open>A cluster that is its settings, and the drift of a memory limit.\<close>

definition demo_kubectl :: "(string \<times> string \<Rightarrow> string) kubectl" where
  "demo_kubectl args w =
     (if args = pods_args then ([], w)
      else case find (\<lambda>(d, p, e). args = get_args d p) (baselines ''img:1'') of
        Some (d, p, e) \<Rightarrow> (w (d, p), w)
      | None \<Rightarrow>
          (case find (\<lambda>(d, p, e). fix_args d p e = Some args) (baselines ''img:1'') of
             Some (d, p, e) \<Rightarrow> ([], w((d, p) := e)) | None \<Rightarrow> ([], w)))"

lemma demo_answers: "answers demo_kubectl ''img:1'' (\<lambda>w. w) (\<lambda>_. [])"
proof -
  have get: "list_all (\<lambda>(d, p, e). get_args d p \<noteq> pods_args \<and>
      find (\<lambda>(d', p', e'). get_args d p = get_args d' p') (baselines ''img:1'') = Some (d, p, e)) (baselines ''img:1'')"
    by code_simp
  have put: "list_all (\<lambda>(d, p, e). case fix_args d p e of None \<Rightarrow> True | Some args \<Rightarrow> args \<noteq> pods_args \<and>
      find (\<lambda>(d', p', e'). args = get_args d' p') (baselines ''img:1'') = None \<and>
      find (\<lambda>(d', p', e'). fix_args d' p' e' = Some args) (baselines ''img:1'') = Some (d, p, e)) (baselines ''img:1'')"
    by code_simp
  show ?thesis
    unfolding answers_def
  proof (intro conjI ballI allI)
    show "demo_kubectl pods_args w = ([], w)" for w by (simp add: demo_kubectl_def)
    fix x assume x: "x \<in> set (baselines ''img:1'')"
    obtain d p e where e: "x = (d, p, e)" by (cases x)
    have "demo_kubectl (get_args d p) w = (w (d, p), w)" for w
      using get x by (auto simp: demo_kubectl_def list_all_iff e)
    moreover have "demo_kubectl args w = ([], w((d, p) := e))" if "fix_args d p e = Some args" for args w
      using put x that by (fastforce simp: demo_kubectl_def list_all_iff e)
    ultimately show "case x of (d, p, e) \<Rightarrow> (\<forall>w. demo_kubectl (get_args d p) w = (w (d, p), w)) \<and>
        (\<forall>w args. fix_args d p e = Some args \<longrightarrow> [] = [] \<and>
           (\<forall>(d', p', e') \<in> set (baselines ''img:1'').
              snd (demo_kubectl args w) (d', p') = (if (d', p') = (d, p) then e else w (d', p'))))"
      by (auto simp: e)
  qed
qed

theorem fix_repairs_all_but_queue_master_witness:
  "\<not> fst (check_all_baselines demo_kubectl ''img:1'' False (snd (check_all_baselines demo_kubectl ''img:1'' True (\<lambda>_. ''0''))))"
proof -
  have "py_strip ''img:1'' = ''img:1''" "py_strip ''0'' \<noteq> ephemeral_limit" "full_lines [] (py_strip []) = []" by code_simp+
  then show ?thesis using fix_repairs_all_but_queue_master[OF demo_answers, of "\<lambda>_. ''0''"] by simp
qed

end
