(* ===== verification/Injector_Base.thy ===== *)
theory Injector_Base
  imports Cage_Actions Fault_Taxonomy K6_Probe
begin

text \<open>
  \<^verbatim>\<open>injector.py\<close>, its ground: what a fault class needs, the commands, queries and manifests the
  injections are made of, and the loops that wait for an effect. The world is changed by
  \<^verbatim>\<open>kubectl\<close>, by processes it starts, by the database and by waiting; everything that can raise is a
  step with a result. Times are microseconds.
\<close>

section \<open>The environment\<close>

text \<open>A finished process: exit code, standard output and standard error.\<close>

record proc =
  pc_code :: int
  pc_out :: string
  pc_err :: string

text \<open>The two tables of \<^verbatim>\<open>wardence.db\<close> the injector writes. The probe is the JSON of its three
  numbers.\<close>

record episode_entry =
  ee_class :: string
  ee_target :: string
  ee_namespace :: string
  ee_t0 :: string
  ee_chaos :: string
  ee_heap_kb :: "rat option"
  ee_probe :: "(int \<times> int \<times> int) option"

record inj_db =
  ib_episodes :: "(string \<times> episode_entry) list"
  ib_holder :: "string option"
  ib_acquired :: "int option"

text \<open>\<open>ij_run\<close> is \<^verbatim>\<open>subprocess.run\<close> of kubectl with its arguments, input and timeout. \<open>ij_query\<close> is a
  Prometheus query with the numbers of its result, \<open>None\<close> where a value is no finite number; a
  failed request, an error status or an unreadable answer raises. \<open>ij_write\<close> writes the time into
  a file. A process that was started has a number. \<open>ij_sql\<close> runs one transaction and gives the
  tables it found. \<open>ij_script\<close> is the k6 script of a name with its values filled in. The last fields
  are what the process finds in its surroundings.\<close>

record 'w inj_env =
  ij_run :: "string list \<Rightarrow> string option \<Rightarrow> int option \<Rightarrow> ('w, proc) step"
  ij_query :: "string \<Rightarrow> ('w, rat option list) step"
  ij_time :: "'w \<Rightarrow> int"
  ij_monotonic :: "'w \<Rightarrow> rat"
  ij_sleep :: "int \<Rightarrow> 'w \<Rightarrow> 'w"
  ij_exists :: "string \<Rightarrow> 'w \<Rightarrow> bool"
  ij_write :: "string \<Rightarrow> ('w, unit) step"
  ij_uuid :: "'w \<Rightarrow> string \<times> 'w"
  ij_popen :: "string list \<Rightarrow> ('w, nat) step"
  ij_feed :: "nat \<Rightarrow> string \<Rightarrow> ('w, unit) step"
  ij_wait :: "nat \<Rightarrow> int \<Rightarrow> ('w, unit) step"
  ij_terminate :: "nat \<Rightarrow> ('w, unit) step"
  ij_kill :: "nat \<Rightarrow> ('w, unit) step"
  ij_sql :: "(inj_db \<Rightarrow> inj_db) \<Rightarrow> ('w, inj_db) step"
  ij_loads :: "string \<Rightarrow> pyval res"
  ij_dumps :: "pyval \<Rightarrow> string"
  ij_script :: "string \<Rightarrow> string list \<Rightarrow> string"
  ij_timestamp :: "int \<Rightarrow> string"
  ij_isoformat :: "int \<Rightarrow> string"
  ij_environ :: "string \<Rightarrow> string option"
  ij_arm64 :: bool
  ij_load_concurrency :: int
  ij_pid :: int

definition ij_nap :: "'w inj_env \<Rightarrow> int \<Rightarrow> ('w, unit) step" where
  "ij_nap E us w = (Inr (), ij_sleep E us w)"

text \<open>\<^verbatim>\<open>stop_file is not None and os.path.exists(stop_file)\<close>.\<close>

definition stop_asked :: "'w inj_env \<Rightarrow> string option \<Rightarrow> 'w \<Rightarrow> bool" where
  "stop_asked E stop_file w = (case stop_file of None \<Rightarrow> False | Some f \<Rightarrow> ij_exists E f w)"

text \<open>\<^verbatim>\<open>try: m except Exception: pass\<close>, and a \<^verbatim>\<open>finally\<close> that looks at what the block left.\<close>

definition ignore_errors :: "('w, unit) step \<Rightarrow> ('w, unit) step" where
  "ignore_errors m = except_step is_exception m (ret_step ())"

definition finally_with :: "('w, 'a) step \<Rightarrow> ('a res \<Rightarrow> ('w, unit) step) \<Rightarrow> ('w, 'a) step" where
  "finally_with m c w =
     (case m w of (r, w1) \<Rightarrow> (case c r w1 of (Inl e, w2) \<Rightarrow> (Inl e, w2) | (Inr _, w2) \<Rightarrow> (r, w2)))"

text \<open>\<^verbatim>\<open>uuid.uuid4().hex[:8]\<close>; \<open>ij_uuid\<close> gives the 32 digits.\<close>

definition uuid8 :: "'w inj_env \<Rightarrow> ('w, string) step" where
  "uuid8 E w = (case ij_uuid E w of (u, w1) \<Rightarrow> (Inr (take 8 u), w1))"

text \<open>A command whose exit code is not looked at, and what it printed.\<close>

definition kube_run :: "'w inj_env \<Rightarrow> string list \<Rightarrow> ('w, proc) step" where
  "kube_run E args = ij_run E args None None"

definition kube_do :: "'w inj_env \<Rightarrow> string list \<Rightarrow> ('w, unit) step" where
  "kube_do E args = map_step (\<lambda>_. ()) (kube_run E args)"

definition kube_text :: "'w inj_env \<Rightarrow> string list \<Rightarrow> ('w, string) step" where
  "kube_text E args = map_step (\<lambda>p. py_strip (pc_out p)) (kube_run E args)"

section \<open>The fault classes\<close>

text \<open>A key the class does not have is the empty text; no operation reads one.\<close>

record inject_cfg = fault_cfg +
  ic_container :: string
  ic_duration :: int
  ic_pattern :: string
  ic_prefix :: string

definition inject_cfg_of :: "string \<Rightarrow> string \<Rightarrow> int \<Rightarrow> string \<Rightarrow> string \<Rightarrow> inject_cfg" where
  "inject_cfg_of target container duration pattern pre =
     \<lparr>cfg_namespace = ''sock-shop'', cfg_target = target, ic_container = container, ic_duration = duration,
      ic_pattern = pattern, ic_prefix = pre\<rparr>"

definition inject_config :: "string \<Rightarrow> inject_cfg option" where
  "inject_config = map_of
     [(''crash-loop'', inject_cfg_of ''carts'' ''carts'' 40 ''app.jar'' []),
      (''oom'', inject_cfg_of ''catalogue'' ''catalogue'' 90 [] ''wardence-oom''),
      (''disk-full'', inject_cfg_of ''queue-master'' ''queue-master'' 60 [] []),
      (''network-latency'', inject_cfg_of ''orders'' [] 60 [] ''wardence-latency''),
      (''memory-leak'', inject_cfg_of ''shipping'' ''shipping'' 180 [] ''wardence-memleak''),
      (''connection-pool-exhaustion'', inject_cfg_of ''catalogue-db'' ''catalogue-db'' 60 [] []),
      (''network-partition'', inject_cfg_of ''orders'' [] 60 [] ''wardence-partition''),
      (''init-failure'', inject_cfg_of ''payment'' ''payment'' 60 [] []),
      (''session-cart-failure'', inject_cfg_of ''session-db'' [] 60 [] []),
      (''under-provisioned-replicas'', inject_cfg_of ''catalogue'' [] 20 [] []),
      (''bad-rollout'', inject_cfg_of ''front-end'' ''front-end'' 60 [] []),
      (''cpu-throttling'', inject_cfg_of ''user'' ''user'' 60 [] ''wardence-cputhrottle'')]"

definition max_inject_attempts :: nat where "max_inject_attempts = 3"
definition effect_verify_timeout_s :: int where "effect_verify_timeout_s = 35"
definition effect_verify_poll_s :: int where "effect_verify_poll_s = 5"

text \<open>\<^verbatim>\<open>for attempt in range(1, MAX_INJECT_ATTEMPTS + 1)\<close>: an attempt that gives \<open>None\<close> is followed
  by the next one.\<close>

fun attempts :: "nat \<Rightarrow> ('w, 'a option) step \<Rightarrow> 'a \<Rightarrow> ('w, 'a) step" where
  "attempts 0 body given_up = ret_step given_up"
| "attempts (Suc n) body given_up =
     then_step body (\<lambda>r. case r of Some a \<Rightarrow> ret_step a | None \<Rightarrow> attempts n body given_up)"

section \<open>Pods\<close>

definition selector_of :: "string \<Rightarrow> string" where
  "selector_of target = ''name='' @ target"

definition current_pod_name :: "'w inj_env \<Rightarrow> string \<Rightarrow> string \<Rightarrow> ('w, string option) step" where
  "current_pod_name E target ns =
     map_step (\<lambda>name. if name = [] then None else Some name)
       (kube_text E [''get'', ''pods'', ''-n'', ns, ''-l'', selector_of target, ''--field-selector=status.phase=Running'',
          ''-o'', ''jsonpath={.items[0].metadata.name}''])"

definition exec_sh :: "string \<Rightarrow> string \<Rightarrow> string \<Rightarrow> string \<Rightarrow> string list" where
  "exec_sh ns pod container script = [''exec'', ''-n'', ns, pod, ''-c'', container, ''--'', ''sh'', ''-c'', script]"

definition disk_stress_bytes :: int where "disk_stress_bytes = 450000000"

definition write_large_file :: "'w inj_env \<Rightarrow> string \<Rightarrow> string \<Rightarrow> string \<Rightarrow> ('w, unit) step" where
  "write_large_file E pod ns container =
     kube_do E (exec_sh ns pod container
       (''head -c '' @ show_int disk_stress_bytes @ '' /dev/zero > /tmp/wardence_fill_$$''))"

definition kill_main_process :: "'w inj_env \<Rightarrow> string \<Rightarrow> string \<Rightarrow> string \<Rightarrow> string \<Rightarrow> ('w, bool) step" where
  "kill_main_process E pod ns container pattern =
     map_step (\<lambda>p. pc_code p = 0)
       (kube_run E [''exec'', ''-n'', ns, pod, ''-c'', container, ''--'', ''pkill'', ''-9'', ''-f'', pattern])"

definition cleanup_disk_full_files :: "'w inj_env \<Rightarrow> string \<Rightarrow> string \<Rightarrow> string \<Rightarrow> ('w, unit) step" where
  "cleanup_disk_full_files E target ns container =
     then_step (current_pod_name E target ns) (\<lambda>pod.
       case pod of None \<Rightarrow> ret_step ()
       | Some p \<Rightarrow> kube_do E (exec_sh ns p container ''rm -f /tmp/wardence_fill_*''))"

definition kill_pod_now :: "'w inj_env \<Rightarrow> string \<Rightarrow> string \<Rightarrow> ('w, unit) step" where
  "kill_pod_now E ns pod =
     map_step (\<lambda>_. ()) (ij_run E [''delete'', ''pod'', pod, ''-n'', ns, ''--grace-period=0'', ''--force'', ''--wait=false'',
       ''--ignore-not-found=true''] None (Some 15))"

text \<open>\<^verbatim>\<open>kubectl rollout status\<close> with its timeout.\<close>

definition rollout_status :: "'w inj_env \<Rightarrow> string \<Rightarrow> string \<Rightarrow> string \<Rightarrow> ('w, proc) step" where
  "rollout_status E target ns limit =
     kube_run E [''rollout'', ''status'', ''deployment/'' @ target, ''-n'', ns, ''--timeout='' @ limit]"

definition wait_rollout :: "'w inj_env \<Rightarrow> string \<Rightarrow> string \<Rightarrow> string \<Rightarrow> ('w, unit) step" where
  "wait_rollout E target ns limit = map_step (\<lambda>_. ()) (rollout_status E target ns limit)"

definition patch_template :: "'w inj_env \<Rightarrow> string \<Rightarrow> string \<Rightarrow> string \<Rightarrow> ('w, unit) step" where
  "patch_template E target ns body =
     kube_do E [''patch'', ''deployment'', target, ''-n'', ns, ''--type=strategic'', ''-p'', body]"

text \<open>A patch of one container of a deployment's template.\<close>

definition template_patch :: "string \<Rightarrow> string \<Rightarrow> string" where
  "template_patch container inner =
     dq ''{~spec~:{~template~:{~spec~:{~containers~:[{~name~:~'' @ container @ dq ''~,'' @ inner @ ''}]}}}}''"

definition deployment_field :: "'w inj_env \<Rightarrow> string \<Rightarrow> string \<Rightarrow> string \<Rightarrow> ('w, string) step" where
  "deployment_field E target ns path =
     kube_text E [''get'', ''deployment'', target, ''-n'', ns, ''-o'', ''jsonpath='' @ path]"

definition scale_to :: "'w inj_env \<Rightarrow> string \<Rightarrow> string \<Rightarrow> int \<Rightarrow> ('w, unit) step" where
  "scale_to E target ns replicas =
     kube_do E [''scale'', ''deployment'', target, ''-n'', ns, ''--replicas='' @ show_int replicas]"

end
