(* ===== verification/Injector_Effects.thy ===== *)
theory Injector_Effects
  imports Injector_Base Stub_Diagnoser
begin

text \<open>
  \<^verbatim>\<open>injector.py\<close>: the Prometheus queries and probes that tell whether a fault has an effect, the
  loops that poll them, and the chaos resources. A Prometheus value is read by
  \<^verbatim>\<open>int(float(v))\<close>, which raises on NaN and the infinities.
\<close>

section \<open>Queries\<close>

definition restarts_query :: "string \<Rightarrow> string \<Rightarrow> string" where
  "restarts_query target ns = ''kube_pod_container_status_restarts_total'' @ selector (ns_pod ns target)"

definition throttled_query :: "string \<Rightarrow> string \<Rightarrow> string \<Rightarrow> string" where
  "throttled_query target ns container =
     ''container_cpu_cfs_throttled_periods_total'' @ selector (ns_pod ns target @ [(''container='', container)])"

definition throttled_pod_query :: "string \<Rightarrow> string \<Rightarrow> string \<Rightarrow> string" where
  "throttled_pod_query pod ns container =
     ''container_cpu_cfs_throttled_periods_total'' @
     selector [(''namespace='', ns), (''pod='', pod), (''container='', container)]"

definition backoff_query :: "string \<Rightarrow> string \<Rightarrow> string" where
  "backoff_query target ns =
     ''kube_pod_container_status_waiting_reason'' @
     selector (ns_pod ns target @ [(''reason='', ''CrashLoopBackOff'')]) @ '' == 1''"

definition evicted_since_query :: "string \<Rightarrow> string \<Rightarrow> string \<Rightarrow> string" where
  "evicted_since_query target ns since =
     ''(kube_pod_status_reason'' @ selector (ns_pod ns target @ [(''reason='', ''Evicted'')]) @ '' == 1) '' @
     ''and on(namespace, pod) (kube_pod_deletion_timestamp'' @ selector (ns_pod ns target) @ '' > '' @ since @ '')''"

definition image_pull_query :: "string \<Rightarrow> string" where
  "image_pull_query ns =
     ''kube_pod_container_status_waiting_reason'' @
     selector [(''namespace='', ns), (''pod=~'', ''front-end.*''), (''reason=~'', ''ImagePullBackOff|ErrImagePull'')] @ '' == 1''"

definition not_ready_query :: "string \<Rightarrow> string" where
  "not_ready_query ns =
     ''kube_pod_status_ready'' @
     selector [(''namespace='', ns), (''pod=~'', ''payment.*''), (''condition='', ''false'')] @ '' == 1''"

definition inj_replicas_query :: "string \<Rightarrow> string \<Rightarrow> string" where
  "inj_replicas_query ns deployment =
     ''kube_deployment_status_replicas_available'' @
     selector [(''namespace='', ns), (''deployment='', deployment)]"

definition inj_heap_query :: "string \<Rightarrow> string \<Rightarrow> string" where
  "inj_heap_query target ns = ''min_over_time(heap_used'' @ selector (ns_pod ns target) @ ''[30s])''"

definition oom_sticky_max_age_s :: int where "oom_sticky_max_age_s = 1200"

definition sticky_query :: "string \<Rightarrow> string \<Rightarrow> string" where
  "sticky_query target ns =
     ''kube_pod_container_status_last_terminated_reason'' @
     selector (ns_pod ns target @ [(''reason='', ''OOMKilled'')]) @ '' == 1 '' @
     ''and on(namespace, pod, container) ((time() - container_start_time_seconds'' @
     selector (ns_pod ns target) @ '') < '' @ show_int oom_sticky_max_age_s @ '')''"

text \<open>\<^verbatim>\<open>int(float(v))\<close> and the sum over a result.\<close>

definition py_trunc :: "rat \<Rightarrow> int" where
  "py_trunc q = (if q < 0 then \<lceil>q\<rceil> else \<lfloor>q\<rfloor>)"

definition int_sample :: "rat option \<Rightarrow> int res" where
  "int_sample v = (case v of None \<Rightarrow> Inl ValueError | Some q \<Rightarrow> Inr (py_trunc q))"

fun sum_samples :: "rat option list \<Rightarrow> int res" where
  "sum_samples [] = Inr 0"
| "sum_samples (v # vs) = try_res (int_sample v) (\<lambda>a. try_res (sum_samples vs) (\<lambda>b. Inr (a + b)))"

definition res_of :: "'a res \<Rightarrow> ('w, 'a) step" where
  "res_of r w = (r, w)"

definition count_query :: "'w inj_env \<Rightarrow> string \<Rightarrow> ('w, int) step" where
  "count_query E q = then_step (ij_query E q) (\<lambda>vs. res_of (sum_samples vs))"

definition any_query :: "'w inj_env \<Rightarrow> string \<Rightarrow> ('w, bool) step" where
  "any_query E q = map_step (\<lambda>vs. vs \<noteq> []) (ij_query E q)"

definition inj_restart_count :: "'w inj_env \<Rightarrow> string \<Rightarrow> string \<Rightarrow> ('w, int) step" where
  "inj_restart_count E target ns = count_query E (restarts_query target ns)"

definition cfs_throttled_periods :: "'w inj_env \<Rightarrow> string \<Rightarrow> string \<Rightarrow> string \<Rightarrow> ('w, int) step" where
  "cfs_throttled_periods E target ns container = count_query E (throttled_query target ns container)"

definition cfs_throttled_periods_for_pod :: "'w inj_env \<Rightarrow> string \<Rightarrow> string \<Rightarrow> string \<Rightarrow> ('w, int) step" where
  "cfs_throttled_periods_for_pod E pod ns container = count_query E (throttled_pod_query pod ns container)"

definition inj_crash_loop_backoff_now :: "'w inj_env \<Rightarrow> string \<Rightarrow> string \<Rightarrow> ('w, bool) step" where
  "inj_crash_loop_backoff_now E target ns = any_query E (backoff_query target ns)"

definition pod_evicted_since :: "'w inj_env \<Rightarrow> string \<Rightarrow> string \<Rightarrow> int \<Rightarrow> ('w, bool) step" where
  "pod_evicted_since E target ns since = any_query E (evicted_since_query target ns (ij_timestamp E since))"

definition front_end_image_pull_failing :: "'w inj_env \<Rightarrow> string \<Rightarrow> ('w, bool) step" where
  "front_end_image_pull_failing E ns = any_query E (image_pull_query ns)"

definition payment_stuck_not_ready :: "'w inj_env \<Rightarrow> string \<Rightarrow> ('w, bool) step" where
  "payment_stuck_not_ready E ns = any_query E (not_ready_query ns)"

definition replicas_available :: "'w inj_env \<Rightarrow> string \<Rightarrow> string \<Rightarrow> ('w, int option) step" where
  "replicas_available E ns deployment =
     then_step (ij_query E (inj_replicas_query ns deployment)) (\<lambda>vs.
       case vs of [] \<Rightarrow> ret_step None | v # _ \<Rightarrow> res_of (try_res (int_sample v) (\<lambda>n. Inr (Some n))))"

section \<open>Waiting for an effect\<close>

text \<open>\<^verbatim>\<open>while elapsed <= limit\<close>: ask, sleep five seconds, ask again.\<close>

function poll_effect :: "'w inj_env \<Rightarrow> ('w, bool) step \<Rightarrow> int \<Rightarrow> int \<Rightarrow> ('w, bool) step" where
  "poll_effect E seen limit elapsed w =
     (if limit < elapsed then (Inr False, w)
      else case seen w of
        (Inl e, w1) \<Rightarrow> (Inl e, w1)
      | (Inr True, w1) \<Rightarrow> (Inr True, w1)
      | (Inr False, w1) \<Rightarrow>
          poll_effect E seen limit (elapsed + effect_verify_poll_s) (ij_sleep E (seconds_us effect_verify_poll_s) w1))"
  by pat_completeness auto
termination
  by (relation "measure (\<lambda>(E, seen, limit, elapsed, w). nat (limit + 1 - elapsed))")
    (auto simp: effect_verify_poll_s_def)

declare poll_effect.simps [simp del]

definition verify_effect :: "'w inj_env \<Rightarrow> ('w, bool) step \<Rightarrow> ('w, bool) step" where
  "verify_effect E seen = poll_effect E seen effect_verify_timeout_s 0"

definition more_restarts :: "'w inj_env \<Rightarrow> string \<Rightarrow> string \<Rightarrow> int \<Rightarrow> ('w, bool) step" where
  "more_restarts E target ns baseline = map_step (\<lambda>n. baseline < n) (inj_restart_count E target ns)"

definition crash_loop_seen :: "'w inj_env \<Rightarrow> string \<Rightarrow> string \<Rightarrow> int \<Rightarrow> ('w, bool) step" where
  "crash_loop_seen E target ns baseline =
     then_step (more_restarts E target ns baseline) (\<lambda>more.
       if more then ret_step True else inj_crash_loop_backoff_now E target ns)"

definition verify_crash_loop_effect :: "'w inj_env \<Rightarrow> string \<Rightarrow> string \<Rightarrow> int \<Rightarrow> ('w, bool) step" where
  "verify_crash_loop_effect E target ns baseline = verify_effect E (crash_loop_seen E target ns baseline)"

definition verify_restart_effect :: "'w inj_env \<Rightarrow> string \<Rightarrow> string \<Rightarrow> int \<Rightarrow> ('w, bool) step" where
  "verify_restart_effect E target ns baseline = verify_effect E (more_restarts E target ns baseline)"

definition disk_full_seen :: "'w inj_env \<Rightarrow> string \<Rightarrow> string \<Rightarrow> int \<Rightarrow> string option \<Rightarrow> ('w, bool) step" where
  "disk_full_seen E target ns since baseline_pod =
     then_step (pod_evicted_since E target ns since) (\<lambda>evicted.
       if evicted then ret_step True
       else map_step (\<lambda>pod. pod \<noteq> None \<and> pod \<noteq> baseline_pod) (current_pod_name E target ns))"

definition verify_disk_full_effect :: "'w inj_env \<Rightarrow> string \<Rightarrow> string \<Rightarrow> int \<Rightarrow> string option \<Rightarrow> ('w, bool) step" where
  "verify_disk_full_effect E target ns since baseline_pod =
     verify_effect E (disk_full_seen E target ns since baseline_pod)"

definition verify_bad_rollout_effect :: "'w inj_env \<Rightarrow> string \<Rightarrow> ('w, bool) step" where
  "verify_bad_rollout_effect E ns = verify_effect E (front_end_image_pull_failing E ns)"

definition verify_init_failure_effect :: "'w inj_env \<Rightarrow> string \<Rightarrow> ('w, bool) step" where
  "verify_init_failure_effect E ns = verify_effect E (payment_stuck_not_ready E ns)"

definition cpu_throttle_min_periods_increase :: int where "cpu_throttle_min_periods_increase = 50"

definition verify_cpu_throttle_effect :: "'w inj_env \<Rightarrow> string \<Rightarrow> string \<Rightarrow> string \<Rightarrow> int \<Rightarrow> ('w, bool) step" where
  "verify_cpu_throttle_effect E target ns container baseline =
     verify_effect E (map_step (\<lambda>n. cpu_throttle_min_periods_increase \<le> n - baseline)
       (cfs_throttled_periods E target ns container))"

definition verify_cpu_throttle_effect_for_pod :: "'w inj_env \<Rightarrow> string \<Rightarrow> string \<Rightarrow> string \<Rightarrow> int \<Rightarrow> ('w, bool) step" where
  "verify_cpu_throttle_effect_for_pod E pod ns container baseline =
     verify_effect E (map_step (\<lambda>n. cpu_throttle_min_periods_increase \<le> n - baseline)
       (cfs_throttled_periods_for_pod E pod ns container))"

definition wait_for_replicas_available :: "'w inj_env \<Rightarrow> string \<Rightarrow> string \<Rightarrow> int \<Rightarrow> int \<Rightarrow> ('w, bool) step" where
  "wait_for_replicas_available E ns deployment target timeout =
     poll_effect E (map_step (\<lambda>n. n = Some target) (replicas_available E ns deployment)) timeout 0"

text \<open>\<^verbatim>\<open>_interruptible_sleep\<close>: whether the stop file cut it short.\<close>

function interruptible_sleep :: "'w inj_env \<Rightarrow> int \<Rightarrow> string option \<Rightarrow> 'w \<Rightarrow> bool \<times> 'w" where
  "interruptible_sleep E rest stop_file w =
     (if rest \<le> 0 then (False, w)
      else if stop_asked E stop_file w then (True, w)
      else let tick = min (seconds_us 5) rest in interruptible_sleep E (rest - tick) stop_file (ij_sleep E tick w))"
  by pat_completeness auto
termination by (relation "measure (\<lambda>(E, rest, f, w). nat rest)") (auto simp: seconds_us_def)

declare interruptible_sleep.simps [simp del]

definition hold_rest :: "'w inj_env \<Rightarrow> int \<Rightarrow> string option \<Rightarrow> ('w, unit) step" where
  "hold_rest E rest stop_file w = (Inr (), snd (interruptible_sleep E rest stop_file w))"

definition write_evidence_file_once :: "'w inj_env \<Rightarrow> string option \<Rightarrow> ('w, unit) step" where
  "write_evidence_file_once E evidence = (case evidence of None \<Rightarrow> ret_step () | Some f \<Rightarrow> ij_write E f)"

section \<open>Chaos resources\<close>

definition unlines :: "string list \<Rightarrow> string" where
  "unlines ls = concat (List.map (\<lambda>l. l @ [newline]) ls)"

text \<open>A manifest starts with an empty line.\<close>

definition stress_head :: "string \<Rightarrow> inject_cfg \<Rightarrow> string list" where
  "stress_head name cfg =
     [[], ''apiVersion: chaos-mesh.org/v1alpha1'', ''kind: StressChaos'', ''metadata:'', ''  name: '' @ name,
      ''  namespace: chaos-mesh'', ''spec:'', ''  mode: one'', ''  containerNames:'', ''    - '' @ ic_container cfg,
      ''  selector:'', ''    namespaces:'', ''      - '' @ cfg_namespace cfg, ''    labelSelectors:'',
      ''      name: '' @ cfg_target cfg, ''  stressors:'']"

definition oom_stress_size :: string where "oom_stress_size = ''250M''"

definition build_oom_manifest :: "string \<Rightarrow> inject_cfg \<Rightarrow> string" where
  "build_oom_manifest name cfg =
     unlines (stress_head name cfg @
       [''    memory:'', ''      workers: 1'', dq (''      size: ~'' @ oom_stress_size @ ''~''), ''      oomScoreAdj: -1000''])"

definition cpu_throttle_stress_workers :: int where "cpu_throttle_stress_workers = 6"
definition cpu_throttle_stress_load :: int where "cpu_throttle_stress_load = 100"

definition build_cpu_throttle_manifest :: "string \<Rightarrow> inject_cfg \<Rightarrow> int option \<Rightarrow> string" where
  "build_cpu_throttle_manifest name cfg workers =
     unlines (stress_head name cfg @
       [''    cpu:'',
        ''      workers: '' @ show_int (case workers of None \<Rightarrow> cpu_throttle_stress_workers | Some n \<Rightarrow> n),
        ''      load: '' @ show_int cpu_throttle_stress_load])"

definition network_head :: "string \<Rightarrow> string \<Rightarrow> inject_cfg \<Rightarrow> string list" where
  "network_head name action cfg =
     [[], ''apiVersion: chaos-mesh.org/v1alpha1'', ''kind: NetworkChaos'', ''metadata:'', ''  name: '' @ name,
      ''  namespace: chaos-mesh'', ''spec:'', ''  action: '' @ action, ''  mode: one'', ''  selector:'', ''    namespaces:'',
      ''      - '' @ cfg_namespace cfg, ''    labelSelectors:'', ''      name: '' @ cfg_target cfg]"

definition network_tail :: "inject_cfg \<Rightarrow> string list" where
  "network_tail cfg = [''  direction: to'', dq (''  duration: ~'' @ show_int (ic_duration cfg) @ ''s~'')]"

definition network_latency_delay :: string where "network_latency_delay = ''3000ms''"
definition network_latency_jitter :: string where "network_latency_jitter = ''50ms''"

definition build_network_latency_manifest :: "string \<Rightarrow> inject_cfg \<Rightarrow> string" where
  "build_network_latency_manifest name cfg =
     unlines (network_head name ''delay'' cfg @
       [''  target:'', ''    mode: one'', ''    selector:'', ''      namespaces:'', ''        - '' @ cfg_namespace cfg,
        ''      labelSelectors:'', ''        name: front-end'', ''  delay:'',
        dq (''    latency: ~'' @ network_latency_delay @ ''~''), dq (''    jitter: ~'' @ network_latency_jitter @ ''~''),
        dq ''    correlation: ~25~''] @ network_tail cfg)"

definition build_network_partition_manifest :: "string \<Rightarrow> inject_cfg \<Rightarrow> string" where
  "build_network_partition_manifest name cfg = unlines (network_head name ''partition'' cfg @ network_tail cfg)"

definition apply_manifest :: "'w inj_env \<Rightarrow> string \<Rightarrow> ('w, unit) step" where
  "apply_manifest E manifest =
     then_step (ij_run E [''apply'', ''-f'', ''-''] (Some manifest) None) (\<lambda>p.
       if pc_code p \<noteq> 0 then res_of (Inl RuntimeError) else ret_step ())"

text \<open>A deletion that fails is only printed.\<close>

definition delete_chaos_resource :: "'w inj_env \<Rightarrow> string \<Rightarrow> string \<Rightarrow> ('w, unit) step" where
  "delete_chaos_resource E kind name = kube_do E [''delete'', kind, name, ''-n'', ''chaos-mesh'']"

section \<open>Probes\<close>

definition latency_probe_samples :: nat where "latency_probe_samples = 2"
definition front_end_exec_timeout_s :: int where "front_end_exec_timeout_s = 10"

definition orders_health :: "string \<Rightarrow> string" where
  "orders_health ns = ''http://orders.'' @ ns @ ''.svc.cluster.local/health''"

text \<open>\<^verbatim>\<open>(time.monotonic() - start) * 1000\<close>.\<close>

definition ms_since :: "'w inj_env \<Rightarrow> 'w \<Rightarrow> 'w \<Rightarrow> rat" where
  "ms_since E w w' = fmul (py_float (ij_monotonic E w' - ij_monotonic E w)) 1000"

fun latency_samples :: "'w inj_env \<Rightarrow> string list \<Rightarrow> nat \<Rightarrow> ('w, rat list) step" where
  "latency_samples E args 0 w = (Inr [], w)"
| "latency_samples E args (Suc n) w =
     (case ij_run E args None (Some (front_end_exec_timeout_s + 5)) w of
        (Inl e, w1) \<Rightarrow> if e = TimeoutExpired then latency_samples E args n w1 else (Inl e, w1)
      | (Inr p, w1) \<Rightarrow>
          map_step (\<lambda>ms. if pc_code p = 0 then ms_since E w w1 # ms else ms) (latency_samples E args n) w1)"

definition probe_orders_latency_ms :: "'w inj_env \<Rightarrow> string \<Rightarrow> ('w, rat option) step" where
  "probe_orders_latency_ms E ns =
     then_step (current_pod_name E ''front-end'' ns) (\<lambda>pod.
       case pod of None \<Rightarrow> ret_step None
       | Some p \<Rightarrow>
           map_step (\<lambda>ms. if ms = [] then None else Some (Max (set ms)))
             (latency_samples E [''exec'', ''--request-timeout='' @ show_int front_end_exec_timeout_s @ ''s'', ''-n'', ns, p, ''--'',
                ''wget'', ''-q'', ''-O'', ''/dev/null'', ''-T'', ''5'', orders_health ns] latency_probe_samples))"

definition connectivity_attempts :: nat where "connectivity_attempts = 5"
definition connectivity_timeout_s :: int where "connectivity_timeout_s = 15"

text \<open>The five attempts run in a thread each; here they follow each other. No exception leaves an
  attempt.\<close>

definition one_attempt :: "'w inj_env \<Rightarrow> string list \<Rightarrow> ('w, bool \<times> rat) step" where
  "one_attempt E args w =
     (case ij_run E args None (Some (connectivity_timeout_s + 5)) w of
        (Inl e, w1) \<Rightarrow> if is_exception e then (Inr (False, ms_since E w w1), w1) else (Inl e, w1)
      | (Inr p, w1) \<Rightarrow> (Inr (pc_code p = 0, ms_since E w w1), w1))"

fun all_attempts :: "nat \<Rightarrow> ('w, 'a) step \<Rightarrow> ('w, 'a list) step" where
  "all_attempts 0 m = ret_step []"
| "all_attempts (Suc n) m = then_step m (\<lambda>x. map_step (Cons x) (all_attempts n m))"

definition probe_frontend_connectivity :: "'w inj_env \<Rightarrow> string \<Rightarrow> ('w, (int \<times> int \<times> int) option) step" where
  "probe_frontend_connectivity E ns =
     then_step (current_pod_name E ''front-end'' ns) (\<lambda>pod.
       case pod of None \<Rightarrow> ret_step None
       | Some p \<Rightarrow>
           map_step (\<lambda>xs. if xs = [] then None
                          else Some (int (length xs), int (length (filter (\<lambda>(ok, ms). \<not> ok) xs)),
                                     round_half_even (Max (snd ` set xs))))
             (all_attempts connectivity_attempts
                (one_attempt E [''exec'', ''--request-timeout='' @ show_int connectivity_timeout_s @ ''s'', ''-n'', ns, p, ''--'',
                   ''wget'', ''-q'', ''-O'', ''/dev/null'', ''-T'', show_int connectivity_timeout_s, orders_health ns])))"

end
