(* ===== verification/Injector_Baselines.thy ===== *)
theory Injector_Baselines
  imports Injector_Effects
begin

text \<open>
  \<^verbatim>\<open>injector.py\<close>: what each class does to find its target at its documented baseline before it
  injects, and the leak agent in the shipping pod.
\<close>

section \<open>Deployments\<close>

definition oom_baseline_rollout_strategy :: string where
  "oom_baseline_rollout_strategy = dq ''{~maxSurge~:~25%~,~maxUnavailable~:~25%~}''"

definition oom_baseline_memory_request :: string where "oom_baseline_memory_request = ''100Mi''"

definition memory_patch :: "string \<Rightarrow> string \<Rightarrow> string \<Rightarrow> string" where
  "memory_patch container limit request =
     template_patch container
       (dq ''~resources~:{~limits~:{~memory~:~'' @ limit @ dq ''~},~requests~:{~memory~:~'' @ request @ dq ''~}}'')"

definition restore_surge :: "'w inj_env \<Rightarrow> inject_cfg \<Rightarrow> ('w, unit) step" where
  "restore_surge E cfg =
     then_step (deployment_field E (cfg_target cfg) (cfg_namespace cfg) ''{.spec.strategy.rollingUpdate.maxSurge}'') (\<lambda>surge.
       if surge = ''0''
       then patch_template E (cfg_target cfg) (cfg_namespace cfg)
              (dq ''{~spec~:{~strategy~:{~rollingUpdate~:'' @ oom_baseline_rollout_strategy @ ''}}}'')
       else ret_step ())"

definition limits_path :: string where
  "limits_path = ''{.spec.template.spec.containers[0].resources.limits.memory}''"

definition requests_path :: string where
  "requests_path = ''{.spec.template.spec.containers[0].resources.requests.memory}''"

definition ensure_oom_baseline :: "'w inj_env \<Rightarrow> inject_cfg \<Rightarrow> ('w, unit) step" where
  "ensure_oom_baseline E cfg =
     (let target = cfg_target cfg; ns = cfg_namespace cfg in
      then_step (restore_surge E cfg) (\<lambda>_.
      then_step (deployment_field E target ns limits_path) (\<lambda>limit.
      then_step (deployment_field E target ns requests_path) (\<lambda>request.
        if limit = oom_baseline_memory_limit \<and> request = oom_baseline_memory_request then ret_step ()
        else then_step (patch_template E target ns
                          (memory_patch (ic_container cfg) oom_baseline_memory_limit oom_baseline_memory_request)) (\<lambda>_.
             wait_rollout E target ns ''300s'')))))"

text \<open>A query that fails never blocks the batch.\<close>

definition clear_stale_oom_sticky_flag :: "'w inj_env \<Rightarrow> inject_cfg \<Rightarrow> ('w, unit) step" where
  "clear_stale_oom_sticky_flag E cfg =
     (let target = cfg_target cfg; ns = cfg_namespace cfg in
      then_step (except_step (\<lambda>e. e = HTTPError) (any_query E (sticky_query target ns)) (ret_step False)) (\<lambda>sticky.
        if \<not> sticky then ret_step ()
        else then_step (kube_do E [''rollout'', ''restart'', ''deployment/'' @ target, ''-n'', ns]) (\<lambda>_.
             wait_rollout E target ns ''300s'')))"

definition delete_all :: "'w inj_env \<Rightarrow> string \<Rightarrow> string list \<Rightarrow> ('w, unit) step" where
  "delete_all E ns pods =
     foldr (\<lambda>p rest. then_step (kube_do E [''delete'', ''pod'', p, ''-n'', ns, ''--ignore-not-found'']) (\<lambda>_. rest)) pods (ret_step ())"

lemma dropWhile_shorter: "dropWhile is_space s \<noteq> [] \<Longrightarrow>
  length (dropWhile (\<lambda>c. \<not> is_space c) (dropWhile is_space s)) < length s"
proof -
  assume ne: "dropWhile is_space s \<noteq> []"
  then obtain c cs where c: "dropWhile is_space s = c # cs" by (cases "dropWhile is_space s") auto
  then have "\<not> is_space c" using hd_dropWhile[of is_space s] by simp
  then have "length (dropWhile (\<lambda>c. \<not> is_space c) (c # cs)) < length (c # cs)"
    by (simp add: length_dropWhile_le le_imp_less_Suc)
  also have "\<dots> \<le> length s" using length_dropWhile_le[of is_space s] c by simp
  finally show ?thesis using c by simp
qed

text \<open>\<^verbatim>\<open>s.split()\<close>.\<close>

function py_words :: "string \<Rightarrow> string list" where
  "py_words s =
     (let t = dropWhile is_space s in
      if t = [] then [] else takeWhile (\<lambda>c. \<not> is_space c) t # py_words (dropWhile (\<lambda>c. \<not> is_space c) t))"
  by pat_completeness auto
termination by (relation "measure length") (simp_all add: dropWhile_shorter)

declare py_words.simps [simp del]

definition ensure_queue_master_pod_cleanup :: "'w inj_env \<Rightarrow> inject_cfg \<Rightarrow> ('w, unit) step" where
  "ensure_queue_master_pod_cleanup E cfg =
     then_step (map_step (\<lambda>p. py_words (pc_out p))
       (kube_run E [''get'', ''pods'', ''-n'', cfg_namespace cfg, ''-l'', selector_of (cfg_target cfg),
          ''-o'', ''jsonpath={.items[*].metadata.name}''])) (\<lambda>all_pods.
     then_step (current_pod_name E (cfg_target cfg) (cfg_namespace cfg)) (\<lambda>running.
       delete_all E (cfg_namespace cfg) (filter (\<lambda>p. Some p \<noteq> running) all_pods)))"

text \<open>The namespace and the Service of the carts pair are written out in the code.\<close>

definition carts_pod_ready :: "'w inj_env \<Rightarrow> ('w, bool) step" where
  "carts_pod_ready E =
     map_step (\<lambda>t. t = ''true'')
       (kube_text E [''get'', ''pods'', ''-n'', ''sock-shop'', ''-l'', ''name=carts'', ''--field-selector=status.phase=Running'',
          ''-o'', dq ''jsonpath={.items[0].status.containerStatuses[?(@.name==~carts~)].ready}''])"

definition carts_selector :: "'w inj_env \<Rightarrow> ('w, string) step" where
  "carts_selector E =
     kube_text E [''get'', ''service'', ''carts'', ''-n'', ''sock-shop'', ''-o'', ''jsonpath={.spec.selector.name}'']"

definition ensure_crash_loop_baseline :: "'w inj_env \<Rightarrow> ('w, bool) step" where
  "ensure_crash_loop_baseline E =
     then_step (carts_selector E) (\<lambda>active.
       if active = ''carts'' then carts_pod_ready E
       else then_step (carts_pod_ready E) (\<lambda>ready.
              if \<not> ready then ret_step False
              else then_step (kube_run E [''patch'', ''service'', ''carts'', ''-n'', ''sock-shop'', ''-p'',
                                dq ''{~spec~:{~selector~:{~name~:~carts~}}}'']) (\<lambda>p.
                   if pc_code p \<noteq> 0 then ret_step False else carts_pod_ready E)))"

definition cpu_throttle_baseline_cpu_limit :: string where "cpu_throttle_baseline_cpu_limit = ''300m''"

text \<open>The resources of the running pod with the limit put back; \<open>None\<close> when the text is no JSON.\<close>

definition resized :: "'w inj_env \<Rightarrow> string \<Rightarrow> pydict option res" where
  "resized E text =
     (case ij_loads E text of
        Inl _ \<Rightarrow> Inr None
      | Inr (PDict d) \<Rightarrow>
          try_res (set_cpu_limit d (PStr cpu_throttle_baseline_cpu_limit)) (\<lambda>d'. Inr (Some d'))
      | Inr _ \<Rightarrow> Inl AttributeError)"

definition resize_body :: "'w inj_env \<Rightarrow> string \<Rightarrow> pydict \<Rightarrow> string" where
  "resize_body E container resources =
     ij_dumps E (PDict [(''spec'', PDict [(''containers'',
       PList [PDict [(''name'', PStr container), (''resources'', PDict resources)]])])])"

text \<open>The resize in place; whether it worked.\<close>

definition resize_pod :: "'w inj_env \<Rightarrow> inject_cfg \<Rightarrow> string \<Rightarrow> ('w, bool) step" where
  "resize_pod E cfg pod =
     then_step (kube_text E [''get'', ''pod'', pod, ''-n'', cfg_namespace cfg, ''-o'',
       dq ''jsonpath={.spec.containers[?(@.name==~'' @ ic_container cfg @ dq ''~)].resources}'']) (\<lambda>text.
     then_step (res_of (resized E text)) (\<lambda>r.
       case r of None \<Rightarrow> ret_step False
       | Some d \<Rightarrow>
           map_step (\<lambda>p. pc_code p = 0)
             (kube_run E [''patch'', ''pod'', pod, ''-n'', cfg_namespace cfg, ''--subresource'', ''resize'', ''--type=merge'', ''-p'',
                resize_body E (ic_container cfg) d])))"

definition cpu_patch :: "string \<Rightarrow> string" where
  "cpu_patch container =
     template_patch container (dq ''~resources~:{~limits~:{~cpu~:~'' @ cpu_throttle_baseline_cpu_limit @ dq ''~}}'')"

definition ensure_cpu_throttle_baseline :: "'w inj_env \<Rightarrow> inject_cfg \<Rightarrow> ('w, unit) step" where
  "ensure_cpu_throttle_baseline E cfg =
     (let target = cfg_target cfg; ns = cfg_namespace cfg;
          redeploy = then_step (patch_template E target ns (cpu_patch (ic_container cfg))) (\<lambda>_. wait_rollout E target ns ''180s'')
      in then_step (current_pod_name E target ns) (\<lambda>pod.
           case pod of None \<Rightarrow> redeploy
           | Some p \<Rightarrow>
               then_step (kube_text E [''get'', ''pod'', p, ''-n'', ns, ''-o'',
                 dq ''jsonpath={.spec.containers[?(@.name==~'' @ ic_container cfg @ dq ''~)].resources.limits.cpu}'']) (\<lambda>limit.
                 if limit = cpu_throttle_baseline_cpu_limit then ret_step ()
                 else then_step (resize_pod E cfg p) (\<lambda>ok. if ok then ret_step () else redeploy))))"

definition under_provisioned_baseline_replicas :: int where "under_provisioned_baseline_replicas = 1"

definition ensure_catalogue_replica_baseline :: "'w inj_env \<Rightarrow> inject_cfg \<Rightarrow> ('w, unit) step" where
  "ensure_catalogue_replica_baseline E cfg =
     (let target = cfg_target cfg; ns = cfg_namespace cfg in
      then_step (deployment_field E target ns ''{.status.availableReplicas}'') (\<lambda>current.
        if current = show_int under_provisioned_baseline_replicas then ret_step ()
        else then_step (scale_to E target ns under_provisioned_baseline_replicas) (\<lambda>_. wait_rollout E target ns ''90s'')))"

text \<open>The two images of the front end; the environment may name the baseline.\<close>

definition front_end_image_baseline :: "'w inj_env \<Rightarrow> string" where
  "front_end_image_baseline E =
     (case ij_environ E ''FRONT_END_IMAGE_BASELINE'' of
        None \<Rightarrow> ''ghcr.io/aayush8392/front-end:0.3.12-wardence1'' | Some s \<Rightarrow> s)"

definition front_end_image_fault :: "'w inj_env \<Rightarrow> string" where
  "front_end_image_fault E = front_end_image_baseline E @ ''-wardence-badtag''"

definition patch_front_end_image :: "'w inj_env \<Rightarrow> inject_cfg \<Rightarrow> string \<Rightarrow> ('w, unit) step" where
  "patch_front_end_image E cfg img =
     patch_template E (cfg_target cfg) (cfg_namespace cfg)
       (template_patch (ic_container cfg) (dq ''~image~:~'' @ img @ dq ''~''))"

definition ensure_front_end_image_baseline :: "'w inj_env \<Rightarrow> inject_cfg \<Rightarrow> ('w, unit) step" where
  "ensure_front_end_image_baseline E cfg =
     then_step (deployment_field E (cfg_target cfg) (cfg_namespace cfg) ''{.spec.template.spec.containers[0].image}'') (\<lambda>img.
       if img = front_end_image_baseline E then ret_step ()
       else then_step (patch_front_end_image E cfg (front_end_image_baseline E)) (\<lambda>_.
            wait_rollout E (cfg_target cfg) (cfg_namespace cfg) ''90s''))"

definition payment_readiness_path_baseline :: string where "payment_readiness_path_baseline = ''/health''"
definition payment_readiness_path_fault :: string where
  "payment_readiness_path_fault = ''/wardence-fault-nonexistent''"

definition patch_payment_readiness_path :: "'w inj_env \<Rightarrow> inject_cfg \<Rightarrow> string \<Rightarrow> ('w, unit) step" where
  "patch_payment_readiness_path E cfg path =
     patch_template E (cfg_target cfg) (cfg_namespace cfg)
       (template_patch (ic_container cfg) (dq ''~readinessProbe~:{~httpGet~:{~path~:~'' @ path @ dq ''~}}''))"

definition restore_init_failure :: "'w inj_env \<Rightarrow> inject_cfg \<Rightarrow> bool \<Rightarrow> ('w, unit) step" where
  "restore_init_failure E cfg wait =
     then_step (patch_payment_readiness_path E cfg payment_readiness_path_baseline) (\<lambda>_.
       if \<not> wait then ret_step () else wait_rollout E (cfg_target cfg) (cfg_namespace cfg) ''240s'')"

definition ensure_init_failure_baseline :: "'w inj_env \<Rightarrow> inject_cfg \<Rightarrow> ('w, unit) step" where
  "ensure_init_failure_baseline E cfg =
     then_step (deployment_field E (cfg_target cfg) (cfg_namespace cfg)
                  ''{.spec.template.spec.containers[0].readinessProbe.httpGet.path}'') (\<lambda>path.
     then_step (if path \<noteq> payment_readiness_path_baseline
                then patch_payment_readiness_path E cfg payment_readiness_path_baseline else ret_step ()) (\<lambda>_.
       wait_rollout E (cfg_target cfg) (cfg_namespace cfg) ''240s''))"

definition session_failure_scale_timeout_s :: int where "session_failure_scale_timeout_s = 60"

definition scale_deployment_to :: "'w inj_env \<Rightarrow> inject_cfg \<Rightarrow> int \<Rightarrow> ('w, unit) step" where
  "scale_deployment_to E cfg replicas = scale_to E (cfg_target cfg) (cfg_namespace cfg) replicas"

definition await_replicas :: "'w inj_env \<Rightarrow> inject_cfg \<Rightarrow> int \<Rightarrow> ('w, bool) step" where
  "await_replicas E cfg n =
     wait_for_replicas_available E (cfg_namespace cfg) (cfg_target cfg) n session_failure_scale_timeout_s"

definition ensure_session_failure_baseline :: "'w inj_env \<Rightarrow> inject_cfg \<Rightarrow> ('w, unit) step" where
  "ensure_session_failure_baseline E cfg =
     then_step (replicas_available E (cfg_namespace cfg) (cfg_target cfg)) (\<lambda>current.
       if current = Some 1 then ret_step ()
       else then_step (scale_deployment_to E cfg 1) (\<lambda>_. map_step (\<lambda>_. ()) (await_replicas E cfg 1)))"

section \<open>The probes of the user service\<close>

record probe_values =
  pv_period :: int
  pv_timeout :: int
  pv_failures :: int
  pv_delay :: int

definition cpu_throttle_loose_probe :: probe_values where
  "cpu_throttle_loose_probe = \<lparr>pv_period = 10, pv_timeout = 15, pv_failures = 60, pv_delay = 5\<rparr>"

definition cpu_throttle_tight_readiness_probe :: probe_values where
  "cpu_throttle_tight_readiness_probe = \<lparr>pv_period = 3, pv_timeout = 1, pv_failures = 3, pv_delay = 180\<rparr>"

definition cpu_throttle_tight_liveness_probe :: probe_values where
  "cpu_throttle_tight_liveness_probe = \<lparr>pv_period = 3, pv_timeout = 1, pv_failures = 3, pv_delay = 300\<rparr>"

definition probe_dict :: "probe_values \<Rightarrow> pyval" where
  "probe_dict v = PDict [(''periodSeconds'', PInt (pv_period v)), (''timeoutSeconds'', PInt (pv_timeout v)),
     (''failureThreshold'', PInt (pv_failures v)), (''initialDelaySeconds'', PInt (pv_delay v))]"

definition get_user_probe_field :: "'w inj_env \<Rightarrow> inject_cfg \<Rightarrow> string \<Rightarrow> string \<Rightarrow> ('w, string) step" where
  "get_user_probe_field E cfg kind field =
     deployment_field E (cfg_target cfg) (cfg_namespace cfg)
       (dq ''{.spec.template.spec.containers[?(@.name==~'' @ ic_container cfg @ dq ''~)].'' @ kind @ ''.'' @ field @ ''}'')"

definition patch_user_probes :: "'w inj_env \<Rightarrow> inject_cfg \<Rightarrow> probe_values \<Rightarrow> probe_values \<Rightarrow> ('w, unit) step" where
  "patch_user_probes E cfg readiness liveness =
     patch_template E (cfg_target cfg) (cfg_namespace cfg)
       (ij_dumps E (PDict [(''spec'', PDict [(''template'', PDict [(''spec'', PDict [(''containers'',
          PList [PDict [(''name'', PStr (ic_container cfg)), (''readinessProbe'', probe_dict readiness),
                        (''livenessProbe'', probe_dict liveness)]])])])])]))"

definition restore_user_probes :: "'w inj_env \<Rightarrow> inject_cfg \<Rightarrow> ('w, unit) step" where
  "restore_user_probes E cfg =
     patch_user_probes E cfg cpu_throttle_tight_readiness_probe cpu_throttle_tight_liveness_probe"

definition ensure_cpu_throttle_probe_baseline :: "'w inj_env \<Rightarrow> inject_cfg \<Rightarrow> ('w, unit) step" where
  "ensure_cpu_throttle_probe_baseline E cfg =
     then_step (get_user_probe_field E cfg ''readinessProbe'' ''periodSeconds'') (\<lambda>period.
       if period = show_int (pv_period cpu_throttle_tight_readiness_probe) then ret_step ()
       else then_step (restore_user_probes E cfg) (\<lambda>_.
            wait_rollout E (cfg_target cfg) (cfg_namespace cfg) ''240s''))"

text \<open>The two loops of \<^verbatim>\<open>_wait_for_fresh_user_pod\<close>: a new name, then a ready container.\<close>

function await_text :: "'w inj_env \<Rightarrow> string list \<Rightarrow> (string \<Rightarrow> bool) \<Rightarrow> int \<Rightarrow> int \<Rightarrow> ('w, string option) step" where
  "await_text E args wanted limit waited w =
     (if limit \<le> waited then (Inr None, w)
      else case kube_text E args w of
        (Inl e, w1) \<Rightarrow> (Inl e, w1)
      | (Inr t, w1) \<Rightarrow>
          if wanted t then (Inr (Some t), w1)
          else await_text E args wanted limit (waited + 3) (ij_sleep E (seconds_us 3) w1))"
  by pat_completeness auto
termination by (relation "measure (\<lambda>(E, args, wanted, limit, waited, w). nat (limit - waited))") auto

declare await_text.simps [simp del]

definition wait_for_fresh_user_pod :: "'w inj_env \<Rightarrow> inject_cfg \<Rightarrow> string option \<Rightarrow> int \<Rightarrow> ('w, string option) step" where
  "wait_for_fresh_user_pod E cfg old_pod limit =
     then_step (await_text E [''get'', ''pod'', ''-n'', cfg_namespace cfg, ''-l'', selector_of (cfg_target cfg),
        ''--field-selector=status.phase=Running'', ''-o'', ''jsonpath={.items[0].metadata.name}'']
        (\<lambda>t. t \<noteq> [] \<and> Some t \<noteq> old_pod) limit 0) (\<lambda>new_pod.
       case new_pod of None \<Rightarrow> ret_step None
       | Some p \<Rightarrow>
           map_step (\<lambda>r. if r = None then None else Some p)
             (await_text E [''get'', ''pod'', p, ''-n'', cfg_namespace cfg, ''-o'',
                dq ''jsonpath={.status.containerStatuses[?(@.name==~'' @ ic_container cfg @ dq ''~)].ready}'']
                (\<lambda>t. t = ''true'') limit 0))"

definition loosen_user_probes_for_fault :: "'w inj_env \<Rightarrow> inject_cfg \<Rightarrow> ('w, string option) step" where
  "loosen_user_probes_for_fault E cfg =
     then_step (current_pod_name E (cfg_target cfg) (cfg_namespace cfg)) (\<lambda>old_pod.
     then_step (patch_user_probes E cfg cpu_throttle_loose_probe cpu_throttle_loose_probe) (\<lambda>_.
     then_step (rollout_status E (cfg_target cfg) (cfg_namespace cfg) ''240s'') (\<lambda>p.
       if pc_code p \<noteq> 0 then ret_step None else wait_for_fresh_user_pod E cfg old_pod 240)))"

section \<open>The leak agent\<close>

text \<open>\<^verbatim>\<open>s.splitlines()\<close>; a carriage return before a line feed gives one more empty line here, which
  no caller looks at. \<^verbatim>\<open>float(s)\<close> of a plain decimal: the exponent forms and the names of NaN and
  the infinities count as no number.\<close>

fun py_lines :: "string \<Rightarrow> string list" where
  "py_lines [] = []"
| "py_lines (c # cs) =
     (if c = newline \<or> c = CHR 0x0D then [] # py_lines cs
      else case py_lines cs of [] \<Rightarrow> [[c]] | l # ls \<Rightarrow> (c # l) # ls)"

definition read_float :: "string \<Rightarrow> rat res" where
  "read_float s =
     (case py_strip s of
        c # cs \<Rightarrow> if c = CHR ''-'' then try_res (float_of_digits cs) (\<lambda>q. Inr (- q)) else float_of_digits (c # cs)
      | [] \<Rightarrow> Inl ValueError)"

definition leak_agent_send_cmd :: "'w inj_env \<Rightarrow> string \<Rightarrow> string \<Rightarrow> string \<Rightarrow> string \<Rightarrow> ('w, bool) step" where
  "leak_agent_send_cmd E pod ns container cmd =
     map_step (\<lambda>p. pc_code p = 0)
       (kube_run E (exec_sh ns pod container
          (''printf '' @ [CHR 0x27] @ ''%s'' @ [CHR 0x5C] @ ''n'' @ [CHR 0x27, CHR '' '', CHR 0x27] @ cmd @ [CHR 0x27] @
           '' > /agent-ctl/cmd.tmp && mv /agent-ctl/cmd.tmp /agent-ctl/cmd'')))"

definition status_fields :: "string \<Rightarrow> (string \<times> string) list" where
  "status_fields out =
     fold (\<lambda>l d. if CHR ''='' \<in> set l
                 then AList.update (takeWhile (\<lambda>c. c \<noteq> CHR ''='') l) (drop 1 (dropWhile (\<lambda>c. c \<noteq> CHR ''='') l)) d
                 else d) (py_lines out) []"

type_synonym agent_status = "(string \<times> string) list"

definition leak_agent_read_status :: "'w inj_env \<Rightarrow> string \<Rightarrow> string \<Rightarrow> string \<Rightarrow> ('w, agent_status option) step" where
  "leak_agent_read_status E pod ns container =
     map_step (\<lambda>p. if pc_code p \<noteq> 0 \<or> py_strip (pc_out p) = [] \<or> status_fields (pc_out p) = [] then None
                   else Some (status_fields (pc_out p)))
       (kube_run E (exec_sh ns pod container ''cat /agent-ctl/status 2>/dev/null''))"

definition agent_clean :: "agent_status \<Rightarrow> bool" where
  "agent_clean s \<longleftrightarrow> map_of s ''state'' \<in> {Some ''IDLE'', Some ''READY''} \<and>
     map_of s ''allocated_mb'' \<in> {None, Some ''0''} \<and> map_of s ''graph_slots'' \<in> {None, Some ''0''}"

text \<open>\<^verbatim>\<open>float(status.get("post_gc_heap_mib") or -1)\<close>, -1 when it is no number.\<close>

definition post_gc_mib :: "agent_status \<Rightarrow> rat" where
  "post_gc_mib s =
     (case map_of s ''post_gc_heap_mib'' of
        None \<Rightarrow> - 1
      | Some t \<Rightarrow> if t = [] then - 1 else (case read_float t of Inl _ \<Rightarrow> - 1 | Inr q \<Rightarrow> q))"

definition memory_leak_clean_floor_warn_mib :: rat where "memory_leak_clean_floor_warn_mib = 60"

fun await_clean :: "'w inj_env \<Rightarrow> string \<Rightarrow> inject_cfg \<Rightarrow> nat \<Rightarrow> ('w, bool) step" where
  "await_clean E pod cfg 0 = ret_step False"
| "await_clean E pod cfg (Suc n) =
     then_step (ij_nap E (seconds_us 1)) (\<lambda>_.
     then_step (leak_agent_read_status E pod (cfg_namespace cfg) (ic_container cfg)) (\<lambda>s.
       if (case s of None \<Rightarrow> False | Some st \<Rightarrow> agent_clean st) then ret_step True else await_clean E pod cfg n))"

definition drained :: "agent_status \<Rightarrow> bool" where
  "drained s \<longleftrightarrow> post_gc_mib s < 0 \<or> post_gc_mib s \<le> memory_leak_clean_floor_warn_mib"

fun await_drained :: "'w inj_env \<Rightarrow> string \<Rightarrow> inject_cfg \<Rightarrow> nat \<Rightarrow> ('w, unit) step" where
  "await_drained E pod cfg 0 = ret_step ()"
| "await_drained E pod cfg (Suc n) =
     then_step (leak_agent_read_status E pod (cfg_namespace cfg) (ic_container cfg)) (\<lambda>s.
       if (case s of None \<Rightarrow> False | Some st \<Rightarrow> drained st) then ret_step ()
       else then_step (ij_nap E (seconds_us 1)) (\<lambda>_. await_drained E pod cfg n))"

definition ensure_memory_leak_baseline :: "'w inj_env \<Rightarrow> inject_cfg \<Rightarrow> ('w, unit) step" where
  "ensure_memory_leak_baseline E cfg =
     then_step (current_pod_name E (cfg_target cfg) (cfg_namespace cfg)) (\<lambda>pod.
       case pod of None \<Rightarrow> ret_step ()
       | Some p \<Rightarrow>
           then_step (leak_agent_read_status E p (cfg_namespace cfg) (ic_container cfg)) (\<lambda>status.
             case status of None \<Rightarrow> ret_step ()
             | Some s \<Rightarrow>
                 if agent_clean s \<and> drained s then ret_step ()
                 else then_step (leak_agent_send_cmd E p (cfg_namespace cfg) (ic_container cfg) ''RELEASE'') (\<lambda>_.
                      then_step (await_clean E p cfg 10) (\<lambda>clean.
                        if clean then await_drained E p cfg 10 else ret_step ()))))"

end
