(* ===== verification/Injector_Store.thy ===== *)
theory Injector_Store
  imports Injector_Base
begin

text \<open>
  \<^verbatim>\<open>injector.py\<close> and the database: the rows of \<^verbatim>\<open>episodes\<close> and the lock that keeps two runs of the
  injector apart. A function on the tables is one transaction of one process.
\<close>

section \<open>Episodes\<close>

text \<open>\<^verbatim>\<open>INSERT ... ON CONFLICT(episode_id) DO UPDATE\<close>.\<close>

definition upsert_episode ::
    "string \<Rightarrow> episode_entry \<Rightarrow> (episode_entry \<Rightarrow> episode_entry) \<Rightarrow> inj_db \<Rightarrow> inj_db" where
  "upsert_episode ep fresh change d =
     (case map_of (ib_episodes d) ep of
        None \<Rightarrow> d\<lparr>ib_episodes := ib_episodes d @ [(ep, fresh)]\<rparr>
      | Some e \<Rightarrow> d\<lparr>ib_episodes := AList.update ep (change e) (ib_episodes d)\<rparr>)"

definition pending_entry :: "string \<Rightarrow> inject_cfg \<Rightarrow> string \<Rightarrow> string \<Rightarrow> episode_entry" where
  "pending_entry cls cfg t0 chaos =
     \<lparr>ee_class = cls, ee_target = cfg_target cfg, ee_namespace = cfg_namespace cfg, ee_t0 = t0, ee_chaos = chaos,
      ee_heap_kb = None, ee_probe = None\<rparr>"

definition put_episode :: "string \<Rightarrow> string \<Rightarrow> inject_cfg \<Rightarrow> string \<Rightarrow> string \<Rightarrow> inj_db \<Rightarrow> inj_db" where
  "put_episode ep cls cfg chaos t0 =
     upsert_episode ep (pending_entry cls cfg t0 chaos)
       (\<lambda>e. e\<lparr>ee_class := cls, ee_target := cfg_target cfg, ee_namespace := cfg_namespace cfg, ee_t0 := t0, ee_chaos := chaos\<rparr>)"

definition record_episode ::
    "'w inj_env \<Rightarrow> string \<Rightarrow> string \<Rightarrow> inject_cfg \<Rightarrow> string \<Rightarrow> string \<Rightarrow> ('w, unit) step" where
  "record_episode E ep cls cfg chaos t0 = map_step (\<lambda>_. ()) (ij_sql E (put_episode ep cls cfg chaos t0))"

definition put_probe ::
    "string \<Rightarrow> string \<Rightarrow> inject_cfg \<Rightarrow> string \<Rightarrow> int \<times> int \<times> int \<Rightarrow> inj_db \<Rightarrow> inj_db" where
  "put_probe ep cls cfg t0 probe =
     upsert_episode ep (pending_entry cls cfg t0 ''pending''\<lparr>ee_probe := Some probe\<rparr>) (\<lambda>e. e\<lparr>ee_probe := Some probe\<rparr>)"

definition persist_network_probe ::
    "'w inj_env \<Rightarrow> string \<Rightarrow> string \<Rightarrow> inject_cfg \<Rightarrow> string \<Rightarrow> (int \<times> int \<times> int) option \<Rightarrow> ('w, unit) step" where
  "persist_network_probe E ep cls cfg t0 probe =
     (case probe of None \<Rightarrow> ret_step ()
      | Some p \<Rightarrow> map_step (\<lambda>_. ()) (ij_sql E (put_probe ep cls cfg t0 p)))"

definition put_heap ::
    "string \<Rightarrow> string \<Rightarrow> inject_cfg \<Rightarrow> string \<Rightarrow> rat option \<Rightarrow> inj_db \<Rightarrow> inj_db" where
  "put_heap ep cls cfg t0 kb =
     upsert_episode ep (pending_entry cls cfg t0 ''pending''\<lparr>ee_heap_kb := kb\<rparr>) (\<lambda>e. e\<lparr>ee_heap_kb := kb\<rparr>)"

section \<open>The system lock\<close>

definition system_lock_stale_s :: int where "system_lock_stale_s = 600"
definition system_lock_retry_s :: int where "system_lock_retry_s = 5"
definition system_lock_max_wait_s :: int where "system_lock_max_wait_s = 30"

text \<open>A comparison with the NULL of \<open>acquired_at\<close> is not true.\<close>

definition lock_is_open :: "int \<Rightarrow> inj_db \<Rightarrow> bool" where
  "lock_is_open now d \<longleftrightarrow> ib_holder d = None \<or>
     (case ib_acquired d of None \<Rightarrow> False | Some t \<Rightarrow> t < now - seconds_us system_lock_stale_s)"

definition take_lock :: "string \<Rightarrow> int \<Rightarrow> inj_db \<Rightarrow> inj_db" where
  "take_lock holder now d = (if lock_is_open now d then d\<lparr>ib_holder := Some holder, ib_acquired := Some now\<rparr> else d)"

definition acquire_system_lock :: "'w inj_env \<Rightarrow> string \<Rightarrow> ('w, bool) step" where
  "acquire_system_lock E holder w =
     map_step (lock_is_open (ij_time E w)) (ij_sql E (take_lock holder (ij_time E w))) w"

definition drop_lock :: "string \<Rightarrow> inj_db \<Rightarrow> inj_db" where
  "drop_lock holder d = (if ib_holder d = Some holder then d\<lparr>ib_holder := None, ib_acquired := None\<rparr> else d)"

definition release_system_lock :: "'w inj_env \<Rightarrow> string \<Rightarrow> ('w, unit) step" where
  "release_system_lock E holder = map_step (\<lambda>_. ()) (ij_sql E (drop_lock holder))"

text \<open>\<^verbatim>\<open>acquire_system_lock_or_die\<close>: every five seconds, for half a minute.\<close>

function acquire_from :: "'w inj_env \<Rightarrow> string \<Rightarrow> int \<Rightarrow> ('w, unit) step" where
  "acquire_from E holder waited w =
     (case acquire_system_lock E holder w of
        (Inl e, w1) \<Rightarrow> (Inl e, w1)
      | (Inr True, w1) \<Rightarrow> (Inr (), w1)
      | (Inr False, w1) \<Rightarrow>
          if system_lock_max_wait_s \<le> waited then (Inl (SystemExit 1), w1)
          else acquire_from E holder (waited + system_lock_retry_s) (ij_sleep E (seconds_us system_lock_retry_s) w1))"
  by pat_completeness auto
termination
  by (relation "measure (\<lambda>(E, holder, waited, w). nat (system_lock_max_wait_s - waited))")
    (auto simp: system_lock_retry_s_def)

declare acquire_from.simps [simp del]

definition acquire_system_lock_or_die :: "'w inj_env \<Rightarrow> string \<Rightarrow> ('w, unit) step" where
  "acquire_system_lock_or_die E holder = acquire_from E holder 0"

end
