(* ===== verification/Injector_Faults.thy ===== *)
theory Injector_Faults
  imports Injector_Baselines Injector_Store
begin

text \<open>
  \<^verbatim>\<open>injector.py\<close>: the injections, each with its loop over the attempts, its hold and its cleanup. A
  run passes its stop file and its evidence file; the batch runner passes neither.
\<close>

record run_files =
  rf_stop :: "string option"
  rf_evidence :: "string option"

definition batch_mode :: "run_files \<Rightarrow> bool" where
  "batch_mode f \<longleftrightarrow> rf_stop f = None \<and> rf_evidence f = None"

definition now_of :: "'w inj_env \<Rightarrow> ('w, int) step" where
  "now_of E w = (Inr (ij_time E w), w)"

definition stop_now :: "'w inj_env \<Rightarrow> run_files \<Rightarrow> ('w, bool) step" where
  "stop_now E f w = (Inr (stop_asked E (rf_stop f) w), w)"

text \<open>What is left of a window that began at \<open>start\<close>, waited for.\<close>

definition hold_window :: "'w inj_env \<Rightarrow> int \<Rightarrow> int \<Rightarrow> run_files \<Rightarrow> ('w, unit) step" where
  "hold_window E duration start f =
     then_step (now_of E) (\<lambda>now. hold_rest E (seconds_us duration - (now - start)) (rf_stop f))"

section \<open>Crash loop\<close>

definition crash_loop_kill_interval_s :: int where "crash_loop_kill_interval_s = 10"

text \<open>The loop runs until the clock says so. Each round sleeps at least two seconds; one round for
  each second is more than enough.\<close>

fun crash_loop_rounds :: "nat \<Rightarrow> 'w inj_env \<Rightarrow> inject_cfg \<Rightarrow> run_files \<Rightarrow> int \<Rightarrow> ('w, bool) step" where
  "crash_loop_rounds 0 E cfg f end_time w = (if ij_time E w < end_time then (Inl Out_Of_Fuel, w) else (Inr False, w))"
| "crash_loop_rounds (Suc n) E cfg f end_time w =
     (if end_time \<le> ij_time E w then (Inr False, w)
      else if stop_asked E (rf_stop f) w then (Inr True, w)
      else case current_pod_name E (cfg_target cfg) (cfg_namespace cfg) w of
        (Inl e, w1) \<Rightarrow> (Inl e, w1)
      | (Inr None, w1) \<Rightarrow> crash_loop_rounds n E cfg f end_time (ij_sleep E (seconds_us 2) w1)
      | (Inr (Some p), w1) \<Rightarrow>
          (case kill_main_process E p (cfg_namespace cfg) (ic_container cfg) (ic_pattern cfg) w1 of
             (Inl e, w2) \<Rightarrow> (Inl e, w2)
           | (Inr _, w2) \<Rightarrow>
               crash_loop_rounds n E cfg f end_time (ij_sleep E (seconds_us crash_loop_kill_interval_s) w2)))"

definition run_crash_loop_injection :: "'w inj_env \<Rightarrow> inject_cfg \<Rightarrow> run_files \<Rightarrow> ('w, bool) step" where
  "run_crash_loop_injection E cfg f w =
     crash_loop_rounds (nat (ic_duration cfg)) E cfg f (ij_time E w + seconds_us (ic_duration cfg)) w"

definition inject_crash_loop :: "'w inj_env \<Rightarrow> inject_cfg \<Rightarrow> run_files \<Rightarrow> ('w, bool) step" where
  "inject_crash_loop E cfg f =
     (let target = cfg_target cfg; ns = cfg_namespace cfg in
      attempts max_inject_attempts
        (then_step (inj_restart_count E target ns) (\<lambda>baseline.
         then_step (run_crash_loop_injection E cfg f) (\<lambda>interrupted.
         then_step (verify_crash_loop_effect E target ns baseline) (\<lambda>verified.
           ret_step (if verified then Some True else if interrupted then Some False else None))))) False)"

section \<open>Full disk\<close>

definition disk_full_fire_interval_s :: int where "disk_full_fire_interval_s = 15"

text \<open>Whether the fill goes on: the pod it began with still runs and was not evicted.\<close>

definition disk_fill_goes_on ::
    "'w inj_env \<Rightarrow> inject_cfg \<Rightarrow> string \<Rightarrow> int option \<Rightarrow> ('w, bool) step" where
  "disk_fill_goes_on E cfg baseline_pod since =
     then_step (current_pod_name E (cfg_target cfg) (cfg_namespace cfg)) (\<lambda>current.
       if current \<noteq> Some baseline_pod then ret_step False
       else case since of None \<Rightarrow> ret_step True
            | Some t \<Rightarrow> map_step Not (pod_evicted_since E (cfg_target cfg) (cfg_namespace cfg) t))"

text \<open>The pod to fill: \<open>Inl\<close> when the loop ends, \<open>Inr None\<close> when there is no pod yet.\<close>

definition disk_fill_pod ::
    "'w inj_env \<Rightarrow> inject_cfg \<Rightarrow> string option \<Rightarrow> int option \<Rightarrow> ('w, unit + string option) step" where
  "disk_fill_pod E cfg baseline_pod since =
     (case baseline_pod of
        Some p \<Rightarrow> map_step (\<lambda>on. if on then Inr (Some p) else Inl ()) (disk_fill_goes_on E cfg p since)
      | None \<Rightarrow> map_step Inr (current_pod_name E (cfg_target cfg) (cfg_namespace cfg)))"

fun disk_full_rounds ::
    "nat \<Rightarrow> 'w inj_env \<Rightarrow> inject_cfg \<Rightarrow> string option \<Rightarrow> int option \<Rightarrow> int \<Rightarrow> ('w, unit) step" where
  "disk_full_rounds 0 E cfg b since end_time w = (if ij_time E w < end_time then (Inl Out_Of_Fuel, w) else (Inr (), w))"
| "disk_full_rounds (Suc n) E cfg b since end_time w =
     (if end_time \<le> ij_time E w then (Inr (), w)
      else case disk_fill_pod E cfg b since w of
        (Inl e, w1) \<Rightarrow> (Inl e, w1)
      | (Inr (Inl _), w1) \<Rightarrow> (Inr (), w1)
      | (Inr (Inr None), w1) \<Rightarrow> disk_full_rounds n E cfg b since end_time (ij_sleep E (seconds_us 2) w1)
      | (Inr (Inr (Some p)), w1) \<Rightarrow>
          (case write_large_file E p (cfg_namespace cfg) (ic_container cfg) w1 of
             (Inl e, w2) \<Rightarrow> (Inl e, w2)
           | (Inr _, w2) \<Rightarrow>
               disk_full_rounds n E cfg b since end_time (ij_sleep E (seconds_us disk_full_fire_interval_s) w2)))"

definition run_disk_full_injection ::
    "'w inj_env \<Rightarrow> inject_cfg \<Rightarrow> string option \<Rightarrow> int option \<Rightarrow> ('w, unit) step" where
  "run_disk_full_injection E cfg b since w =
     disk_full_rounds (nat (ic_duration cfg)) E cfg b since (ij_time E w + seconds_us (ic_duration cfg)) w"

definition inject_disk_full :: "'w inj_env \<Rightarrow> inject_cfg \<Rightarrow> run_files \<Rightarrow> ('w, bool) step" where
  "inject_disk_full E cfg f =
     (let target = cfg_target cfg; ns = cfg_namespace cfg in
      attempts max_inject_attempts
        (then_step (current_pod_name E target ns) (\<lambda>pod.
           if pod = None then ret_step (Some False)
           else
             then_step (now_of E) (\<lambda>since.
             then_step (run_disk_full_injection E cfg pod (Some since)) (\<lambda>_.
             then_step (finally_step (verify_disk_full_effect E target ns since pod)
                          (cleanup_disk_full_files E target ns (ic_container cfg))) (\<lambda>verified.
               if verified then then_step (write_evidence_file_once E (rf_evidence f)) (\<lambda>_. ret_step (Some True))
               else ret_step None))))) False)"

section \<open>Patched deployments\<close>

definition inject_bad_rollout :: "'w inj_env \<Rightarrow> inject_cfg \<Rightarrow> run_files \<Rightarrow> ('w, bool) step" where
  "inject_bad_rollout E cfg f =
     then_step (ensure_front_end_image_baseline E cfg) (\<lambda>_.
       attempts max_inject_attempts
         (then_step (patch_front_end_image E cfg (front_end_image_fault E)) (\<lambda>_.
          then_step (verify_bad_rollout_effect E (cfg_namespace cfg)) (\<lambda>verified.
            if verified then then_step (write_evidence_file_once E (rf_evidence f)) (\<lambda>_. ret_step (Some True))
            else then_step (patch_front_end_image E cfg (front_end_image_baseline E)) (\<lambda>_. ret_step None)))) False)"

definition inject_init_failure :: "'w inj_env \<Rightarrow> inject_cfg \<Rightarrow> run_files \<Rightarrow> ('w, bool) step" where
  "inject_init_failure E cfg f =
     then_step (ensure_init_failure_baseline E cfg) (\<lambda>_.
       attempts max_inject_attempts
         (then_step (now_of E) (\<lambda>start.
          then_step (patch_payment_readiness_path E cfg payment_readiness_path_fault) (\<lambda>_.
          then_step (verify_init_failure_effect E (cfg_namespace cfg)) (\<lambda>verified.
            if verified then
              then_step (write_evidence_file_once E (rf_evidence f)) (\<lambda>_.
              then_step (hold_window E (ic_duration cfg) start f) (\<lambda>_.
              then_step (restore_init_failure E cfg (batch_mode f)) (\<lambda>_. ret_step (Some True))))
            else then_step (restore_init_failure E cfg True) (\<lambda>_. ret_step None))))) False)"

definition inject_session_cart_failure :: "'w inj_env \<Rightarrow> inject_cfg \<Rightarrow> run_files \<Rightarrow> ('w, bool) step" where
  "inject_session_cart_failure E cfg f =
     then_step (ensure_session_failure_baseline E cfg) (\<lambda>_.
       attempts max_inject_attempts
         (then_step (now_of E) (\<lambda>start.
          then_step (scale_deployment_to E cfg 0) (\<lambda>_.
          then_step (await_replicas E cfg 0) (\<lambda>verified.
            if verified then
              then_step (write_evidence_file_once E (rf_evidence f)) (\<lambda>_.
              then_step (hold_window E (ic_duration cfg) start f) (\<lambda>_.
              then_step (scale_deployment_to E cfg 1) (\<lambda>_.
              then_step (await_replicas E cfg 1) (\<lambda>_. ret_step (Some True)))))
            else
              then_step (scale_deployment_to E cfg 1) (\<lambda>_.
              then_step (await_replicas E cfg 1) (\<lambda>_. ret_step None)))))) False)"

section \<open>Network faults\<close>

definition network_latency_min_increase_ms :: rat where "network_latency_min_increase_ms = 200"

text \<open>The first sample that is slow enough confirms the fault: evidence file and probe, once.\<close>

definition confirm_latency ::
    "'w inj_env \<Rightarrow> inject_cfg \<Rightarrow> string \<Rightarrow> string \<Rightarrow> bool \<Rightarrow> run_files \<Rightarrow> ('w, unit) step" where
  "confirm_latency E cfg ep t0 conn f =
     then_step (if conn then probe_frontend_connectivity E (cfg_namespace cfg) else ret_step None) (\<lambda>probe.
     then_step (write_evidence_file_once E (rf_evidence f)) (\<lambda>_.
       if conn then persist_network_probe E ep ''network-latency'' cfg t0 probe else ret_step ()))"

function hold_latency ::
    "'w inj_env \<Rightarrow> inject_cfg \<Rightarrow> string \<Rightarrow> string \<Rightarrow> bool \<Rightarrow> run_files \<Rightarrow> rat \<Rightarrow> int \<Rightarrow> bool \<Rightarrow> ('w, bool \<times> bool) step" where
  "hold_latency E cfg ep t0 conn f baseline elapsed verified w =
     (if ic_duration cfg \<le> elapsed then (Inr (verified, False), w)
      else if stop_asked E (rf_stop f) w then (Inr (verified, True), w)
      else case probe_orders_latency_ms E (cfg_namespace cfg) (ij_sleep E (seconds_us 10) w) of
        (Inl e, w1) \<Rightarrow> (Inl e, w1)
      | (Inr during, w1) \<Rightarrow>
          if (case during of None \<Rightarrow> False | Some ms \<Rightarrow> py_float (baseline + network_latency_min_increase_ms) \<le> ms)
          then (case (if verified then ret_step () else confirm_latency E cfg ep t0 conn f) w1 of
                  (Inl e, w2) \<Rightarrow> (Inl e, w2)
                | (Inr _, w2) \<Rightarrow> hold_latency E cfg ep t0 conn f baseline (elapsed + 10) True w2)
          else hold_latency E cfg ep t0 conn f baseline (elapsed + 10) verified w1)"
  by pat_completeness auto
termination
  by (relation "measure (\<lambda>(E, cfg, ep, t0, conn, f, b, elapsed, v, w). nat (ic_duration cfg - elapsed))") auto

declare hold_latency.simps [simp del]

definition chaos_name :: "'w inj_env \<Rightarrow> inject_cfg \<Rightarrow> string \<Rightarrow> ('w, string) step" where
  "chaos_name E cfg mid = map_step (\<lambda>u. ic_prefix cfg @ mid @ u) (uuid8 E)"

definition inject_network_latency ::
    "'w inj_env \<Rightarrow> inject_cfg \<Rightarrow> string \<Rightarrow> string \<Rightarrow> bool \<Rightarrow> run_files \<Rightarrow> ('w, string option) step" where
  "inject_network_latency E cfg ep t0 conn f =
     attempts max_inject_attempts
       (then_step (probe_orders_latency_ms E (cfg_namespace cfg)) (\<lambda>baseline.
        then_step (chaos_name E cfg ''-'') (\<lambda>name.
        then_step (apply_manifest E (build_network_latency_manifest name cfg)) (\<lambda>_.
        then_step (finally_step
          (hold_latency E cfg ep t0 conn f (case baseline of None \<Rightarrow> 0 | Some ms \<Rightarrow> ms) 0 False)
          (delete_chaos_resource E ''networkchaos'' name)) (\<lambda>(verified, interrupted).
            ret_step (if verified then Some (Some name) else if interrupted then Some None else None)))))) None"

definition network_partition_propagation_wait_s :: int where "network_partition_propagation_wait_s = 15"
definition network_partition_min_failures :: int where "network_partition_min_failures = 4"

definition hold_partition ::
    "'w inj_env \<Rightarrow> inject_cfg \<Rightarrow> string \<Rightarrow> string \<Rightarrow> bool \<Rightarrow> run_files \<Rightarrow> int \<Rightarrow> ('w, bool) step" where
  "hold_partition E cfg ep t0 conn f start =
     then_step (ij_nap E (seconds_us network_partition_propagation_wait_s)) (\<lambda>_.
     then_step (probe_frontend_connectivity E (cfg_namespace cfg)) (\<lambda>probe.
       let verified = network_partition_min_failures \<le> (case probe of None \<Rightarrow> 0 | Some (n, failures, ms) \<Rightarrow> failures) in
       then_step (if verified then
                    then_step (write_evidence_file_once E (rf_evidence f)) (\<lambda>_.
                      if conn then persist_network_probe E ep ''network-partition'' cfg t0 probe else ret_step ())
                  else ret_step ()) (\<lambda>_.
       then_step (hold_window E (ic_duration cfg) start f) (\<lambda>_. ret_step verified))))"

definition inject_network_partition ::
    "'w inj_env \<Rightarrow> inject_cfg \<Rightarrow> string \<Rightarrow> string \<Rightarrow> bool \<Rightarrow> run_files \<Rightarrow> ('w, string option) step" where
  "inject_network_partition E cfg ep t0 conn f =
     attempts max_inject_attempts
       (then_step (chaos_name E cfg ''-'') (\<lambda>name.
        then_step (apply_manifest E (build_network_partition_manifest name cfg)) (\<lambda>_.
        then_step (now_of E) (\<lambda>start.
        then_step (finally_step (hold_partition E cfg ep t0 conn f start)
                     (delete_chaos_resource E ''networkchaos'' name)) (\<lambda>verified.
          ret_step (if verified then Some (Some name) else None)))))) None"

end
