(* ===== verification/Injector_Load.thy ===== *)
theory Injector_Load
  imports Injector_Faults
begin

text \<open>
  \<^verbatim>\<open>injector.py\<close>: the injections that put a load on their target: CPU, memory, connections, the
  heap of a JVM, the capacity of the catalogue. They start processes and pods of their own and clean
  them up, whatever happened.
\<close>

definition k6_pod_args :: "string \<Rightarrow> string \<Rightarrow> bool \<Rightarrow> string list" where
  "k6_pod_args pod ns rm =
     [''run'', pod] @ (if rm then [''--rm''] else []) @
     [''-i'', ''--restart=Never'', ''-n'', ns, ''--image=grafana/k6:latest'', ''--image-pull-policy=IfNotPresent'', ''--'',
      ''run'', ''--quiet'', ''-'']"

text \<open>A k6 pod in the background, fed with its script.\<close>

definition launch_k6 :: "'w inj_env \<Rightarrow> string \<Rightarrow> string \<Rightarrow> string \<Rightarrow> ('w, string \<times> nat) step" where
  "launch_k6 E pre ns script =
     then_step (map_step (\<lambda>u. pre @ u) (uuid8 E)) (\<lambda>pod.
     then_step (ij_popen E (k6_pod_args pod ns True)) (\<lambda>p.
     then_step (ij_feed E p script) (\<lambda>_. ret_step (pod, p))))"

text \<open>\<^verbatim>\<open>try: p.wait(t) except Exception: p.kill()\<close>.\<close>

definition wait_or_kill :: "'w inj_env \<Rightarrow> nat \<Rightarrow> int \<Rightarrow> ('w, unit) step" where
  "wait_or_kill E p limit = except_step is_exception (ij_wait E p limit) (ij_kill E p)"

section \<open>CPU throttling\<close>

text \<open>The hold of the batch path. Its stop file is never there: with one the live path runs.\<close>

fun hold_ticks :: "'w inj_env \<Rightarrow> run_files \<Rightarrow> nat \<Rightarrow> ('w, bool) step" where
  "hold_ticks E f 0 w = (Inr False, w)"
| "hold_ticks E f (Suc n) w =
     (if stop_asked E (rf_stop f) w then (Inr True, w) else hold_ticks E f n (ij_sleep E (seconds_us 10) w))"

text \<open>\<^verbatim>\<open>while elapsed < duration\<close> in ticks of ten seconds.\<close>

definition ticks_of :: "int \<Rightarrow> nat" where
  "ticks_of duration = nat ((duration + 9) div 10)"

definition inject_cpu_batch :: "'w inj_env \<Rightarrow> inject_cfg \<Rightarrow> run_files \<Rightarrow> ('w, string option) step" where
  "inject_cpu_batch E cfg f =
     (let target = cfg_target cfg; ns = cfg_namespace cfg; container = ic_container cfg in
      attempts max_inject_attempts
        (then_step (cfs_throttled_periods E target ns container) (\<lambda>baseline.
         then_step (chaos_name E cfg ''-'') (\<lambda>name.
         then_step (apply_manifest E (build_cpu_throttle_manifest name cfg None)) (\<lambda>_.
         then_step (finally_step
           (then_step (hold_ticks E f (ticks_of (ic_duration cfg))) (\<lambda>interrupted.
            then_step (verify_cpu_throttle_effect E target ns container baseline) (\<lambda>verified. ret_step (verified, interrupted))))
           (delete_chaos_resource E ''stresschaos'' name)) (\<lambda>(verified, interrupted).
             ret_step (if verified then Some (Some name) else if interrupted then Some None else None)))))) None)"

definition cpu_throttle_live_trigger_stress_workers :: int where "cpu_throttle_live_trigger_stress_workers = 50"
definition cpu_throttle_live_trigger_login_concurrency :: int where "cpu_throttle_live_trigger_login_concurrency = 150"

text \<open>The account the login load uses; the text of its curl command is left to \<open>ij_script\<close>.\<close>

definition ensure_cpu_throttle_login_user_exists :: "'w inj_env \<Rightarrow> inject_cfg \<Rightarrow> ('w, unit) step" where
  "ensure_cpu_throttle_login_user_exists E cfg =
     then_step (uuid8 E) (\<lambda>u.
       map_step (\<lambda>_. ()) (ij_run E [''run'', ''wardence-cputhrottle-usersetup-'' @ u, ''--rm'', ''-i'', ''--restart=Never'',
         ''-n'', cfg_namespace cfg, ''--image=grafana/k6:latest'', ''--image-pull-policy=IfNotPresent'', ''--command'', ''--'',
         ''sh'', ''-c'', ij_script E ''register'' [cfg_target cfg, cfg_namespace cfg]] None (Some 20)))"

definition launch_cpu_throttle_login_load ::
    "'w inj_env \<Rightarrow> string \<Rightarrow> string \<Rightarrow> int \<Rightarrow> int \<Rightarrow> ('w, string \<times> nat) step" where
  "launch_cpu_throttle_login_load E ns target concurrency duration =
     launch_k6 E ''wardence-cputhrottle-load-'' ns
       (ij_script E ''login'' [target, ns, show_int concurrency, show_int duration])"

text \<open>The hold of the live path: the stop file, the check for the evidence file, ten seconds.\<close>

fun hold_cpu_live ::
    "nat \<Rightarrow> 'w inj_env \<Rightarrow> inject_cfg \<Rightarrow> run_files \<Rightarrow> string \<Rightarrow> int \<Rightarrow> bool \<Rightarrow> ('w, bool) step" where
  "hold_cpu_live 0 E cfg f pod baseline written w = (Inr written, w)"
| "hold_cpu_live (Suc n) E cfg f pod baseline written w =
     (if stop_asked E (rf_stop f) w then (Inr written, w)
      else if written \<or> rf_evidence f = None
      then hold_cpu_live n E cfg f pod baseline written (ij_sleep E (seconds_us 10) w)
      else case cfs_throttled_periods_for_pod E pod (cfg_namespace cfg) (ic_container cfg) w of
        (Inl e, w1) \<Rightarrow> (Inl e, w1)
      | (Inr now, w1) \<Rightarrow>
          if cpu_throttle_min_periods_increase \<le> now - baseline
          then (case write_evidence_file_once E (rf_evidence f) w1 of
                  (Inl e, w2) \<Rightarrow> (Inl e, w2)
                | (Inr _, w2) \<Rightarrow> hold_cpu_live n E cfg f pod baseline True (ij_sleep E (seconds_us 10) w2))
          else hold_cpu_live n E cfg f pod baseline False (ij_sleep E (seconds_us 10) w1))"

text \<open>The cleanup knows the load pod only when its launch returned.\<close>

definition cleanup_cpu_live ::
    "'w inj_env \<Rightarrow> inject_cfg \<Rightarrow> string \<Rightarrow> (string \<times> nat) option \<Rightarrow> ('w, unit) step" where
  "cleanup_cpu_live E cfg name load =
     then_step (delete_chaos_resource E ''stresschaos'' name) (\<lambda>_.
     then_step (case load of None \<Rightarrow> ret_step ()
                | Some (pod, p) \<Rightarrow>
                    then_step (kill_pod_now E (cfg_namespace cfg) pod) (\<lambda>_. wait_or_kill E p 15)) (\<lambda>_.
       restore_user_probes E cfg))"

definition cpu_live_hold ::
    "'w inj_env \<Rightarrow> inject_cfg \<Rightarrow> run_files \<Rightarrow> string \<Rightarrow> int \<Rightarrow> ('w, bool) step" where
  "cpu_live_hold E cfg f pod baseline =
     then_step (hold_cpu_live (ticks_of (ic_duration cfg)) E cfg f pod baseline False) (\<lambda>written.
       if written then ret_step True
       else verify_cpu_throttle_effect_for_pod E pod (cfg_namespace cfg) (ic_container cfg) baseline)"

text \<open>The \<^verbatim>\<open>try\<close> block in two parts: up to the launch the cleanup has no load pod.\<close>

definition cpu_live_start :: "'w inj_env \<Rightarrow> inject_cfg \<Rightarrow> string \<Rightarrow> string \<Rightarrow> ('w, int \<times> string \<times> nat) step" where
  "cpu_live_start E cfg name pod =
     then_step (cfs_throttled_periods_for_pod E pod (cfg_namespace cfg) (ic_container cfg)) (\<lambda>baseline.
     then_step (apply_manifest E (build_cpu_throttle_manifest name cfg (Some cpu_throttle_live_trigger_stress_workers))) (\<lambda>_.
     then_step (launch_cpu_throttle_login_load E (cfg_namespace cfg) (cfg_target cfg)
                  cpu_throttle_live_trigger_login_concurrency (ic_duration cfg)) (\<lambda>load. ret_step (baseline, load))))"

definition inject_cpu_live :: "'w inj_env \<Rightarrow> inject_cfg \<Rightarrow> run_files \<Rightarrow> ('w, string option) step" where
  "inject_cpu_live E cfg f =
     then_step (ensure_cpu_throttle_probe_baseline E cfg) (\<lambda>_.
     then_step (loosen_user_probes_for_fault E cfg) (\<lambda>fresh.
       case fresh of
         None \<Rightarrow> then_step (restore_user_probes E cfg) (\<lambda>_. ret_step None)
       | Some pod \<Rightarrow>
           then_step (ensure_cpu_throttle_login_user_exists E cfg) (\<lambda>_.
           then_step (chaos_name E cfg ''-live-'') (\<lambda>name.
           then_step (finally_with (cpu_live_start E cfg name pod)
             (\<lambda>r. case r of Inl _ \<Rightarrow> cleanup_cpu_live E cfg name None | Inr _ \<Rightarrow> ret_step ())) (\<lambda>(baseline, load).
           then_step (finally_step (cpu_live_hold E cfg f pod baseline) (cleanup_cpu_live E cfg name (Some load))) (\<lambda>verified.
             ret_step (if verified then Some name else None)))))))"

definition inject_cpu_throttling :: "'w inj_env \<Rightarrow> inject_cfg \<Rightarrow> run_files \<Rightarrow> ('w, string option) step" where
  "inject_cpu_throttling E cfg f =
     then_step (ensure_cpu_throttle_baseline E cfg) (\<lambda>_.
       if rf_stop f \<noteq> None then inject_cpu_live E cfg f else inject_cpu_batch E cfg f)"

section \<open>Out of memory\<close>

definition oom_verify_ceiling_s :: int where "oom_verify_ceiling_s = 200"
definition oom_verify_poll_s :: int where "oom_verify_poll_s = 3"

text \<open>\<^verbatim>\<open>int(value) if value.isdigit() else None\<close>.\<close>

definition pod_restart_count_direct :: "'w inj_env \<Rightarrow> string \<Rightarrow> string \<Rightarrow> string \<Rightarrow> ('w, int option) step" where
  "pod_restart_count_direct E pod ns container =
     map_step (\<lambda>t. if t \<noteq> [] \<and> list_all is_digit t then Some (int (dec_nat t)) else None)
       (kube_text E [''get'', ''pod'', pod, ''-n'', ns, ''-o'',
          dq ''jsonpath={.status.containerStatuses[?(@.name==~'' @ container @ dq ''~)].restartCount}''])"

definition pod_oom_killed :: "'w inj_env \<Rightarrow> string \<Rightarrow> string \<Rightarrow> string \<Rightarrow> int \<Rightarrow> ('w, bool) step" where
  "pod_oom_killed E pod ns container baseline =
     then_step (pod_restart_count_direct E pod ns container) (\<lambda>current.
       case current of None \<Rightarrow> ret_step False
       | Some n \<Rightarrow>
           if n \<le> baseline then ret_step False
           else map_step (\<lambda>t. t = ''OOMKilled'')
             (kube_text E [''get'', ''pod'', pod, ''-n'', ns, ''-o'',
                dq ''jsonpath={.status.containerStatuses[?(@.name==~'' @ container @ dq ''~)].lastState.terminated.reason}'']))"

text \<open>The pod whose container was killed since the baseline, if any.\<close>

definition oom_seen :: "'w inj_env \<Rightarrow> inject_cfg \<Rightarrow> int option \<Rightarrow> ('w, string option) step" where
  "oom_seen E cfg baseline =
     then_step (current_pod_name E (cfg_target cfg) (cfg_namespace cfg)) (\<lambda>pod.
       case (pod, baseline) of
         (Some p, Some n) \<Rightarrow>
           map_step (\<lambda>k. if k then Some p else None) (pod_oom_killed E p (cfg_namespace cfg) (ic_container cfg) n)
       | _ \<Rightarrow> ret_step None)"

function poll_oom :: "'w inj_env \<Rightarrow> inject_cfg \<Rightarrow> int option \<Rightarrow> int \<Rightarrow> ('w, bool) step" where
  "poll_oom E cfg baseline elapsed w =
     (if oom_verify_ceiling_s < elapsed then (Inr False, w)
      else case oom_seen E cfg baseline w of
        (Inl e, w1) \<Rightarrow> (Inl e, w1)
      | (Inr (Some _), w1) \<Rightarrow> (Inr True, w1)
      | (Inr None, w1) \<Rightarrow>
          poll_oom E cfg baseline (elapsed + oom_verify_poll_s) (ij_sleep E (seconds_us oom_verify_poll_s) w1))"
  by pat_completeness auto
termination
  by (relation "measure (\<lambda>(E, cfg, b, elapsed, w). nat (oom_verify_ceiling_s + 1 - elapsed))")
    (auto simp: oom_verify_poll_s_def)

declare poll_oom.simps [simp del]

definition oom_attempt :: "'w inj_env \<Rightarrow> inject_cfg \<Rightarrow> ('w, string option option) step" where
  "oom_attempt E cfg =
     then_step (current_pod_name E (cfg_target cfg) (cfg_namespace cfg)) (\<lambda>pod.
     then_step (case pod of None \<Rightarrow> ret_step None
                | Some p \<Rightarrow> pod_restart_count_direct E p (cfg_namespace cfg) (ic_container cfg)) (\<lambda>baseline.
     then_step (chaos_name E cfg ''-'') (\<lambda>name.
     then_step (apply_manifest E (build_oom_manifest name cfg)) (\<lambda>_.
     then_step (finally_step (poll_oom E cfg baseline 0) (delete_chaos_resource E ''stresschaos'' name)) (\<lambda>verified.
       ret_step (if verified then Some (Some name) else None))))))"

definition inject_oom_batch :: "'w inj_env \<Rightarrow> inject_cfg \<Rightarrow> ('w, string option) step" where
  "inject_oom_batch E cfg = attempts max_inject_attempts (oom_attempt E cfg) None"

definition oom_forced_kill_memory_limit :: "'w inj_env \<Rightarrow> string" where
  "oom_forced_kill_memory_limit E = (if ij_arm64 E then ''5Mi'' else ''3Mi'')"

definition strategy_patch :: "string \<Rightarrow> string \<Rightarrow> string \<Rightarrow> string \<Rightarrow> string" where
  "strategy_patch strategy container limit request =
     dq ''{~spec~:{~strategy~:{~rollingUpdate~:'' @ strategy @
     dq ''},~template~:{~spec~:{~containers~:[{~name~:~'' @ container @
     dq ''~,~resources~:{~limits~:{~memory~:~'' @ limit @ dq ''~},~requests~:{~memory~:~'' @ request @ dq ''~}}}]}}}}''"

text \<open>The name of the replacement pod, asked for thirty times.\<close>

fun await_replacement :: "'w inj_env \<Rightarrow> inject_cfg \<Rightarrow> string option \<Rightarrow> nat \<Rightarrow> ('w, string option) step" where
  "await_replacement E cfg old 0 = ret_step None"
| "await_replacement E cfg old (Suc n) =
     then_step (kube_text E [''get'', ''pods'', ''-n'', cfg_namespace cfg, ''-l'', selector_of (cfg_target cfg), ''-o'',
       ''jsonpath={.items[0].metadata.name}'']) (\<lambda>t.
       if t \<noteq> [] \<and> Some t \<noteq> old then ret_step (Some t)
       else then_step (ij_nap E (seconds_us 1)) (\<lambda>_. await_replacement E cfg old n))"

text \<open>The live hold: a kill that is new confirms the fault; the count it left is the next baseline.\<close>

function hold_oom :: "'w inj_env \<Rightarrow> inject_cfg \<Rightarrow> run_files \<Rightarrow> int option \<Rightarrow> bool \<Rightarrow> int \<Rightarrow> ('w, bool) step" where
  "hold_oom E cfg f baseline written elapsed w =
     (if ic_duration cfg \<le> elapsed then (Inr written, w)
      else if stop_asked E (rf_stop f) w then (Inr written, w)
      else case oom_seen E cfg baseline w of
        (Inl e, w1) \<Rightarrow> (Inl e, w1)
      | (Inr None, w1) \<Rightarrow>
          hold_oom E cfg f baseline written (elapsed + oom_verify_poll_s) (ij_sleep E (seconds_us oom_verify_poll_s) w1)
      | (Inr (Some p), w1) \<Rightarrow>
          (case then_step (if written then ret_step () else write_evidence_file_once E (rf_evidence f)) (\<lambda>_.
                  pod_restart_count_direct E p (cfg_namespace cfg) (ic_container cfg)) w1 of
             (Inl e, w2) \<Rightarrow> (Inl e, w2)
           | (Inr n, w2) \<Rightarrow>
               hold_oom E cfg f n True (elapsed + oom_verify_poll_s) (ij_sleep E (seconds_us oom_verify_poll_s) w2)))"
  by pat_completeness auto
termination
  by (relation "measure (\<lambda>(E, cfg, f, b, v, elapsed, w). nat (ic_duration cfg - elapsed))")
    (auto simp: oom_verify_poll_s_def)

declare hold_oom.simps [simp del]

definition inject_oom_live :: "'w inj_env \<Rightarrow> inject_cfg \<Rightarrow> run_files \<Rightarrow> ('w, string option) step" where
  "inject_oom_live E cfg f =
     (let target = cfg_target cfg; ns = cfg_namespace cfg; container = ic_container cfg;
          forced = oom_forced_kill_memory_limit E in
      then_step (current_pod_name E target ns) (\<lambda>old_pod.
      then_step (deployment_field E target ns ''{.spec.strategy.rollingUpdate}'') (\<lambda>found.
      let original = (if found = [] then oom_baseline_rollout_strategy else found) in
      then_step (patch_template E target ns
                   (strategy_patch (dq ''{~maxSurge~:0,~maxUnavailable~:1}'') container forced forced)) (\<lambda>_.
      then_step (await_replacement E cfg old_pod 30) (\<lambda>pod.
      then_step (case pod of None \<Rightarrow> ret_step (Some 0) | Some p \<Rightarrow> pod_restart_count_direct E p ns container) (\<lambda>baseline.
      then_step (finally_step (hold_oom E cfg f baseline False 0)
        (patch_template E target ns
           (strategy_patch original container oom_baseline_memory_limit oom_baseline_memory_request))) (\<lambda>written.
        ret_step (if written then Some ''forced-limit-hold'' else None))))))))"

definition inject_oom :: "'w inj_env \<Rightarrow> inject_cfg \<Rightarrow> run_files \<Rightarrow> ('w, string option) step" where
  "inject_oom E cfg f = (if batch_mode f then inject_oom_batch E cfg else inject_oom_live E cfg f)"

end
