(* ===== verification/Injector_Capacity.thy ===== *)
theory Injector_Capacity
  imports Injector_Load
begin

text \<open>
  \<^verbatim>\<open>injector.py\<close>: the injections that take away the capacity of their target: requests to the
  catalogue, connections of its database, heap of the shipping service.
\<close>

section \<open>Under-provisioned replicas\<close>

definition under_provisioned_vus :: int where "under_provisioned_vus = 20"
definition under_provisioned_duration_s :: int where "under_provisioned_duration_s = 20"
definition under_provisioned_min_p95_ms :: rat where "under_provisioned_min_p95_ms = 130"
definition under_provisioned_live_trigger_vus :: int where "under_provisioned_live_trigger_vus = 130"

definition catalogue_burst_p95_ms :: "'w inj_env \<Rightarrow> string \<Rightarrow> int \<Rightarrow> int \<Rightarrow> string \<Rightarrow> ('w, rat option) step" where
  "catalogue_burst_p95_ms E ns vus duration label =
     then_step (map_step (\<lambda>u. ''wardence-underprov-'' @ label @ ''-'' @ u) (uuid8 E)) (\<lambda>pod.
     then_step (except_step (\<lambda>e. e = TimeoutExpired)
       (map_step Some (ij_run E (k6_pod_args pod ns True)
          (Some (ij_script E ''burst'' [ns, show_int vus, show_int duration])) (Some (duration + 60))))
       (ret_step None)) (\<lambda>r.
       case r of None \<Rightarrow> ret_step None
       | Some p \<Rightarrow> if pc_code p \<noteq> 0 then ret_step None else res_of (parse_k6_p95_ms (pc_out p))))"

definition launch_sustained_catalogue_burst :: "'w inj_env \<Rightarrow> string \<Rightarrow> int \<Rightarrow> int \<Rightarrow> ('w, string \<times> nat) step" where
  "launch_sustained_catalogue_burst E ns vus duration =
     launch_k6 E ''wardence-underprov-hold-'' ns (ij_script E ''burst'' [ns, show_int vus, show_int duration])"

definition launch_catalogue_live_sampler :: "'w inj_env \<Rightarrow> string \<Rightarrow> int \<Rightarrow> ('w, string) step" where
  "launch_catalogue_live_sampler E ns duration =
     then_step (map_step (\<lambda>u. ''wardence-underprov-sample-'' @ u) (uuid8 E)) (\<lambda>pod.
       map_step (\<lambda>_. pod) (ij_run E [''run'', pod, ''--restart=Never'', ''-n'', ns, ''--image=curlimages/curl'',
         ''--image-pull-policy=IfNotPresent'', ''--command'', ''--'', ''sh'', ''-c'',
         ij_script E ''sampler'' [ns, show_int (py_trunc (of_int duration / 2) + 10)]] None (Some 15)))"

text \<open>A line that is no number is passed over.\<close>

definition slow_sample :: "string \<Rightarrow> bool" where
  "slow_sample line =
     (case read_float line of Inl _ \<Rightarrow> False | Inr s \<Rightarrow> py_float (under_provisioned_min_p95_ms / 1000) \<le> s)"

definition sampler_confirmed_real_degradation :: "'w inj_env \<Rightarrow> string \<Rightarrow> string \<Rightarrow> ('w, bool) step" where
  "sampler_confirmed_real_degradation E ns pod =
     map_step (\<lambda>p. pc_code p = 0 \<and> list_ex slow_sample (py_lines (py_strip (pc_out p))))
       (ij_run E [''logs'', pod, ''-n'', ns] None (Some 10))"

text \<open>The hold in ticks of five seconds: whether degradation was seen, and whether it was cut short.\<close>

function hold_under_provisioned ::
    "'w inj_env \<Rightarrow> inject_cfg \<Rightarrow> run_files \<Rightarrow> string \<Rightarrow> bool \<Rightarrow> int \<Rightarrow> ('w, bool \<times> bool) step" where
  "hold_under_provisioned E cfg f sampler written elapsed w =
     (if ic_duration cfg \<le> elapsed then (Inr (written, False), w)
      else if stop_asked E (rf_stop f) w then (Inr (written, True), w)
      else case (if written then ret_step False
                 else sampler_confirmed_real_degradation E (cfg_namespace cfg) sampler) w of
        (Inl e, w1) \<Rightarrow> (Inl e, w1)
      | (Inr seen, w1) \<Rightarrow>
          (case (if seen then write_evidence_file_once E (rf_evidence f) else ret_step ()) w1 of
             (Inl e, w2) \<Rightarrow> (Inl e, w2)
           | (Inr _, w2) \<Rightarrow>
               hold_under_provisioned E cfg f sampler (written \<or> seen) (elapsed + 5) (ij_sleep E (seconds_us 5) w2)))"
  by pat_completeness auto
termination
  by (relation "measure (\<lambda>(E, cfg, f, s, v, elapsed, w). nat (ic_duration cfg - elapsed))") auto

declare hold_under_provisioned.simps [simp del]

text \<open>The last look at the sampler, and the cleanup, which differs after an early stop.\<close>

definition under_provisioned_block ::
    "'w inj_env \<Rightarrow> inject_cfg \<Rightarrow> run_files \<Rightarrow> string \<Rightarrow> ('w, bool \<times> bool) step" where
  "under_provisioned_block E cfg f sampler =
     then_step (hold_under_provisioned E cfg f sampler False 0) (\<lambda>(written, interrupted).
       if interrupted \<or> written then ret_step (written, interrupted)
       else map_step (\<lambda>seen. (seen, False)) (sampler_confirmed_real_degradation E (cfg_namespace cfg) sampler))"

definition cleanup_under_provisioned ::
    "'w inj_env \<Rightarrow> inject_cfg \<Rightarrow> string \<Rightarrow> string \<Rightarrow> nat \<Rightarrow> (bool \<times> bool) res \<Rightarrow> ('w, unit) step" where
  "cleanup_under_provisioned E cfg sampler burst p r =
     then_step (kill_pod_now E (cfg_namespace cfg) sampler) (\<lambda>_.
       if (case r of Inr (written, interrupted) \<Rightarrow> interrupted | Inl _ \<Rightarrow> False)
       then then_step (kill_pod_now E (cfg_namespace cfg) burst) (\<lambda>_. ignore_errors (ij_kill E p))
       else wait_or_kill E p 30)"

definition under_provisioned_live :: "'w inj_env \<Rightarrow> inject_cfg \<Rightarrow> run_files \<Rightarrow> ('w, string option) step" where
  "under_provisioned_live E cfg f =
     then_step (launch_sustained_catalogue_burst E (cfg_namespace cfg) under_provisioned_live_trigger_vus (ic_duration cfg)) (\<lambda>(burst, p).
     then_step (launch_catalogue_live_sampler E (cfg_namespace cfg) (ic_duration cfg)) (\<lambda>sampler.
     then_step (finally_with (under_provisioned_block E cfg f sampler)
                  (cleanup_under_provisioned E cfg sampler burst p)) (\<lambda>(written, interrupted).
       ret_step (if written then Some ''k6-burst-sustained'' else None))))"

definition under_provisioned_batch :: "'w inj_env \<Rightarrow> inject_cfg \<Rightarrow> ('w, string option) step" where
  "under_provisioned_batch E cfg =
     attempts max_inject_attempts
       (then_step (catalogue_burst_p95_ms E (cfg_namespace cfg) under_provisioned_vus under_provisioned_duration_s ''inject'') (\<lambda>p95.
          ret_step (case p95 of None \<Rightarrow> None
                    | Some ms \<Rightarrow> if under_provisioned_min_p95_ms \<le> ms then Some (Some ''k6-burst'') else None))) None"

definition oom_inject_cfg :: inject_cfg where
  "oom_inject_cfg = inject_cfg_of ''catalogue'' ''catalogue'' 90 [] ''wardence-oom''"

definition inject_under_provisioned :: "'w inj_env \<Rightarrow> inject_cfg \<Rightarrow> run_files \<Rightarrow> ('w, string option) step" where
  "inject_under_provisioned E cfg f =
     then_step (ensure_catalogue_replica_baseline E cfg) (\<lambda>_.
     then_step (ensure_oom_baseline E oom_inject_cfg) (\<lambda>_.
       if batch_mode f then under_provisioned_batch E cfg else under_provisioned_live E cfg f))"

section \<open>Connection pool\<close>

definition connection_pool_flood_connections :: int where "connection_pool_flood_connections = 170"
definition catalogue_db_max_connections :: int where "catalogue_db_max_connections = 151"
definition connection_pool_establish_success_rate :: rat where
  "connection_pool_establish_success_rate = py_float (95 / 100)"
definition connection_pool_safety_margin :: int where "connection_pool_safety_margin = 15"

definition mysql_exec :: "inject_cfg \<Rightarrow> string \<Rightarrow> string list \<Rightarrow> string list" where
  "mysql_exec cfg pod args =
     [''exec'', ''-n'', cfg_namespace cfg, pod, ''-c'', ic_container cfg, ''--'', ''mysql''] @ args"

definition create_flood_user_sql :: string where
  "create_flood_user_sql = List.map (\<lambda>c. if c = CHR ''~'' then CHR 0x27 else c)
     (''CREATE USER IF NOT EXISTS ~floodtest~@~%~ IDENTIFIED BY ~floodpass~; '' @
      ''GRANT USAGE ON *.* TO ~floodtest~@~%~; FLUSH PRIVILEGES;'')"

definition ensure_flood_user :: "'w inj_env \<Rightarrow> inject_cfg \<Rightarrow> ('w, unit) step" where
  "ensure_flood_user E cfg =
     then_step (current_pod_name E (cfg_target cfg) (cfg_namespace cfg)) (\<lambda>pod.
       case pod of None \<Rightarrow> ret_step ()
       | Some p \<Rightarrow>
           map_step (\<lambda>_. ()) (ij_run E (mysql_exec cfg p [''-uroot'', ''-pfake_password'', ''-e'', create_flood_user_sql])
             None (Some 15)))"

definition second_word_int :: "string \<Rightarrow> int option" where
  "second_word_int s =
     (case py_words s of _ # t # _ \<Rightarrow> (case py_int t of Inl _ \<Rightarrow> None | Inr n \<Rightarrow> Some n) | _ \<Rightarrow> None)"

definition get_catalogue_db_threads_connected :: "'w inj_env \<Rightarrow> inject_cfg \<Rightarrow> ('w, int option) step" where
  "get_catalogue_db_threads_connected E cfg =
     then_step (current_pod_name E (cfg_target cfg) (cfg_namespace cfg)) (\<lambda>pod.
       case pod of None \<Rightarrow> ret_step None
       | Some p \<Rightarrow>
           map_step (\<lambda>r. if pc_code r \<noteq> 0 then None else second_word_int (pc_out r))
             (ij_run E (mysql_exec cfg p [''-uroot'', ''-pfake_password'', ''-N'', ''-e'',
                ''SHOW STATUS LIKE '' @ [CHR 0x27] @ ''Threads_connected'' @ [CHR 0x27] @ '';'']) None (Some 15)))"

definition flood_target :: "int option \<Rightarrow> int" where
  "flood_target baseline =
     (case baseline of
        None \<Rightarrow> connection_pool_flood_connections
      | Some b \<Rightarrow>
          max (py_trunc (py_float (of_int (catalogue_db_max_connections - b + connection_pool_safety_margin) /
                 connection_pool_establish_success_rate)) + 1) connection_pool_flood_connections)"

definition compute_flood_target :: "'w inj_env \<Rightarrow> inject_cfg \<Rightarrow> ('w, int) step" where
  "compute_flood_target E cfg = map_step flood_target (get_catalogue_db_threads_connected E cfg)"

definition flood_connections :: "'w inj_env \<Rightarrow> inject_cfg \<Rightarrow> ('w, bool) step" where
  "flood_connections E cfg =
     then_step (current_pod_name E (cfg_target cfg) (cfg_namespace cfg)) (\<lambda>pod.
       case pod of None \<Rightarrow> ret_step False
       | Some p \<Rightarrow>
           then_step (ensure_flood_user E cfg) (\<lambda>_.
           then_step (compute_flood_target E cfg) (\<lambda>n.
             map_step (\<lambda>r. pc_code r = 0)
               (ij_run E (exec_sh (cfg_namespace cfg) p (ic_container cfg)
                  (''for i in $(seq 1 '' @ show_int n @ ''); do mysql -ufloodtest -pfloodpass -e '' @
                   dq ''~SELECT SLEEP('' @ show_int (ic_duration cfg + 15) @ dq '')~ >/dev/null 2>&1 & done'')) None (Some 30)))))"

definition test_connection_fails :: "'w inj_env \<Rightarrow> inject_cfg \<Rightarrow> ('w, bool) step" where
  "test_connection_fails E cfg =
     then_step (current_pod_name E (cfg_target cfg) (cfg_namespace cfg)) (\<lambda>pod.
       case pod of None \<Rightarrow> ret_step False
       | Some p \<Rightarrow>
           map_step (\<lambda>r. pc_code r \<noteq> 0 \<and> occurs_in ''Too many connections'' (pc_err r))
             (ij_run E (mysql_exec cfg p [''-ucatalogue_user'', ''-pdefault_password'', ''-e'', ''SELECT 1'']) None (Some 15)))"

definition cleanup_connection_flood :: "'w inj_env \<Rightarrow> inject_cfg \<Rightarrow> ('w, unit) step" where
  "cleanup_connection_flood E cfg =
     then_step (current_pod_name E (cfg_target cfg) (cfg_namespace cfg)) (\<lambda>pod.
       case pod of None \<Rightarrow> ret_step ()
       | Some p \<Rightarrow> kube_do E [''exec'', ''-n'', cfg_namespace cfg, p, ''-c'', ic_container cfg, ''--'', ''pkill'', ''-f'', ''SELECT SLEEP''])"

text \<open>The two loops of the restart share one deadline; each round sleeps, so one for each second is
  enough.\<close>

fun await_new_pod :: "nat \<Rightarrow> 'w inj_env \<Rightarrow> inject_cfg \<Rightarrow> string option \<Rightarrow> int \<Rightarrow> ('w, string option) step" where
  "await_new_pod 0 E cfg old deadline w = (if ij_time E w < deadline then (Inl Out_Of_Fuel, w) else (Inr None, w))"
| "await_new_pod (Suc n) E cfg old deadline w =
     (if deadline \<le> ij_time E w then (Inr None, w)
      else case current_pod_name E (cfg_target cfg) (cfg_namespace cfg) (ij_sleep E (seconds_us 5) w) of
        (Inl e, w1) \<Rightarrow> (Inl e, w1)
      | (Inr pod, w1) \<Rightarrow>
          if pod \<noteq> None \<and> pod \<noteq> old then (Inr pod, w1) else await_new_pod n E cfg old deadline w1)"

fun await_mysql :: "nat \<Rightarrow> 'w inj_env \<Rightarrow> inject_cfg \<Rightarrow> string \<Rightarrow> int \<Rightarrow> ('w, bool) step" where
  "await_mysql 0 E cfg pod deadline w = (if ij_time E w < deadline then (Inl Out_Of_Fuel, w) else (Inr True, w))"
| "await_mysql (Suc n) E cfg pod deadline w =
     (if deadline \<le> ij_time E w then (Inr True, w)
      else case ij_run E (mysql_exec cfg pod [''-uroot'', ''-pfake_password'', ''-e'', ''SELECT 1'']) None (Some 15) w of
        (Inl e, w1) \<Rightarrow> (Inl e, w1)
      | (Inr r, w1) \<Rightarrow>
          if pc_code r = 0 then (Inr True, w1) else await_mysql n E cfg pod deadline (ij_sleep E (seconds_us 3) w1))"

definition restart_catalogue_db_pod :: "'w inj_env \<Rightarrow> inject_cfg \<Rightarrow> int \<Rightarrow> ('w, bool) step" where
  "restart_catalogue_db_pod E cfg limit =
     then_step (current_pod_name E (cfg_target cfg) (cfg_namespace cfg)) (\<lambda>old.
     then_step (case old of None \<Rightarrow> ret_step ()
                | Some p \<Rightarrow> map_step (\<lambda>_. ()) (ij_run E [''delete'', ''pod'', ''-n'', cfg_namespace cfg, p, ''--wait=false''] None (Some 30))) (\<lambda>_.
     then_step (now_of E) (\<lambda>start.
     let deadline = start + seconds_us limit in
     then_step (await_new_pod (nat limit) E cfg old deadline) (\<lambda>new_pod.
       case new_pod of None \<Rightarrow> ret_step False
       | Some p \<Rightarrow> await_mysql (nat limit) E cfg p deadline))))"

definition hold_flood :: "'w inj_env \<Rightarrow> inject_cfg \<Rightarrow> run_files \<Rightarrow> ('w, bool) step" where
  "hold_flood E cfg f =
     then_step (ij_nap E (seconds_us 5)) (\<lambda>_.
     then_step (test_connection_fails E cfg) (\<lambda>verified.
     then_step (if verified then write_evidence_file_once E (rf_evidence f) else ret_step ()) (\<lambda>_.
     then_step (hold_rest E (seconds_us (ic_duration cfg - 5)) (rf_stop f)) (\<lambda>_. ret_step verified))))"

definition inject_connection_pool_exhaustion :: "'w inj_env \<Rightarrow> inject_cfg \<Rightarrow> run_files \<Rightarrow> ('w, string option) step" where
  "inject_connection_pool_exhaustion E cfg f =
     attempts max_inject_attempts
       (then_step (flood_connections E cfg) (\<lambda>flooded.
          if \<not> flooded then then_step (restart_catalogue_db_pod E cfg 90) (\<lambda>_. ret_step None)
          else then_step (finally_step (hold_flood E cfg f) (cleanup_connection_flood E cfg)) (\<lambda>verified.
               ret_step (if verified then Some (Some ''manual-exec'') else None)))) None"

section \<open>Memory leak\<close>

definition memory_leak_settle_seconds :: int where "memory_leak_settle_seconds = 35"
definition memory_leak_target_mb :: int where "memory_leak_target_mb = 300"
definition memory_leak_saturation_max_s :: nat where "memory_leak_saturation_max_s = 120"

text \<open>The heap floor: of the agent after a collection, else of Prometheus. The outer \<open>None\<close> is an
  abort, an inner one a value that is no finite number.\<close>

definition agent_floor_kb :: "'w inj_env \<Rightarrow> inject_cfg \<Rightarrow> ('w, rat option) step" where
  "agent_floor_kb E cfg =
     then_step (current_pod_name E (cfg_target cfg) (cfg_namespace cfg)) (\<lambda>pod.
       case pod of None \<Rightarrow> ret_step None
       | Some p \<Rightarrow>
           map_step (\<lambda>s. case s of None \<Rightarrow> None
                        | Some st \<Rightarrow> if 0 \<le> post_gc_mib st then Some (fmul (post_gc_mib st) 1024) else None)
             (leak_agent_read_status E p (cfg_namespace cfg) (ic_container cfg)))"

definition capture_memory_leak_baseline ::
    "'w inj_env \<Rightarrow> string \<Rightarrow> string \<Rightarrow> inject_cfg \<Rightarrow> string \<Rightarrow> ('w, rat option option) step" where
  "capture_memory_leak_baseline E ep cls cfg t0 =
     then_step (agent_floor_kb E cfg) (\<lambda>agent.
     then_step (case agent of
         Some kb \<Rightarrow> ret_step (Some (Some kb))
       | None \<Rightarrow>
           except_step (\<lambda>e. e = HTTPError)
             (map_step (\<lambda>vs. case vs of [] \<Rightarrow> None | v # _ \<Rightarrow> Some v)
                (ij_query E (inj_heap_query (cfg_target cfg) (cfg_namespace cfg))))
             (ret_step None)) (\<lambda>found.
       case found of None \<Rightarrow> ret_step None
       | Some kb \<Rightarrow> map_step (\<lambda>_. Some kb) (ij_sql E (put_heap ep cls cfg t0 kb))))"

text \<open>\<^verbatim>\<open>int(status.get(k) or 0)\<close>, 0 when it is no number.\<close>

definition status_int :: "agent_status \<Rightarrow> string \<Rightarrow> int" where
  "status_int s k =
     (case map_of s k of None \<Rightarrow> 0
      | Some t \<Rightarrow> if t = [] then 0 else (case py_int t of Inl _ \<Rightarrow> 0 | Inr n \<Rightarrow> n))"

definition ramping :: "agent_status \<Rightarrow> bool" where
  "ramping s \<longleftrightarrow> map_of s ''state'' \<in> {Some ''ALLOCATING'', Some ''GOVERNED_HOLD'', Some ''ALLOCATED''} \<or>
     0 < status_int s ''graph_slots''"

fun await_ramp :: "'w inj_env \<Rightarrow> inject_cfg \<Rightarrow> string \<Rightarrow> nat \<Rightarrow> ('w, bool) step" where
  "await_ramp E cfg pod 0 = ret_step False"
| "await_ramp E cfg pod (Suc n) =
     then_step (ij_nap E (seconds_us 1)) (\<lambda>_.
     then_step (leak_agent_read_status E pod (cfg_namespace cfg) (ic_container cfg)) (\<lambda>s.
       if (case s of None \<Rightarrow> False | Some st \<Rightarrow> ramping st) then ret_step True else await_ramp E cfg pod n))"

definition saturation_target_mb :: int where
  "saturation_target_mb = py_trunc (fmul (of_int memory_leak_target_mb) (py_float (9 / 10)))"

fun await_saturation :: "'w inj_env \<Rightarrow> inject_cfg \<Rightarrow> string \<Rightarrow> nat \<Rightarrow> ('w, bool) step" where
  "await_saturation E cfg pod 0 = ret_step False"
| "await_saturation E cfg pod (Suc n) =
     then_step (leak_agent_read_status E pod (cfg_namespace cfg) (ic_container cfg)) (\<lambda>s.
       if (case s of None \<Rightarrow> False | Some st \<Rightarrow> saturation_target_mb \<le> status_int st ''allocated_mb'') then ret_step True
       else then_step (ij_nap E (seconds_us 1)) (\<lambda>_. await_saturation E cfg pod n))"

definition no_leak_run :: "'w inj_env \<Rightarrow> bool" where
  "no_leak_run E =
     (case ij_environ E ''WARDENCE_MEMLEAK_NO_LEAK'' of None \<Rightarrow> False
      | Some t \<Rightarrow> py_lower (py_strip t) \<notin> {[], ''0'', ''false'', ''no''})"

definition graph_cmd :: "inject_cfg \<Rightarrow> string" where
  "graph_cmd cfg = ''GRAPH 350 100 110 static='' @ show_int memory_leak_target_mb @ '' ttl='' @ show_int (ic_duration cfg + 30)"

text \<open>The ramp: False is an abort. A companion that does not saturate is only printed.\<close>

definition start_ramp :: "'w inj_env \<Rightarrow> inject_cfg \<Rightarrow> string \<Rightarrow> ('w, bool) step" where
  "start_ramp E cfg pod =
     then_step (leak_agent_send_cmd E pod (cfg_namespace cfg) (ic_container cfg) (graph_cmd cfg)) (\<lambda>sent.
       if \<not> sent then ret_step False
       else then_step (await_ramp E cfg pod 10) (\<lambda>ok.
            if \<not> ok then ret_step False
            else map_step (\<lambda>_. True) (await_saturation E cfg pod memory_leak_saturation_max_s)))"

definition launch_checkout_load_burst :: "'w inj_env \<Rightarrow> string \<Rightarrow> int \<Rightarrow> int \<Rightarrow> ('w, (string \<times> nat) option) step" where
  "launch_checkout_load_burst E ns concurrency duration =
     then_step (map_step (\<lambda>u. ''wardence-checkout-load-'' @ u) (uuid8 E)) (\<lambda>pod.
     then_step (ij_popen E (k6_pod_args pod ns False)) (\<lambda>p.
       except_step is_exception
         (map_step (\<lambda>_. Some (pod, p))
            (ij_feed E p (ij_script E ''checkout'' [ns, show_int concurrency, show_int (max 30 (duration - 8))])))
         (map_step (\<lambda>_. None) (ignore_errors (ij_kill E p)))))"

text \<open>The hold ends early for the stop file or a restart of the JVM: whether it restarted.\<close>

function hold_leak :: "'w inj_env \<Rightarrow> inject_cfg \<Rightarrow> run_files \<Rightarrow> int \<Rightarrow> int \<Rightarrow> ('w, bool) step" where
  "hold_leak E cfg f baseline elapsed w =
     (if ic_duration cfg \<le> elapsed then (Inr False, w)
      else if stop_asked E (rf_stop f) w then (Inr False, w)
      else let tick = min 5 (ic_duration cfg - elapsed) in
        case inj_restart_count E (cfg_target cfg) (cfg_namespace cfg) (ij_sleep E (seconds_us tick) w) of
          (Inl e, w1) \<Rightarrow> (Inl e, w1)
        | (Inr n, w1) \<Rightarrow> if baseline < n then (Inr True, w1) else hold_leak E cfg f baseline (elapsed + tick) w1)"
  by pat_completeness auto
termination
  by (relation "measure (\<lambda>(E, cfg, f, b, elapsed, w). nat (ic_duration cfg - elapsed))") auto

declare hold_leak.simps [simp del]

definition reap_load :: "'w inj_env \<Rightarrow> nat \<Rightarrow> ('w, unit) step" where
  "reap_load E p =
     except_step is_exception (then_step (ij_terminate E p) (\<lambda>_. ij_wait E p 15)) (ignore_errors (ij_kill E p))"

definition cleanup_leak :: "'w inj_env \<Rightarrow> inject_cfg \<Rightarrow> string \<Rightarrow> string \<Rightarrow> nat \<Rightarrow> ('w, unit) step" where
  "cleanup_leak E cfg pod load_pod p =
     then_step (reap_load E p) (\<lambda>_.
     then_step (ignore_errors (map_step (\<lambda>_. ()) (ij_run E [''logs'', load_pod, ''-n'', cfg_namespace cfg] None (Some 20)))) (\<lambda>_.
     then_step (kube_do E [''delete'', ''pod'', load_pod, ''-n'', cfg_namespace cfg, ''--ignore-not-found=true'', ''--wait=false'']) (\<lambda>_.
       map_step (\<lambda>_. ()) (leak_agent_send_cmd E pod (cfg_namespace cfg) (ic_container cfg) ''RELEASE''))))"

definition leak_under_load :: "'w inj_env \<Rightarrow> inject_cfg \<Rightarrow> run_files \<Rightarrow> string \<Rightarrow> ('w, string option) step" where
  "leak_under_load E cfg f pod =
     then_step (launch_checkout_load_burst E (cfg_namespace cfg) (ij_load_concurrency E) (ic_duration cfg)) (\<lambda>load.
       case load of
         None \<Rightarrow> map_step (\<lambda>_. None) (leak_agent_send_cmd E pod (cfg_namespace cfg) (ic_container cfg) ''RELEASE'')
       | Some (load_pod, p) \<Rightarrow>
           then_step (write_evidence_file_once E (rf_evidence f)) (\<lambda>_.
           then_step (inj_restart_count E (cfg_target cfg) (cfg_namespace cfg)) (\<lambda>baseline.
           then_step (finally_step (hold_leak E cfg f baseline 0) (cleanup_leak E cfg pod load_pod p)) (\<lambda>restarted.
             ret_step (if restarted then None else Some ''leak-agent'')))))"

definition inject_memory_leak ::
    "'w inj_env \<Rightarrow> inject_cfg \<Rightarrow> string \<Rightarrow> string \<Rightarrow> string \<Rightarrow> run_files \<Rightarrow> ('w, string option) step" where
  "inject_memory_leak E cfg ep cls t0 f =
     then_step (ij_nap E (seconds_us memory_leak_settle_seconds)) (\<lambda>_.
     then_step (capture_memory_leak_baseline E ep cls cfg t0) (\<lambda>floor.
       if floor = None then ret_step None
       else
         then_step (current_pod_name E (cfg_target cfg) (cfg_namespace cfg)) (\<lambda>pod.
           case pod of None \<Rightarrow> ret_step None
           | Some p \<Rightarrow>
               then_step (if no_leak_run E then ret_step True else start_ramp E cfg p) (\<lambda>ok.
                 if \<not> ok then ret_step None else leak_under_load E cfg f p))))"

end
