(* ===== verification/Injector_Main.thy ===== *)
theory Injector_Main
  imports Injector_Capacity
begin

text \<open>
  \<^verbatim>\<open>injector.py\<close>, \<^verbatim>\<open>main\<close>: one run under the system lock, from the arguments to the recorded episode
  or the exit code 1. The tables exist: \<^verbatim>\<open>ensure_db\<close> has nothing to create.
\<close>

text \<open>What a class does; \<open>None\<close> when its effect was not verified.\<close>

definition named_if :: "string \<Rightarrow> bool \<Rightarrow> string option" where
  "named_if name ok = (if ok then Some name else None)"

definition run_injection ::
    "'w inj_env \<Rightarrow> string \<Rightarrow> inject_cfg \<Rightarrow> string \<Rightarrow> string \<Rightarrow> run_files \<Rightarrow> ('w, string option) step" where
  "run_injection E cls cfg ep t0 f =
     (if cls = ''disk-full'' then
        then_step (ensure_queue_master_pod_cleanup E cfg) (\<lambda>_. map_step (named_if ''manual-exec'') (inject_disk_full E cfg f))
      else if cls = ''crash-loop'' then
        then_step (ensure_crash_loop_baseline E) (\<lambda>ok.
          map_step (named_if ''manual-exec'') (if ok then inject_crash_loop E cfg f else ret_step False))
      else if cls = ''network-latency'' then inject_network_latency E cfg ep t0 True f
      else if cls = ''memory-leak'' then
        then_step (ensure_memory_leak_baseline E cfg) (\<lambda>_. inject_memory_leak E cfg ep cls t0 f)
      else if cls = ''connection-pool-exhaustion'' then inject_connection_pool_exhaustion E cfg f
      else if cls = ''network-partition'' then inject_network_partition E cfg ep t0 True f
      else if cls = ''init-failure'' then map_step (named_if ''manual-patch'') (inject_init_failure E cfg f)
      else if cls = ''session-cart-failure'' then map_step (named_if ''manual-scale'') (inject_session_cart_failure E cfg f)
      else if cls = ''cpu-throttling'' then inject_cpu_throttling E cfg f
      else if cls = ''under-provisioned-replicas'' then inject_under_provisioned E cfg f
      else if cls = ''bad-rollout'' then map_step (named_if ''manual-patch'') (inject_bad_rollout E cfg f)
      else if cls = ''oom'' then
        then_step (ensure_catalogue_replica_baseline E cfg) (\<lambda>_.
        then_step (ensure_oom_baseline E cfg) (\<lambda>_. inject_oom E cfg f))
      else res_of (Inl ValueError))"

text \<open>\<^verbatim>\<open>str(uuid.uuid4())\<close> of its 32 digits.\<close>

definition uuid_text :: "string \<Rightarrow> string" where
  "uuid_text u = take 8 u @ ''-'' @ take 4 (drop 8 u) @ ''-'' @ take 4 (drop 12 u) @ ''-'' @ take 4 (drop 16 u) @ ''-'' @ drop 20 u"

record injector_options =
  ia_class :: string
  ia_duration :: "int option"
  ia_episode :: "string option"
  ia_files :: run_files

definition episode_id_of :: "'w inj_env \<Rightarrow> string option \<Rightarrow> ('w, string) step" where
  "episode_id_of E given w =
     (case given of Some ep \<Rightarrow> (Inr ep, w) | None \<Rightarrow> (case ij_uuid E w of (u, w1) \<Rightarrow> (Inr (uuid_text u), w1)))"

definition lock_holder :: "'w inj_env \<Rightarrow> string \<Rightarrow> string \<Rightarrow> string" where
  "lock_holder E cls t0 = ''pid='' @ show_int (ij_pid E) @ '' class='' @ cls @ '' started='' @ t0"

definition locked_run ::
    "'w inj_env \<Rightarrow> string \<Rightarrow> inject_cfg \<Rightarrow> string \<Rightarrow> string \<Rightarrow> run_files \<Rightarrow> ('w, unit) step" where
  "locked_run E cls cfg ep t0 f =
     then_step (clear_stale_oom_sticky_flag E cfg) (\<lambda>_.
     then_step (run_injection E cls cfg ep t0 f) (\<lambda>chaos.
       case chaos of None \<Rightarrow> res_of (Inl (SystemExit 1))
       | Some name \<Rightarrow> record_episode E ep cls cfg name t0))"

text \<open>A class that is not in the table is refused by the parser, with exit code 2.\<close>

definition injector_main :: "'w inj_env \<Rightarrow> injector_options \<Rightarrow> ('w, unit) step" where
  "injector_main E args =
     (case inject_config (ia_class args) of
        None \<Rightarrow> res_of (Inl (SystemExit 2))
      | Some cfg0 \<Rightarrow>
          let cls = ia_class args;
              cfg = (case ia_duration args of None \<Rightarrow> cfg0 | Some d \<Rightarrow> cfg0\<lparr>ic_duration := d\<rparr>) in
          then_step (episode_id_of E (ia_episode args)) (\<lambda>ep.
          then_step (now_of E) (\<lambda>now.
            let t0 = ij_isoformat E now; holder = lock_holder E cls t0 in
            then_step (acquire_system_lock_or_die E holder) (\<lambda>_.
              finally_step (locked_run E cls cfg ep t0 (ia_files args)) (release_system_lock E holder)))))"

end
