(* ===== verification/Injector_Demo.thy ===== *)
theory Injector_Demo
  imports Injector_Main
begin

text \<open>
  A small cluster to run the injector on: a clock, the names of its chaos resources and the two
  tables. Requests from the front-end fail while a chaos resource is there; every other command
  succeeds, and Prometheus has no data.
\<close>

text \<open>The commands of a run are all of \<^verbatim>\<open>kubectl\<close>; only this one creates a chaos resource.\<close>

abbreviation apply_args :: "string list" where
  "apply_args \<equiv> [''apply'', ''-f'', ''-'']"

text \<open>The name a manifest gives its resource: the fifth line.\<close>

definition manifest_name :: "string \<Rightarrow> string" where
  "manifest_name m = drop 8 (py_lines m ! 4)"

definition chaos_deletion :: "string list \<Rightarrow> string option" where
  "chaos_deletion args =
     (case args of [d, kind, name, n, ns] \<Rightarrow> if d = ''delete'' \<and> n = ''-n'' \<and> ns = ''chaos-mesh'' then Some name else None
      | _ \<Rightarrow> None)"

record shop_state =
  cl_time :: int
  cl_chaos :: "string list"
  cl_db :: inj_db

definition demo_run :: "string list \<Rightarrow> string option \<Rightarrow> int option \<Rightarrow> (shop_state, proc) step" where
  "demo_run args i t w =
     (if args = apply_args then
        (Inr \<lparr>pc_code = 0, pc_out = [], pc_err = []\<rparr>,
         case i of None \<Rightarrow> w | Some m \<Rightarrow> w\<lparr>cl_chaos := manifest_name m # cl_chaos w\<rparr>)
      else case chaos_deletion args of
        Some name \<Rightarrow> (Inr \<lparr>pc_code = 0, pc_out = [], pc_err = []\<rparr>, w\<lparr>cl_chaos := filter (\<lambda>n. n \<noteq> name) (cl_chaos w)\<rparr>)
      | None \<Rightarrow>
          (Inr \<lparr>pc_code = (if take 1 args = [''exec''] \<and> cl_chaos w \<noteq> [] then 1 else 0),
                pc_out = (if take 2 args = [''get'', ''pods''] then ''pod-1'' else []), pc_err = []\<rparr>, w))"

definition inj_demo_env :: "shop_state inj_env" where
  "inj_demo_env =
     \<lparr>ij_run = demo_run, ij_query = (\<lambda>_ w. (Inr [], w)), ij_time = cl_time, ij_monotonic = (\<lambda>w. of_int (cl_time w) / 1000000),
      ij_sleep = (\<lambda>us w. w\<lparr>cl_time := cl_time w + max 0 us\<rparr>), ij_exists = (\<lambda>_ _. False), ij_write = (\<lambda>_ w. (Inr (), w)),
      ij_uuid = (\<lambda>w. (''0123456789abcdef0123456789abcdef'', w)), ij_popen = (\<lambda>_ w. (Inr 1, w)),
      ij_feed = (\<lambda>_ _ w. (Inr (), w)), ij_wait = (\<lambda>_ _ w. (Inr (), w)), ij_terminate = (\<lambda>_ w. (Inr (), w)),
      ij_kill = (\<lambda>_ w. (Inr (), w)), ij_sql = (\<lambda>g w. (Inr (cl_db w), w\<lparr>cl_db := g (cl_db w)\<rparr>)),
      ij_loads = (\<lambda>_. Inl ValueError), ij_dumps = (\<lambda>_. []), ij_script = (\<lambda>name _. name), ij_timestamp = show_int,
      ij_isoformat = (\<lambda>_. ''t0''), ij_environ = (\<lambda>_. None), ij_arm64 = False, ij_load_concurrency = 0, ij_pid = 7\<rparr>"

definition inj_demo_cluster :: shop_state where
  "inj_demo_cluster = \<lparr>cl_time = 0, cl_chaos = [], cl_db = \<lparr>ib_episodes = [], ib_holder = None, ib_acquired = None\<rparr>\<rparr>"

definition demo_args :: "string \<Rightarrow> injector_options" where
  "demo_args cls = \<lparr>ia_class = cls, ia_duration = None, ia_episode = Some ''ep-1'', ia_files = \<lparr>rf_stop = None, rf_evidence = None\<rparr>\<rparr>"

end
