(* ===== verification/Injector_Frame.thy ===== *)
theory Injector_Frame
  imports Injector_Demo
begin

text \<open>
  What the injector leaves alone. A relation between the world before and after that is reflexive
  and transitive and that every primitive keeps is kept by every operation made of them; the
  interface is a locale, its lemmas follow the structure of the code.
\<close>

definition keeps :: "('w \<Rightarrow> 'w \<Rightarrow> bool) \<Rightarrow> ('w, 'a) step \<Rightarrow> bool" where
  "keeps R m \<longleftrightarrow> (\<forall>w. R w (snd (m w)))"

lemma keepsD: "keeps R m \<Longrightarrow> m w = (r, w') \<Longrightarrow> R w w'"
  unfolding keeps_def by (metis snd_conv)

lemma keepsI: "(\<And>w r w'. m w = (r, w') \<Longrightarrow> R w w') \<Longrightarrow> keeps R m"
  unfolding keeps_def by (metis prod.collapse)

text \<open>A look at the world.\<close>

definition look :: "('w \<Rightarrow> 'a) \<Rightarrow> ('w, 'a) step" where
  "look g w = (Inr (g w), w)"

section \<open>The loops as sequences of steps\<close>

lemma poll_effect_step:
  "poll_effect E seen limit elapsed =
     (if limit < elapsed then ret_step False
      else then_step seen (\<lambda>b. if b then ret_step True
             else then_step (ij_nap E (seconds_us effect_verify_poll_s)) (\<lambda>_.
               poll_effect E seen limit (elapsed + effect_verify_poll_s))))"
  by (rule ext, subst poll_effect.simps)
    (auto simp: then_step_def ij_nap_def ret_step_def split: prod.splits sum.splits bool.splits)

lemma await_text_step:
  "await_text E args wanted limit waited =
     (if limit \<le> waited then ret_step None
      else then_step (kube_text E args) (\<lambda>t. if wanted t then ret_step (Some t)
             else then_step (ij_nap E (seconds_us 3)) (\<lambda>_. await_text E args wanted limit (waited + 3))))"
  by (rule ext, subst await_text.simps)
    (auto simp: then_step_def ij_nap_def ret_step_def split: prod.splits sum.splits)

lemma poll_oom_step:
  "poll_oom E cfg baseline elapsed =
     (if oom_verify_ceiling_s < elapsed then ret_step False
      else then_step (oom_seen E cfg baseline) (\<lambda>r. case r of Some _ \<Rightarrow> ret_step True
           | None \<Rightarrow> then_step (ij_nap E (seconds_us oom_verify_poll_s)) (\<lambda>_.
               poll_oom E cfg baseline (elapsed + oom_verify_poll_s))))"
  by (rule ext, subst poll_oom.simps)
    (auto simp: then_step_def ij_nap_def ret_step_def split: prod.splits sum.splits option.splits)

lemma crash_loop_rounds_step:
  "crash_loop_rounds (Suc n) E cfg f end_time =
     then_step (look (ij_time E)) (\<lambda>now.
     then_step (stop_now E f) (\<lambda>stop.
       if end_time \<le> now then ret_step False else if stop then ret_step True
       else then_step (current_pod_name E (cfg_target cfg) (cfg_namespace cfg)) (\<lambda>pod.
         case pod of
           None \<Rightarrow> then_step (ij_nap E (seconds_us 2)) (\<lambda>_. crash_loop_rounds n E cfg f end_time)
         | Some p \<Rightarrow>
             then_step (kill_main_process E p (cfg_namespace cfg) (ic_container cfg) (ic_pattern cfg)) (\<lambda>_.
             then_step (ij_nap E (seconds_us crash_loop_kill_interval_s)) (\<lambda>_. crash_loop_rounds n E cfg f end_time)))))"
  by (rule ext)
    (auto simp: then_step_def ij_nap_def ret_step_def look_def stop_now_def split: prod.splits sum.splits option.splits)

lemma disk_full_rounds_step:
  "disk_full_rounds (Suc n) E cfg b since end_time =
     then_step (look (ij_time E)) (\<lambda>now.
       if end_time \<le> now then ret_step ()
       else then_step (disk_fill_pod E cfg b since) (\<lambda>r. case r of
           Inl _ \<Rightarrow> ret_step ()
         | Inr pod \<Rightarrow> (case pod of
             None \<Rightarrow> then_step (ij_nap E (seconds_us 2)) (\<lambda>_. disk_full_rounds n E cfg b since end_time)
           | Some p \<Rightarrow>
               then_step (write_large_file E p (cfg_namespace cfg) (ic_container cfg)) (\<lambda>_.
               then_step (ij_nap E (seconds_us disk_full_fire_interval_s)) (\<lambda>_. disk_full_rounds n E cfg b since end_time)))))"
  by (rule ext)
    (auto simp: then_step_def ij_nap_def ret_step_def look_def split: prod.splits sum.splits option.splits)

lemma await_new_pod_step:
  "await_new_pod (Suc n) E cfg old deadline =
     then_step (look (ij_time E)) (\<lambda>now.
       if deadline \<le> now then ret_step None
       else then_step (ij_nap E (seconds_us 5)) (\<lambda>_.
            then_step (current_pod_name E (cfg_target cfg) (cfg_namespace cfg)) (\<lambda>pod.
              if pod \<noteq> None \<and> pod \<noteq> old then ret_step pod else await_new_pod n E cfg old deadline)))"
  by (rule ext)
    (auto simp: then_step_def ij_nap_def ret_step_def look_def split: prod.splits sum.splits option.splits)

lemma await_mysql_step:
  "await_mysql (Suc n) E cfg pod deadline =
     then_step (look (ij_time E)) (\<lambda>now.
       if deadline \<le> now then ret_step True
       else then_step (ij_run E (mysql_exec cfg pod [''-uroot'', ''-pfake_password'', ''-e'', ''SELECT 1'']) None (Some 15)) (\<lambda>r.
            if pc_code r = 0 then ret_step True
            else then_step (ij_nap E (seconds_us 3)) (\<lambda>_. await_mysql n E cfg pod deadline)))"
  by (rule ext)
    (auto simp: then_step_def ij_nap_def ret_step_def look_def split: prod.splits sum.splits option.splits)

lemma hold_latency_step:
  "hold_latency E cfg ep t0 conn f baseline elapsed verified =
     (if ic_duration cfg \<le> elapsed then ret_step (verified, False)
      else then_step (stop_now E f) (\<lambda>stop.
        if stop then ret_step (verified, True)
        else then_step (ij_nap E (seconds_us 10)) (\<lambda>_.
             then_step (probe_orders_latency_ms E (cfg_namespace cfg)) (\<lambda>during.
             if (case during of None \<Rightarrow> False | Some ms \<Rightarrow> py_float (baseline + network_latency_min_increase_ms) \<le> ms)
             then then_step (if verified then ret_step () else confirm_latency E cfg ep t0 conn f) (\<lambda>_.
                  hold_latency E cfg ep t0 conn f baseline (elapsed + 10) True)
             else hold_latency E cfg ep t0 conn f baseline (elapsed + 10) verified))))"
  by (rule ext, subst hold_latency.simps)
    (simp add: then_step_def ij_nap_def ret_step_def stop_now_def split: prod.split sum.split)

lemma hold_ticks_step:
  "hold_ticks E f (Suc n) =
     then_step (stop_now E f) (\<lambda>stop.
       if stop then ret_step True else then_step (ij_nap E (seconds_us 10)) (\<lambda>_. hold_ticks E f n))"
  by (rule ext) (simp add: then_step_def ij_nap_def ret_step_def stop_now_def)

lemma hold_cpu_live_step:
  "hold_cpu_live (Suc n) E cfg f pod baseline written =
     then_step (stop_now E f) (\<lambda>stop.
       if stop then ret_step written
       else if written \<or> rf_evidence f = None
       then then_step (ij_nap E (seconds_us 10)) (\<lambda>_. hold_cpu_live n E cfg f pod baseline written)
       else then_step (cfs_throttled_periods_for_pod E pod (cfg_namespace cfg) (ic_container cfg)) (\<lambda>now.
            if cpu_throttle_min_periods_increase \<le> now - baseline
            then then_step (write_evidence_file_once E (rf_evidence f)) (\<lambda>_.
                 then_step (ij_nap E (seconds_us 10)) (\<lambda>_. hold_cpu_live n E cfg f pod baseline True))
            else then_step (ij_nap E (seconds_us 10)) (\<lambda>_. hold_cpu_live n E cfg f pod baseline False)))"
  by (rule ext) (simp add: then_step_def ij_nap_def ret_step_def stop_now_def split: prod.split sum.split)

lemma hold_oom_step:
  "hold_oom E cfg f baseline written elapsed =
     (if ic_duration cfg \<le> elapsed then ret_step written
      else then_step (stop_now E f) (\<lambda>stop.
        if stop then ret_step written
        else then_step (oom_seen E cfg baseline) (\<lambda>r. case r of
            None \<Rightarrow> then_step (ij_nap E (seconds_us oom_verify_poll_s)) (\<lambda>_.
                      hold_oom E cfg f baseline written (elapsed + oom_verify_poll_s))
          | Some p \<Rightarrow>
              then_step (if written then ret_step () else write_evidence_file_once E (rf_evidence f)) (\<lambda>_.
              then_step (pod_restart_count_direct E p (cfg_namespace cfg) (ic_container cfg)) (\<lambda>n.
              then_step (ij_nap E (seconds_us oom_verify_poll_s)) (\<lambda>_.
                hold_oom E cfg f n True (elapsed + oom_verify_poll_s)))))))"
  by (rule ext, subst hold_oom.simps)
    (simp add: then_step_def ij_nap_def ret_step_def stop_now_def split: prod.split sum.split option.split)

lemma hold_under_provisioned_step:
  "hold_under_provisioned E cfg f sampler written elapsed =
     (if ic_duration cfg \<le> elapsed then ret_step (written, False)
      else then_step (stop_now E f) (\<lambda>stop.
        if stop then ret_step (written, True)
        else then_step (if written then ret_step False
                        else sampler_confirmed_real_degradation E (cfg_namespace cfg) sampler) (\<lambda>seen.
             then_step (if seen then write_evidence_file_once E (rf_evidence f) else ret_step ()) (\<lambda>_.
             then_step (ij_nap E (seconds_us 5)) (\<lambda>_.
               hold_under_provisioned E cfg f sampler (written \<or> seen) (elapsed + 5))))))"
  by (rule ext, subst hold_under_provisioned.simps)
    (simp add: then_step_def ij_nap_def ret_step_def stop_now_def split: prod.split sum.split)

lemma hold_leak_step:
  "hold_leak E cfg f baseline elapsed =
     (if ic_duration cfg \<le> elapsed then ret_step False
      else then_step (stop_now E f) (\<lambda>stop.
        if stop then ret_step False
        else then_step (ij_nap E (seconds_us (min 5 (ic_duration cfg - elapsed)))) (\<lambda>_.
             then_step (inj_restart_count E (cfg_target cfg) (cfg_namespace cfg)) (\<lambda>n.
             if baseline < n then ret_step True
             else hold_leak E cfg f baseline (elapsed + min 5 (ic_duration cfg - elapsed))))))"
  by (rule ext, subst hold_leak.simps)
    (simp add: then_step_def ij_nap_def ret_step_def stop_now_def Let_def split: prod.split sum.split)

lemma acquire_from_step:
  "acquire_from E holder waited =
     then_step (acquire_system_lock E holder) (\<lambda>ok.
       if ok then ret_step ()
       else if system_lock_max_wait_s \<le> waited then res_of (Inl (SystemExit 1))
       else then_step (ij_nap E (seconds_us system_lock_retry_s)) (\<lambda>_. acquire_from E holder (waited + system_lock_retry_s)))"
  by (rule ext, subst acquire_from.simps)
    (simp add: then_step_def ij_nap_def ret_step_def res_of_def split: prod.split sum.split bool.split)

section \<open>Composition\<close>

locale world_order =
  fixes R :: "'w \<Rightarrow> 'w \<Rightarrow> bool"
  assumes same: "R w w"
    and later: "R u v \<Longrightarrow> R v w \<Longrightarrow> R u w"
begin

lemma keeps_ret: "keeps R (ret_step a)"
  by (rule keepsI) (auto simp: same)

lemma keeps_res: "keeps R (res_of r)"
  by (rule keepsI) (auto simp: res_of_def same)

lemma keeps_then:
  assumes "keeps R m" "\<And>a. keeps R (f a)"
  shows "keeps R (then_step m f)"
  by (rule keepsI) (use assms in \<open>auto simp: then_step_def intro: later dest!: keepsD split: prod.splits sum.splits\<close>)

lemma keeps_map: "keeps R m \<Longrightarrow> keeps R (map_step g m)"
  unfolding map_step_def by (rule keeps_then) (auto intro: keeps_ret)

lemma keeps_finally_with:
  assumes "keeps R m" "\<And>r. keeps R (c r)"
  shows "keeps R (finally_with m c)"
  by (rule keepsI) (use assms in \<open>auto simp: finally_with_def intro: later dest!: keepsD split: prod.splits sum.splits\<close>)

lemma keeps_finally: "keeps R m \<Longrightarrow> keeps R c \<Longrightarrow> keeps R (finally_step m c)"
  by (rule keepsI) (auto simp: finally_step_def intro: later dest!: keepsD split: prod.splits sum.splits)

lemma keeps_except: "keeps R m \<Longrightarrow> keeps R h \<Longrightarrow> keeps R (except_step caught m h)"
  by (rule keepsI) (auto simp: except_step_def intro: later dest!: keepsD split: prod.splits sum.splits if_splits)

lemma keeps_ignore: "keeps R m \<Longrightarrow> keeps R (ignore_errors m)"
  unfolding ignore_errors_def by (intro keeps_except keeps_ret)

lemma keeps_attempts: "keeps R body \<Longrightarrow> keeps R (attempts n body x)"
  by (induction n) (auto intro!: keeps_ret keeps_then split: option.splits)

lemma keeps_all_attempts: "keeps R m \<Longrightarrow> keeps R (all_attempts n m)"
  by (induction n) (auto intro!: keeps_ret keeps_then keeps_map)

lemma keeps_if: "(b \<Longrightarrow> keeps R m) \<Longrightarrow> (\<not> b \<Longrightarrow> keeps R n) \<Longrightarrow> keeps R (if b then m else n)"
  by simp

lemma keeps_option: "keeps R m \<Longrightarrow> (\<And>a. keeps R (f a)) \<Longrightarrow> keeps R (case x of None \<Rightarrow> m | Some a \<Rightarrow> f a)"
  by (cases x) auto

lemma keeps_list: "keeps R m \<Longrightarrow> (\<And>a as. keeps R (f a as)) \<Longrightarrow> keeps R (case x of [] \<Rightarrow> m | a # as \<Rightarrow> f a as)"
  by (cases x) auto

lemma keeps_sum: "(\<And>a. keeps R (f a)) \<Longrightarrow> (\<And>b. keeps R (g b)) \<Longrightarrow> keeps R (case x of Inl a \<Rightarrow> f a | Inr b \<Rightarrow> g b)"
  by (cases x) auto

lemma keeps_pair: "(\<And>a b. keeps R (f a b)) \<Longrightarrow> keeps R (case x of (a, b) \<Rightarrow> f a b)"
  by (cases x) auto

lemma keeps_let: "keeps R (f x) \<Longrightarrow> keeps R (let y = x in f y)"
  by simp

lemmas keeps_struct = keeps_ret keeps_res keeps_then keeps_map keeps_finally keeps_finally_with keeps_except keeps_ignore
  keeps_attempts keeps_all_attempts keeps_if keeps_option keeps_list keeps_sum keeps_pair keeps_let

lemma keeps_foldr:
  assumes "\<And>x. x \<in> set xs \<Longrightarrow> keeps R (g x)"
  shows "keeps R (foldr (\<lambda>x rest. then_step (g x) (\<lambda>_. rest)) xs (ret_step ()))"
  using assms by (induction xs) (auto intro!: keeps_ret keeps_then)

end

section \<open>An environment whose primitives keep the relation\<close>

locale quiet_env = world_order R for R :: "'w \<Rightarrow> 'w \<Rightarrow> bool" +
  fixes E :: "'w inj_env"
  assumes run: "args \<noteq> apply_args \<Longrightarrow> keeps R (ij_run E args i t)"
    and query: "keeps R (ij_query E q)"
    and sleep: "R w (ij_sleep E us w)"
    and writing: "keeps R (ij_write E file)"
    and uuid: "R w (snd (ij_uuid E w))"
    and popen: "keeps R (ij_popen E args)"
    and feed: "keeps R (ij_feed E p text)"
    and wait: "keeps R (ij_wait E p us)"
    and terminate: "keeps R (ij_terminate E p)"
    and kill: "keeps R (ij_kill E p)"
begin

lemma keeps_nap: "keeps R (ij_nap E us)"
  by (rule keepsI) (auto simp: ij_nap_def sleep)

lemma keeps_now: "keeps R (now_of E)"
  by (rule keepsI) (auto simp: now_of_def same)

lemma keeps_uuid8: "keeps R (uuid8 E)"
  unfolding keeps_def by (metis (no_types, lifting) uuid uuid8_def case_prod_conv prod.collapse snd_conv)

lemma keeps_kube: "args \<noteq> apply_args \<Longrightarrow> keeps R (kube_run E args)"
  by (simp add: kube_run_def run)

lemma keeps_kube_do: "args \<noteq> apply_args \<Longrightarrow> keeps R (kube_do E args)"
  by (simp add: kube_do_def keeps_map keeps_kube)

lemma keeps_kube_text: "args \<noteq> apply_args \<Longrightarrow> keeps R (kube_text E args)"
  by (simp add: kube_text_def keeps_map keeps_kube)

lemmas keeps_prims = run query writing popen feed wait terminate kill keeps_nap keeps_now keeps_uuid8
  keeps_kube keeps_kube_do keeps_kube_text

lemmas keeps_rules = keeps_struct keeps_prims

section \<open>The operations\<close>

lemma keeps_pod_name: "keeps R (current_pod_name E target ns)"
  unfolding current_pod_name_def by (intro keeps_rules) simp

lemma keeps_base:
  "keeps R (write_large_file E pod ns container)"
  "keeps R (kill_main_process E pod ns container pattern)"
  "keeps R (cleanup_disk_full_files E target ns container)"
  "keeps R (kill_pod_now E ns pod)"
  "keeps R (rollout_status E target ns limit)"
  "keeps R (patch_template E target ns body)"
  "keeps R (deployment_field E target ns path)"
  "keeps R (scale_to E target ns n)"
  unfolding write_large_file_def kill_main_process_def cleanup_disk_full_files_def kill_pod_now_def rollout_status_def
    patch_template_def deployment_field_def scale_to_def exec_sh_def
  by (intro keeps_rules keeps_pod_name; simp)+

lemma keeps_rollout: "keeps R (wait_rollout E target ns limit)"
  unfolding wait_rollout_def by (intro keeps_rules keeps_base)

lemma keeps_queries:
  "keeps R (count_query E q)" "keeps R (any_query E q)" "keeps R (inj_restart_count E target ns)"
  "keeps R (cfs_throttled_periods E target ns container)" "keeps R (cfs_throttled_periods_for_pod E pod ns container)"
  "keeps R (inj_crash_loop_backoff_now E target ns)" "keeps R (pod_evicted_since E target ns since)"
  "keeps R (front_end_image_pull_failing E ns)" "keeps R (payment_stuck_not_ready E ns)"
  "keeps R (replicas_available E ns target)"
  unfolding count_query_def any_query_def inj_restart_count_def cfs_throttled_periods_def cfs_throttled_periods_for_pod_def
    inj_crash_loop_backoff_now_def pod_evicted_since_def front_end_image_pull_failing_def payment_stuck_not_ready_def
    replicas_available_def
  by (intro keeps_rules)+

lemma keeps_look: "keeps R (look g)"
  by (rule keepsI) (auto simp: look_def same)

lemma keeps_stop: "keeps R (stop_now E f)"
  by (rule keepsI) (auto simp: stop_now_def same)

lemma keeps_poll:
  assumes "keeps R seen"
  shows "keeps R (poll_effect E seen limit elapsed)"
proof (induction "nat (limit + 1 - elapsed)" arbitrary: elapsed rule: less_induct)
  case less
  show ?case
    by (subst poll_effect_step) (intro keeps_rules assms less; simp add: effect_verify_poll_s_def)
qed

lemma keeps_seen:
  "keeps R (more_restarts E target ns n)" "keeps R (crash_loop_seen E target ns n)"
  "keeps R (disk_full_seen E target ns since pod)"
  unfolding more_restarts_def crash_loop_seen_def disk_full_seen_def
  by (intro keeps_rules keeps_queries keeps_pod_name)+

lemma keeps_verify:
  "keeps R (verify_crash_loop_effect E target ns n)" "keeps R (verify_restart_effect E target ns n)"
  "keeps R (verify_disk_full_effect E target ns since pod)" "keeps R (verify_bad_rollout_effect E ns)"
  "keeps R (verify_init_failure_effect E ns)" "keeps R (verify_cpu_throttle_effect E target ns container n)"
  "keeps R (verify_cpu_throttle_effect_for_pod E p ns container n)"
  "keeps R (wait_for_replicas_available E ns target k limit)"
  unfolding verify_crash_loop_effect_def verify_restart_effect_def verify_disk_full_effect_def verify_bad_rollout_effect_def
    verify_init_failure_effect_def verify_cpu_throttle_effect_def verify_cpu_throttle_effect_for_pod_def verify_effect_def
    wait_for_replicas_available_def
  by (intro keeps_poll keeps_rules keeps_seen keeps_queries)+

lemma sleep_kept: "R w (snd (interruptible_sleep E rest stop_file w))"
proof (induction "nat rest" arbitrary: rest w rule: less_induct)
  case less
  have go: "R w (snd (interruptible_sleep E (rest - min (seconds_us 5) rest) stop_file (ij_sleep E (min (seconds_us 5) rest) w)))"
    if "0 < rest"
    by (rule later[OF sleep less]) (use that in \<open>simp add: seconds_us_def\<close>)
  show ?case
    by (subst interruptible_sleep.simps) (use go same in \<open>simp add: Let_def\<close>)
qed

lemma keeps_hold: "keeps R (hold_rest E rest stop_file)" "keeps R (hold_window E duration start f)"
proof -
  show rest: "keeps R (hold_rest E rest stop_file)" for rest stop_file
    by (rule keepsI) (auto simp: hold_rest_def sleep_kept)
  show "keeps R (hold_window E duration start f)"
    unfolding hold_window_def by (intro keeps_rules rest)
qed

lemma keeps_evidence: "keeps R (write_evidence_file_once E f)"
  unfolding write_evidence_file_once_def by (intro keeps_rules)

lemma keeps_latency_samples: "args \<noteq> apply_args \<Longrightarrow> keeps R (latency_samples E args n)"
proof (induction n)
  case 0
  show ?case by (rule keepsI) (auto simp: same)
next
  case (Suc n)
  note one = keepsD[OF run[OF Suc.prems]] and rest = Suc.IH[OF Suc.prems]
  show ?case
  proof (rule keepsI)
    fix w r w'
    assume run_it: "latency_samples E args (Suc n) w = (r, w')"
    obtain x u where u: "ij_run E args None (Some (front_end_exec_timeout_s + 5)) w = (x, u)" by fastforce
    have "R u w'"
      using run_it u keepsD[OF rest] keepsD[OF keeps_map[OF rest]] same
      by (auto split: sum.splits if_splits)
    then show "R w w'" using one[OF u] later by blast
  qed
qed

lemma keeps_probes: "keeps R (probe_orders_latency_ms E ns)" "keeps R (probe_frontend_connectivity E ns)"
proof -
  have one: "keeps R (one_attempt E args)" if "args \<noteq> apply_args" for args
    by (rule keepsI) (use keepsD[OF run[OF that]] in \<open>auto simp: one_attempt_def split: prod.splits sum.splits if_splits\<close>)
  show "keeps R (probe_orders_latency_ms E ns)"
    unfolding probe_orders_latency_ms_def by (intro keeps_rules keeps_pod_name keeps_latency_samples) simp
  show "keeps R (probe_frontend_connectivity E ns)"
    unfolding probe_frontend_connectivity_def by (intro keeps_rules keeps_pod_name one) simp
qed

section \<open>The baselines\<close>

lemma keeps_surge: "keeps R (restore_surge E cfg)"
  unfolding restore_surge_def by (intro keeps_rules keeps_base)

lemma keeps_oom_baseline: "keeps R (ensure_oom_baseline E cfg)"
  unfolding ensure_oom_baseline_def by (intro keeps_rules keeps_base keeps_rollout keeps_surge)

lemma keeps_sticky: "keeps R (clear_stale_oom_sticky_flag E cfg)"
  unfolding clear_stale_oom_sticky_flag_def by (intro keeps_rules keeps_queries keeps_rollout) simp

lemma keeps_queue_master: "keeps R (ensure_queue_master_pod_cleanup E cfg)"
  unfolding ensure_queue_master_pod_cleanup_def delete_all_def
  by (intro keeps_rules keeps_pod_name keeps_foldr; simp)

lemma keeps_carts: "keeps R (carts_pod_ready E)" "keeps R (carts_selector E)" "keeps R (ensure_crash_loop_baseline E)"
proof -
  show ready: "keeps R (carts_pod_ready E)"
    unfolding carts_pod_ready_def by (intro keeps_rules) simp
  show sel: "keeps R (carts_selector E)"
    unfolding carts_selector_def by (intro keeps_rules) simp
  show "keeps R (ensure_crash_loop_baseline E)"
    unfolding ensure_crash_loop_baseline_def by (intro keeps_rules ready sel; simp)
qed

lemma keeps_cpu_baseline: "keeps R (ensure_cpu_throttle_baseline E cfg)"
  unfolding ensure_cpu_throttle_baseline_def resize_pod_def Let_def
  by (intro keeps_rules keeps_pod_name keeps_base keeps_rollout; simp)

lemma keeps_replica_baseline: "keeps R (ensure_catalogue_replica_baseline E cfg)"
  unfolding ensure_catalogue_replica_baseline_def by (intro keeps_rules keeps_base keeps_rollout)

lemma keeps_front_end: "keeps R (patch_front_end_image E cfg img)" "keeps R (ensure_front_end_image_baseline E cfg)"
  unfolding ensure_front_end_image_baseline_def patch_front_end_image_def
  by (intro keeps_rules keeps_base keeps_rollout)+

lemma keeps_payment: "keeps R (patch_payment_readiness_path E cfg path)" "keeps R (restore_init_failure E cfg wait')"
  "keeps R (ensure_init_failure_baseline E cfg)"
  unfolding restore_init_failure_def ensure_init_failure_baseline_def patch_payment_readiness_path_def
  by (intro keeps_rules keeps_base keeps_rollout)+

lemma keeps_session: "keeps R (scale_deployment_to E cfg n)" "keeps R (await_replicas E cfg n)"
  "keeps R (ensure_session_failure_baseline E cfg)"
  unfolding ensure_session_failure_baseline_def scale_deployment_to_def await_replicas_def
  by (intro keeps_rules keeps_base keeps_verify keeps_queries)+

lemma keeps_await_text: "args \<noteq> apply_args \<Longrightarrow> keeps R (await_text E args wanted limit waited)"
proof (induction "nat (limit - waited)" arbitrary: waited rule: less_induct)
  case less
  show ?case
    by (subst await_text_step) (intro keeps_rules less; use less.prems in simp)
qed

lemma keeps_user_probes:
  "keeps R (patch_user_probes E cfg a b)" "keeps R (restore_user_probes E cfg)" "keeps R (ensure_cpu_throttle_probe_baseline E cfg)"
  "keeps R (wait_for_fresh_user_pod E cfg old limit)" "keeps R (loosen_user_probes_for_fault E cfg)"
proof -
  show patch: "keeps R (patch_user_probes E cfg a b)" for a b
    unfolding patch_user_probes_def by (rule keeps_base)
  show restore: "keeps R (restore_user_probes E cfg)"
    unfolding restore_user_probes_def by (rule patch)
  show "keeps R (ensure_cpu_throttle_probe_baseline E cfg)"
    unfolding ensure_cpu_throttle_probe_baseline_def get_user_probe_field_def
    by (intro keeps_rules keeps_base keeps_rollout restore)
  show fresh: "keeps R (wait_for_fresh_user_pod E cfg old limit)" for old limit
    unfolding wait_for_fresh_user_pod_def by (intro keeps_rules keeps_await_text; simp)
  show "keeps R (loosen_user_probes_for_fault E cfg)"
    unfolding loosen_user_probes_for_fault_def by (intro keeps_rules keeps_pod_name keeps_base patch fresh)
qed

lemma keeps_agent: "keeps R (leak_agent_send_cmd E pod ns container cmd)" "keeps R (leak_agent_read_status E pod ns container)"
  unfolding leak_agent_send_cmd_def leak_agent_read_status_def exec_sh_def by (intro keeps_rules; simp)+

lemma keeps_leak_baseline: "keeps R (ensure_memory_leak_baseline E cfg)"
proof -
  have clean: "keeps R (await_clean E pod cfg n)" for pod n
    by (induction n) (auto intro!: keeps_rules keeps_agent)
  have drained: "keeps R (await_drained E pod cfg n)" for pod n
    by (induction n) (auto intro!: keeps_rules keeps_agent)
  show ?thesis
    unfolding ensure_memory_leak_baseline_def by (intro keeps_rules keeps_pod_name keeps_agent clean drained)
qed

section \<open>The injections that apply no manifest\<close>

lemma keeps_crash_loop: "keeps R (inject_crash_loop E cfg f)"
proof -
  have rounds: "keeps R (crash_loop_rounds n E cfg f t)" for n t
  proof (induction n)
    case 0
    show ?case by (rule keepsI) (auto simp: same split: if_splits)
  next
    case (Suc n)
    show ?case
      unfolding crash_loop_rounds_step by (intro keeps_rules keeps_look keeps_stop keeps_pod_name keeps_base Suc)
  qed
  have run: "keeps R (run_crash_loop_injection E cfg f)"
    by (rule keepsI) (use keepsD[OF rounds] in \<open>auto simp: run_crash_loop_injection_def\<close>)
  show ?thesis
    unfolding inject_crash_loop_def by (intro keeps_rules keeps_queries keeps_verify run)
qed

lemma keeps_disk_full: "keeps R (inject_disk_full E cfg f)"
proof -
  have pod: "keeps R (disk_fill_pod E cfg b since)" for b since
    unfolding disk_fill_pod_def disk_fill_goes_on_def by (intro keeps_rules keeps_pod_name keeps_queries)
  have rounds: "keeps R (disk_full_rounds n E cfg b since t)" for n b since t
  proof (induction n)
    case 0
    show ?case by (rule keepsI) (auto simp: same split: if_splits)
  next
    case (Suc n)
    show ?case
      unfolding disk_full_rounds_step by (intro keeps_rules keeps_look pod keeps_base Suc)
  qed
  have run: "keeps R (run_disk_full_injection E cfg b since)" for b since
    by (rule keepsI) (use keepsD[OF rounds] in \<open>auto simp: run_disk_full_injection_def\<close>)
  show ?thesis
    unfolding inject_disk_full_def
    by (intro keeps_rules keeps_pod_name keeps_verify keeps_base keeps_evidence run)
qed

lemma keeps_patched:
  "keeps R (inject_bad_rollout E cfg f)" "keeps R (inject_init_failure E cfg f)" "keeps R (inject_session_cart_failure E cfg f)"
  unfolding inject_bad_rollout_def inject_init_failure_def inject_session_cart_failure_def
  by (intro keeps_rules keeps_front_end keeps_payment keeps_session keeps_verify keeps_evidence keeps_hold)+

lemma keeps_launch: "keeps R (launch_k6 E pre ns script)"
  unfolding launch_k6_def by (intro keeps_rules)

lemma keeps_wait_or_kill: "keeps R (wait_or_kill E p limit)"
  unfolding wait_or_kill_def by (intro keeps_rules)

lemma keeps_under_provisioned: "keeps R (inject_under_provisioned E cfg f)"
proof -
  have sampler: "keeps R (sampler_confirmed_real_degradation E ns pod)" for ns pod
    unfolding sampler_confirmed_real_degradation_def by (intro keeps_rules) simp
  have hold: "keeps R (hold_under_provisioned E cfg f pod written elapsed)" for pod written elapsed
  proof (induction "nat (ic_duration cfg - elapsed)" arbitrary: written elapsed rule: less_induct)
    case less
    show ?case
      by (subst hold_under_provisioned_step) (intro keeps_rules keeps_stop sampler keeps_evidence less; simp)
  qed
  have batch: "keeps R (under_provisioned_batch E cfg)"
    unfolding under_provisioned_batch_def catalogue_burst_p95_ms_def k6_pod_args_def by (intro keeps_rules; simp)
  have start: "keeps R (launch_catalogue_live_sampler E ns d)" "keeps R (launch_sustained_catalogue_burst E ns vus d)" for ns d vus
    unfolding launch_catalogue_live_sampler_def launch_sustained_catalogue_burst_def by (intro keeps_rules keeps_launch; simp)+
  have live: "keeps R (under_provisioned_live E cfg f)"
    unfolding under_provisioned_live_def under_provisioned_block_def cleanup_under_provisioned_def
    by (intro keeps_rules start hold sampler keeps_base keeps_wait_or_kill)
  show ?thesis
    unfolding inject_under_provisioned_def by (intro keeps_rules keeps_replica_baseline keeps_oom_baseline batch live)
qed

lemma keeps_connection_pool: "keeps R (inject_connection_pool_exhaustion E cfg f)"
proof -
  have flood: "keeps R (flood_connections E cfg)"
    unfolding flood_connections_def ensure_flood_user_def compute_flood_target_def get_catalogue_db_threads_connected_def
      mysql_exec_def exec_sh_def by (intro keeps_rules keeps_pod_name; simp)
  have pod: "keeps R (await_new_pod n E cfg old t)" for n old t
  proof (induction n)
    case 0
    show ?case by (rule keepsI) (auto simp: same split: if_splits)
  next
    case (Suc n)
    show ?case unfolding await_new_pod_step by (intro keeps_rules keeps_look keeps_pod_name Suc)
  qed
  have mysql: "keeps R (await_mysql n E cfg p t)" for n p t
  proof (induction n)
    case 0
    show ?case by (rule keepsI) (auto simp: same split: if_splits)
  next
    case (Suc n)
    show ?case unfolding await_mysql_step mysql_exec_def by (intro keeps_rules keeps_look Suc; simp)
  qed
  have restart: "keeps R (restart_catalogue_db_pod E cfg limit)" for limit
    unfolding restart_catalogue_db_pod_def by (intro keeps_rules keeps_pod_name pod mysql; simp)
  have hold: "keeps R (hold_flood E cfg f)"
    unfolding hold_flood_def test_connection_fails_def mysql_exec_def
    by (intro keeps_rules keeps_pod_name keeps_evidence keeps_hold; simp)
  have clean: "keeps R (cleanup_connection_flood E cfg)"
    unfolding cleanup_connection_flood_def by (intro keeps_rules keeps_pod_name; simp)
  show ?thesis
    unfolding inject_connection_pool_exhaustion_def by (intro keeps_rules flood restart hold clean)
qed

lemma keeps_oom_parts:
  "keeps R (pod_restart_count_direct E pod ns container)" "keeps R (oom_seen E cfg n)" "keeps R (poll_oom E cfg n elapsed)"
proof -
  show count: "keeps R (pod_restart_count_direct E pod ns container)" for pod ns container
    unfolding pod_restart_count_direct_def by (intro keeps_rules; simp)
  show seen: "keeps R (oom_seen E cfg n)"
    unfolding oom_seen_def pod_oom_killed_def by (intro keeps_rules keeps_pod_name count; simp)
  show "keeps R (poll_oom E cfg n elapsed)"
  proof (induction "nat (oom_verify_ceiling_s + 1 - elapsed)" arbitrary: elapsed rule: less_induct)
    case less
    show ?case by (subst poll_oom_step) (intro keeps_rules seen less; simp add: oom_verify_poll_s_def)
  qed
qed

lemma keeps_oom_live: "keeps R (inject_oom_live E cfg f)"
proof -
  have hold: "keeps R (hold_oom E cfg f n written elapsed)" for n written elapsed
  proof (induction "nat (ic_duration cfg - elapsed)" arbitrary: n written elapsed rule: less_induct)
    case less
    show ?case
      by (subst hold_oom_step)
        (intro keeps_rules keeps_stop keeps_oom_parts keeps_evidence less; simp add: oom_verify_poll_s_def)
  qed
  have pod: "keeps R (await_replacement E cfg old n)" for old n
    by (induction n) (auto intro!: keeps_rules)
  show ?thesis
    unfolding inject_oom_live_def Let_def
    by (intro keeps_rules keeps_pod_name keeps_base pod keeps_oom_parts hold)
qed

lemma keeps_leak_load: "keeps R (leak_under_load E cfg f pod)"
proof -
  have hold: "keeps R (hold_leak E cfg f n elapsed)" for n elapsed
  proof (induction "nat (ic_duration cfg - elapsed)" arbitrary: elapsed rule: less_induct)
    case less
    show ?case by (subst hold_leak_step) (intro keeps_rules keeps_stop keeps_queries less; simp)
  qed
  have launch: "keeps R (launch_checkout_load_burst E ns n d)" for ns n d
    unfolding launch_checkout_load_burst_def by (intro keeps_rules)
  show ?thesis
    unfolding leak_under_load_def cleanup_leak_def reap_load_def
    by (intro keeps_rules launch keeps_agent keeps_evidence keeps_queries hold; simp)
qed

lemma keeps_ramp: "keeps R (start_ramp E cfg pod)"
proof -
  have ramp: "keeps R (await_ramp E cfg pod n)" for n
    by (induction n) (auto intro!: keeps_rules keeps_agent)
  have sat: "keeps R (await_saturation E cfg pod n)" for n
    by (induction n) (auto intro!: keeps_rules keeps_agent)
  show ?thesis unfolding start_ramp_def by (intro keeps_rules keeps_agent ramp sat)
qed

lemma keeps_agent_floor: "keeps R (agent_floor_kb E cfg)"
  unfolding agent_floor_kb_def by (intro keeps_rules keeps_pod_name keeps_agent)

lemma keeps_delete: "keeps R (delete_chaos_resource E kind name)"
  unfolding delete_chaos_resource_def by (intro keeps_rules) simp

lemma keeps_chaos_name: "keeps R (chaos_name E cfg mid)"
  unfolding chaos_name_def by (intro keeps_rules)

lemma keeps_ticks: "keeps R (hold_ticks E f n)"
proof (induction n)
  case 0
  show ?case by (rule keepsI) (auto simp: same)
next
  case (Suc n)
  show ?case unfolding hold_ticks_step by (intro keeps_rules keeps_stop Suc)
qed

lemma keeps_cpu_hold: "keeps R (cpu_live_hold E cfg f pod n)"
proof -
  have hold: "keeps R (hold_cpu_live k E cfg f pod n written)" for k written
  proof (induction k arbitrary: written)
    case 0
    show ?case by (rule keepsI) (auto simp: same)
  next
    case (Suc k)
    show ?case unfolding hold_cpu_live_step by (intro keeps_rules keeps_stop keeps_queries keeps_evidence Suc)
  qed
  show ?thesis unfolding cpu_live_hold_def by (intro keeps_rules hold keeps_verify)
qed

lemma keeps_login: "keeps R (ensure_cpu_throttle_login_user_exists E cfg)"
  "keeps R (launch_cpu_throttle_login_load E ns target n d)"
  unfolding ensure_cpu_throttle_login_user_exists_def launch_cpu_throttle_login_load_def
  by (intro keeps_rules keeps_launch; simp)+

lemma keeps_cpu_cleanup: "keeps R (cleanup_cpu_live E cfg name load)"
  unfolding cleanup_cpu_live_def by (intro keeps_rules keeps_delete keeps_base keeps_wait_or_kill keeps_user_probes)

end

section \<open>With the database\<close>

text \<open>\<open>allowed\<close> are the transactions that keep the relation.\<close>

locale quiet_store = quiet_env +
  fixes allowed :: "(inj_db \<Rightarrow> inj_db) \<Rightarrow> bool"
  assumes sql: "allowed g \<Longrightarrow> keeps R (ij_sql E g)"
begin

lemma keeps_record: "allowed (put_episode ep cls cfg chaos t0) \<Longrightarrow> keeps R (record_episode E ep cls cfg chaos t0)"
  unfolding record_episode_def by (intro keeps_rules sql)

lemma keeps_persist:
  "(\<And>p. allowed (put_probe ep cls cfg t0 p)) \<Longrightarrow> keeps R (persist_network_probe E ep cls cfg t0 probe)"
  unfolding persist_network_probe_def by (intro keeps_rules sql)

lemma keeps_capture:
  "(\<And>kb. allowed (put_heap ep cls cfg t0 kb)) \<Longrightarrow> keeps R (capture_memory_leak_baseline E ep cls cfg t0)"
  unfolding capture_memory_leak_baseline_def by (intro keeps_rules sql keeps_agent_floor)

lemma keeps_acquire:
  assumes "\<And>now. allowed (take_lock holder now)"
  shows "keeps R (acquire_system_lock_or_die E holder)"
proof -
  have once: "keeps R (acquire_system_lock E holder)"
    by (rule keepsI) (use keepsD[OF keeps_map[OF sql[OF assms]]] in \<open>auto simp: acquire_system_lock_def\<close>)
  have "keeps R (acquire_from E holder waited)" for waited
  proof (induction "nat (system_lock_max_wait_s - waited)" arbitrary: waited rule: less_induct)
    case less
    show ?case by (subst acquire_from_step) (intro keeps_rules once less; simp add: system_lock_retry_s_def)
  qed
  then show ?thesis unfolding acquire_system_lock_or_die_def by simp
qed

lemma keeps_release: "allowed (drop_lock holder) \<Longrightarrow> keeps R (release_system_lock E holder)"
  unfolding release_system_lock_def by (intro keeps_rules sql)

lemma keeps_memory_leak:
  "(\<And>kb. allowed (put_heap ep cls cfg t0 kb)) \<Longrightarrow> keeps R (inject_memory_leak E cfg ep cls t0 f)"
  unfolding inject_memory_leak_def by (intro keeps_rules keeps_capture keeps_pod_name keeps_ramp keeps_leak_load)

lemma keeps_hold_latency:
  assumes "\<And>p. allowed (put_probe ep ''network-latency'' cfg t0 p)"
  shows "keeps R (hold_latency E cfg ep t0 conn f b elapsed verified)"
proof (induction "nat (ic_duration cfg - elapsed)" arbitrary: elapsed verified rule: less_induct)
  case less
  show ?case
    by (subst hold_latency_step, unfold confirm_latency_def)
      (intro keeps_rules keeps_stop keeps_probes keeps_evidence keeps_persist assms less; simp)
qed

lemma keeps_hold_partition:
  "(\<And>p. allowed (put_probe ep ''network-partition'' cfg t0 p)) \<Longrightarrow> keeps R (hold_partition E cfg ep t0 conn f start)"
  unfolding hold_partition_def by (intro keeps_rules keeps_probes keeps_evidence keeps_persist keeps_hold)

end

section \<open>With the chaos resources\<close>

locale quiet_cluster = quiet_store +
  assumes applying: "keeps R (ij_run E apply_args i t)"
begin

lemma keeps_apply: "keeps R (apply_manifest E m)"
  unfolding apply_manifest_def by (intro keeps_struct applying)

text \<open>Three classes write a row before the end.\<close>

lemma keeps_injection:
  assumes "cls \<in> {''network-latency'', ''network-partition''} \<Longrightarrow> (\<And>p. allowed (put_probe ep cls cfg t0 p))"
    "cls = ''memory-leak'' \<Longrightarrow> (\<And>kb. allowed (put_heap ep cls cfg t0 kb))"
  shows "keeps R (run_injection E cls cfg ep t0 f)"
  unfolding run_injection_def inject_cpu_throttling_def inject_oom_def inject_network_latency_def inject_network_partition_def
    inject_cpu_batch_def inject_cpu_live_def cpu_live_start_def inject_oom_batch_def oom_attempt_def Let_def
  by (intro keeps_struct keeps_prims keeps_apply keeps_probes keeps_chaos_name keeps_hold_latency keeps_hold_partition
      keeps_delete keeps_queries keeps_ticks keeps_verify keeps_user_probes keeps_login keeps_cpu_hold keeps_cpu_cleanup
      keeps_pod_name keeps_oom_parts keeps_queue_master keeps_disk_full keeps_carts keeps_crash_loop keeps_leak_baseline
      keeps_memory_leak keeps_connection_pool keeps_patched keeps_cpu_baseline keeps_under_provisioned
      keeps_replica_baseline keeps_oom_baseline keeps_oom_live)
    (use assms in simp_all)

end

end
