(* ===== verification/Injector_Chaos.thy ===== *)
theory Injector_Chaos
  imports Injector_Frame
begin

text \<open>
  A run of the injector deletes every Chaos Mesh resource it made: also after a failed verification, an
  early stop, an exception of Prometheus or of kubectl, and for all of the classes. What it leaves is
  what kubectl failed to delete; the code prints a warning for it. A process that is killed is not
  modelled.
\<close>

section \<open>A cluster with chaos resources\<close>

definition created :: "string list \<Rightarrow> string option \<Rightarrow> proc res \<Rightarrow> string set" where
  "created args i r =
     (if args = apply_args \<and> (case r of Inl _ \<Rightarrow> False | Inr p \<Rightarrow> pc_code p = 0)
      then (case i of None \<Rightarrow> {} | Some m \<Rightarrow> {manifest_name m}) else {})"

definition one_line :: "string \<Rightarrow> bool" where
  "one_line s \<longleftrightarrow> newline \<notin> set s \<and> CHR 0x0D \<notin> set s"

text \<open>A set of names that only an \<^verbatim>\<open>apply\<close> that succeeds adds to, and that a \<^verbatim>\<open>delete\<close> takes its name
  from.\<close>

definition sheds :: "'w inj_env \<Rightarrow> ('w \<Rightarrow> string set) \<Rightarrow> bool" where
  "sheds E live \<longleftrightarrow>
     (\<forall>args i t w. live (snd (ij_run E args i t w)) \<subseteq> live w \<union> created args i (fst (ij_run E args i t w))) \<and>
     (\<forall>args i t w name. chaos_deletion args = Some name \<longrightarrow> name \<notin> live (snd (ij_run E args i t w))) \<and>
     (\<forall>q w. live (snd (ij_query E q w)) \<subseteq> live w) \<and> (\<forall>us w. live (ij_sleep E us w) \<subseteq> live w) \<and>
     (\<forall>p w. live (snd (ij_write E p w)) \<subseteq> live w) \<and> (\<forall>w. live (snd (ij_uuid E w)) \<subseteq> live w) \<and>
     (\<forall>a w. live (snd (ij_popen E a w)) \<subseteq> live w) \<and> (\<forall>p t w. live (snd (ij_feed E p t w)) \<subseteq> live w) \<and>
     (\<forall>p us w. live (snd (ij_wait E p us w)) \<subseteq> live w) \<and> (\<forall>p w. live (snd (ij_terminate E p w)) \<subseteq> live w) \<and>
     (\<forall>p w. live (snd (ij_kill E p w)) \<subseteq> live w) \<and> (\<forall>g w. live (snd (ij_sql E g w)) \<subseteq> live w) \<and>
     (\<forall>w. one_line (fst (ij_uuid E w)))"

text \<open>\<open>live w\<close> are the names of the resources of the chaos-mesh namespace, \<open>failed w\<close> those whose deletion
  was sent and did not succeed. An \<^verbatim>\<open>apply\<close> that succeeds adds the name of its manifest; a \<^verbatim>\<open>delete\<close>
  with exit code 0 has removed its name, one with another code or an exception has failed; nothing
  else a run does adds a resource.\<close>

definition deleted :: "proc res \<Rightarrow> bool" where
  "deleted r = (case r of Inl _ \<Rightarrow> False | Inr p \<Rightarrow> pc_code p = 0)"

definition fewer :: "('w \<Rightarrow> string set) \<Rightarrow> ('w \<Rightarrow> string set) \<Rightarrow> 'w \<Rightarrow> 'w \<Rightarrow> bool" where
  "fewer live failed w w' \<longleftrightarrow> live w' \<subseteq> live w \<and> failed w \<subseteq> failed w'"

definition chaos_world :: "'w inj_env \<Rightarrow> ('w \<Rightarrow> string set) \<Rightarrow> ('w \<Rightarrow> string set) \<Rightarrow> bool" where
  "chaos_world E live failed \<longleftrightarrow>
     (\<forall>args i t w. live (snd (ij_run E args i t w)) \<subseteq> live w \<union> created args i (fst (ij_run E args i t w)) \<and>
        failed w \<subseteq> failed (snd (ij_run E args i t w))) \<and>
     (\<forall>args i t w name. chaos_deletion args = Some name \<longrightarrow>
        (if deleted (fst (ij_run E args i t w)) then name \<notin> live (snd (ij_run E args i t w))
         else name \<in> failed (snd (ij_run E args i t w)))) \<and>
     (\<forall>q w. fewer live failed w (snd (ij_query E q w))) \<and> (\<forall>us w. fewer live failed w (ij_sleep E us w)) \<and>
     (\<forall>p w. fewer live failed w (snd (ij_write E p w))) \<and> (\<forall>w. fewer live failed w (snd (ij_uuid E w))) \<and>
     (\<forall>a w. fewer live failed w (snd (ij_popen E a w))) \<and> (\<forall>p t w. fewer live failed w (snd (ij_feed E p t w))) \<and>
     (\<forall>p us w. fewer live failed w (snd (ij_wait E p us w))) \<and> (\<forall>p w. fewer live failed w (snd (ij_terminate E p w))) \<and>
     (\<forall>p w. fewer live failed w (snd (ij_kill E p w))) \<and> (\<forall>g w. fewer live failed w (snd (ij_sql E g w))) \<and>
     (\<forall>w. one_line (fst (ij_uuid E w)))"

lemma fewer_rest: "fewer live failed w w' \<Longrightarrow> live w' - failed w' \<subseteq> live w - failed w"
  by (auto simp: fewer_def)

lemma chaos_world_sheds:
  assumes "chaos_world E live failed"
  shows "sheds E (\<lambda>w. live w - failed w)"
proof -
  note world = assms[unfolded chaos_world_def]
  have "live (snd (ij_run E args i t w)) - failed (snd (ij_run E args i t w))
      \<subseteq> (live w - failed w) \<union> created args i (fst (ij_run E args i t w))" for args i t w
  proof -
    have "live (snd (ij_run E args i t w)) \<subseteq> live w \<union> created args i (fst (ij_run E args i t w))"
      "failed w \<subseteq> failed (snd (ij_run E args i t w))" using world by simp_all
    then show ?thesis by auto
  qed
  moreover have "name \<notin> live (snd (ij_run E args i t w)) - failed (snd (ij_run E args i t w))"
    if "chaos_deletion args = Some name" for args i t w name
  proof -
    have "if deleted (fst (ij_run E args i t w)) then name \<notin> live (snd (ij_run E args i t w))
      else name \<in> failed (snd (ij_run E args i t w))" using world that by simp
    then show ?thesis by (simp split: if_splits)
  qed
  moreover have "one_line (fst (ij_uuid E w))" for w using world by simp
  ultimately show ?thesis
    unfolding sheds_def by (intro conjI allI impI fewer_rest) (simp_all add: world)
qed

definition chaos_frame :: "'w inj_env \<Rightarrow> ('w \<Rightarrow> string set) \<Rightarrow> string set \<Rightarrow> 'w \<Rightarrow> 'w \<Rightarrow> bool" where
  "chaos_frame E live X w w' \<longleftrightarrow> (sheds E live \<longrightarrow> live w' \<subseteq> live w \<union> X)"

lemma shedsD:
  assumes "sheds E live"
  shows "live (snd (ij_run E args i t w)) \<subseteq> live w \<union> created args i (fst (ij_run E args i t w))"
    "chaos_deletion args = Some name \<Longrightarrow> name \<notin> live (snd (ij_run E args i t w))"
    "live (snd (ij_query E q w)) \<subseteq> live w" "live (ij_sleep E us w) \<subseteq> live w" "live (snd (ij_write E file w)) \<subseteq> live w"
    "live (snd (ij_uuid E w)) \<subseteq> live w" "live (snd (ij_popen E a w)) \<subseteq> live w" "live (snd (ij_feed E p text w)) \<subseteq> live w"
    "live (snd (ij_wait E p us w)) \<subseteq> live w" "live (snd (ij_terminate E p w)) \<subseteq> live w" "live (snd (ij_kill E p w)) \<subseteq> live w"
    "live (snd (ij_sql E g w)) \<subseteq> live w" "one_line (fst (ij_uuid E w))"
  by (simp_all only: assms[unfolded sheds_def] simp_thms)

lemma chaos_run:
  assumes "sheds E live" "args \<noteq> apply_args"
  shows "live (snd (ij_run E args i t w)) \<subseteq> live w"
  using shedsD(1)[OF assms(1), of args i t w] assms(2) by (simp add: created_def)

interpretation chaos: quiet_store "chaos_frame E live X" E "\<lambda>_. True" for E :: "'w inj_env" and live :: "'w \<Rightarrow> string set" and X
proof unfold_locales
  fix u v w
  assume "chaos_frame E live X u v" "chaos_frame E live X v w"
  then have "sheds E live \<Longrightarrow> live w \<subseteq> live u \<union> X \<union> X" unfolding chaos_frame_def by (meson Un_mono subset_refl subset_trans)
  then show "chaos_frame E live X u w" by (simp add: chaos_frame_def Un_assoc)
next
  show "keeps (chaos_frame E live X) (ij_run E args i t)" if "args \<noteq> apply_args" for args i t
    unfolding keeps_def chaos_frame_def by (intro allI impI le_supI1 chaos_run that)
next
  show "chaos_frame E live X w w" for w
    by (simp add: chaos_frame_def)
next
  show "keeps (chaos_frame E live X) (ij_query E q)" for q
    unfolding keeps_def chaos_frame_def by (intro allI impI le_supI1 shedsD(3))
next
  show "chaos_frame E live X w (ij_sleep E us w)" for w us
    unfolding keeps_def chaos_frame_def by (intro allI impI le_supI1 shedsD(4))
next
  show "keeps (chaos_frame E live X) (ij_write E p)" for p
    unfolding keeps_def chaos_frame_def by (intro allI impI le_supI1 shedsD(5))
next
  show "chaos_frame E live X w (snd (ij_uuid E w))" for w
    unfolding keeps_def chaos_frame_def by (intro allI impI le_supI1 shedsD(6))
next
  show "keeps (chaos_frame E live X) (ij_popen E args)" for args
    unfolding keeps_def chaos_frame_def by (intro allI impI le_supI1 shedsD(7))
next
  show "keeps (chaos_frame E live X) (ij_feed E p t)" for p t
    unfolding keeps_def chaos_frame_def by (intro allI impI le_supI1 shedsD(8))
next
  show "keeps (chaos_frame E live X) (ij_wait E p us)" for p us
    unfolding keeps_def chaos_frame_def by (intro allI impI le_supI1 shedsD(9))
next
  show "keeps (chaos_frame E live X) (ij_terminate E p)" for p
    unfolding keeps_def chaos_frame_def by (intro allI impI le_supI1 shedsD(10))
next
  show "keeps (chaos_frame E live X) (ij_kill E p)" for p
    unfolding keeps_def chaos_frame_def by (intro allI impI le_supI1 shedsD(11))
next
  show "keeps (chaos_frame E live X) (ij_sql E g)" for g
    unfolding keeps_def chaos_frame_def by (intro allI impI le_supI1 shedsD(12))
qed

section \<open>Manifests\<close>

lemma py_lines_line: "one_line l \<Longrightarrow> py_lines (l @ newline # s) = l # py_lines s"
  by (induction l) (auto simp: one_line_def)

lemma unlines_Cons: "unlines (l # ls) = l @ newline # unlines ls"
  by (simp add: unlines_def)

lemma manifest_line:
  assumes "one_line a" "one_line b" "one_line c" "one_line d" "one_line e"
  shows "manifest_name (unlines (a # b # c # d # e # rest)) = drop 8 e"
  using assms by (simp add: manifest_name_def unlines_Cons py_lines_line)

lemma manifest_names:
  assumes "one_line name"
  shows "manifest_name (build_oom_manifest name cfg) = name" "manifest_name (build_cpu_throttle_manifest name cfg n) = name"
    "manifest_name (build_network_latency_manifest name cfg) = name"
    "manifest_name (build_network_partition_manifest name cfg) = name"
  unfolding build_oom_manifest_def build_cpu_throttle_manifest_def build_network_latency_manifest_def
    build_network_partition_manifest_def stress_head_def network_head_def append_Cons append_Nil
  by (subst manifest_line; use assms in \<open>simp add: one_line_def newline_def\<close>)+

lemma chaos_name_one_line:
  assumes "sheds E live" "one_line (ic_prefix cfg)" "one_line mid" "chaos_name E cfg mid w = (Inr name, w')"
  shows "one_line name"
proof -
  have "one_line (fst (ij_uuid E w))" using assms(1) by (simp add: sheds_def)
  then have "one_line (take 8 (fst (ij_uuid E w)))" by (auto simp: one_line_def dest: in_set_takeD)
  then show ?thesis
    using assms by (auto simp: chaos_name_def map_step_Inr uuid8_def one_line_def split: prod.splits)
qed

section \<open>Brackets\<close>

text \<open>A step after which the resource \<open>name\<close> is gone, whether it returns or raises.\<close>

definition cleans :: "'w inj_env \<Rightarrow> ('w \<Rightarrow> string set) \<Rightarrow> string \<Rightarrow> ('w, 'a) step \<Rightarrow> bool" where
  "cleans E live name m \<longleftrightarrow> (sheds E live \<longrightarrow> (\<forall>w. live (snd (m w)) \<subseteq> live w - {name}))"

lemma delete_cleans: "cleans E live name (delete_chaos_resource E kind name)"
proof -
  have "live (snd (delete_chaos_resource E kind name w)) \<subseteq> live w - {name}" if "sheds E live" for w
  proof -
    define args where "args = [''delete'', kind, name, ''-n'', ''chaos-mesh'']"
    have "snd (delete_chaos_resource E kind name w) = snd (ij_run E args None None w)"
      by (auto simp: delete_chaos_resource_def kube_do_def kube_run_def map_step_def then_step_def ret_step_def args_def
          split: prod.splits sum.splits)
    moreover have "created args None r = {}" for r by (simp add: created_def args_def)
    moreover have "chaos_deletion args = Some name" by (simp add: chaos_deletion_def args_def)
    ultimately show ?thesis using that unfolding sheds_def by (metis Diff_empty Un_empty_right subset_Diff_insert)
  qed
  then show ?thesis by (simp add: cleans_def)
qed

lemma cleansD: "cleans E live name m \<Longrightarrow> sheds E live \<Longrightarrow> m w = (r, w') \<Longrightarrow> live w' \<subseteq> live w - {name}"
  unfolding cleans_def by (metis snd_conv)

lemma frameD: "keeps (chaos_frame E live X) m \<Longrightarrow> sheds E live \<Longrightarrow> m w = (r, w') \<Longrightarrow> live w' \<subseteq> live w \<union> X"
  by (drule (1) keepsD) (simp add: chaos_frame_def)

lemma cleans_then:
  assumes "cleans E live name m" "\<And>a. keeps (chaos_frame E live {}) (g a)"
  shows "cleans E live name (then_step m g)"
  unfolding cleans_def
proof (intro impI allI)
  fix w assume world: "sheds E live"
  obtain r u where u: "m w = (r, u)" by fastforce
  note gone = cleansD[OF assms(1) world u]
  show "live (snd (then_step m g w)) \<subseteq> live w - {name}"
  proof (cases r)
    case (Inr a)
    obtain q v where v: "g a u = (q, v)" by fastforce
    show ?thesis using frameD[OF assms(2) world v] gone u v Inr by (auto simp: then_step_def)
  qed (use gone u in \<open>simp add: then_step_def\<close>)
qed

lemma finally_cleans:
  assumes "keeps (chaos_frame E live {}) m" "cleans E live name c"
  shows "cleans E live name (finally_step m c)"
  unfolding cleans_def
proof (intro impI allI)
  fix w assume world: "sheds E live"
  obtain r u where u: "m w = (r, u)" by fastforce
  obtain q v where v: "c u = (q, v)" by fastforce
  show "live (snd (finally_step m c w)) \<subseteq> live w - {name}"
    using frameD[OF assms(1) world u] cleansD[OF assms(2) world v] u v
    by (auto simp: finally_step_def split: sum.splits)
qed

lemma now_cleans: "(\<And>t. cleans E live name (g t)) \<Longrightarrow> cleans E live name (then_step (now_of E) g)"
  by (simp add: cleans_def then_step_def now_of_def)

text \<open>An applied manifest and a step that cleans its name.\<close>

lemma apply_effect:
  assumes "sheds E live" "manifest_name m = name" "apply_manifest E m w = (r, w')"
  shows "live w' \<subseteq> live w \<union> {name}" "r = Inl e \<Longrightarrow> live w' \<subseteq> live w"
proof -
  obtain q u where q: "ij_run E apply_args (Some m) None w = (q, u)" by fastforce
  have eff: "live u \<subseteq> live w \<union> created apply_args (Some m) q"
    using assms(1) q unfolding sheds_def by (metis fst_conv snd_conv)
  have u: "u = w'" using assms(3) q
    by (auto simp: apply_manifest_def then_step_def ret_step_def res_of_def split: sum.splits if_splits)
  show "live w' \<subseteq> live w \<union> {name}" using eff assms(2) u by (auto simp: created_def split: if_splits)
  show "live w' \<subseteq> live w" if "r = Inl e"
    using eff u assms(3) q that
    by (auto simp: apply_manifest_def then_step_def ret_step_def res_of_def created_def split: sum.splits if_splits)
qed

lemma bracket:
  assumes "manifest_name m = name" "cleans E live name body"
  shows "keeps (chaos_frame E live {}) (then_step (apply_manifest E m) (\<lambda>_. body))"
proof (rule keepsI)
  fix w r w' assume run: "then_step (apply_manifest E m) (\<lambda>_. body) w = (r, w')"
  obtain q u where q: "apply_manifest E m w = (q, u)" by fastforce
  show "chaos_frame E live {} w w'"
    unfolding chaos_frame_def
  proof
    assume world: "sheds E live"
    note eff = apply_effect[OF world assms(1) q]
    show "live w' \<subseteq> live w \<union> {}"
    proof (cases q)
      case (Inl e)
      then show ?thesis using eff(2) run q by (simp add: then_step_def)
    next
      case (Inr x)
      then have "body u = (r, w')" using run q by (simp add: then_step_def)
      then show ?thesis using cleansD[OF assms(2) world] eff(1) by blast
    qed
  qed
qed

lemma keeps_named:
  assumes "\<And>name. one_line name \<Longrightarrow> keeps (chaos_frame E live {}) (g name)" "one_line (ic_prefix cfg)" "one_line mid"
  shows "keeps (chaos_frame E live {}) (then_step (chaos_name E cfg mid) g)"
proof (rule keepsI)
  fix w r w' assume run: "then_step (chaos_name E cfg mid) g w = (r, w')"
  show "chaos_frame E live {} w w'"
  proof (cases "sheds E live")
    case world: True
    obtain q u where q: "chaos_name E cfg mid w = (q, u)" by fastforce
    have first: "chaos_frame E live {} w u" by (rule keepsD[OF chaos.keeps_chaos_name q])
    show ?thesis
    proof (cases q)
      case (Inr name)
      have "keeps (chaos_frame E live {}) (g name)"
        by (rule assms(1), rule chaos_name_one_line[OF world assms(2,3)]) (use q Inr in simp)
      then have "chaos_frame E live {} u w'" by (rule keepsD) (use run q Inr in \<open>simp add: then_step_def\<close>)
      with first show ?thesis by (rule chaos.later)
    qed (use first run q in \<open>simp add: then_step_def\<close>)
  qed (simp add: chaos_frame_def)
qed

section \<open>The injections\<close>

lemmas chaos_rules = chaos.keeps_struct chaos.keeps_prims chaos.keeps_now chaos.keeps_queries chaos.keeps_pod_name

lemma latency_clean:
  assumes "one_line (ic_prefix cfg)"
  shows "keeps (chaos_frame E live {}) (inject_network_latency E cfg ep t0 conn f)"
  unfolding inject_network_latency_def
  by (intro chaos.keeps_attempts chaos.keeps_then chaos.keeps_probes keeps_named bracket[OF manifest_names(3)] cleans_then
      finally_cleans TrueI chaos.keeps_hold_latency delete_cleans chaos.keeps_pair chaos.keeps_ret)
    (use assms in \<open>simp_all add: one_line_def newline_def\<close>)

lemma partition_clean:
  assumes "one_line (ic_prefix cfg)"
  shows "keeps (chaos_frame E live {}) (inject_network_partition E cfg ep t0 conn f)"
  unfolding inject_network_partition_def
  by (intro chaos.keeps_attempts keeps_named bracket[OF manifest_names(4)] now_cleans cleans_then
      finally_cleans TrueI chaos.keeps_hold_partition delete_cleans chaos.keeps_ret)
    (use assms in \<open>simp_all add: one_line_def newline_def\<close>)

lemma cpu_batch_clean:
  assumes "one_line (ic_prefix cfg)"
  shows "keeps (chaos_frame E live {}) (inject_cpu_batch E cfg f)"
  unfolding inject_cpu_batch_def Let_def
  by (intro chaos.keeps_attempts chaos.keeps_then chaos.keeps_queries keeps_named bracket[OF manifest_names(2)] cleans_then
      finally_cleans chaos.keeps_ticks chaos.keeps_verify delete_cleans chaos.keeps_pair chaos.keeps_ret)
    (use assms in \<open>simp_all add: one_line_def newline_def\<close>)

lemma oom_batch_clean:
  assumes "one_line (ic_prefix cfg)"
  shows "keeps (chaos_frame E live {}) (inject_oom_batch E cfg)"
  unfolding inject_oom_batch_def oom_attempt_def
  by (intro chaos.keeps_attempts chaos.keeps_then chaos.keeps_pod_name chaos.keeps_option chaos.keeps_oom_parts keeps_named
      bracket[OF manifest_names(1)] cleans_then finally_cleans delete_cleans chaos.keeps_ret)
    (use assms in \<open>simp_all add: one_line_def newline_def\<close>)

lemma cleanup_cleans: "cleans E live name (cleanup_cpu_live E cfg name load)"
  unfolding cleanup_cpu_live_def
  by (intro cleans_then delete_cleans chaos.keeps_rules chaos.keeps_base chaos.keeps_wait_or_kill chaos.keeps_user_probes)

text \<open>In the live path the manifest is applied inside the block whose cleanup deletes it.\<close>

lemma live_block_clean:
  assumes "one_line name" and rest: "\<And>v. keeps (chaos_frame E live {}) (g v)"
  shows "keeps (chaos_frame E live {}) (then_step (finally_with (cpu_live_start E cfg name pod)
      (\<lambda>r. case r of Inl _ \<Rightarrow> cleanup_cpu_live E cfg name None | Inr _ \<Rightarrow> ret_step ())) (\<lambda>(baseline, load).
      then_step (finally_step (cpu_live_hold E cfg f pod baseline) (cleanup_cpu_live E cfg name (Some load))) g))"
proof (rule keepsI)
  let ?body = "\<lambda>(baseline, load). then_step (finally_step (cpu_live_hold E cfg f pod baseline) (cleanup_cpu_live E cfg name (Some load))) g"
  fix w r w'
  assume run: "then_step (finally_with (cpu_live_start E cfg name pod)
      (\<lambda>r. case r of Inl _ \<Rightarrow> cleanup_cpu_live E cfg name None | Inr _ \<Rightarrow> ret_step ())) ?body w = (r, w')"
  have body: "cleans E live name (?body x)" for x
    by (cases x) (auto intro!: cleans_then finally_cleans chaos.keeps_cpu_hold cleanup_cleans rest)
  have start: "keeps (chaos_frame E live {name}) (cpu_live_start E cfg name pod)"
    unfolding cpu_live_start_def
  proof (intro chaos.keeps_then chaos.keeps_queries chaos.keeps_login chaos.keeps_ret)
    show "keeps (chaos_frame E live {name}) (apply_manifest E
        (build_cpu_throttle_manifest name cfg (Some cpu_throttle_live_trigger_stress_workers)))"
      by (rule keepsI) (unfold chaos_frame_def, blast dest: apply_effect(1)[OF _ manifest_names(2)[OF assms(1)]])
  qed
  obtain q u where q: "cpu_live_start E cfg name pod w = (q, u)" by fastforce
  show "chaos_frame E live {} w w'"
    unfolding chaos_frame_def
  proof
    assume world: "sheds E live"
    have some: "live u \<subseteq> live w \<union> {name}" by (rule frameD[OF start world q])
    show "live w' \<subseteq> live w \<union> {}"
    proof (cases q)
      case (Inl e)
      obtain x v where v: "cleanup_cpu_live E cfg name None u = (x, v)" by fastforce
      then have "w' = v" using run q Inl by (auto simp: then_step_def finally_with_def split: sum.splits)
      then show ?thesis using cleansD[OF cleanup_cleans world v] some by blast
    next
      case (Inr x)
      then have "?body x u = (r, w')" using run q by (simp add: then_step_def finally_with_def ret_step_def)
      then show ?thesis using cleansD[OF body world] some by blast
    qed
  qed
qed

lemma cpu_live_clean:
  assumes "one_line (ic_prefix cfg)"
  shows "keeps (chaos_frame E live {}) (inject_cpu_live E cfg f)"
  unfolding inject_cpu_live_def
  by (intro chaos.keeps_then chaos.keeps_user_probes chaos.keeps_option chaos.keeps_login chaos.keeps_ret keeps_named live_block_clean)
    (use assms in \<open>simp_all add: one_line_def newline_def\<close>)

lemma injection_clean:
  assumes "one_line (ic_prefix cfg)"
  shows "keeps (chaos_frame E live {}) (run_injection E cls cfg ep t0 f)"
  unfolding run_injection_def inject_cpu_throttling_def inject_oom_def
  by (intro chaos.keeps_if chaos.keeps_then chaos.keeps_map chaos.keeps_ret chaos.keeps_res chaos.keeps_queue_master
      chaos.keeps_disk_full chaos.keeps_carts chaos.keeps_crash_loop latency_clean chaos.keeps_leak_baseline
      chaos.keeps_memory_leak TrueI chaos.keeps_connection_pool partition_clean chaos.keeps_patched chaos.keeps_cpu_baseline
      cpu_live_clean cpu_batch_clean chaos.keeps_under_provisioned chaos.keeps_replica_baseline chaos.keeps_oom_baseline
      oom_batch_clean chaos.keeps_oom_live assms)

lemma prefixes_one_line: "inject_config cls = Some cfg \<Longrightarrow> one_line (ic_prefix cfg)"
  by (auto simp: inject_config_def inject_cfg_of_def one_line_def newline_def split: if_splits)

lemma main_clean: "keeps (chaos_frame E live {}) (injector_main E args)"
proof (cases "inject_config (ia_class args)")
  case None
  then show ?thesis by (simp add: injector_main_def chaos.keeps_res)
next
  case (Some cfg0)
  have id: "keeps (chaos_frame E live {}) (episode_id_of E given)" for given
    by (rule keepsI) (auto simp: episode_id_of_def chaos_frame_def split: option.splits prod.splits
        dest: shedsD(6) intro: subsetD[OF shedsD(6)] intro!: subsetI)
  show ?thesis
    unfolding injector_main_def Some option.case Let_def locked_run_def
    by (intro chaos.keeps_then id chaos.keeps_now chaos.keeps_acquire chaos.keeps_release chaos.keeps_finally chaos.keeps_sticky injection_clean
        chaos.keeps_option chaos.keeps_res chaos.keeps_record TrueI)
      (use prefixes_one_line[OF Some] in \<open>auto split: option.splits\<close>)
qed

section \<open>What a run leaves\<close>

lemma demo_chaos_world: "chaos_world inj_demo_env (\<lambda>w. set (cl_chaos w)) (\<lambda>_. {})"
  by (auto simp: chaos_world_def fewer_def deleted_def inj_demo_env_def demo_run_def created_def chaos_deletion_def one_line_def
      newline_def split: option.splits list.splits if_splits)

text \<open>C5: however a run of the injector that is not killed ends, with an episode, refused, or with an exception
  of kubectl, Prometheus or the database, in the batch or live: a chaos resource that was not there
  when it began is there afterwards only if the run sent its deletion and kubectl failed.\<close>

theorem chaos_never_leaks:
  assumes "chaos_world E live failed" "injector_main E args w = (r, w')"
  shows "live w' - live w \<subseteq> failed w'"
  using frameD[OF main_clean chaos_world_sheds[OF assms(1)] assms(2)] by auto

theorem chaos_never_leaks_witness:
  "cl_chaos (snd (injector_main inj_demo_env (demo_args ''network-partition'') inj_demo_cluster)) = []"
  using chaos_never_leaks[OF demo_chaos_world surjective_pairing, of "demo_args ''network-partition''" inj_demo_cluster]
  by (simp add: inj_demo_cluster_def)

end
