(* ===== verification/Injector_Contract.thy ===== *)
theory Injector_Contract
  imports Injector_Frame Batch_Properties
begin

text \<open>
  What a run of the injector does to the database: which rows it may touch, when it records its
  episode, and how that meets what the batch runner relies on.
\<close>

section \<open>The tables during a run\<close>

text \<open>\<open>db w\<close> are the tables; only the transactions of the run change them.\<close>

definition store_world :: "'w inj_env \<Rightarrow> ('w \<Rightarrow> inj_db) \<Rightarrow> bool" where
  "store_world E db \<longleftrightarrow>
     (\<forall>g w. case fst (ij_sql E g w) of
        Inl e \<Rightarrow> is_exception e \<and> db (snd (ij_sql E g w)) = db w
      | Inr d \<Rightarrow> d = db w \<and> db (snd (ij_sql E g w)) = g (db w)) \<and>
     (\<forall>args i t w. db (snd (ij_run E args i t w)) = db w) \<and> (\<forall>q w. db (snd (ij_query E q w)) = db w) \<and>
     (\<forall>us w. db (ij_sleep E us w) = db w) \<and> (\<forall>p w. db (snd (ij_write E p w)) = db w) \<and>
     (\<forall>w. db (snd (ij_uuid E w)) = db w) \<and> (\<forall>a w. db (snd (ij_popen E a w)) = db w) \<and>
     (\<forall>p t w. db (snd (ij_feed E p t w)) = db w) \<and> (\<forall>p us w. db (snd (ij_wait E p us w)) = db w) \<and>
     (\<forall>p w. db (snd (ij_terminate E p w)) = db w) \<and> (\<forall>p w. db (snd (ij_kill E p w)) = db w)"

lemma store_worldD:
  assumes "store_world E db"
  shows "db (snd (ij_run E args i t w)) = db w" "db (snd (ij_query E q w)) = db w" "db (ij_sleep E us w) = db w"
    "db (snd (ij_write E file w)) = db w" "db (snd (ij_uuid E w)) = db w" "db (snd (ij_popen E a w)) = db w"
    "db (snd (ij_feed E p text w)) = db w" "db (snd (ij_wait E p us w)) = db w" "db (snd (ij_terminate E p w)) = db w"
    "db (snd (ij_kill E p w)) = db w"
  by (simp_all only: assms[unfolded store_world_def] simp_thms)

lemma store_sql:
  assumes "store_world E db" "ij_sql E g w = (r, w')"
  shows "r = Inl e \<Longrightarrow> is_exception e" "r = Inl e \<Longrightarrow> db w' = db w" "r = Inr d \<Longrightarrow> d = db w" "r = Inr d \<Longrightarrow> db w' = g (db w)"
proof -
  have "case fst (ij_sql E g w) of Inl e \<Rightarrow> is_exception e \<and> db (snd (ij_sql E g w)) = db w
      | Inr d \<Rightarrow> d = db w \<and> db (snd (ij_sql E g w)) = g (db w)"
    using assms(1) unfolding store_world_def by (elim conjE allE)
  then show "r = Inl e \<Longrightarrow> is_exception e" "r = Inl e \<Longrightarrow> db w' = db w" "r = Inr d \<Longrightarrow> d = db w" "r = Inr d \<Longrightarrow> db w' = g (db w)"
    using assms(2) by simp_all
qed

text \<open>Rows outside \<open>X\<close> and the lock stay; a row in \<open>X\<close> keeps its class and its chaos name, a new one
  is pending.\<close>

definition row_held :: "episode_entry option \<Rightarrow> episode_entry option \<Rightarrow> bool" where
  "row_held old new \<longleftrightarrow>
     (case old of
        Some e \<Rightarrow> (case new of Some e' \<Rightarrow> ee_chaos e' = ee_chaos e \<and> ee_class e' = ee_class e | None \<Rightarrow> False)
      | None \<Rightarrow> (case new of Some e' \<Rightarrow> ee_chaos e' = ''pending'' | None \<Rightarrow> True))"

definition held :: "string set \<Rightarrow> inj_db \<Rightarrow> inj_db \<Rightarrow> bool" where
  "held X d d' \<longleftrightarrow>
     ib_holder d' = ib_holder d \<and> ib_acquired d' = ib_acquired d \<and>
     (\<forall>k. k \<notin> X \<longrightarrow> map_of (ib_episodes d') k = map_of (ib_episodes d) k) \<and>
     (\<forall>k. row_held (map_of (ib_episodes d) k) (map_of (ib_episodes d') k))"

lemma held_refl: "held X d d"
  by (auto simp: held_def row_held_def split: option.splits)

lemma row_held_trans: "row_held a b \<Longrightarrow> row_held b c \<Longrightarrow> row_held a c"
  by (auto simp: row_held_def split: option.splits)

lemma held_trans: "held X d1 d2 \<Longrightarrow> held X d2 d3 \<Longrightarrow> held X d1 d3"
  unfolding held_def by (metis row_held_trans)

definition store_frame :: "'w inj_env \<Rightarrow> ('w \<Rightarrow> inj_db) \<Rightarrow> string set \<Rightarrow> 'w \<Rightarrow> 'w \<Rightarrow> bool" where
  "store_frame E db X w w' \<longleftrightarrow> (store_world E db \<longrightarrow> held X (db w) (db w'))"

lemma store_frame_same: "(store_world E db \<Longrightarrow> db w' = db w) \<Longrightarrow> store_frame E db X w w'"
  by (simp add: store_frame_def held_refl)

interpretation store: quiet_cluster "store_frame E db X" E "\<lambda>g. \<forall>d. held X d (g d)"
  for E :: "'w inj_env" and db :: "'w \<Rightarrow> inj_db" and X
proof unfold_locales
  show "store_frame E db X w w" for w by (simp add: store_frame_same)
  show "store_frame E db X u w" if "store_frame E db X u v" "store_frame E db X v w" for u v w
    using that held_trans unfolding store_frame_def by blast
  show "keeps (store_frame E db X) (ij_sql E g)" if "\<forall>d. held X d (g d)" for g
  proof (rule keepsI, unfold store_frame_def, intro impI)
    fix w r w' assume "ij_sql E g w = (r, w')" "store_world E db"
    then show "held X (db w) (db w')"
      using store_sql[of E db g w r w'] that held_refl by (cases r) simp_all
  qed
qed (auto simp: keeps_def intro!: store_frame_same store_worldD)

lemma map_of_upsert:
  "map_of (ib_episodes (upsert_episode ep fresh change d)) k =
     (if k = ep then Some (case map_of (ib_episodes d) ep of None \<Rightarrow> fresh | Some e \<Rightarrow> change e)
      else map_of (ib_episodes d) k)"
  by (auto simp: upsert_episode_def map_add_def update_conv' split: option.splits)

lemma upsert_lock [simp]:
  "ib_holder (upsert_episode ep fresh change d) = ib_holder d"
  "ib_acquired (upsert_episode ep fresh change d) = ib_acquired d"
  by (simp_all add: upsert_episode_def split: option.splits)

lemma put_held: "held {ep} d (put_probe ep cls cfg t0 p d)" "held {ep} d (put_heap ep cls cfg t0 kb d)"
  by (auto simp: held_def put_probe_def put_heap_def map_of_upsert row_held_def pending_entry_def split: option.splits)

text \<open>The classes that write a row before their effect is verified.\<close>

definition early_writers :: "string set" where
  "early_writers = {''memory-leak'', ''network-latency'', ''network-partition''}"

lemma injection_held:
  "keeps (store_frame E db (if cls \<in> early_writers then {ep} else {})) (run_injection E cls cfg ep t0 f)"
  by (rule store.keeps_injection) (auto simp: early_writers_def put_held)

section \<open>A run as a whole\<close>

lemma map_step_result: "m w = (q, u) \<Longrightarrow> map_step g m w = (map_sum id g q, u)"
  by (cases q) (simp_all add: map_step_def then_step_def ret_step_def)

lemma episode_id_given: "episode_id_of E given w = (r, w') \<Longrightarrow> \<exists>ep. r = Inr ep \<and> (\<forall>g. given = Some g \<longrightarrow> ep = g)"
  by (auto simp: episode_id_of_def split: option.splits prod.splits)

lemma episode_id_fresh:
  "episode_id_of E None w = (r, w') \<Longrightarrow> r = Inr (uuid_text (fst (ij_uuid E w))) \<and> w' = snd (ij_uuid E w)"
  by (auto simp: episode_id_of_def split: prod.splits)

lemma episode_id_store: "store_world E db \<Longrightarrow> episode_id_of E given w = (r, w') \<Longrightarrow> db w' = db w"
  by (auto simp: episode_id_of_def split: option.splits prod.splits dest: store_worldD(5)[of E db w])

lemma take_lock_simps [simp]:
  "ib_episodes (take_lock holder now d) = ib_episodes d" "ib_episodes (drop_lock holder d) = ib_episodes d"
  by (simp_all add: take_lock_def drop_lock_def)

lemma acquire_once:
  assumes "store_world E db" "acquire_system_lock E holder w = (r, w')"
  shows "ib_episodes (db w') = ib_episodes (db w)" "r = Inr True \<Longrightarrow> ib_holder (db w') = Some holder"
proof -
  obtain q u where q: "ij_sql E (take_lock holder (ij_time E w)) w = (q, u)" by fastforce
  show "ib_episodes (db w') = ib_episodes (db w)"
    using assms(2) store_sql[OF assms(1) q] by (cases q) (auto simp: acquire_system_lock_def map_step_result q)
  show "ib_holder (db w') = Some holder" if "r = Inr True"
    using assms(2) store_sql[OF assms(1) q] that by (cases q) (auto simp: acquire_system_lock_def map_step_result q take_lock_def)
qed

lemma acquire_store:
  assumes "store_world E db" "acquire_from E holder waited w = (r, w')"
  shows "ib_episodes (db w') = ib_episodes (db w) \<and> (r = Inr () \<longrightarrow> ib_holder (db w') = Some holder)"
  using assms(2)
proof (induction "nat (system_lock_max_wait_s - waited)" arbitrary: waited w rule: less_induct)
  case less
  obtain q u where q: "acquire_system_lock E holder w = (q, u)" by fastforce
  note one = acquire_once[OF assms(1) q]
  show ?case
  proof (cases "q = Inr False \<and> waited < system_lock_max_wait_s")
    case True
    let ?v = "ij_sleep E (seconds_us system_lock_retry_s) u"
    have "acquire_from E holder (waited + system_lock_retry_s) ?v = (r, w')"
      using less.prems True q by (subst (asm) acquire_from.simps) simp
    then have "ib_episodes (db w') = ib_episodes (db ?v) \<and> (r = Inr () \<longrightarrow> ib_holder (db w') = Some holder)"
      by (intro less.hyps) (use True in \<open>simp_all add: system_lock_retry_s_def\<close>)
    then show ?thesis using one(1) store_worldD(3)[OF assms(1)] by simp
  next
    case False
    then show ?thesis using less.prems q one
      by (subst (asm) acquire_from.simps) (auto split: sum.splits bool.splits if_splits)
  qed
qed

lemma release_store:
  assumes "store_world E db" "release_system_lock E holder w = (r, w')"
  shows "ib_episodes (db w') = ib_episodes (db w)" "r = Inl e \<Longrightarrow> is_exception e"
    "r = Inr () \<Longrightarrow> ib_holder (db w) = Some holder \<Longrightarrow> ib_holder (db w') = None \<and> ib_acquired (db w') = None"
proof -
  obtain q u where q: "ij_sql E (drop_lock holder) w = (q, u)" by fastforce
  note sql = store_sql[OF assms(1) q]
  have res: "w' = u" "r = map_sum id (\<lambda>_. ()) q"
    using assms(2) by (auto simp: release_system_lock_def map_step_result q)
  show "ib_episodes (db w') = ib_episodes (db w)" using sql res by (cases q) simp_all
  show "is_exception e" if "r = Inl e" using sql res that by (cases q) simp_all
  show "ib_holder (db w') = None \<and> ib_acquired (db w') = None" if "r = Inr ()" "ib_holder (db w) = Some holder"
    using sql res that by (cases q) (simp_all add: drop_lock_def)
qed

lemma heldD:
  assumes "held X d d'"
  shows "ib_holder d' = ib_holder d" "k \<notin> X \<Longrightarrow> map_of (ib_episodes d') k = map_of (ib_episodes d) k"
    "map_of (ib_episodes d) k = Some e \<Longrightarrow> map_of (ib_episodes d') k \<noteq> None"
  using assms by (auto simp: held_def row_held_def dest!: spec[of _ k] split: option.splits)

lemma record_store:
  assumes "store_world E db" "record_episode E ep cls cfg name t0 w = (r, w')"
  shows "ib_holder (db w') = ib_holder (db w)" "k \<noteq> ep \<Longrightarrow> map_of (ib_episodes (db w')) k = map_of (ib_episodes (db w)) k"
    "r = Inr () \<Longrightarrow> \<exists>e. map_of (ib_episodes (db w')) ep = Some e \<and> ee_class e = cls"
    "r = Inl e \<Longrightarrow> is_exception e \<and> db w' = db w"
proof -
  obtain q u where q: "ij_sql E (put_episode ep cls cfg name t0) w = (q, u)" by fastforce
  note sql = store_sql[OF assms(1) q]
  have res: "w' = u" "r = map_sum id (\<lambda>_. ()) q"
    using assms(2) by (auto simp: record_episode_def map_step_result q)
  show "ib_holder (db w') = ib_holder (db w)"
    using sql res by (cases q) (simp_all add: put_episode_def)
  show "map_of (ib_episodes (db w')) k = map_of (ib_episodes (db w)) k" if "k \<noteq> ep"
    using sql res that by (cases q) (simp_all add: put_episode_def map_of_upsert)
  show "\<exists>e. map_of (ib_episodes (db w')) ep = Some e \<and> ee_class e = cls" if "r = Inr ()"
    using sql res that by (cases q) (auto simp: put_episode_def map_of_upsert pending_entry_def split: option.splits)
  show "is_exception e \<and> db w' = db w" if "r = Inl e"
    using sql res that by (cases q) simp_all
qed

lemma locked_store:
  assumes "store_world E db" "locked_run E cls cfg ep t0 f w = (r, w')"
  shows "ib_holder (db w') = ib_holder (db w)"
    "k \<noteq> ep \<Longrightarrow> map_of (ib_episodes (db w')) k = map_of (ib_episodes (db w)) k"
    "r = Inr () \<Longrightarrow> \<exists>e. map_of (ib_episodes (db w')) ep = Some e \<and> ee_class e = cls"
    "r = Inl (SystemExit c) \<Longrightarrow> cls \<notin> early_writers \<Longrightarrow> map_of (ib_episodes (db w')) ep = map_of (ib_episodes (db w)) ep"
proof -
  let ?X = "if cls \<in> early_writers then {ep} else {}"
  obtain q1 u where u: "clear_stale_oom_sticky_flag E cfg w = (q1, u)" by fastforce
  obtain q2 v where v: "run_injection E cls cfg ep t0 f u = (q2, v)" by fastforce
  have su: "held {} (db w) (db u)"
    using keepsD[OF store.keeps_sticky u, of db "{}"] assms(1) by (simp add: store_frame_def)
  have sv: "held ?X (db u) (db v)"
    using keepsD[OF injection_held v, of db] assms(1) by (simp add: store_frame_def)
  note facts = heldD[OF su] heldD[OF sv]
  note run = assms(2)[unfolded locked_run_def then_step_def u] 
  show "ib_holder (db w') = ib_holder (db w)"
    using run v facts record_store(1)[OF assms(1)] by (auto simp: then_step_def res_of_def split: sum.splits option.splits)
  show "map_of (ib_episodes (db w')) k = map_of (ib_episodes (db w)) k" if "k \<noteq> ep"
    using run v facts that record_store(2)[OF assms(1) _ that]
    by (auto simp: then_step_def res_of_def split: sum.splits option.splits if_splits)
  show "\<exists>e. map_of (ib_episodes (db w')) ep = Some e \<and> ee_class e = cls" if "r = Inr ()"
    using run v that record_store(3)[OF assms(1)] by (auto simp: then_step_def res_of_def split: sum.splits option.splits)
  show "map_of (ib_episodes (db w')) ep = map_of (ib_episodes (db w)) ep" if "r = Inl (SystemExit c)" "cls \<notin> early_writers"
    using run v facts that record_store(4)[OF assms(1)]
    by (auto simp: then_step_def res_of_def split: sum.splits option.splits)
qed

text \<open>The identifier a run gives its episode.\<close>

definition run_id :: "'w inj_env \<Rightarrow> injector_options \<Rightarrow> 'w \<Rightarrow> string" where
  "run_id E args w = (case ia_episode args of Some ep \<Rightarrow> ep | None \<Rightarrow> uuid_text (fst (ij_uuid E w)))"

lemma main_cases:
  assumes "injector_main E args w = (r, w')" "store_world E db"
  obtains (refused) "r = Inl (SystemExit 2)" "w' = w"
  | (locked_out) e where "r = Inl e" "ib_episodes (db w') = ib_episodes (db w)"
  | (ran) cfg t0 holder u q v p where "db u = db w \<or> ib_episodes (db u) = ib_episodes (db w)" "ib_holder (db u) = Some holder"
      "locked_run E (ia_class args) cfg (run_id E args w) t0 (ia_files args) u = (q, v)"
      "release_system_lock E holder v = (p, w')" "r = (case p of Inl e \<Rightarrow> Inl e | Inr _ \<Rightarrow> q)"
proof (cases "inject_config (ia_class args)")
  case None
  then show thesis using assms(1) refused by (simp add: injector_main_def res_of_def)
next
  case (Some cfg0)
  define cfg where "cfg = (case ia_duration args of None \<Rightarrow> cfg0 | Some d \<Rightarrow> cfg0\<lparr>ic_duration := d\<rparr>)"
  obtain i w1 where i: "episode_id_of E (ia_episode args) w = (i, w1)" by fastforce
  have id: "i = Inr (run_id E args w)"
    using i by (auto simp: episode_id_of_def run_id_def split: option.splits prod.splits)
  have w1: "db w1 = db w" by (rule episode_id_store[OF assms(2) i])
  define t0 where "t0 = ij_isoformat E (ij_time E w1)"
  define holder where "holder = lock_holder E (ia_class args) t0"
  obtain a u where a: "acquire_from E holder 0 w1 = (a, u)" by fastforce
  note acq = acquire_store[OF assms(2) a]
  have run: "(case a of Inl e \<Rightarrow> (Inl e, u) | Inr _ \<Rightarrow> finally_step (locked_run E (ia_class args) cfg (run_id E args w) t0 (ia_files args))
      (release_system_lock E holder) u) = (r, w')"
    using assms(1) i id a Some
    by (cases a) (auto simp: injector_main_def then_step_def now_of_def Let_def acquire_system_lock_or_die_def t0_def
        holder_def cfg_def)
  show thesis
  proof (cases a)
    case (Inl e)
    then show thesis using run acq w1 by (intro locked_out[of e]) auto
  next
    case (Inr x)
    obtain q v where v: "locked_run E (ia_class args) cfg (run_id E args w) t0 (ia_files args) u = (q, v)" by fastforce
    obtain p z where z: "release_system_lock E holder v = (p, z)" by fastforce
    have "r = (case p of Inl e \<Rightarrow> Inl e | Inr _ \<Rightarrow> q)" "w' = z"
      using run v z Inr by (auto simp: finally_step_def split: sum.splits)
    then show thesis using ran[of u holder cfg t0 q v p] v z acq w1 Inr by simp
  qed
qed

text \<open>What the exit code says of the tables before and after.\<close>

definition kept_contract :: "string \<Rightarrow> string \<Rightarrow> unit res \<Rightarrow> inj_db \<Rightarrow> inj_db \<Rightarrow> bool" where
  "kept_contract ep cls r d d' \<longleftrightarrow>
     (\<forall>k. k \<noteq> ep \<longrightarrow> map_of (ib_episodes d') k = map_of (ib_episodes d) k) \<and>
     (r = Inr () \<longrightarrow> ib_holder d' = None \<and> (\<exists>e. map_of (ib_episodes d') ep = Some e \<and> ee_class e = cls)) \<and>
     (\<forall>c. r = Inl (SystemExit c) \<and> cls \<notin> early_writers \<longrightarrow> map_of (ib_episodes d') ep = map_of (ib_episodes d) ep)"

lemma main_store:
  assumes "store_world E db" "injector_main E args w = (r, w')"
  shows "kept_contract (run_id E args w) (ia_class args) r (db w) (db w')"
  using assms(2,1)
proof (cases rule: main_cases)
  case (ran cfg t0 holder u q v p)
  note facts = locked_store[OF assms(1) ran(3)] release_store[OF assms(1) ran(4)]
  have start: "ib_episodes (db u) = ib_episodes (db w)" using ran(1) by auto
  show ?thesis
    unfolding kept_contract_def
  proof (intro conjI allI impI)
    show "map_of (ib_episodes (db w')) k = map_of (ib_episodes (db w)) k" if "k \<noteq> run_id E args w" for k
      using facts(2)[OF that] facts(5) start by simp
    show "\<exists>e. map_of (ib_episodes (db w')) (run_id E args w) = Some e \<and> ee_class e = ia_class args" if "r = Inr ()"
      using facts(3,5) ran(5) that by (simp split: sum.splits)
    show "ib_holder (db w') = None" if "r = Inr ()"
      using facts(1,7) ran(2,5) that by (simp split: sum.splits)
    show "map_of (ib_episodes (db w')) (run_id E args w) = map_of (ib_episodes (db w)) (run_id E args w)"
      if "r = Inl (SystemExit c) \<and> ia_class args \<notin> early_writers" for c
      using facts(4) facts(5,6) ran(5) that start by (auto split: sum.splits)
  qed
qed (simp_all add: kept_contract_def)

lemma demo_store_world: "store_world inj_demo_env cl_db"
  by (auto simp: store_world_def inj_demo_env_def demo_run_def split: option.splits)



section \<open>What the batch runner relies on\<close>

text \<open>\<^verbatim>\<open>SELECT COUNT(*) FROM episodes WHERE fault_class = ?\<close>.\<close>

definition class_count :: "inj_db \<Rightarrow> string \<Rightarrow> nat" where
  "class_count d c =
     length (filter (\<lambda>k. case map_of (ib_episodes d) k of None \<Rightarrow> False | Some e \<Rightarrow> ee_class e = c)
       (remdups (map fst (ib_episodes d))))"

definition of_class :: "inj_db \<Rightarrow> string \<Rightarrow> string set" where
  "of_class d c = {k. \<exists>e. map_of (ib_episodes d) k = Some e \<and> ee_class e = c}"

lemma class_count_card: "class_count d c = card (of_class d c)"
proof -
  have "set (filter (\<lambda>k. case map_of (ib_episodes d) k of None \<Rightarrow> False | Some e \<Rightarrow> ee_class e = c)
      (remdups (map fst (ib_episodes d)))) = of_class d c"
    by (auto simp: of_class_def split: option.splits dest: map_of_SomeD intro: rev_image_eqI)
  then show ?thesis by (metis class_count_def distinct_card distinct_filter distinct_remdups)
qed

lemma finite_of_class: "finite (of_class d c)"
  by (rule finite_subset[OF _ finite_dom_map_of[of "ib_episodes d"]]) (auto simp: of_class_def)

text \<open>The runner's environment when its script is this injector, on this database, with identifiers
  no row has yet.\<close>

definition batch_args :: "string \<Rightarrow> injector_options" where
  "batch_args c = \<lparr>ia_class = c, ia_duration = None, ia_episode = None, ia_files = \<lparr>rf_stop = None, rf_evidence = None\<rparr>\<rparr>"

definition runs_injector :: "'w batch_env \<Rightarrow> 'w inj_env \<Rightarrow> ('w \<Rightarrow> inj_db) \<Rightarrow> bool" where
  "runs_injector B E db \<longleftrightarrow>
     (\<forall>c w. be_run B ''injector.py'' [''--class'', c] w =
        (case injector_main E (batch_args c) w of (r, w') \<Rightarrow> (r = Inr (), w'))) \<and>
     (\<forall>w c. be_count B w c = class_count (db w) c)"

definition fresh_ids :: "'w inj_env \<Rightarrow> ('w \<Rightarrow> inj_db) \<Rightarrow> bool" where
  "fresh_ids E db \<longleftrightarrow> (\<forall>w. map_of (ib_episodes (db w)) (uuid_text (fst (ij_uuid E w))) = None)"

lemma run_counts:
  assumes "store_world E db" "fresh_ids E db" "injector_main E (batch_args c) w = (r, w')"
  shows "class_count (db w) c' \<le> class_count (db w') c'" "r = Inr () \<Longrightarrow> class_count (db w) c < class_count (db w') c"
proof -
  let ?ep = "run_id E (batch_args c) w"
  have new: "map_of (ib_episodes (db w)) ?ep = None"
    using assms(2) by (simp add: run_id_def batch_args_def fresh_ids_def)
  note kept = main_store[OF assms(1,3), unfolded kept_contract_def]
  have sub: "of_class (db w) k \<subseteq> of_class (db w') k" for k
  proof
    fix x assume "x \<in> of_class (db w) k"
    then obtain e where e: "map_of (ib_episodes (db w)) x = Some e" "ee_class e = k" by (auto simp: of_class_def)
    then have "x \<noteq> ?ep" using new by auto
    then show "x \<in> of_class (db w') k" using e kept by (simp add: of_class_def)
  qed
  show "class_count (db w) c' \<le> class_count (db w') c'"
    unfolding class_count_card by (intro card_mono finite_of_class sub)
  show "class_count (db w) c < class_count (db w') c" if "r = Inr ()"
  proof -
    have "?ep \<in> of_class (db w') c" using kept that by (auto simp: of_class_def batch_args_def)
    moreover have "?ep \<notin> of_class (db w) c" using new by (simp add: of_class_def)
    ultimately show ?thesis unfolding class_count_card using sub by (intro psubset_card_mono finite_of_class) auto
  qed
qed

text \<open>The demo cluster with identifiers longer than any it has given, under the batch runner.\<close>

definition demo_ids :: "shop_state inj_env" where
  "demo_ids = inj_demo_env\<lparr>ij_uuid := (\<lambda>w. (replicate (Suc (foldr (\<lambda>(k, _) n. max (length k) n) (ib_episodes (cl_db w)) 0)) CHR 0x30, w))\<rparr>"

definition demo_runner :: "shop_state batch_env" where
  "demo_runner = \<lparr>be_prometheus = (\<lambda>w. (Some 200, w)), be_agent = (\<lambda>w. (Some 200, w)),
     be_run = (\<lambda>script args w. if script = ''injector.py'' \<and> take 1 args = [''--class''] \<and> length args = 2
        then (case injector_main demo_ids (batch_args (args ! 1)) w of (r, w') \<Rightarrow> (r = Inr (), w')) else (True, w)),
     be_audit = (\<lambda>_ w. (True, w)), be_count = (\<lambda>w. class_count (cl_db w)), be_latest = (\<lambda>_ _. None),
     be_usage = (\<lambda>_. empty_quota), be_ensure = (\<lambda>_ w. (Inr (), w)), be_time = cl_time, be_monotonic = (\<lambda>_. 0),
     be_sleep = ij_sleep inj_demo_env, be_stop = (\<lambda>_. False), be_flag = (\<lambda>_. False), be_unlink = (\<lambda>w. w),
     be_select = (\<lambda>w. (False, w))\<rparr>"

lemma length_uuid_text: "length (uuid_text u) = length u + 4"
  by (simp add: uuid_text_def)

lemma longest_key: "k \<in> fst ` set eps \<Longrightarrow> length k \<le> foldr (\<lambda>(k, _) n. max (length k) n) eps 0"
  by (induction eps) (force simp: le_max_iff_disj)+

lemma demo_ids_world: "store_world demo_ids cl_db" "fresh_ids demo_ids cl_db" "runs_injector demo_runner demo_ids cl_db"
proof -
  show "store_world demo_ids cl_db"
    by (auto simp: store_world_def demo_ids_def inj_demo_env_def demo_run_def split: option.splits)
  show "fresh_ids demo_ids cl_db"
    unfolding fresh_ids_def
  proof
    fix w
    let ?u = "fst (ij_uuid demo_ids w)"
    have "length (uuid_text ?u) > foldr (\<lambda>(k, _) n. max (length k) n) (ib_episodes (cl_db w)) 0"
      by (simp add: length_uuid_text demo_ids_def)
    then have "uuid_text ?u \<notin> fst ` set (ib_episodes (cl_db w))" using longest_key by (metis not_le)
    then show "map_of (ib_episodes (cl_db w)) (uuid_text ?u) = None" by (simp add: map_of_eq_None_iff)
  qed
  show "runs_injector demo_runner demo_ids cl_db"
    by (simp add: runs_injector_def demo_runner_def)
qed

text \<open>C7: what the batch runner relies on holds of the injector: a run for a class that exits with 0 has
  added an episode of that class, and no run takes one away.\<close>

theorem injector_refuses_or_records:
  assumes "store_world E db" "fresh_ids E db" "runs_injector B E db"
  shows "refuses_or_records B \<and> (\<forall>c w. grown B w (snd (be_run B ''injector.py'' [''--class'', c] w)))"
  using run_counts[OF assms(1,2)] assms(3)
  by (fastforce simp: refuses_or_records_def grown_def runs_injector_def split: prod.splits)

theorem injector_refuses_or_records_witness: "refuses_or_records demo_runner"
  using injector_refuses_or_records[OF demo_ids_world] by simp

end
