(* ===== verification/Injector_Lock.thy ===== *)
theory Injector_Lock
  imports Injector_Contract
begin

text \<open>
  The lock that keeps two runs of the injector apart, with any number of runs that enter, leave and
  die; how long a run may hold it; and the shape of the tables.
\<close>

section \<open>Runs and the lock\<close>

text \<open>The clock, the tables, and the runs between their \<^verbatim>\<open>acquire_system_lock_or_die\<close> and their
  release, each with its holder text and the time it entered.\<close>

record lock_state =
  lk_now :: int
  lk_db :: inj_db
  lk_in :: "(string \<times> int) list"

definition others :: "string \<Rightarrow> (string \<times> int) list \<Rightarrow> (string \<times> int) list" where
  "others h runs = filter (\<lambda>p. fst p \<noteq> h) runs"

text \<open>A run enters when its UPDATE finds the lock open; the holder text has the process number, so no
  run inside has the same. A run leaves with its \<^verbatim>\<open>finally\<close>; a killed one leaves the row.\<close>

inductive lock_step :: "lock_state \<Rightarrow> lock_state \<Rightarrow> bool" where
  tick: "0 \<le> us \<Longrightarrow> lock_step s (s\<lparr>lk_now := lk_now s + us\<rparr>)"
| enter: "lock_is_open (lk_now s) (lk_db s) \<Longrightarrow> h \<notin> fst ` set (lk_in s) \<Longrightarrow>
    lock_step s (s\<lparr>lk_db := take_lock h (lk_now s) (lk_db s), lk_in := (h, lk_now s) # lk_in s\<rparr>)"
| leave: "h \<in> fst ` set (lk_in s) \<Longrightarrow>
    lock_step s (s\<lparr>lk_db := drop_lock h (lk_db s), lk_in := others h (lk_in s)\<rparr>)"
| killed: "h \<in> fst ` set (lk_in s) \<Longrightarrow> lock_step s (s\<lparr>lk_in := others h (lk_in s)\<rparr>)"

inductive lock_reached :: "lock_state \<Rightarrow> bool" where
  fresh: "ib_holder d = None \<Longrightarrow> lock_reached \<lparr>lk_now = t, lk_db = d, lk_in = []\<rparr>"
| step: "lock_reached s \<Longrightarrow> lock_step s s' \<Longrightarrow> lock_reached s'"

text \<open>A run inside is the holder in the table, or it entered more than the stale time ago.\<close>

definition owns_or_stale :: "lock_state \<Rightarrow> string \<times> int \<Rightarrow> bool" where
  "owns_or_stale s p \<longleftrightarrow>
     (ib_holder (lk_db s) = Some (fst p) \<and> ib_acquired (lk_db s) = Some (snd p)) \<or>
     snd p + seconds_us system_lock_stale_s < lk_now s"

definition apart :: "(string \<times> int) list \<Rightarrow> bool" where
  "apart runs \<longleftrightarrow> (\<forall>p\<in>set runs. \<forall>q\<in>set runs. fst p \<noteq> fst q \<longrightarrow> seconds_us system_lock_stale_s < \<bar>snd p - snd q\<bar>)"

lemma others_set [simp]: "set (others h runs) = {p \<in> set runs. fst p \<noteq> h}"
  by (auto simp: others_def)

lemma open_is_stale:
  assumes "lock_is_open (lk_now s) (lk_db s)" "owns_or_stale s p"
  shows "snd p + seconds_us system_lock_stale_s < lk_now s"
  using assms by (auto simp: lock_is_open_def owns_or_stale_def)

lemma drop_keeps_owner: "h \<noteq> fst p \<Longrightarrow> owns_or_stale s p \<Longrightarrow> owns_or_stale (s\<lparr>lk_db := drop_lock h (lk_db s), lk_in := x\<rparr>) p"
  by (auto simp: owns_or_stale_def drop_lock_def)

lemma apart_Cons:
  "apart runs \<Longrightarrow> (\<And>p. p \<in> set runs \<Longrightarrow> snd p + seconds_us system_lock_stale_s < t) \<Longrightarrow> apart ((h, t) # runs)"
  unfolding apart_def by (fastforce simp: abs_if)

lemma lock_invariant:
  assumes "lock_reached s"
  shows "(\<forall>p\<in>set (lk_in s). owns_or_stale s p) \<and> apart (lk_in s)"
  using assms
proof (induction rule: lock_reached.induct)
  case (step s s')
  from step.hyps(2) show ?case
  proof (cases rule: lock_step.cases)
    case (enter h)
    have gap: "snd p + seconds_us system_lock_stale_s < lk_now s" if "p \<in> set (lk_in s)" for p
      using step.IH enter(2) open_is_stale that by blast
    have "owns_or_stale s' (h, lk_now s)"
      using enter(1,2) by (simp add: owns_or_stale_def take_lock_def)
    moreover have "owns_or_stale s' p" if "p \<in> set (lk_in s)" for p
      using gap[OF that] enter(1) by (simp add: owns_or_stale_def)
    moreover have "apart ((h, lk_now s) # lk_in s)" using step.IH gap by (blast intro: apart_Cons)
    ultimately show ?thesis using enter(1) by simp
  next
    case (leave h)
    have "owns_or_stale s' p" if "p \<in> set (lk_in s)" "fst p \<noteq> h" for p
      unfolding leave(1) by (rule drop_keeps_owner) (use step.IH that in auto)
    then show ?thesis using step.IH leave(1) by (simp add: apart_def)
  next
    case (tick us)
    have "owns_or_stale s' p" if "p \<in> set (lk_in s)" for p
      using step.IH that tick by (auto simp: owns_or_stale_def)
    then show ?thesis using step.IH tick(1) by simp
  next
    case (killed h)
    have "owns_or_stale s' p \<longleftrightarrow> owns_or_stale s p" for p by (simp add: owns_or_stale_def killed(1))
    then show ?thesis using step.IH killed(1) by (simp add: apart_def)
  qed
qed (simp add: apart_def)

lemma two_inside:
  "lock_reached \<lparr>lk_now = seconds_us 601, lk_db = \<lparr>ib_episodes = [], ib_holder = Some ''b'', ib_acquired = Some (seconds_us 601)\<rparr>,
     lk_in = [(''b'', seconds_us 601), (''a'', 0)]\<rparr>"
proof -
  let ?d = "\<lparr>ib_episodes = [], ib_holder = None, ib_acquired = None\<rparr>"
  note steps = lock_reached.step[OF _ enter] lock_reached.step[OF _ tick]
  have a: "lock_reached \<lparr>lk_now = 0, lk_db = take_lock ''a'' 0 ?d, lk_in = [(''a'', 0)]\<rparr>"
    using steps(1)[OF fresh, of ?d 0 "''a''"] by (simp add: lock_is_open_def)
  have b: "lock_reached \<lparr>lk_now = seconds_us 601, lk_db = take_lock ''a'' 0 ?d, lk_in = [(''a'', 0)]\<rparr>"
    using steps(2)[OF a, of "seconds_us 601"] by (simp add: seconds_us_def)
  show ?thesis
    using steps(1)[OF b, of "''b''"] by (simp add: lock_is_open_def take_lock_def seconds_us_def system_lock_stale_s_def)
qed

text \<open>C8: however runs of the injector enter, leave and are killed, two are inside at once only when the
  second entered more than ten minutes after the first: the lock never opens early, and a run that
  was overtaken does not free the lock of its successor when it leaves.\<close>

theorem lock_excludes:
  assumes "lock_reached s" "(h1, t1) \<in> set (lk_in s)" "(h2, t2) \<in> set (lk_in s)" "h1 \<noteq> h2"
  shows "seconds_us 600 < \<bar>t1 - t2\<bar>"
  using lock_invariant[OF assms(1)] assms(2-4) by (force simp: apart_def system_lock_stale_s_def)

theorem lock_excludes_witness: "seconds_us 600 < \<bar>seconds_us 601 - 0\<bar>"
  by (rule lock_excludes[OF two_inside, of "''b''" _ "''a''"]) simp_all

section \<open>How long a run holds the lock\<close>

text \<open>The clock does not go back, and a sleep takes at least its time.\<close>

definition clock_goes_on :: "'w inj_env \<Rightarrow> bool" where
  "clock_goes_on E \<longleftrightarrow>
     (\<forall>args i t w. ij_time E w \<le> ij_time E (snd (ij_run E args i t w))) \<and> (\<forall>q w. ij_time E w \<le> ij_time E (snd (ij_query E q w))) \<and>
     (\<forall>us w. ij_time E w + max 0 us \<le> ij_time E (ij_sleep E us w)) \<and> (\<forall>p w. ij_time E w \<le> ij_time E (snd (ij_write E p w))) \<and>
     (\<forall>w. ij_time E w \<le> ij_time E (snd (ij_uuid E w))) \<and> (\<forall>a w. ij_time E w \<le> ij_time E (snd (ij_popen E a w))) \<and>
     (\<forall>p t w. ij_time E w \<le> ij_time E (snd (ij_feed E p t w))) \<and> (\<forall>p us w. ij_time E w \<le> ij_time E (snd (ij_wait E p us w))) \<and>
     (\<forall>p w. ij_time E w \<le> ij_time E (snd (ij_terminate E p w))) \<and> (\<forall>p w. ij_time E w \<le> ij_time E (snd (ij_kill E p w))) \<and>
     (\<forall>g w. ij_time E w \<le> ij_time E (snd (ij_sql E g w)))"

lemma clock_goes_onD:
  assumes "clock_goes_on E"
  shows "ij_time E w \<le> ij_time E (snd (ij_run E args i t w))" "ij_time E w \<le> ij_time E (snd (ij_query E q w))"
    "ij_time E w + max 0 us \<le> ij_time E (ij_sleep E us w)" "ij_time E w \<le> ij_time E (snd (ij_write E file w))"
    "ij_time E w \<le> ij_time E (snd (ij_uuid E w))" "ij_time E w \<le> ij_time E (snd (ij_popen E a w))"
    "ij_time E w \<le> ij_time E (snd (ij_feed E p text w))" "ij_time E w \<le> ij_time E (snd (ij_wait E p us w))"
    "ij_time E w \<le> ij_time E (snd (ij_terminate E p w))" "ij_time E w \<le> ij_time E (snd (ij_kill E p w))"
    "ij_time E w \<le> ij_time E (snd (ij_sql E g w))"
  by (simp_all only: assms[unfolded clock_goes_on_def] simp_thms)

definition clock_frame :: "'w inj_env \<Rightarrow> 'w \<Rightarrow> 'w \<Rightarrow> bool" where
  "clock_frame E w w' \<longleftrightarrow> (clock_goes_on E \<longrightarrow> ij_time E w \<le> ij_time E w')"

interpretation clock: quiet_cluster "clock_frame E" E "\<lambda>_. True" for E :: "'w inj_env"
proof unfold_locales
  show "clock_frame E w (ij_sleep E us w)" for us w
    unfolding clock_frame_def by (rule impI, drule clock_goes_onD(3)[of E w us]) linarith
qed (auto simp: keeps_def clock_frame_def intro: clock_goes_onD)

lemma clockD: "keeps (clock_frame E) m \<Longrightarrow> clock_goes_on E \<Longrightarrow> m w = (r, w') \<Longrightarrow> ij_time E w \<le> ij_time E w'"
  by (drule (1) keepsD) (simp add: clock_frame_def)

text \<open>A poll that saw no kill took its 201 seconds.\<close>

lemma poll_oom_time:
  assumes "clock_goes_on E" "poll_oom E cfg baseline elapsed w = (Inr False, w')"
  shows "ij_time E w + seconds_us (oom_verify_ceiling_s + 1 - elapsed) \<le> ij_time E w'"
  using assms(2)
proof (induction "nat (oom_verify_ceiling_s + 1 - elapsed)" arbitrary: elapsed w rule: less_induct)
  case less
  show ?case
  proof (cases "oom_verify_ceiling_s < elapsed")
    case True
    then show ?thesis using less.prems by (subst (asm) poll_oom.simps) (simp add: seconds_us_def)
  next
    case False
    obtain q u where q: "oom_seen E cfg baseline w = (q, u)" by fastforce
    let ?v = "ij_sleep E (seconds_us oom_verify_poll_s) u"
    have again: "poll_oom E cfg baseline (elapsed + oom_verify_poll_s) ?v = (Inr False, w')"
      using less.prems False q by (subst (asm) poll_oom.simps) (simp split: sum.splits option.splits)
    have "ij_time E ?v + seconds_us (oom_verify_ceiling_s + 1 - (elapsed + oom_verify_poll_s)) \<le> ij_time E w'"
      by (rule less.hyps[OF _ again]) (use False in \<open>simp add: oom_verify_poll_s_def\<close>)
    moreover have "ij_time E w \<le> ij_time E u" by (rule clockD[OF clock.keeps_oom_parts(2) assms(1) q])
    moreover have "ij_time E u + seconds_us oom_verify_poll_s \<le> ij_time E ?v"
      using clock_goes_onD(3)[OF assms(1), of u "seconds_us oom_verify_poll_s"] by (simp add: seconds_us_def oom_verify_poll_s_def)
    ultimately show ?thesis by (simp add: seconds_us_def)
  qed
qed

text \<open>A step whose results in \<open>P\<close> take at least the time \<open>k\<close>.\<close>

definition takes :: "'w inj_env \<Rightarrow> int \<Rightarrow> ('a \<Rightarrow> bool) \<Rightarrow> ('w, 'a) step \<Rightarrow> bool" where
  "takes E k P m \<longleftrightarrow>
     (clock_goes_on E \<longrightarrow> (\<forall>w a w'. m w = (Inr a, w') \<longrightarrow> P a \<longrightarrow> ij_time E w + k \<le> ij_time E w'))"

lemma takesD: "takes E k P m \<Longrightarrow> clock_goes_on E \<Longrightarrow> m w = (Inr a, w') \<Longrightarrow> P a \<Longrightarrow> ij_time E w + k \<le> ij_time E w'"
  by (simp add: takes_def)

lemma then_stepE:
  assumes "then_step m g w = (Inr a, w')"
  obtains b u where "m w = (Inr b, u)" "g b u = (Inr a, w')"
  using assms by (auto simp: then_step_def split: prod.splits sum.splits)

lemma takes_later:
  assumes "keeps (clock_frame E) m" "\<And>b. takes E k P (g b)"
  shows "takes E k P (then_step m g)"
  unfolding takes_def
proof (intro impI allI)
  fix w a w' assume clock: "clock_goes_on E" and run: "then_step m g w = (Inr a, w')" and "P a"
  obtain b u where "m w = (Inr b, u)" "g b u = (Inr a, w')" using run by (rule then_stepE)
  then show "ij_time E w + k \<le> ij_time E w'"
    using clockD[OF assms(1) clock, of w "Inr b" u] takesD[OF assms(2) clock, of b u a w'] \<open>P a\<close> by linarith
qed

lemma takes_first:
  assumes "takes E k Q m" "\<And>b. keeps (clock_frame E) (g b)" "\<And>b w a w'. g b w = (Inr a, w') \<Longrightarrow> P a \<Longrightarrow> Q b"
  shows "takes E k P (then_step m g)"
  unfolding takes_def
proof (intro impI allI)
  fix w a w' assume clock: "clock_goes_on E" and run: "then_step m g w = (Inr a, w')" and "P a"
  obtain b u where b: "m w = (Inr b, u)" "g b u = (Inr a, w')" using run by (rule then_stepE)
  then have "Q b" using assms(3) \<open>P a\<close> by blast
  then show "ij_time E w + k \<le> ij_time E w'"
    using clockD[OF assms(2) clock b(2)] takesD[OF assms(1) clock b(1)] by linarith
qed

lemma takes_finally: "takes E k P m \<Longrightarrow> keeps (clock_frame E) c \<Longrightarrow> takes E k P (finally_step m c)"
  unfolding takes_def finally_step_def
  by (auto split: prod.splits sum.splits dest!: clockD[of E c]) (metis add.commute order_trans)

lemma takes_attempts:
  assumes "takes E k (\<lambda>r. r = None) body" "\<And>w w'. body w \<noteq> (Inr (Some None), w')"
  shows "takes E (int n * k) (\<lambda>r. r = None) (attempts n body None)"
proof (induction n)
  case (Suc n)
  show ?case
    unfolding takes_def
  proof (intro impI allI)
    fix w a w' assume clock: "clock_goes_on E" and run: "attempts (Suc n) body None w = (Inr a, w')" and "a = None"
    obtain b u where b: "body w = (Inr b, u)" "(case b of Some a \<Rightarrow> ret_step a | None \<Rightarrow> attempts n body None) u = (Inr a, w')"
      using run unfolding attempts.simps by (rule then_stepE)
    then have "b = None" using assms(2) \<open>a = None\<close> by (auto simp: ret_step_def split: option.splits)
    then show "ij_time E w + int (Suc n) * k \<le> ij_time E w'"
      using takesD[OF assms(1) clock b(1)] takesD[OF Suc clock, of u a w'] b(2) \<open>a = None\<close> by (simp add: algebra_simps)
  qed
qed (simp add: takes_def ret_step_def)

lemma oom_attempt_takes: "takes E (seconds_us 201) (\<lambda>r. r = None) (oom_attempt E cfg)"
proof -
  have poll: "takes E (seconds_us 201) Not (poll_oom E cfg baseline 0)" for baseline
    using poll_oom_time[of E cfg baseline 0] by (simp add: takes_def oom_verify_ceiling_s_def)
  show ?thesis
    unfolding oom_attempt_def
    by (intro takes_later clock.keeps_pod_name clock.keeps_option clock.keeps_ret clock.keeps_oom_parts clock.keeps_chaos_name
        clock.keeps_apply takes_first[of _ _ Not] takes_finally poll clock.keeps_delete)
      (simp add: ret_step_def split: if_splits)
qed

lemma oom_attempt_shape: "oom_attempt E cfg w \<noteq> (Inr (Some None), w')"
  by (auto simp: oom_attempt_def then_step_def ret_step_def split: prod.splits sum.splits if_splits)

text \<open>On the demo cluster no container is ever killed.\<close>

lemma demo_clock: "clock_goes_on inj_demo_env"
  by (auto simp: clock_goes_on_def inj_demo_env_def demo_run_def split: option.splits)

lemma demo_pod_found: "current_pod_name inj_demo_env target ns w = (Inr (Some ''pod-1''), w)"
  by (simp add: current_pod_name_def kube_text_def kube_run_def map_step_def then_step_def ret_step_def inj_demo_env_def demo_run_def
      chaos_deletion_def py_strip_def is_space_def)

lemma demo_restarts: "pod_restart_count_direct inj_demo_env pod ns container w = (Inr None, w)"
  by (simp add: pod_restart_count_direct_def kube_text_def kube_run_def map_step_def then_step_def ret_step_def inj_demo_env_def
      demo_run_def chaos_deletion_def py_strip_def)

lemma demo_poll: "\<exists>w'. poll_oom inj_demo_env cfg None elapsed w = (Inr False, w')"
proof (induction "nat (oom_verify_ceiling_s + 1 - elapsed)" arbitrary: elapsed w rule: less_induct)
  case less
  have "oom_seen inj_demo_env cfg None w = (Inr None, w)" by (simp add: oom_seen_def then_step_def demo_pod_found ret_step_def)
  then show ?case
    using less[of "elapsed + oom_verify_poll_s"] by (subst poll_oom.simps) (simp add: oom_verify_poll_s_def)
qed

lemma demo_attempt: "\<exists>w'. oom_attempt inj_demo_env cfg w = (Inr None, w')"
proof -
  have name: "\<exists>name. chaos_name inj_demo_env cfg mid w = (Inr name, w)" for mid w
    by (simp add: chaos_name_def map_step_def then_step_def ret_step_def uuid8_def inj_demo_env_def)
  have applied: "\<exists>u. apply_manifest inj_demo_env m w = (Inr (), u)" for m w
    by (simp add: apply_manifest_def then_step_def ret_step_def inj_demo_env_def demo_run_def)
  have deleted: "\<exists>u. delete_chaos_resource inj_demo_env kind name w = (Inr (), u)" for kind name w
    by (simp add: delete_chaos_resource_def kube_do_def kube_run_def map_step_def then_step_def ret_step_def inj_demo_env_def
        demo_run_def chaos_deletion_def)
  obtain name where n: "chaos_name inj_demo_env cfg ''-'' w = (Inr name, w)" using name by blast
  obtain u where u: "apply_manifest inj_demo_env (build_oom_manifest name cfg) w = (Inr (), u)" using applied by blast
  obtain v where v: "poll_oom inj_demo_env cfg None 0 u = (Inr False, v)" using demo_poll by blast
  obtain x where "delete_chaos_resource inj_demo_env ''stresschaos'' name v = (Inr (), x)" using deleted by blast
  then show ?thesis
    by (simp add: oom_attempt_def then_step_def demo_pod_found demo_restarts n u v finally_step_def ret_step_def)
qed

lemma demo_refused: "\<exists>w'. inject_oom_batch inj_demo_env cfg w = (Inr None, w')"
proof -
  have "\<exists>w'. attempts n (oom_attempt inj_demo_env cfg) None w = (Inr None, w')" for n
  proof (induction n arbitrary: w)
    case (Suc n)
    then show ?case using demo_attempt[of cfg w] by (auto simp: then_step_def)
  qed (simp add: ret_step_def)
  then show ?thesis by (simp add: inject_oom_batch_def)
qed

text \<open>C20: a batch run of the memory fault that is refused has held the lock for more than the ten minutes
  after which the lock counts as stale: three attempts of 67 polls, three seconds each.\<close>

theorem oom_outlives_its_lock:
  assumes "clock_goes_on E" "inject_oom_batch E cfg w = (Inr None, w')"
  shows "ij_time E w + seconds_us system_lock_stale_s < ij_time E w'"
  using takesD[OF takes_attempts[OF oom_attempt_takes oom_attempt_shape] assms(1) assms(2)[unfolded inject_oom_batch_def]]
  by (simp add: max_inject_attempts_def system_lock_stale_s_def seconds_us_def)

theorem oom_outlives_its_lock_witness:
  "\<exists>w'. inject_oom_batch inj_demo_env oom_inject_cfg inj_demo_cluster = (Inr None, w') \<and> 0 + seconds_us system_lock_stale_s < cl_time w'"
proof -
  obtain w' where w': "inject_oom_batch inj_demo_env oom_inject_cfg inj_demo_cluster = (Inr None, w')" using demo_refused by blast
  show ?thesis using oom_outlives_its_lock[OF demo_clock w'] w' by (simp add: inj_demo_env_def inj_demo_cluster_def)
qed

section \<open>The shape of the tables\<close>

text \<open>Identifiers are unique, every row has a class of the table with the target and the namespace of
  that class, and the lock has a time exactly when it has a holder.\<close>

definition wf_row :: "episode_entry \<Rightarrow> bool" where
  "wf_row e \<longleftrightarrow> (case inject_config (ee_class e) of None \<Rightarrow> False
     | Some cfg \<Rightarrow> ee_target e = cfg_target cfg \<and> ee_namespace e = cfg_namespace cfg)"

definition wf_tables :: "inj_db \<Rightarrow> bool" where
  "wf_tables d \<longleftrightarrow> distinct (map fst (ib_episodes d)) \<and> list_all (\<lambda>(_, e). wf_row e) (ib_episodes d) \<and>
     (ib_holder d = None \<longleftrightarrow> ib_acquired d = None)"

definition typed_frame :: "'w inj_env \<Rightarrow> ('w \<Rightarrow> inj_db) \<Rightarrow> 'w \<Rightarrow> 'w \<Rightarrow> bool" where
  "typed_frame E db w w' \<longleftrightarrow> (store_world E db \<longrightarrow> wf_tables (db w) \<longrightarrow> wf_tables (db w'))"

lemma typed_same: "(store_world E db \<Longrightarrow> db w' = db w) \<Longrightarrow> typed_frame E db w w'"
  by (simp add: typed_frame_def)

interpretation typed: quiet_cluster "typed_frame E db" E "\<lambda>g. \<forall>d. wf_tables d \<longrightarrow> wf_tables (g d)"
  for E :: "'w inj_env" and db :: "'w \<Rightarrow> inj_db"
proof unfold_locales
  show "typed_frame E db w w" for w by (simp add: typed_same)
  show "typed_frame E db u w" if "typed_frame E db u v" "typed_frame E db v w" for u v w
    using that unfolding typed_frame_def by blast
  show "keeps (typed_frame E db) (ij_sql E g)" if "\<forall>d. wf_tables d \<longrightarrow> wf_tables (g d)" for g
  proof (rule keepsI, unfold typed_frame_def, intro impI)
    fix w r w' assume "ij_sql E g w = (r, w')" "store_world E db" "wf_tables (db w)"
    then show "wf_tables (db w')" using store_sql[of E db g w r w'] that by (cases r) simp_all
  qed
qed (auto simp: keeps_def intro!: typed_same store_worldD)

lemma wf_tables_map:
  "wf_tables d \<longleftrightarrow> distinct (map fst (ib_episodes d)) \<and> (\<forall>k e. map_of (ib_episodes d) k = Some e \<longrightarrow> wf_row e) \<and>
     (ib_holder d = None \<longleftrightarrow> ib_acquired d = None)"
  by (auto simp: wf_tables_def list_all_iff)

lemma wf_upsert:
  assumes "wf_tables d" "wf_row fresh" "\<And>e. wf_row e \<Longrightarrow> wf_row (change e)"
  shows "wf_tables (upsert_episode ep fresh change d)"
proof -
  have "distinct (map fst (ib_episodes (upsert_episode ep fresh change d)))"
    using assms(1) by (auto simp: upsert_episode_def wf_tables_def distinct_update map_of_eq_None_iff split: option.split)
  then show ?thesis using assms unfolding wf_tables_map map_of_upsert by (auto split: option.splits)
qed

text \<open>The transactions of a run for a class of the table.\<close>

definition matches :: "string \<Rightarrow> inject_cfg \<Rightarrow> bool" where
  "matches cls cfg \<longleftrightarrow> (case inject_config cls of None \<Rightarrow> False
     | Some c \<Rightarrow> cfg_target cfg = cfg_target c \<and> cfg_namespace cfg = cfg_namespace c)"

lemma wf_transactions:
  assumes "matches cls cfg" "wf_tables d"
  shows "wf_tables (put_episode ep cls cfg name t0 d)" "wf_tables (put_probe ep cls cfg t0 p d)"
    "wf_tables (put_heap ep cls cfg t0 kb d)" "wf_tables (take_lock holder now d)" "wf_tables (drop_lock holder d)"
proof -
  show "wf_tables (put_episode ep cls cfg name t0 d)" "wf_tables (put_probe ep cls cfg t0 p d)" "wf_tables (put_heap ep cls cfg t0 kb d)"
    unfolding put_episode_def put_probe_def put_heap_def
    by (intro wf_upsert assms(2); use assms(1) in \<open>simp add: wf_row_def matches_def pending_entry_def split: option.splits\<close>)+
  show "wf_tables (take_lock holder now d)" "wf_tables (drop_lock holder d)"
    using assms(2) by (simp_all add: wf_tables_def take_lock_def drop_lock_def)
qed

lemma main_typed: "keeps (typed_frame E db) (injector_main E args)"
proof (cases "inject_config (ia_class args)")
  case None
  then show ?thesis by (simp add: injector_main_def typed.keeps_res)
next
  case (Some cfg0)
  have id: "keeps (typed_frame E db) (episode_id_of E given)" for given
    by (rule keepsI) (auto intro!: typed_same dest: episode_id_store)
  have m: "matches (ia_class args) (case ia_duration args of None \<Rightarrow> cfg0 | Some x \<Rightarrow> cfg0\<lparr>ic_duration := x\<rparr>)"
    using Some by (simp add: matches_def split: option.split)
  show ?thesis
    unfolding injector_main_def Some option.case Let_def locked_run_def
    by (intro typed.keeps_then id typed.keeps_now typed.keeps_acquire typed.keeps_release typed.keeps_finally typed.keeps_sticky
        typed.keeps_injection typed.keeps_option typed.keeps_res typed.keeps_record)
      (use wf_transactions[OF m] in simp_all)
qed

text \<open>C16: every run of the injector, however it ends, leaves the tables well-formed: unique identifiers, rows
  whose target and namespace are those of their class, a lock that has a time exactly when it has a
  holder.\<close>

theorem tables_stay_well_formed:
  assumes "store_world E db" "wf_tables (db w)" "injector_main E args w = (r, w')"
  shows "wf_tables (db w')"
  using keepsD[OF main_typed assms(3), of db] assms(1,2) by (simp add: typed_frame_def)

theorem tables_stay_well_formed_witness:
  "wf_tables (cl_db (snd (injector_main inj_demo_env (demo_args ''memory-leak'') inj_demo_cluster)))"
  by (rule tables_stay_well_formed[OF demo_store_world _ surjective_pairing]) (simp add: inj_demo_cluster_def wf_tables_def)

end
