(* ===== verification/Injector_Aborts.thy ===== *)
theory Injector_Aborts
  imports Injector_Contract
begin

text \<open>
  What an injection leaves when it gives up: the row a refused memory leak keeps in the database.
\<close>

section \<open>A refused memory leak\<close>

lemma keeps_storeD: "keeps (store_frame E db X) m \<Longrightarrow> store_world E db \<Longrightarrow> m w = (r, w') \<Longrightarrow> held X (db w) (db w')"
  by (drule (1) keepsD) (simp add: store_frame_def)

definition pending_row :: "inj_db \<Rightarrow> string \<Rightarrow> string \<Rightarrow> bool" where
  "pending_row d ep cls \<longleftrightarrow>
     (case map_of (ib_episodes d) ep of None \<Rightarrow> False | Some e \<Rightarrow> ee_class e = cls \<and> ee_chaos e = ''pending'')"

lemma held_pending: "held {} d d' \<Longrightarrow> pending_row d' ep cls = pending_row d ep cls"
  by (simp add: held_def pending_row_def)

text \<open>The captured floor is written at once, in a row of its own.\<close>

lemma capture_row:
  assumes "store_world E db" "capture_memory_leak_baseline E ep cls cfg t0 w = (Inr (Some kb), w')"
    "map_of (ib_episodes (db w)) ep = None"
  shows "pending_row (db w') ep cls"
proof -
  let ?found = "\<lambda>agent. case agent of
         Some kb \<Rightarrow> ret_step (Some (Some kb))
       | None \<Rightarrow>
           except_step (\<lambda>e. e = HTTPError)
             (map_step (\<lambda>vs. case vs of [] \<Rightarrow> None | v # _ \<Rightarrow> Some v)
                (ij_query E (inj_heap_query (cfg_target cfg) (cfg_namespace cfg))))
             (ret_step None)"
  obtain agent u where u: "agent_floor_kb E cfg w = (Inr agent, u)"
    and 1: "then_step (?found agent) (\<lambda>found. case found of None \<Rightarrow> ret_step None
       | Some kb \<Rightarrow> map_step (\<lambda>_. Some kb) (ij_sql E (put_heap ep cls cfg t0 kb))) u = (Inr (Some kb), w')"
    using assms(2) unfolding capture_memory_leak_baseline_def by (auto simp: then_step_def split: prod.splits sum.splits)
  obtain found v where v: "?found agent u = (Inr found, v)"
    and 2: "(case found of None \<Rightarrow> ret_step None
       | Some kb \<Rightarrow> map_step (\<lambda>_. Some kb) (ij_sql E (put_heap ep cls cfg t0 kb))) v = (Inr (Some kb), w')"
    using 1 by (auto simp: then_step_def split: prod.splits sum.splits)
  have "keeps (store_frame E db {}) (?found agent)"
    by (intro store.keeps_rules) 
  then have "held {} (db u) (db v)" by (rule keeps_storeD) (rule assms(1), rule v)
  moreover have "held {} (db w) (db u)" by (rule keeps_storeD[OF store.keeps_agent_floor]) (rule assms(1), rule u)
  ultimately have "held {} (db w) (db v)" by (blast intro: held_trans)
  then have none: "map_of (ib_episodes (db v)) ep = None" using assms(3) by (simp add: held_def)
  obtain x q where x: "found = Some x" and q: "ij_sql E (put_heap ep cls cfg t0 x) v = (q, w')" and "q \<noteq> Inl e" for e
    using 2 by (auto simp: ret_step_def map_step_def then_step_def split: option.splits prod.splits sum.splits)
  then obtain d where "q = Inr d" by (cases q) auto
  then have "db w' = put_heap ep cls cfg t0 x (db v)" using store_sql(4)[OF assms(1) q] by simp
  then show ?thesis using none by (simp add: pending_row_def put_heap_def map_of_upsert pending_entry_def)
qed

text \<open>C21: once the heap floor is captured the database has a pending row of the class, whatever becomes of
  the injection: also a leak that was refused, which the program reports as no episode recorded,
  leaves one.\<close>

theorem aborted_leak_leaves_a_row:
  assumes "store_world E db" "map_of (ib_episodes (db w)) ep = None"
    "capture_memory_leak_baseline E ep cls cfg t0 (ij_sleep E (seconds_us memory_leak_settle_seconds) w) = (Inr (Some kb), u)"
    "inject_memory_leak E cfg ep cls t0 f w = (r, w')"
  shows "\<exists>e. map_of (ib_episodes (db w')) ep = Some e \<and> ee_class e = cls \<and> ee_chaos e = ''pending''"
proof -
  have "pending_row (db u) ep cls"
    by (rule capture_row[OF assms(1,3)]) (use assms(2) store_worldD(3)[OF assms(1)] in simp)
  moreover have "held {} (db u) (db w')"
  proof (rule keeps_storeD[OF _ assms(1)])
    let ?rest = "then_step (current_pod_name E (cfg_target cfg) (cfg_namespace cfg)) (\<lambda>pod.
           case pod of None \<Rightarrow> ret_step None
           | Some p \<Rightarrow>
               then_step (if no_leak_run E then ret_step True else start_ramp E cfg p) (\<lambda>ok.
                 if \<not> ok then ret_step None else leak_under_load E cfg f p))"
    show "?rest u = (r, w')"
      using assms(3,4) by (simp add: inject_memory_leak_def then_step_def ij_nap_def)
    show "keeps (store_frame E db {}) ?rest"
      by (intro store.keeps_rules store.keeps_pod_name store.keeps_ramp store.keeps_leak_load)
  qed
  ultimately have "pending_row (db w') ep cls" by (simp add: held_pending)
  then show ?thesis by (simp add: pending_row_def split: option.splits)
qed

text \<open>On the demo cluster with a heap metric the floor is found and the agent never answers.\<close>

definition demo_heap :: "shop_state inj_env" where
  "demo_heap = inj_demo_env\<lparr>ij_query := \<lambda>_ w. (Inr [Some 40960], w)\<rparr>"

lemma demo_heap_world: "store_world demo_heap cl_db"
  by (auto simp: store_world_def demo_heap_def inj_demo_env_def demo_run_def split: option.splits)

lemma demo_heap_fields:
  "ij_query demo_heap q w = (Inr [Some 40960], w)" "ij_sql demo_heap g w = (Inr (cl_db w), w\<lparr>cl_db := g (cl_db w)\<rparr>)"
  "cl_chaos (ij_sleep demo_heap us w) = cl_chaos w" "ij_environ demo_heap x = None"
  by (simp_all add: demo_heap_def inj_demo_env_def)

lemma demo_heap_run:
  "current_pod_name demo_heap target ns w = (Inr (Some ''pod-1''), w)" "leak_agent_read_status demo_heap pod ns c w = (Inr None, w)"
  "cl_chaos w = [] \<Longrightarrow> leak_agent_send_cmd demo_heap pod ns c cmd w = (Inr True, w)"
  by (simp_all add: current_pod_name_def leak_agent_read_status_def leak_agent_send_cmd_def kube_text_def kube_run_def
      map_step_def then_step_def ret_step_def demo_heap_def inj_demo_env_def demo_run_def chaos_deletion_def py_strip_def is_space_def
      exec_sh_def)

lemma demo_floor: "\<exists>u. capture_memory_leak_baseline demo_heap ep cls cfg t0 w = (Inr (Some (Some 40960)), u) \<and> cl_chaos u = cl_chaos w"
  by (simp add: capture_memory_leak_baseline_def agent_floor_kb_def then_step_def ret_step_def map_step_def except_step_def
      demo_heap_run demo_heap_fields)

lemma demo_no_ramp: "\<exists>u. await_ramp demo_heap cfg pod n w = (Inr False, u)"
  by (induction n arbitrary: w) (simp_all add: ret_step_def then_step_def ij_nap_def demo_heap_run)

theorem aborted_leak_leaves_a_row_witness:
  "\<exists>w'. inject_memory_leak demo_heap oom_inject_cfg ''ep-1'' ''memory-leak'' ''t0'' \<lparr>rf_stop = None, rf_evidence = None\<rparr> inj_demo_cluster
      = (Inr None, w') \<and>
    (\<exists>e. map_of (ib_episodes (cl_db w')) ''ep-1'' = Some e \<and> ee_class e = ''memory-leak'' \<and> ee_chaos e = ''pending'')"
proof -
  let ?v = "ij_sleep demo_heap (seconds_us memory_leak_settle_seconds) inj_demo_cluster"
  obtain u where u: "capture_memory_leak_baseline demo_heap ''ep-1'' ''memory-leak'' oom_inject_cfg ''t0'' ?v
      = (Inr (Some (Some 40960)), u)" "cl_chaos u = []"
    using demo_floor[of "''ep-1''" "''memory-leak''" oom_inject_cfg "''t0''" ?v] by (auto simp: inj_demo_cluster_def demo_heap_fields)
  obtain w' where w': "await_ramp demo_heap oom_inject_cfg ''pod-1'' 10 u = (Inr False, w')" using demo_no_ramp by blast
  have run: "inject_memory_leak demo_heap oom_inject_cfg ''ep-1'' ''memory-leak'' ''t0'' \<lparr>rf_stop = None, rf_evidence = None\<rparr> inj_demo_cluster
      = (Inr None, w')"
    using u w' by (simp add: inject_memory_leak_def then_step_def ij_nap_def demo_heap_run start_ramp_def ret_step_def no_leak_run_def
        demo_heap_fields)
  show ?thesis
    using aborted_leak_leaves_a_row[OF demo_heap_world _ u(1) run] run by (simp add: inj_demo_cluster_def)
qed

end
