(* ===== verification/Spec2Isabelle.thy ===== *)
theory Spec2Isabelle
  imports Scorer Comparison_Budget Trust_Tools Live_Properties Sample_Rounds Baseline_Audit Injector_Chaos Injector_Lock Injector_Aborts
begin

text \<open>
  \<^bold>\<open>Wardence.\<close> A self-healing agent for a Kubernetes demo shop. A batch runner, or a request to the
  operator API, has a fault injected; the agent diagnoses it (a rule over Prometheus evidence, and an LLM in the background); the action
  cage may apply a fix; a verifier watches whether the fix lasts; the scorer compares all of
  it with the ground truth and moves three trust ladders, which decide what the agent may do
  next time. This library models the Python of that loop, with its SQLite tables as the
  record \<open>db\<close>, and proves what makes it safe. HTTP peers, the LLM providers, Prometheus,
  kubectl, the Kubernetes client, k6 and the clock are not in the repository: they are
  fields of the records \<open>'w env\<close>, \<open>'w kube\<close>, \<open>'w sources\<close>, \<open>'w cluster\<close>,
  \<open>'w scorer_env\<close>, \<open>'w react_env\<close>, \<open>net\<close>, \<open>'w inj_env\<close> and \<open>'w batch_env\<close>, functions of a world \<open>'w\<close>.

  \<^bold>\<open>Theories and the code they model.\<close>

  \<^item> \<open>Prelude\<close>: JSON values, exceptions, \<^verbatim>\<open>str\<close> operations, rounding to doubles, steps that raise.
  \<^item> \<open>Wardence_DB\<close>: the tables of \<^verbatim>\<open>wardence.db\<close>, created in the \<^verbatim>\<open>ensure_*\<close> functions.
  \<^item> \<open>Streak_Ladder\<close>: the abstract promotion ladder, a locale; it is interpreted three times.
  \<^item> \<open>Trust_Engine\<close> (\<^verbatim>\<open>trust_engine.py\<close>, Dimension A: may the agent act on a class),
    \<open>LLM_Trust\<close> (\<^verbatim>\<open>llm_trust_state.py\<close>, Dimension B: whose diagnosis drives, and C: whose action).
  \<^item> \<open>Window_Alarm\<close>: n events in a sliding window, a locale; interpreted for \<open>Circuit_Breaker\<close>
    (\<^verbatim>\<open>circuit_breaker.py\<close>) and \<open>Misdispatch_Guard\<close> (\<^verbatim>\<open>misdispatch_guard.py\<close>).
  \<^item> \<open>Fault_Taxonomy\<close>: the class roster and fault targets of \<^verbatim>\<open>react_agent.py\<close> and \<^verbatim>\<open>injector.py\<close>.
  \<^item> \<open>Tool_Validator\<close> (\<^verbatim>\<open>tool_call_validator.py\<close>), \<open>Constraint_Checks\<close>
    (\<^verbatim>\<open>constraint_checks.py\<close>), \<open>Dispatch_Gate\<close> (\<^verbatim>\<open>dispatch_gate.py\<close>): the checks between a
    proposal and the cluster.
  \<^item> \<open>Cage_Actions\<close> (\<^verbatim>\<open>actions.py\<close>): the six actions; \<open>Carts_Rotation\<close> (\<^verbatim>\<open>carts_rotation.py\<close>).
  \<^item> \<open>Model_Backend\<close> (\<^verbatim>\<open>model_backend.py\<close>), \<open>Action_Proposer\<close> (\<^verbatim>\<open>action_proposer.py\<close>),
    \<open>Trust_Gate\<close> (\<^verbatim>\<open>trust_gate.py\<close>): the LLM's proposals and what may count for trust.
  \<^item> \<open>Act_Endpoint\<close>, \<open>Diagnose_Endpoint\<close>, \<open>Comparison_Budget\<close>: \<^verbatim>\<open>p3_agent.py\<close>.
  \<^item> \<open>K6_Probe\<close>, \<open>Stub_Diagnoser\<close>: \<^verbatim>\<open>p2_readonly_loop/agent.py\<close>.
  \<^item> \<open>Budget_Meter\<close>: two locales for metered resources. \<open>capped_meter\<close>, a meter that no step lifts over
    its cap, is interpreted for the provider quotas and the comparison budget; \<open>raced_meter\<close>, for a
    meter that is read and raised in separate steps of several threads, for the login failures and
    the demo caps. \<open>Quota_Tracker\<close> (\<^verbatim>\<open>quota_tracker.py\<close>).
  \<^item> \<open>React_Loop\<close> (\<^verbatim>\<open>react_agent.py\<close> and the tools of \<^verbatim>\<open>p2_readonly_loop/agent.py\<close>).
  \<^item> \<open>Verifier\<close>: \<^verbatim>\<open>verifier.py\<close>. \<open>Scorer\<close>: \<^verbatim>\<open>p3_scorer.py\<close>, and the two endpoints composed with it.
  \<^item> \<open>Trust_Tools\<close>: the maintenance scripts that set, snapshot and restore trust.
  \<^item> \<open>Accounts\<close> (\<^verbatim>\<open>accounts.py\<close>, \<^verbatim>\<open>auth.py\<close> and the account endpoints of \<^verbatim>\<open>operator_api.py\<close>).
  \<^item> \<open>Live_Trigger\<close>: the state, the constants and the trigger endpoints of \<^verbatim>\<open>operator_api.py\<close>;
    \<open>Live_Episode\<close>: its threads, timers and restarts as the step relation \<open>api_step\<close>;
    \<open>Live_Properties\<close>: what holds of every reachable state.
  \<^item> \<open>Batch_Plan\<close> (\<^verbatim>\<open>run_batch_plan.py\<close> and the helpers of \<^verbatim>\<open>run_episodes.py\<close>) and \<open>Batch_Properties\<close>;
    \<open>Sample_Rounds\<close> (\<^verbatim>\<open>phase_d_generate_sample_rounds.py\<close>, \<^verbatim>\<open>phase_d_generate_batches.py\<close>);
    \<open>Baseline_Audit\<close> (\<^verbatim>\<open>check_all_baselines.py\<close>).
  \<^item> The fault injector \<^verbatim>\<open>injector.py\<close>, in the order of the code: \<open>Injector_Base\<close> (what a class needs, the
    environment, the commands), \<open>Injector_Effects\<close> (the probes that tell whether a fault works),
    \<open>Injector_Baselines\<close>, \<open>Injector_Store\<close> (rows of \<^verbatim>\<open>episodes\<close> and the system lock), \<open>Injector_Faults\<close>,
    \<open>Injector_Load\<close> and \<open>Injector_Capacity\<close> (the twelve injections), \<open>Injector_Main\<close> (a run under the
    lock) and \<open>Injector_Demo\<close> (a small cluster for examples).
  \<^item> What a run of the injector leaves: \<open>Injector_Frame\<close> (the frame of every operation, a locale),
    \<open>Injector_Chaos\<close> (chaos resources), \<open>Injector_Contract\<close> (rows, exit codes, and the refinement of what
    the batch runner relies on), \<open>Injector_Lock\<close> (many runs, and the shape of the tables),
    \<open>Injector_Aborts\<close> (what a refused run leaves behind).

  \<^bold>\<open>Conventions.\<close> A function that may raise returns \<^verbatim>\<open>py_error + 'a\<close>; one that also changes
  state returns the state it leaves in both cases, since every write of the code commits by
  itself. \<^verbatim>\<open>datetime('now')\<close> is an argument or a function of the world, in seconds. Python
  integers are \<open>int\<close> (unbounded there too); floats are the rationals they denote, rounded
  where the code computes (\<open>py_float\<close>); log lines and prints are dropped. f-strings that are
  stored are lists of fragments and values.

  \<^bold>\<open>What is shown.\<close> The ladders of the three dimensions refine one abstract specification of
  streaks; outcomes never skip a step. The breaker trips and a class is put on hold exactly at
  the third event in the window, and a trip leaves nothing trusted. \<^verbatim>\<open>/act\<close> acts only for
  trusted classes that are not on hold, with the deterministic fix of the class found or the
  real one, and writes only its gate log; the whole pipeline from \<^verbatim>\<open>/diagnose\<close> on inherits
  that. The validator, the magnitude check and the gate are characterised exactly, errors
  included. Proposals are sound after at most three LLM calls. The cage calls the cluster
  only after a dry run, and the disk-full fix reports success only for a replaced pod. The
  verifier confirms only clean windows and returns. The scorer counts an episode at most
  once, in any sequence of runs, and the resets of a tripped breaker give no trust. No sequence of
  LLM calls passes the known daily limits; the diagnosis loop ends after at most five calls per
  provider, its diagnosis is the answer of one provider after the others failed, and its observations
  are outputs of its tools. A session needs an active account, its password and, for an admin, a code.
  Over all interleavings of requests, threads, timers and restarts one episode is in flight,
  every unfinished one is watched unless an exception escapes, and it is resolved once; a
  resolver that dies blocks every trigger. The lockout and the demo caps are read and raised in
  separate steps, so they hold up to one for every further thread. The progress of a batch counts
  recorded episodes, its injections keep the recency window, and the first refused injection
  is the last call of the run. A run of the injector leaves no chaos resource that kubectl did
  not fail to delete, touches only its own row and tells by its exit code whether it is there; two
  runs exclude each other for the ten minutes of the lock, which one kind of run outlives.

  \<^bold>\<open>Assumptions about what is outside.\<close> Clocks are not set back where a property is about time, and
  \<^verbatim>\<open>time.sleep\<close> lasts at least as long as asked (\<open>sleeps_enough\<close>); the wait of the cage and of the
  verifier assume a clock that advances by what is slept, to bound their number of turns. A deletion
  that kubectl answers with 0 has removed the resource (\<open>chaos_world\<close>). SQLite runs one statement at a
  time; \<open>store_world\<close> says that nobody else writes the tables while a run does.

  \<^bold>\<open>Fuel.\<close> Three loops poll a clock: the pod count wait of \<^verbatim>\<open>actions.py\<close> and the image pull wait
  of \<^verbatim>\<open>verifier.py\<close> sleep two seconds per turn for at most 60 seconds, so 31 turns are enough
  (\<open>restore_returns\<close> and \<open>verify_durability_returns\<close> prove it for any clock that advances by
  what is slept); the poll of \<^verbatim>\<open>restore_carts_active.py\<close> needs 67 (\<open>restore_poll_returns\<close>). The holds of
  the injector for crash-loop and disk-full have one round for each second of their duration, and its
  waits for a new pod and for MySQL one for each second of their limit: each round sleeps at least
  a second. Every other loop is bounded and total.

  \<^bold>\<open>Not modelled.\<close> The publishing of snapshots to R2 (\<^verbatim>\<open>publish_to_r2.py\<close>), the one-off migration and
  inspection scripts, the installer of the leak agent, the deep learning detectors and the frontend. Of
  \<^verbatim>\<open>operator_api.py\<close> the read-only views, the reasoning stream and the Prometheus proxies; of
  \<^verbatim>\<open>p3_agent.py\<close> the thread pool and the comparison logging; of \<^verbatim>\<open>run_episodes.py\<close> its \<^verbatim>\<open>main\<close>; of
  \<^verbatim>\<open>injector.py\<close> the creation of the tables, the texts of the k6 scripts and \<^verbatim>\<open>_probe_orders_reachable\<close>,
  which nothing calls. A process that is killed by a signal is modelled only for the lock and for
  the operator API. The HTTP calls of \<^verbatim>\<open>model_backend.py\<close> are pure I/O.
\<close>

section \<open>From diagnosis to action\<close>

lemma diagnose_answer_eligible:
  "dn_eligible (diagnose_answer d t stub run) \<longleftrightarrow>
     production_tool (dg_diagnosis (dn_result (diagnose_answer d t stub run))) \<noteq> None \<and>
     may_act d (dg_diagnosis (dn_result (diagnose_answer d t stub run)))"
  by (auto simp: diagnose_answer_def production_action_map_def may_act_def Let_def split: prod.splits option.splits)

lemma endpoint_diagnosed:
  assumes "se_diagnose (with_endpoints S th stub_only react A E) req s = (Inr r, s1)"
  shows "s_db s1 = s_db s \<and> (\<exists>t stub run. r = diagnose_answer (s_db s) t stub run)"
  using assms
  by (auto simp: with_endpoints_def http_call_def on_world_def diagnose_def then_step_def map_step_def ret_step_def case_prod_unfold
      split: prod.splits sum.splits)

lemma endpoint_acted:
  assumes "call_act (with_endpoints S th stub_only react A E) ep row r s = (Inr a, s')" "rs_taken a = Some t"
  shows "act A (se_clock E (s_world s)) (act_request_of ep row r) s = (Inr a, s')"
  using assms
  by (auto simp: call_act_def with_endpoints_def http_call_def split: if_splits prod.splits sum.splits)

text \<open>C6: in the whole pipeline, scorer, \<^verbatim>\<open>/diagnose\<close> and \<^verbatim>\<open>/act\<close>, an action is taken only if
  \<^verbatim>\<open>/diagnose\<close> called the class it found eligible, or it found none with a fix and the real
  class may act; and it is the fix of the class found or, redirected, of the real one.\<close>

theorem pipeline_acts_only_when_trusted:
  assumes "se_diagnose (with_endpoints S th stub_only react A E) (diagnose_request_of snap row) s = (Inr r, s1)"
    and "call_act (with_endpoints S th stub_only react A E) ep row r s1 = (Inr a, s2)"
    and "rs_taken a = Some t"
  shows "let c = dg_diagnosis (dn_result r); real = e_class row in
    (production_tool c \<noteq> None \<and> dn_eligible r \<and>
       (production_tool c = Some t \<or> c \<noteq> real \<and> production_tool real = Some t)) \<or>
    (production_tool c = None \<and> c \<noteq> real \<and> production_tool real = Some t \<and> may_act (s_db s) real)"
proof -
  from endpoint_diagnosed[OF assms(1)] have d: "s_db s1 = s_db s"
    and e: "dn_eligible r \<longleftrightarrow> production_tool (dg_diagnosis (dn_result r)) \<noteq> None \<and>
      may_act (s_db s) (dg_diagnosis (dn_result r))"
    by (auto simp: diagnose_answer_eligible)
  from endpoint_acted[OF assms(2,3)] assms(3) show ?thesis
    by (cases rule: act_taken_cases) (auto simp: act_request_of_def d e Let_def)
qed

lemma pipeline_acts_only_when_trusted_witness:
  "\<exists>r a s2. call_act demo_scorer ''e1'' (demo_episode ''oom'') r demo_sys = (Inr a, s2) \<and>
     rs_taken a = Some ''patch_memory_limit'' \<and> may_act (s_db demo_sys) ''oom''"
proof -
  let ?r = "diagnose_answer (s_db demo_sys) quiet_output (stub_diagnose default_thresholds quiet_output)
      (Llm_Not_Diagnosed ''llm_unavailable'')"
  have r: "llm_diagnosis_of (dn_llm ?r) = None" "dg_diagnosis (dn_result ?r) = ''no anomaly detected''"
    by (simp_all add: diagnose_answer_def choose_diagnosis_def llm_diagnosis_of_def quiet_diagnosis Let_def)
  have known: "has_fix ''oom''" "\<not> has_fix ''no anomaly detected''" "production_tool ''no anomaly detected'' = None"
    "production_tool ''oom'' = Some ''patch_memory_limit''"
    by (simp_all add: has_fix_def action_maps_agree production_action_map_def production_tool_def)
  have sig: "action_signature ''patch_memory_limit'' =
      Some ([''name'', ''container'', ''limit''], [(''namespace'', PStr default_namespace)])"
    by (simp add: action_signature_def)
  have run: "\<exists>p s'. run_action demo_env ''patch_memory_limit'' (production_fix ''oom'' ''payment'' ''sock-shop'') s
      = (Inr p, s')" if "s_world s = (0, 1, 0)" for s
    using that
    by (simp add: run_action_def call_action_def sig bind_kwargs_def production_fix_def fix_params_def
        lift_world_def patch_memory_limit_def patch_deployment_def dry_then_apply_def with_header_def
        demo_env_def demo_kube_def api_client_def check_token_expiry_def Let_def)
  let ?s = "demo_sys\<lparr>s_db := log_intervention (Some ''e1'') ''no anomaly detected'' ''oom'' ''none''
      ''patch_memory_limit'' (Ground_Truth_Net ''no anomaly detected'' ''oom'') 100 (s_db demo_sys)\<rparr>"
  have "s_world ?s = (0, 1, 0)" by (simp add: demo_sys_def)
  from run[OF this] obtain p s' where
    "run_action demo_env ''patch_memory_limit'' (production_fix ''oom'' ''payment'' ''sock-shop'') ?s = (Inr p, s')" by blast
  then have "\<exists>a s2. act demo_env 100 (act_request_of ''e1'' (demo_episode ''oom'') ?r) demo_sys = (Inr a, s2) \<and>
      rs_taken a = Some ''patch_memory_limit''"
    using demo_may_act r known
    by (simp add: act_def act_proposal_def act_request_of_def act_safety_net_def demo_episode_def
        production_action_map_def Let_def)
  then obtain a s2 where a: "call_act demo_scorer ''e1'' (demo_episode ''oom'') ?r demo_sys = (Inr a, s2)"
      "rs_taken a = Some ''patch_memory_limit''"
    using r known
    by (auto simp: call_act_def worth_calling_act_def demo_scorer_def with_endpoints_def http_call_def
        quiet_scorer_def demo_episode_def)
  have d: "se_diagnose demo_scorer (diagnose_request_of None (demo_episode ''oom'')) demo_sys = (Inr ?r, demo_sys)"
    by (rule demo_diagnosed)
  from pipeline_acts_only_when_trusted[OF d[unfolded demo_scorer_def] a(1)[unfolded demo_scorer_def] a(2)]
  have "may_act (s_db demo_sys) ''oom''" using r known by (auto simp: Let_def demo_episode_def)
  with a show ?thesis by blast
qed

section \<open>Judging a proposal after the fix\<close>

text \<open>A CPU proposal is compared with the live limit: once a fix has set the limit the proposal
  asks for, the scorer judges that proposal wrong.\<close>

theorem applied_cpu_proposal_is_judged_wrong:
  assumes "fault_config c = Some cfg"
    and "live_cpu_limit_millicores kube_cpu (cfg_target cfg) (cfg_namespace cfg) = to_millicores (dict_get params ''limit'')"
  shows "\<not> fst (action_is_correct kube_cpu c ''patch_cpu_limit'' params ''patch_cpu_limit'' out)"
  using assms
  by (auto simp: action_is_correct_iff check_safe_def check_cpu_def split: option.splits)

lemma applied_cpu_proposal_is_judged_wrong_witness:
  "\<not> fst (action_is_correct (\<lambda>_ _. ''600m'') ''cpu-throttling'' ''patch_cpu_limit''
       (production_fix ''cpu-throttling'' ''user'' ''sock-shop'') ''patch_cpu_limit'' None)"
proof -
  obtain cfg where "fault_config ''cpu-throttling'' = Some cfg" by (simp add: fault_config_def)
  moreover have "py_strip ''600m'' = ''600m''" by code_simp
  ultimately show ?thesis
    by (intro applied_cpu_proposal_is_judged_wrong)
      (simp_all add: live_cpu_limit_millicores_def production_fix_def fix_params_def dict_get_def)
qed

end
